(* ===== verification/QdbPrelude.thy ===== *)
theory QdbPrelude
  imports Complex_Main "HOL-Library.Word" "HOL-Library.List_Lexorder"
begin

unbundle bit_operations_syntax

section \<open>Shared vocabulary of the development\<close>

text \<open>
  Python's data as HOL data, the exceptions of the integration, and the small
  state-and-exception monad in which the stateful components are written:

  \<^item> a Python \<open>str\<close> is the list of its Unicode code points, \<open>bytes\<close> a list of 8-bit words,
    an \<open>int\<close> is \<open>int\<close> (unbounded, as in Python), a \<open>float\<close> that is only compared,
    added and multiplied (timeouts, delays, ratios) is a rational number;
  \<^item> an exception is a record with its class, its message and the attributes the handlers
    read; \<open>isinstance\<close> follows the method resolution order of the source's class statements;
  \<^item> a method that changes an object and may raise is a \<open>prog\<close>: from the object's state to
    either an exception or a value, and in both cases the state left behind. An exception
    never undoes an assignment, exactly as in the source.
\<close>

named_theorems wp \<open>rules for partial-correctness triples over programs\<close>
named_theorems prog_defs \<open>definitions of the program combinators\<close>

subsection \<open>Strings and bytes\<close>

type_synonym byte = "8 word"
type_synonym bytes = "byte list"
type_synonym ustr = "nat list"

definition lit :: "string \<Rightarrow> ustr" where
  "lit s = map of_char s"

fun nat_str :: "nat \<Rightarrow> ustr" where
  "nat_str n = (if n < 10 then [48 + n] else nat_str (n div 10) @ [48 + n mod 10])"

declare nat_str.simps [simp del]

definition int_str :: "int \<Rightarrow> ustr" where
  "int_str i = (if i < 0 then 45 # nat_str (nat (- i)) else nat_str (nat i))"

lemma nat_str_not_Nil [simp]: "nat_str n \<noteq> []"
  by (subst nat_str.simps) simp

lemma nat_str_digits: "\<forall>c \<in> set (nat_str n). 48 \<le> c \<and> c \<le> 57"
proof (induction n rule: nat_str.induct)
  case (1 n)
  show ?case
  proof (cases "n < 10")
    case True
    then show ?thesis by (subst nat_str.simps) simp
  next
    case False
    moreover from this 1 have "\<forall>c \<in> set (nat_str (n div 10)). 48 \<le> c \<and> c \<le> 57" by simp
    moreover have "n mod 10 < 10" by simp
    ultimately show ?thesis by (subst nat_str.simps) auto
  qed
qed

lemma int_str_not_Nil [simp]: "int_str i \<noteq> []"
  by (simp add: int_str_def)

lemma int_str_chars: "c \<in> set (int_str i) \<Longrightarrow> c = 45 \<or> (48 \<le> c \<and> c \<le> 57)"
  using nat_str_digits by (auto simp: int_str_def split: if_splits)

text \<open>Reading a decimal numeral back: the inverse of \<open>nat_str\<close>.\<close>

definition nat_of_digits :: "ustr \<Rightarrow> nat" where
  "nat_of_digits ds = foldl (\<lambda>acc d. 10 * acc + (d - 48)) 0 ds"

lemma nat_of_digits_nat_str [simp]: "nat_of_digits (nat_str n) = n"
proof (induction n rule: nat_str.induct)
  case (1 n)
  show ?case
  proof (cases "n < 10")
    case True
    then show ?thesis by (subst nat_str.simps) (simp add: nat_of_digits_def)
  next
    case False
    with 1 have "nat_of_digits (nat_str (n div 10)) = n div 10" by simp
    with False show ?thesis by (subst nat_str.simps) (simp add: nat_of_digits_def)
  qed
qed

lemma nat_str_inject [simp]: "nat_str m = nat_str n \<longleftrightarrow> m = n"
  by (metis nat_of_digits_nat_str)

subsection \<open>Exceptions\<close>

text \<open>
  The exception classes the integration defines or catches. \<open>SqliteError\<close> stands for
  \<open>sqlite3.Error\<close>, \<open>CancelledError\<close> for \<open>asyncio.CancelledError\<close> (no \<open>Exception\<close>),
  \<open>ConfigEntryNotReady\<close> for the exception of Home Assistant.
\<close>

datatype exn_class =
    ValueError | TypeError | OverflowError | UnicodeEncodeError | RuntimeError | OSError
  | CancelledError | ConfigEntryNotReady | Invalid | IndexError | KeyError | AttributeError
  | SqliteError
  | IlpEncodingError | EventEnvelopeError
  | SpoolError | SpoolClosedError | SpoolStateError | UnsupportedSpoolVersionError
  | SpoolFullError | SpoolStorageError | SpoolDiskFullError | SpoolReadOnlyError
  | DeadLetterFullError | EventTooLargeError | BatchLimitTooSmallError
  | IlpTransportError | PermanentIlpError | RetryableIlpError | AuthenticationIlpError
  | SchemaError | SchemaMismatchError
  | WorkerError | WorkerStartError | WorkerStartTimeoutError | WorkerShutdownError
  | WorkerConfigurationError

fun exn_parents :: "exn_class \<Rightarrow> exn_class list" where
  "exn_parents UnicodeEncodeError = [ValueError]"
| "exn_parents IlpEncodingError = [ValueError]"
| "exn_parents EventEnvelopeError = [ValueError]"
| "exn_parents SpoolClosedError = [SpoolError]"
| "exn_parents SpoolStateError = [SpoolError]"
| "exn_parents UnsupportedSpoolVersionError = [SpoolError]"
| "exn_parents SpoolFullError = [SpoolError]"
| "exn_parents SpoolStorageError = [SpoolError]"
| "exn_parents SpoolDiskFullError = [SpoolStorageError, SpoolError]"
| "exn_parents SpoolReadOnlyError = [SpoolStorageError, SpoolError]"
| "exn_parents DeadLetterFullError = [SpoolError]"
| "exn_parents EventTooLargeError = [SpoolError]"
| "exn_parents BatchLimitTooSmallError = [SpoolError]"
| "exn_parents PermanentIlpError = [IlpTransportError]"
| "exn_parents RetryableIlpError = [IlpTransportError]"
| "exn_parents AuthenticationIlpError = [PermanentIlpError, IlpTransportError]"
| "exn_parents SchemaError = [RuntimeError]"
| "exn_parents SchemaMismatchError = [SchemaError, RuntimeError]"
| "exn_parents WorkerError = [RuntimeError]"
| "exn_parents WorkerStartError = [WorkerError, RuntimeError]"
| "exn_parents WorkerStartTimeoutError = [WorkerError, RuntimeError]"
| "exn_parents WorkerShutdownError = [WorkerError, RuntimeError]"
| "exn_parents WorkerConfigurationError = [WorkerError, RuntimeError]"
| "exn_parents _ = []"

record exn =
  exn_class :: exn_class
  exn_msg :: ustr
  exn_retryable :: bool
  exn_uncertain :: bool
  exn_status :: "int option"
  exn_sqlite_code :: "int option"

definition mk_exn :: "exn_class \<Rightarrow> ustr \<Rightarrow> exn" where
  "mk_exn c m = \<lparr>exn_class = c, exn_msg = m, exn_retryable = False, exn_uncertain = False,
     exn_status = None, exn_sqlite_code = None\<rparr>"

lemma exn_class_mk_exn [simp]: "exn_class (mk_exn c m) = c"
  by (simp add: mk_exn_def)

lemma mk_exn_sel [simp]:
  "exn_msg (mk_exn c m) = m" "exn_uncertain (mk_exn c m) = False"
  "exn_status (mk_exn c m) = None" "exn_sqlite_code (mk_exn c m) = None"
  by (simp_all add: mk_exn_def)

definition isinstance :: "exn \<Rightarrow> exn_class \<Rightarrow> bool" where
  "isinstance e c \<longleftrightarrow> exn_class e = c \<or> c \<in> set (exn_parents (exn_class e))"

lemma isinstance_mk_exn [simp]:
  "isinstance (mk_exn c m) d \<longleftrightarrow> c = d \<or> d \<in> set (exn_parents c)"
  by (simp add: isinstance_def)

subsection \<open>Results of functions without state\<close>

type_synonym 'a res = "exn + 'a"

definition bindR :: "'a res \<Rightarrow> ('a \<Rightarrow> 'b res) \<Rightarrow> 'b res" where
  "bindR r f = (case r of Inl e \<Rightarrow> Inl e | Inr x \<Rightarrow> f x)"

primrec mapR :: "('x \<Rightarrow> 'a res) \<Rightarrow> 'x list \<Rightarrow> 'a list res" where
  "mapR f [] = Inr []"
| "mapR f (x # xs) = bindR (f x) (\<lambda>y. bindR (mapR f xs) (\<lambda>ys. Inr (y # ys)))"

lemma bindR_simps [simp]: "bindR (Inl e) f = Inl e" "bindR (Inr x) f = f x"
  by (simp_all add: bindR_def)

lemma bindR_eq_Inr: "bindR r f = Inr y \<longleftrightarrow> (\<exists>x. r = Inr x \<and> f x = Inr y)"
  by (auto simp: bindR_def split: sum.splits)

lemma bindR_eq_Inl: "bindR r f = Inl e \<longleftrightarrow> r = Inl e \<or> (\<exists>x. r = Inr x \<and> f x = Inl e)"
  by (auto simp: bindR_def split: sum.splits)

subsection \<open>Programs with state and exceptions\<close>

type_synonym ('s, 'a) prog = "'s \<Rightarrow> (exn + 'a) \<times> 's"

definition returnP :: "'a \<Rightarrow> ('s, 'a) prog" where
  [prog_defs]: "returnP x = (\<lambda>s. (Inr x, s))"

definition raiseP :: "exn \<Rightarrow> ('s, 'a) prog" where
  [prog_defs]: "raiseP e = (\<lambda>s. (Inl e, s))"

definition bindP :: "('s, 'a) prog \<Rightarrow> ('a \<Rightarrow> ('s, 'b) prog) \<Rightarrow> ('s, 'b) prog" where
  [prog_defs]: "bindP m f = (\<lambda>s. case m s of (Inl e, s') \<Rightarrow> (Inl e, s') | (Inr x, s') \<Rightarrow> f x s')"

definition getP :: "('s \<Rightarrow> 'a) \<Rightarrow> ('s, 'a) prog" where
  [prog_defs]: "getP f = (\<lambda>s. (Inr (f s), s))"

definition modifyP :: "('s \<Rightarrow> 's) \<Rightarrow> ('s, unit) prog" where
  [prog_defs]: "modifyP f = (\<lambda>s. (Inr (), f s))"

text \<open>\<open>try: m except Exception as e: h(e)\<close>; the handler sees the state the exception left.\<close>

definition catchP :: "('s, 'a) prog \<Rightarrow> (exn \<Rightarrow> ('s, 'a) prog) \<Rightarrow> ('s, 'a) prog" where
  [prog_defs]: "catchP m h = (\<lambda>s. case m s of (Inl e, s') \<Rightarrow> h e s' | (Inr x, s') \<Rightarrow> (Inr x, s'))"

text \<open>\<open>for x in xs: f(x)\<close>, and the loop that collects its results.\<close>

primrec forP :: "('x \<Rightarrow> ('s, unit) prog) \<Rightarrow> 'x list \<Rightarrow> ('s, unit) prog" where
  "forP f [] = returnP ()"
| "forP f (x # xs) = bindP (f x) (\<lambda>_. forP f xs)"

primrec mapP :: "('x \<Rightarrow> ('s, 'a) prog) \<Rightarrow> 'x list \<Rightarrow> ('s, 'a list) prog" where
  "mapP f [] = returnP []"
| "mapP f (x # xs) = bindP (f x) (\<lambda>y. bindP (mapP f xs) (\<lambda>ys. returnP (y # ys)))"

definition whenP :: "bool \<Rightarrow> ('s, unit) prog \<Rightarrow> ('s, unit) prog" where
  [prog_defs]: "whenP b m = (if b then m else returnP ())"

definition result :: "(exn + 'a) \<times> 's \<Rightarrow> exn + 'a" where
  "result = fst"

subsection \<open>Triples\<close>

text \<open>
  \<open>triple P m Q E\<close>: from a state satisfying \<open>P\<close> the program ends with a value satisfying \<open>Q\<close>
  or with an exception satisfying \<open>E\<close>. Programs are total functions, so nothing is left out.
\<close>

definition triple ::
    "('s \<Rightarrow> bool) \<Rightarrow> ('s, 'a) prog \<Rightarrow> ('a \<Rightarrow> 's \<Rightarrow> bool) \<Rightarrow> (exn \<Rightarrow> 's \<Rightarrow> bool) \<Rightarrow> bool" where
  "triple P m Q E \<longleftrightarrow>
     (\<forall>s. P s \<longrightarrow> (case m s of (Inl e, s') \<Rightarrow> E e s' | (Inr x, s') \<Rightarrow> Q x s'))"

lemma tripleI:
  assumes "\<And>s e s'. P s \<Longrightarrow> m s = (Inl e, s') \<Longrightarrow> E e s'"
    and "\<And>s x s'. P s \<Longrightarrow> m s = (Inr x, s') \<Longrightarrow> Q x s'"
  shows "triple P m Q E"
  using assms by (auto simp: triple_def split: prod.splits sum.splits)

lemma triple_InrD: "triple P m Q E \<Longrightarrow> P s \<Longrightarrow> m s = (Inr x, s') \<Longrightarrow> Q x s'"
  by (force simp: triple_def)

lemma triple_InlD: "triple P m Q E \<Longrightarrow> P s \<Longrightarrow> m s = (Inl e, s') \<Longrightarrow> E e s'"
  by (force simp: triple_def)

lemma triple_weaken:
  assumes "triple P' m Q' E'" and "\<And>s. P s \<Longrightarrow> P' s"
    and "\<And>x s. Q' x s \<Longrightarrow> Q x s" and "\<And>e s. E' e s \<Longrightarrow> E e s"
  shows "triple P m Q E"
  using assms unfolding triple_def by (fastforce split: prod.splits sum.splits)

lemma triple_pre: "triple P' m Q E \<Longrightarrow> (\<And>s. P s \<Longrightarrow> P' s) \<Longrightarrow> triple P m Q E"
  by (erule triple_weaken) auto

lemma triple_return [wp]: "triple (Q x) (returnP x) Q E"
  by (simp add: triple_def returnP_def)

lemma triple_raise [wp]: "triple (E e) (raiseP e) Q E"
  by (simp add: triple_def raiseP_def)

lemma triple_get [wp]: "triple (\<lambda>s. Q (f s) s) (getP f) Q E"
  by (simp add: triple_def getP_def)

lemma triple_modify [wp]: "triple (\<lambda>s. Q () (f s)) (modifyP f) Q E"
  by (simp add: triple_def modifyP_def)

lemma triple_bind:
  assumes "triple P m R E" and "\<And>x. triple (R x) (f x) Q E"
  shows "triple P (bindP m f) Q E"
  using assms unfolding triple_def bindP_def by (fastforce split: prod.splits sum.splits)

lemma triple_catch:
  assumes "triple P m Q R" and "\<And>e. triple (R e) (h e) Q E"
  shows "triple P (catchP m h) Q E"
  using assms unfolding triple_def catchP_def by (fastforce split: prod.splits sum.splits)

lemma triple_for:
  assumes "\<And>x. x \<in> set xs \<Longrightarrow> triple I (f x) (\<lambda>_. I) E"
  shows "triple I (forP f xs) (\<lambda>_. I) E"
  using assms
proof (induction xs)
  case Nil
  show ?case using triple_return [of "\<lambda>_. I" "()" E] by simp
next
  case (Cons x xs)
  then show ?case by (auto intro: triple_bind)
qed

lemma triple_if:
  "(b \<Longrightarrow> triple P m Q E) \<Longrightarrow> (\<not> b \<Longrightarrow> triple P m' Q E) \<Longrightarrow> triple P (if b then m else m') Q E"
  by simp

subsection \<open>Running programs\<close>

lemma bindP_Inr: "m s = (Inr x, s') \<Longrightarrow> bindP m f s = f x s'"
  by (simp add: bindP_def)

lemma bindP_Inl: "m s = (Inl e, s') \<Longrightarrow> bindP m f s = (Inl e, s')"
  by (simp add: bindP_def)

lemma returnP_app [simp]: "returnP x s = (Inr x, s)"
  by (simp add: returnP_def)

lemma raiseP_app [simp]: "raiseP e s = (Inl e, s)"
  by (simp add: raiseP_def)

lemma getP_app [simp]: "getP f s = (Inr (f s), s)"
  by (simp add: getP_def)

lemma modifyP_app [simp]: "modifyP f s = (Inr (), f s)"
  by (simp add: modifyP_def)

subsection \<open>Lists\<close>

definition bytes_of :: "('a \<Rightarrow> bytes) \<Rightarrow> 'a list \<Rightarrow> int" where
  "bytes_of f xs = (\<Sum>x\<leftarrow>xs. int (length (f x)))"

lemma bytes_of_simps [simp]:
  "bytes_of f [] = 0"
  "bytes_of f (x # xs) = int (length (f x)) + bytes_of f xs"
  "bytes_of f (xs @ ys) = bytes_of f xs + bytes_of f ys"
  by (simp_all add: bytes_of_def)

lemma bytes_of_nonneg [simp]: "0 \<le> bytes_of f xs"
  by (induction xs) auto

lemma bytes_of_map [simp]: "bytes_of f (map g xs) = bytes_of (f \<circ> g) xs"
  by (induction xs) auto

text \<open>Deleting the row with one key from a list whose keys are distinct.\<close>

lemma filter_key_remove:
  assumes "distinct (map k xs)" and "x \<in> set xs"
  shows "filter (\<lambda>y. k y \<noteq> k x) xs = remove1 x xs"
  using assms
proof (induction xs)
  case (Cons a xs)
  show ?case
  proof (cases "a = x")
    case True
    then have "\<forall>y \<in> set xs. k y \<noteq> k x" using Cons.prems(1) by (auto simp: image_iff)
    then show ?thesis using True by (simp add: filter_id_conv)
  next
    case False
    then have x: "x \<in> set xs" using Cons.prems by simp
    then have "k a \<noteq> k x" using Cons.prems(1) by (auto simp: image_iff)
    then show ?thesis using False x Cons by simp
  qed
qed simp

lemma bytes_of_remove1:
  "x \<in> set xs \<Longrightarrow> bytes_of f (remove1 x xs) = bytes_of f xs - int (length (f x))"
  by (induction xs) auto

subsection \<open>Powers of two\<close>

text \<open>\<open>count > 0 and count & (count - 1) == 0\<close>, the rate limit of the repeated warnings
  (\<open>_log_on_power_of_two\<close> of worker.py and runtime.py).\<close>

definition log_on_power_of_two :: "int \<Rightarrow> bool" where
  "log_on_power_of_two count \<longleftrightarrow> count > 0 \<and> count AND (count - 1) = 0"

end
