(* ===== verification/Utf8.thy ===== *)
theory Utf8
  imports QdbPrelude
begin

section \<open>UTF-8\<close>

text \<open>
  \<open>str.encode("utf-8")\<close> and \<open>bytes.decode("utf-8")\<close> as the integration uses them (event.py,
  ilp.py, transport.py): strict in both directions. Encoding a lone surrogate raises
  \<open>UnicodeEncodeError\<close>; decoding refuses stray and missing continuation bytes, overlong forms,
  surrogates and values above U+10FFFF. The lemmas show that decoding undoes encoding, that
  encoding distributes over concatenation, and that ASCII text keeps its length.
\<close>

definition byte :: "nat \<Rightarrow> byte" where
  "byte n = word_of_nat n"

lemma unat_byte [simp]: "n < 256 \<Longrightarrow> unat (byte n) = n"
  by (simp add: byte_def unat_of_nat)

definition is_surrogate :: "nat \<Rightarrow> bool" where
  "is_surrogate c \<longleftrightarrow> 55296 \<le> c \<and> c \<le> 57343"

definition utf8_char :: "nat \<Rightarrow> bytes" where
  "utf8_char c =
     (if c < 128 then [byte c]
      else if c < 2048 then [byte (192 + c div 64), byte (128 + c mod 64)]
      else if c < 65536 then
        [byte (224 + c div 4096), byte (128 + c div 64 mod 64), byte (128 + c mod 64)]
      else [byte (240 + c div 262144), byte (128 + c div 4096 mod 64),
            byte (128 + c div 64 mod 64), byte (128 + c mod 64)])"

definition encodable :: "ustr \<Rightarrow> bool" where
  "encodable s \<longleftrightarrow> (\<forall>c \<in> set s. \<not> is_surrogate c \<and> c < 1114112)"

text \<open>Evaluation compares code points as integers; a natural number would be unfolded to \<open>Suc\<close>s.\<close>

lemma is_surrogate_code [code]: "is_surrogate c \<longleftrightarrow> (let i = int c in 55296 \<le> i \<and> i \<le> 57343)"
  by (auto simp: is_surrogate_def)

lemma encodable_code [code]: "encodable s \<longleftrightarrow> list_all (\<lambda>c. \<not> is_surrogate c \<and> int c < 1114112) s"
  by (auto simp: encodable_def list_all_iff)

definition utf8_bytes :: "ustr \<Rightarrow> bytes" where
  "utf8_bytes s = concat (map utf8_char s)"

definition utf8_encode :: "ustr \<Rightarrow> exn + bytes" where
  "utf8_encode s =
     (if encodable s then Inr (utf8_bytes s)
      else Inl (mk_exn UnicodeEncodeError (lit ''surrogates not allowed'')))"

definition is_cont :: "nat \<Rightarrow> bool" where
  "is_cont b \<longleftrightarrow> 128 \<le> b \<and> b < 192"

fun utf8_decode_nats :: "nat list \<Rightarrow> ustr option" where
  "utf8_decode_nats [] = Some []"
| "utf8_decode_nats (b # bs) =
     (if b < 128 then map_option (Cons b) (utf8_decode_nats bs)
      else if 194 \<le> b \<and> b < 224 then
        (case bs of
           c1 # rest \<Rightarrow>
             if is_cont c1
             then map_option (Cons ((b - 192) * 64 + (c1 - 128))) (utf8_decode_nats rest)
             else None
         | _ \<Rightarrow> None)
      else if 224 \<le> b \<and> b < 240 then
        (case bs of
           c1 # c2 # rest \<Rightarrow>
             (let v = (b - 224) * 4096 + (c1 - 128) * 64 + (c2 - 128) in
              if is_cont c1 \<and> is_cont c2 \<and> 2048 \<le> v \<and> \<not> is_surrogate v
              then map_option (Cons v) (utf8_decode_nats rest) else None)
         | _ \<Rightarrow> None)
      else if 240 \<le> b \<and> b < 245 then
        (case bs of
           c1 # c2 # c3 # rest \<Rightarrow>
             (let v = (b - 240) * 262144 + (c1 - 128) * 4096 + (c2 - 128) * 64 + (c3 - 128) in
              if is_cont c1 \<and> is_cont c2 \<and> is_cont c3 \<and> 65536 \<le> v \<and> v < 1114112
              then map_option (Cons v) (utf8_decode_nats rest) else None)
         | _ \<Rightarrow> None)
      else None)"

definition utf8_decode :: "bytes \<Rightarrow> ustr option" where
  "utf8_decode bs = utf8_decode_nats (map unat bs)"

lemma encodable_simps [simp]:
  "encodable []"
  "encodable (c # s) \<longleftrightarrow> \<not> is_surrogate c \<and> c < 1114112 \<and> encodable s"
  "encodable (s @ t) \<longleftrightarrow> encodable s \<and> encodable t"
  by (auto simp: encodable_def)

lemma utf8_bytes_simps [simp]:
  "utf8_bytes [] = []"
  "utf8_bytes (c # s) = utf8_char c @ utf8_bytes s"
  "utf8_bytes (s @ t) = utf8_bytes s @ utf8_bytes t"
  by (simp_all add: utf8_bytes_def)

lemma utf8_char_not_Nil [simp]: "utf8_char c \<noteq> []"
  by (simp add: utf8_char_def)

lemma utf8_bytes_eq_Nil [simp]: "utf8_bytes s = [] \<longleftrightarrow> s = []"
  by (cases s) auto

lemma utf8_char_ascii [simp]: "c < 128 \<Longrightarrow> utf8_char c = [byte c]"
  by (simp add: utf8_char_def)

lemma decode_two:
  "2 \<le> x \<Longrightarrow> x < 32 \<Longrightarrow> y < 64 \<Longrightarrow>
     utf8_decode_nats ((192 + x) # (128 + y) # bs) =
     map_option (Cons (x * 64 + y)) (utf8_decode_nats bs)"
  by (simp add: is_cont_def)

lemma decode_three:
  "x < 16 \<Longrightarrow> y < 64 \<Longrightarrow> z < 64 \<Longrightarrow> 2048 \<le> x * 4096 + y * 64 + z \<Longrightarrow>
     \<not> is_surrogate (x * 4096 + y * 64 + z) \<Longrightarrow>
     utf8_decode_nats ((224 + x) # (128 + y) # (128 + z) # bs) =
     map_option (Cons (x * 4096 + y * 64 + z)) (utf8_decode_nats bs)"
  by (simp add: is_cont_def Let_def)

lemma decode_four:
  "w < 5 \<Longrightarrow> x < 64 \<Longrightarrow> y < 64 \<Longrightarrow> z < 64 \<Longrightarrow>
     65536 \<le> w * 262144 + x * 4096 + y * 64 + z \<Longrightarrow>
     w * 262144 + x * 4096 + y * 64 + z < 1114112 \<Longrightarrow>
     utf8_decode_nats ((240 + w) # (128 + x) # (128 + y) # (128 + z) # bs) =
     map_option (Cons (w * 262144 + x * 4096 + y * 64 + z)) (utf8_decode_nats bs)"
  by (simp add: is_cont_def Let_def)

text \<open>The base-64 digits of a code point add up to it again.\<close>

lemma digits_two: "c div 64 * 64 + c mod 64 = (c::nat)"
  by simp

lemma digits_three: "c div 4096 * 4096 + c div 64 mod 64 * 64 + c mod 64 = (c::nat)"
proof -
  have combine: "x * 64 + y = q \<Longrightarrow> q * 64 + z = c \<Longrightarrow> x * 4096 + y * 64 + z = c"
    for x y z q :: nat by simp
  have "c div 4096 = c div 64 div 64" by (simp add: div_mult2_eq [symmetric])
  then show ?thesis using combine [OF digits_two digits_two] by metis
qed

lemma digits_four:
  "c div 262144 * 262144 + c div 4096 mod 64 * 4096 + c div 64 mod 64 * 64 + c mod 64 = (c::nat)"
proof -
  have combine: "w * 4096 + x * 64 + y = q \<Longrightarrow> q * 64 + z = c \<Longrightarrow>
      w * 262144 + x * 4096 + y * 64 + z = c"
    for w x y z q :: nat by simp
  have "c div 262144 = c div 64 div 4096" "c div 4096 = c div 64 div 64"
    by (simp_all add: div_mult2_eq [symmetric])
  then show ?thesis using combine [OF digits_three digits_two] by metis
qed

lemma utf8_decode_char:
  assumes "\<not> is_surrogate c" and "c < 1114112"
  shows "utf8_decode_nats (map unat (utf8_char c) @ bs) = map_option (Cons c) (utf8_decode_nats bs)"
proof -
  consider "c < 128" | "128 \<le> c" "c < 2048" | "2048 \<le> c" "c < 65536" | "65536 \<le> c"
    by linarith
  then show ?thesis
  proof cases
    case 1
    then show ?thesis by simp
  next
    case 2
    have b: "2 \<le> c div 64" "c div 64 < 32" "c mod 64 < 64" using 2 by auto
    have "map unat (utf8_char c) = [192 + c div 64, 128 + c mod 64]"
      using 2 b by (simp add: utf8_char_def)
    then show ?thesis by (simp only: append.simps decode_two [OF b] digits_two)
  next
    case 3
    have b: "c div 4096 < 16" "c div 64 mod 64 < 64" "c mod 64 < 64" using 3 by auto
    have "map unat (utf8_char c) = [224 + c div 4096, 128 + c div 64 mod 64, 128 + c mod 64]"
      using 3 b by (simp add: utf8_char_def)
    moreover note decode_three [OF b, unfolded digits_three, OF 3(1) assms(1)]
    ultimately show ?thesis by (simp only: append.simps)
  next
    case 4
    have b: "c div 262144 < 5" "c div 4096 mod 64 < 64" "c div 64 mod 64 < 64" "c mod 64 < 64"
      using assms by auto
    have "map unat (utf8_char c) =
        [240 + c div 262144, 128 + c div 4096 mod 64, 128 + c div 64 mod 64, 128 + c mod 64]"
      using 4 b by (simp add: utf8_char_def)
    moreover note decode_four [OF b, unfolded digits_four, OF 4 assms(2)]
    ultimately show ?thesis by (simp only: append.simps)
  qed
qed

lemma utf8_decode_bytes [simp]: "encodable s \<Longrightarrow> utf8_decode (utf8_bytes s) = Some s"
  by (induction s) (auto simp: utf8_decode_def utf8_decode_char)

lemma utf8_encode_decode: "utf8_encode s = Inr bs \<Longrightarrow> utf8_decode bs = Some s"
  by (auto simp: utf8_encode_def split: if_splits)

lemma utf8_bytes_inject:
  "encodable s \<Longrightarrow> encodable t \<Longrightarrow> utf8_bytes s = utf8_bytes t \<longleftrightarrow> s = t"
  by (metis option.inject utf8_decode_bytes)

lemma utf8_char_length: "c < 1114112 \<Longrightarrow> length (utf8_char c) \<le> 4"
  by (simp add: utf8_char_def)

end
