(* ===== verification/Ilp.thy ===== *)
theory Ilp
  imports Utf8
begin

section \<open>ILP row encoding (ilp.py)\<close>

text \<open>
  The escaping rules, the rendering of one field and \<open>encode_row\<close>, with every check that
  raises \<open>IlpEncodingError\<close>. A float is identified by its \<open>repr\<close> (which is injective on finite
  floats); the event path never sends one. The second half is the abstract specification: a
  reader of line protocol that undoes escapes and splits at unescaped separators, and the proof
  that it recovers exactly what was encoded, row by row, from a whole batch.
\<close>

subsection \<open>Values\<close>

datatype pyfloat = PyFinite ustr | PyInf bool | PyNan

datatype field_value =
    FNone
  | FBool bool
  | FTimestampMicros int
  | FInt int
  | FFloat pyfloat
  | FStr ustr

definition ilp_error :: "string \<Rightarrow> exn" where
  "ilp_error m = mk_exn IlpEncodingError (lit m)"

subsection \<open>Escaping\<close>

text \<open>\<open>s.replace(c, r)\<close> for a one-character \<open>c\<close>.\<close>

definition replace_char :: "nat \<Rightarrow> ustr \<Rightarrow> ustr \<Rightarrow> ustr" where
  "replace_char c r s = concat (map (\<lambda>x. if x = c then r else [x]) s)"

definition require_name :: "ustr \<Rightarrow> string \<Rightarrow> ustr res" where
  "require_name value kind =
     (if value = [] then Inl (ilp_error (kind @ '' must be a non-empty string''))
      else if 0 \<in> set value then Inl (ilp_error (kind @ '' must not contain NUL''))
      else Inr value)"

definition escape_ident_text :: "ustr \<Rightarrow> ustr" where
  "escape_ident_text value =
     replace_char 13 [92, 13] (replace_char 10 [92, 10] (replace_char 61 [92, 61]
       (replace_char 44 [92, 44] (replace_char 32 [92, 32] (replace_char 92 [92, 92] value)))))"

definition escape_identifier :: "ustr \<Rightarrow> string \<Rightarrow> ustr res" where
  "escape_identifier value kind =
     bindR (require_name value kind) (\<lambda>v. Inr (escape_ident_text v))"

definition escape_string_text :: "ustr \<Rightarrow> ustr" where
  "escape_string_text value =
     replace_char 13 [92, 13] (replace_char 10 [92, 10]
       (replace_char 34 [92, 34] (replace_char 92 [92, 92] value)))"

definition escape_string :: "ustr \<Rightarrow> ustr res" where
  "escape_string value =
     (if 0 \<in> set value then Inl (ilp_error ''string field must not contain NUL'')
      else Inr (escape_string_text value))"

subsection \<open>Fields and rows\<close>

definition signed_64_open :: "int \<Rightarrow> bool" where
  "signed_64_open v \<longleftrightarrow> - (2 ^ 63) < v \<and> v < 2 ^ 63"

fun encode_field :: "field_value \<Rightarrow> ustr option res" where
  "encode_field FNone = Inr None"
| "encode_field (FBool b) = Inr (Some (if b then lit ''true'' else lit ''false''))"
| "encode_field (FTimestampMicros v) =
     (if \<not> signed_64_open v
      then Inl (ilp_error ''timestamp field is outside signed 64-bit range'')
      else Inr (Some (int_str v @ lit ''t'')))"
| "encode_field (FInt v) =
     (if \<not> signed_64_open v
      then Inl (ilp_error ''integer field is outside signed 64-bit range'')
      else Inr (Some (int_str v @ lit ''i'')))"
| "encode_field (FFloat f) =
     (case f of
        PyFinite r \<Rightarrow> Inr (Some r)
      | _ \<Rightarrow> Inl (ilp_error ''float field must be finite''))"
| "encode_field (FStr s) = bindR (escape_string s) (\<lambda>t. Inr (Some ([34] @ t @ [34])))"

fun encode_symbols :: "(ustr \<times> ustr option) list \<Rightarrow> ustr list res" where
  "encode_symbols [] = Inr []"
| "encode_symbols ((key, None) # rest) = encode_symbols rest"
| "encode_symbols ((key, Some value) # rest) =
     bindR (escape_identifier key ''symbol key'') (\<lambda>k.
     bindR (escape_identifier value ''symbol value'') (\<lambda>v.
     bindR (encode_symbols rest) (\<lambda>parts. Inr ((k @ [61] @ v) # parts))))"

fun encode_fields :: "(ustr \<times> field_value) list \<Rightarrow> ustr list res" where
  "encode_fields [] = Inr []"
| "encode_fields ((key, value) # rest) =
     bindR (encode_field value) (\<lambda>encoded.
       case encoded of
         None \<Rightarrow> encode_fields rest
       | Some v \<Rightarrow>
           bindR (escape_identifier key ''field key'') (\<lambda>k.
           bindR (encode_fields rest) (\<lambda>parts. Inr ((k @ [61] @ v) # parts))))"

text \<open>\<open>','.join(parts)\<close>\<close>

fun join :: "ustr \<Rightarrow> ustr list \<Rightarrow> ustr" where
  "join sep [] = []"
| "join sep [x] = x"
| "join sep (x # xs) = x @ sep @ join sep xs"

definition encode_line ::
    "ustr \<Rightarrow> (ustr \<times> ustr option) list \<Rightarrow> (ustr \<times> field_value) list \<Rightarrow> int \<Rightarrow> ustr res" where
  "encode_line table symbols flds timestamp_ns =
     bindR (escape_identifier table ''table'') (\<lambda>measurement.
     bindR (encode_symbols symbols) (\<lambda>symbol_parts.
     bindR (encode_fields flds) (\<lambda>field_parts.
       if field_parts = []
       then Inl (ilp_error ''at least one non-null field is required'')
       else
         let symbols_text = (if symbol_parts \<noteq> [] then [44] @ join [44] symbol_parts else []) in
         Inr (measurement @ symbols_text @ [32] @ join [44] field_parts @ [32]
                @ int_str timestamp_ns @ [10]))))"

definition encode_row ::
    "ustr \<Rightarrow> (ustr \<times> ustr option) list \<Rightarrow> (ustr \<times> field_value) list \<Rightarrow> int \<Rightarrow> bytes res" where
  "encode_row table symbols flds timestamp_ns =
     bindR (encode_line table symbols flds timestamp_ns) utf8_encode"

subsection \<open>The escaped text, character by character\<close>

definition ident_stop :: "nat \<Rightarrow> bool" where
  "ident_stop c \<longleftrightarrow> c \<in> {32, 44, 61, 10, 13}"

definition ident_esc :: "nat \<Rightarrow> ustr" where
  "ident_esc c = (if ident_stop c \<or> c = 92 then [92, c] else [c])"

definition string_stop :: "nat \<Rightarrow> bool" where
  "string_stop c \<longleftrightarrow> c = 34"

definition string_esc :: "nat \<Rightarrow> ustr" where
  "string_esc c = (if c \<in> {92, 34, 10, 13} then [92, c] else [c])"

lemma replace_char_simps [simp]:
  "replace_char c r [] = []"
  "replace_char c r (x # s) = (if x = c then r else [x]) @ replace_char c r s"
  "replace_char c r (s @ t) = replace_char c r s @ replace_char c r t"
  by (simp_all add: replace_char_def)

lemma escape_ident_text_eq: "escape_ident_text s = concat (map ident_esc s)"
  by (induction s) (auto simp: escape_ident_text_def ident_esc_def ident_stop_def)

lemma escape_string_text_eq: "escape_string_text s = concat (map string_esc s)"
  by (induction s) (auto simp: escape_string_text_def string_esc_def)

subsection \<open>Specification: reading line protocol\<close>

text \<open>
  A token runs to the first unescaped stop character; a backslash makes the next character
  part of the token.
\<close>

fun read_until :: "(nat \<Rightarrow> bool) \<Rightarrow> ustr \<Rightarrow> ustr \<times> ustr" where
  "read_until stop [] = ([], [])"
| "read_until stop (c # s) =
     (if c = 92 then
        (case s of [] \<Rightarrow> ([92], [])
         | d # s' \<Rightarrow> (case read_until stop s' of (w, r) \<Rightarrow> (d # w, r)))
      else if stop c then ([], c # s)
      else (case read_until stop s of (w, r) \<Rightarrow> (c # w, r)))"

lemma read_until_length: "length (snd (read_until stop s)) \<le> length s"
proof (induction stop s rule: read_until.induct)
  case (2 stop c s)
  consider "c = 92" "s = []" | d s' where "c = 92" "s = d # s'" | "c \<noteq> 92" "stop c"
    | "c \<noteq> 92" "\<not> stop c"
    by (cases s) auto
  then show ?case
  proof cases
    case 2
    with "2.IH"(1) [of d s'] show ?thesis
      by (cases "read_until stop s'") simp
  next
    case 4
    with "2.IH"(2) show ?thesis by (cases "read_until stop s") simp
  qed simp_all
qed simp

lemma read_until_shorter: "read_until stop s = (w, r) \<Longrightarrow> length r \<le> length s"
  using read_until_length [of stop s] by simp

locale char_escape =
  fixes stop :: "nat \<Rightarrow> bool" and esc :: "nat \<Rightarrow> ustr"
  assumes esc_form: "esc c = [92, c] \<or> esc c = [c] \<and> \<not> stop c \<and> c \<noteq> 92"
begin

lemma read_escaped:
  assumes "r = [] \<or> stop (hd r) \<and> hd r \<noteq> 92"
  shows "read_until stop (concat (map esc s) @ r) = (s, r)"
proof (induction s)
  case Nil
  show ?case using assms by (cases r) auto
next
  case (Cons c s)
  then show ?case using esc_form [of c] by auto
qed

lemma escape_inject: "concat (map esc s) = concat (map esc t) \<longleftrightarrow> s = t"
  by (metis append_Nil2 prod.inject read_escaped)

end

interpretation ident: char_escape ident_stop ident_esc
  by unfold_locales (auto simp: ident_esc_def)

interpretation quoted: char_escape string_stop string_esc
  by unfold_locales (auto simp: string_esc_def string_stop_def)

datatype raw_value = RString ustr | RToken ustr

text \<open>The input after one expected character.\<close>

definition expect :: "nat \<Rightarrow> ustr \<Rightarrow> ustr option" where
  "expect c s = (case s of [] \<Rightarrow> None | d # r \<Rightarrow> if d = c then Some r else None)"

definition read_value :: "ustr \<Rightarrow> (raw_value \<times> ustr) option" where
  "read_value s =
     (case expect 34 s of
        Some s' \<Rightarrow>
          (case read_until string_stop s' of
             (w, s'') \<Rightarrow> map_option (\<lambda>r. (RString w, r)) (expect 34 s''))
      | None \<Rightarrow> (case read_until ident_stop s of (w, r) \<Rightarrow> Some (RToken w, r)))"

text \<open>\<open>key=\<close> and what follows it.\<close>

definition read_key :: "ustr \<Rightarrow> (ustr \<times> ustr) option" where
  "read_key s =
     (case read_until ident_stop s of (k, s') \<Rightarrow> map_option (\<lambda>r. (k, r)) (expect 61 s'))"

lemma expect_simps [simp]:
  "expect c [] = None"
  "expect c (d # r) = (if d = c then Some r else None)"
  by (simp_all add: expect_def)

lemma expect_eq_Some: "expect c s = Some r \<longleftrightarrow> s = c # r"
  by (cases s) auto

lemma read_key_shorter: "read_key s = Some (k, r) \<Longrightarrow> length r < length s"
  using read_until_length [of ident_stop s]
  by (auto simp: read_key_def expect_eq_Some split: prod.splits)

lemma read_value_shorter: "read_value s = Some (v, r) \<Longrightarrow> length r \<le> length s"
  unfolding read_value_def
  by (auto simp: expect_eq_Some split: prod.splits option.splits dest!: read_until_shorter)

function read_symbols :: "ustr \<Rightarrow> ((ustr \<times> ustr) list \<times> ustr) option" where
  "read_symbols s =
     (case expect 44 s of
        None \<Rightarrow> Some ([], s)
      | Some s1 \<Rightarrow>
          (case read_key s1 of
             None \<Rightarrow> None
           | Some (k, s2) \<Rightarrow>
               (case read_until ident_stop s2 of
                  (v, s3) \<Rightarrow> map_option (\<lambda>(ps, r). ((k, v) # ps, r)) (read_symbols s3))))"
  by pat_completeness auto
termination
  by (relation "measure length")
    (auto simp: expect_eq_Some dest!: read_key_shorter dest: read_until_shorter [OF sym])

function read_fields :: "ustr \<Rightarrow> ((ustr \<times> raw_value) list \<times> ustr) option" where
  "read_fields s =
     (case read_key s of
        None \<Rightarrow> None
      | Some (k, s1) \<Rightarrow>
          (case read_value s1 of
             None \<Rightarrow> None
           | Some (v, s2) \<Rightarrow>
               (case expect 44 s2 of
                  Some s3 \<Rightarrow> map_option (\<lambda>(ps, r). ((k, v) # ps, r)) (read_fields s3)
                | None \<Rightarrow> Some ([(k, v)], s2))))"
  by pat_completeness auto
termination
  by (relation "measure length")
    (auto simp: expect_eq_Some dest!: read_key_shorter read_value_shorter)

declare read_symbols.simps [simp del] read_fields.simps [simp del]

record ilp_row =
  row_table :: ustr
  row_symbols :: "(ustr \<times> ustr) list"
  row_fields :: "(ustr \<times> raw_value) list"
  row_timestamp :: ustr

definition read_row :: "ustr \<Rightarrow> (ilp_row \<times> ustr) option" where
  "read_row s =
     (case read_until ident_stop s of (t, s1) \<Rightarrow>
      Option.bind (read_symbols s1) (\<lambda>(syms, s2).
      Option.bind (expect 32 s2) (\<lambda>s3.
      Option.bind (read_fields s3) (\<lambda>(flds, s4).
      Option.bind (expect 32 s4) (\<lambda>s5.
      case read_until ident_stop s5 of (ts, s6) \<Rightarrow>
      map_option (\<lambda>r. (\<lparr>row_table = t, row_symbols = syms, row_fields = flds,
        row_timestamp = ts\<rparr>, r)) (expect 10 s6))))))"

text \<open>A batch is read row by row until nothing is left; \<open>n\<close> bounds the number of rows.\<close>

fun read_rows :: "nat \<Rightarrow> ustr \<Rightarrow> ilp_row list option" where
  "read_rows n [] = Some []"
| "read_rows 0 s = None"
| "read_rows (Suc n) s =
     (case read_row s of
        None \<Rightarrow> None
      | Some (row, r) \<Rightarrow> map_option (Cons row) (read_rows n r))"

subsection \<open>What a row carries\<close>

fun raw_of :: "field_value \<Rightarrow> raw_value option" where
  "raw_of FNone = None"
| "raw_of (FBool b) = Some (RToken (if b then lit ''true'' else lit ''false''))"
| "raw_of (FTimestampMicros v) = Some (RToken (int_str v @ lit ''t''))"
| "raw_of (FInt v) = Some (RToken (int_str v @ lit ''i''))"
| "raw_of (FFloat f) = (case f of PyFinite r \<Rightarrow> Some (RToken r) | _ \<Rightarrow> None)"
| "raw_of (FStr s) = Some (RString s)"

fun present_symbols :: "(ustr \<times> ustr option) list \<Rightarrow> (ustr \<times> ustr) list" where
  "present_symbols [] = []"
| "present_symbols ((k, None) # rest) = present_symbols rest"
| "present_symbols ((k, Some v) # rest) = (k, v) # present_symbols rest"

fun present_fields :: "(ustr \<times> field_value) list \<Rightarrow> (ustr \<times> raw_value) list" where
  "present_fields [] = []"
| "present_fields ((k, v) # rest) =
     (case raw_of v of None \<Rightarrow> present_fields rest | Some x \<Rightarrow> (k, x) # present_fields rest)"

text \<open>The \<open>repr\<close> of a finite float: no separator, no quote, no backslash.\<close>

definition token :: "ustr \<Rightarrow> bool" where
  "token w \<longleftrightarrow> w \<noteq> [] \<and> (\<forall>c \<in> set w. \<not> ident_stop c \<and> c \<noteq> 92 \<and> c \<noteq> 34)"

fun float_ok :: "field_value \<Rightarrow> bool" where
  "float_ok (FFloat (PyFinite r)) = token r"
| "float_ok _ = True"

definition row_of ::
    "ustr \<Rightarrow> (ustr \<times> ustr option) list \<Rightarrow> (ustr \<times> field_value) list \<Rightarrow> int \<Rightarrow> ilp_row" where
  "row_of table symbols flds ts =
     \<lparr>row_table = table, row_symbols = present_symbols symbols,
      row_fields = present_fields flds, row_timestamp = int_str ts\<rparr>"

subsection \<open>Reading back what was written\<close>

lemma read_until_token:
  assumes "\<forall>c \<in> set w. \<not> stop c \<and> c \<noteq> 92" and "r = [] \<or> stop (hd r) \<and> hd r \<noteq> 92"
  shows "read_until stop (w @ r) = (w, r)"
  using assms(1)
proof (induction w)
  case Nil
  show ?case using assms(2) by (cases r) auto
qed auto

lemma token_int_str: "token (int_str i)"
  using int_str_chars [of _ i] by (fastforce simp: token_def ident_stop_def)

lemma token_snoc: "token w \<Longrightarrow> \<not> ident_stop c \<and> c \<noteq> 92 \<and> c \<noteq> 34 \<Longrightarrow> token (w @ [c])"
  by (auto simp: token_def)

lemma lit_simps [simp]: "lit ''t'' = [116]" "lit ''i'' = [105]"
  "lit ''true'' = [116, 114, 117, 101]" "lit ''false'' = [102, 97, 108, 115, 101]"
  by (simp_all add: lit_def)

lemma read_value_token:
  assumes "token w" and "r = [] \<or> ident_stop (hd r)"
  shows "read_value (w @ r) = Some (RToken w, r)"
proof -
  have "\<forall>c \<in> set w. \<not> ident_stop c \<and> c \<noteq> 92" using assms(1) by (simp add: token_def)
  moreover have "r = [] \<or> ident_stop (hd r) \<and> hd r \<noteq> 92"
    using assms(2) by (auto simp: ident_stop_def)
  ultimately have "read_until ident_stop (w @ r) = (w, r)" by (rule read_until_token)
  moreover have "expect 34 (w @ r) = None"
    using assms(1) by (cases w) (auto simp: token_def)
  ultimately show ?thesis by (simp add: read_value_def)
qed

lemma read_value_string:
  "read_value ([34] @ escape_string_text s @ [34] @ r) = Some (RString s, r)"
  using quoted.read_escaped [of "34 # r" s]
  by (simp add: read_value_def escape_string_text_eq string_stop_def)

lemma read_value_encoded:
  assumes "encode_field v = Inr (Some t)" and "float_ok v" and "r = [] \<or> ident_stop (hd r)"
  obtains x where "raw_of v = Some x" and "read_value (t @ r) = Some (x, r)"
proof (cases v)
  case (FBool b)
  then have "token t" using assms(1) by (cases b) (auto simp: token_def ident_stop_def)
  then show ?thesis using that FBool assms by (auto simp: read_value_token)
next
  case (FTimestampMicros i)
  then have "token t" using assms(1)
    by (auto intro!: token_snoc token_int_str simp: ident_stop_def split: if_splits)
  then show ?thesis using that FTimestampMicros assms
    by (auto simp: read_value_token simp del: append_assoc split: if_splits)
next
  case (FInt i)
  then have "token t" using assms(1)
    by (auto intro!: token_snoc token_int_str simp: ident_stop_def split: if_splits)
  then show ?thesis using that FInt assms
    by (auto simp: read_value_token simp del: append_assoc split: if_splits)
next
  case (FFloat f)
  then show ?thesis using that assms
    by (auto simp: read_value_token split: pyfloat.splits)
next
  case (FStr s)
  then have "t = [34] @ escape_string_text s @ [34]"
    using assms(1) by (auto simp: bindR_eq_Inr escape_string_def split: if_splits)
  then show ?thesis using that FStr read_value_string [of s r] by simp
qed (use assms in auto)

lemma encode_field_None: "encode_field v = Inr None \<Longrightarrow> raw_of v = None"
  by (cases v) (auto simp: bindR_eq_Inr split: if_splits pyfloat.splits)

lemma escape_identifier_Inr:
  "escape_identifier v kind = Inr t \<longleftrightarrow> v \<noteq> [] \<and> 0 \<notin> set v \<and> t = concat (map ident_esc v)"
  by (auto simp: escape_identifier_def require_name_def escape_ident_text_eq)

lemma read_ident:
  "r = [] \<or> ident_stop (hd r) \<Longrightarrow> read_until ident_stop (concat (map ident_esc s) @ r) = (s, r)"
  by (rule ident.read_escaped) (auto simp: ident_stop_def)

lemma read_key_escaped: "read_key (concat (map ident_esc k) @ 61 # r) = Some (k, r)"
  by (simp add: read_key_def read_ident ident_stop_def)

lemma join_Cons: "join sep (x # xs) = x @ (if xs = [] then [] else sep @ join sep xs)"
  by (cases xs) auto

lemma read_symbols_encoded:
  assumes "encode_symbols syms = Inr parts" and "hd r = 32" and "r \<noteq> []"
  shows "read_symbols (concat (map (Cons 44) parts) @ r) = Some (present_symbols syms, r)"
  using assms(1)
proof (induction syms arbitrary: parts rule: encode_symbols.induct)
  case 1
  obtain r' where "r = 32 # r'" using assms(2,3) by (cases r) auto
  then show ?case using 1 by (simp add: read_symbols.simps)
next
  case (3 key val rest)
  then obtain parts' where parts:
      "parts = (concat (map ident_esc key) @ [61] @ concat (map ident_esc val)) # parts'"
      "encode_symbols rest = Inr parts'"
    by (auto simp: bindR_eq_Inr escape_identifier_Inr)
  let ?tail = "concat (map (Cons 44) parts') @ r"
  have "?tail = [] \<or> ident_stop (hd ?tail)"
    using assms(2) by (cases parts') (auto simp: ident_stop_def)
  then have "read_until ident_stop (concat (map ident_esc val) @ ?tail) = (val, ?tail)"
    by (rule read_ident)
  moreover have "read_symbols ?tail = Some (present_symbols rest, r)"
    using 3 parts by (auto simp: bindR_eq_Inr escape_identifier_Inr)
  ultimately show ?case
    by (simp add: parts read_symbols.simps [of "44 # _"] read_key_escaped)
qed simp

lemma read_fields_encoded:
  assumes "encode_fields flds = Inr parts" and "parts \<noteq> []" and "hd r = 32" and "r \<noteq> []"
    and "\<forall>(k, v) \<in> set flds. float_ok v"
  shows "read_fields (join [44] parts @ r) = Some (present_fields flds, r)"
  using assms(1,2,5)
proof (induction flds arbitrary: parts rule: encode_fields.induct)
  case (2 key val rest)
  show ?case
  proof (cases "encode_field val")
    case (Inl e)
    then show ?thesis using 2 by simp
  next
    case (Inr w)
    show ?thesis
    proof (cases w)
      case None
      then show ?thesis using 2 Inr by (simp add: encode_field_None)
    next
      case (Some t)
      then obtain parts' where parts: "parts = (concat (map ident_esc key) @ [61] @ t) # parts'"
          "encode_fields rest = Inr parts'"
        using 2 Inr by (auto simp: bindR_eq_Inr escape_identifier_Inr)
      let ?tail = "(if parts' = [] then [] else [44] @ join [44] parts') @ r"
      have "?tail = [] \<or> ident_stop (hd ?tail)" using assms(3) by (auto simp: ident_stop_def)
      then obtain x where x: "raw_of val = Some x" "read_value (t @ ?tail) = Some (x, ?tail)"
        using read_value_encoded [of val t ?tail] Inr Some 2 by auto
      have line: "join [44] parts @ r = concat (map ident_esc key) @ 61 # t @ ?tail"
        by (simp add: parts join_Cons)
      show ?thesis
      proof (cases "parts' = []")
        case True
        then have "present_fields rest = []"
          using parts(2) by (induction rest rule: encode_fields.induct)
            (auto simp: bindR_eq_Inr encode_field_None split: option.splits)
        moreover have "expect 44 r = None" using assms(3,4) by (cases r) auto
        ultimately show ?thesis using x True
          by (simp add: line read_key_escaped read_fields.simps [of "concat (map ident_esc key) @ _"])
      next
        case False
        have "read_fields (join [44] parts' @ r) = Some (present_fields rest, r)"
          using 2 Inr Some parts(2) False by (auto simp: bindR_eq_Inr escape_identifier_Inr)
        then show ?thesis using x False
          by (simp add: line read_key_escaped read_fields.simps [of "concat (map ident_esc key) @ _"])
      qed
    qed
  qed
qed simp

lemma symbols_text: "(if parts \<noteq> [] then [44] @ join [44] parts else []) = concat (map (Cons 44) parts)"
proof (induction parts)
  case (Cons p ps)
  then show ?case by (cases ps) auto
qed simp

lemma read_row_encoded:
  assumes "encode_line table syms flds ts = Inr s" and "\<forall>(k, v) \<in> set flds. float_ok v"
  shows "read_row (s @ rest) = Some (row_of table syms flds ts, rest)"
proof -
  obtain sp fp where parts: "encode_symbols syms = Inr sp" "encode_fields flds = Inr fp" "fp \<noteq> []"
    and s: "s = concat (map ident_esc table) @ concat (map (Cons 44) sp) @ [32] @ join [44] fp
      @ [32] @ int_str ts @ [10]"
    using assms(1) by (auto simp: encode_line_def bindR_eq_Inr escape_identifier_Inr Let_def
        symbols_text [symmetric] split: if_splits)
  let ?t3 = "32 # int_str ts @ 10 # rest"
  let ?t2 = "32 # join [44] fp @ ?t3"
  let ?t1 = "concat (map (Cons 44) sp) @ ?t2"
  have "?t1 = [] \<or> ident_stop (hd ?t1)" by (cases sp) (auto simp: ident_stop_def)
  then have "read_until ident_stop (concat (map ident_esc table) @ ?t1) = (table, ?t1)"
    by (rule read_ident)
  moreover have "read_symbols ?t1 = Some (present_symbols syms, ?t2)"
    using read_symbols_encoded [OF parts(1), of ?t2] by simp
  moreover have "read_fields (join [44] fp @ ?t3) = Some (present_fields flds, ?t3)"
    using read_fields_encoded [OF parts(2,3), of ?t3] assms(2) by simp
  moreover have "read_until ident_stop (int_str ts @ 10 # rest) = (int_str ts, 10 # rest)"
    using token_int_str by (intro read_until_token) (auto simp: token_def ident_stop_def)
  ultimately show ?thesis by (simp add: read_row_def s row_of_def)
qed

lemma encode_line_not_Nil: "encode_line table syms flds ts = Inr s \<Longrightarrow> s \<noteq> []"
  by (auto simp: encode_line_def bindR_eq_Inr Let_def split: if_splits)

lemma encode_row_Inr:
  "encode_row table syms flds ts = Inr bs \<longleftrightarrow>
     (\<exists>s. encode_line table syms flds ts = Inr s \<and> encodable s \<and> bs = utf8_bytes s)"
  by (auto simp: encode_row_def bindR_eq_Inr utf8_encode_def)

text \<open>
  A batch of rows, concatenated as the worker sends them, decodes and reads back as exactly
  those rows in that order: no value can end its token, its row or the batch early.
\<close>

type_synonym row_args =
  "ustr \<times> (ustr \<times> ustr option) list \<times> (ustr \<times> field_value) list \<times> int"

fun encode_args :: "row_args \<Rightarrow> bytes res" where
  "encode_args (t, syms, flds, ts) = encode_row t syms flds ts"

fun row_of_args :: "row_args \<Rightarrow> ilp_row" where
  "row_of_args (t, syms, flds, ts) = row_of t syms flds ts"

fun args_float_ok :: "row_args \<Rightarrow> bool" where
  "args_float_ok (t, syms, flds, ts) \<longleftrightarrow> (\<forall>(k, v) \<in> set flds. float_ok v)"

lemma read_rows_Cons:
  "read_row (s @ t) = Some (row, t) \<Longrightarrow> s \<noteq> [] \<Longrightarrow>
     read_rows (Suc n) (s @ t) = map_option (Cons row) (read_rows n t)"
  by (cases "s @ t") auto

lemma batch_reads_back:
  assumes "list_all2 (\<lambda>a bs. encode_args a = Inr bs) rows bss" and "list_all args_float_ok rows"
  shows "\<exists>s. utf8_decode (concat bss) = Some s \<and>
    read_rows (length rows) s = Some (map row_of_args rows)"
proof -
  have "\<exists>s. encodable s \<and> concat bss = utf8_bytes s \<and>
      read_rows (length rows) s = Some (map row_of_args rows)"
    using assms
  proof (induction rows bss rule: list_all2_induct)
    case Nil
    show ?case by (rule exI [of _ "[]"]) simp
  next
    case (Cons a rows bs bss)
    obtain table syms flds ts where a: "a = (table, syms, flds, ts)" by (cases a) auto
    obtain s where s: "encode_line table syms flds ts = Inr s" "encodable s" "bs = utf8_bytes s"
      using Cons.hyps(1) by (auto simp: a encode_row_Inr)
    from Cons obtain t where t: "encodable t" "concat bss = utf8_bytes t"
        "read_rows (length rows) t = Some (map row_of_args rows)" by auto
    have "read_row (s @ t) = Some (row_of_args a, t)"
      using read_row_encoded [OF s(1)] Cons.prems by (simp add: a)
    then have "read_rows (length (a # rows)) (s @ t) = Some (map row_of_args (a # rows))"
      using read_rows_Cons [OF _ encode_line_not_Nil [OF s(1)]] t(3) by simp
    then show ?case using s t by (intro exI [of _ "s @ t"]) simp
  qed
  then show ?thesis by auto
qed

end
