(* ===== verification/Json.thy ===== *)
theory Json
  imports Utf8 "HOL-Library.AList"
begin

section \<open>JSON as Python's json module reads and writes it\<close>

text \<open>
  \<open>json.loads\<close> and the \<open>json.dumps\<close> call of event.py (\<open>ensure_ascii=False\<close>,
  \<open>separators=(",", ":")\<close>, \<open>sort_keys=True\<close>). Values are Python's: \<open>JObj\<close> is a dict as the
  association list in insertion order, where a repeated key keeps its place and takes the last
  value. A float literal is its exact decimal value (rounding to a double is not modelled), and
  the interpreter's recursion limit is not modelled either. The parser needs no fuel: every call
  is on a strictly shorter input, and where the input of the next call comes from another call
  the definition checks that it is.
\<close>

datatype json =
    JNull
  | JBool bool
  | JInt int
  | JFloat rat
  | JNonFinite ustr
  | JStr ustr
  | JList "json list"
  | JObj "(ustr \<times> json) list"

subsection \<open>Writing\<close>

definition hex_digit :: "nat \<Rightarrow> nat" where
  "hex_digit d = (if d < 10 then 48 + d else 87 + d)"

definition json_escape_char :: "nat \<Rightarrow> ustr" where
  "json_escape_char c =
     (if c = 34 then [92, 34]
      else if c = 92 then [92, 92]
      else if c = 10 then [92, 110]
      else if c = 13 then [92, 114]
      else if c = 9 then [92, 116]
      else if c = 12 then [92, 102]
      else if c = 8 then [92, 98]
      else if c < 32 then [92, 117, 48, 48, hex_digit (c div 16), hex_digit (c mod 16)]
      else [c])"

definition json_string :: "ustr \<Rightarrow> ustr" where
  "json_string s = [34] @ concat (map json_escape_char s) @ [34]"

text \<open>The values an event document holds: strings, integers and null.\<close>

datatype scalar = SNull | SInt int | SStr ustr

fun dump_scalar :: "scalar \<Rightarrow> ustr" where
  "dump_scalar SNull = lit ''null''"
| "dump_scalar (SInt i) = int_str i"
| "dump_scalar (SStr s) = json_string s"

fun json_of_scalar :: "scalar \<Rightarrow> json" where
  "json_of_scalar SNull = JNull"
| "json_of_scalar (SInt i) = JInt i"
| "json_of_scalar (SStr s) = JStr s"

fun dump_members :: "(ustr \<times> scalar) list \<Rightarrow> ustr" where
  "dump_members [] = []"
| "dump_members [(k, v)] = json_string k @ [58] @ dump_scalar v"
| "dump_members ((k, v) # rest) = json_string k @ [58] @ dump_scalar v @ [44] @ dump_members rest"

definition json_dumps :: "(ustr \<times> scalar) list \<Rightarrow> ustr" where
  "json_dumps doc = [123] @ dump_members (sort_key fst doc) @ [125]"

subsection \<open>Reading\<close>

definition is_ws :: "nat \<Rightarrow> bool" where
  "is_ws c \<longleftrightarrow> c \<in> {32, 9, 10, 13}"

definition skip_ws :: "ustr \<Rightarrow> ustr" where
  "skip_ws s = dropWhile is_ws s"

definition is_digit :: "nat \<Rightarrow> bool" where
  "is_digit c \<longleftrightarrow> 48 \<le> c \<and> c \<le> 57"

definition hex_value :: "nat \<Rightarrow> nat option" where
  "hex_value c =
     (if 48 \<le> c \<and> c \<le> 57 then Some (c - 48)
      else if 97 \<le> c \<and> c \<le> 102 then Some (c - 87)
      else if 65 \<le> c \<and> c \<le> 70 then Some (c - 55)
      else None)"

text \<open>Four hexadecimal digits after a backslash-u.\<close>

definition read_hex4 :: "ustr \<Rightarrow> (nat \<times> ustr) option" where
  "read_hex4 s =
     (case s of
        a # b # c # d # r \<Rightarrow>
          (case (hex_value a, hex_value b, hex_value c, hex_value d) of
             (Some w, Some x, Some y, Some z) \<Rightarrow> Some (w * 4096 + x * 256 + y * 16 + z, r)
           | _ \<Rightarrow> None)
      | _ \<Rightarrow> None)"

text \<open>A high surrogate escape joins a following low surrogate escape.\<close>

definition read_unicode_escape :: "ustr \<Rightarrow> (nat \<times> ustr) option" where
  "read_unicode_escape s =
     (case read_hex4 s of
        None \<Rightarrow> None
      | Some (u, r) \<Rightarrow>
          (if 55296 \<le> u \<and> u \<le> 56319 then
             (case r of
                b # c # r' \<Rightarrow>
                  (if b = 92 \<and> c = 117 then
                     (case read_hex4 r' of
                        None \<Rightarrow> None
                      | Some (u2, r'') \<Rightarrow>
                          (if 56320 \<le> u2 \<and> u2 \<le> 57343
                           then Some (65536 + (u - 55296) * 1024 + (u2 - 56320), r'')
                           else Some (u, r)))
                   else Some (u, r))
              | _ \<Rightarrow> Some (u, r))
           else Some (u, r)))"

definition simple_escape :: "nat \<Rightarrow> nat option" where
  "simple_escape c =
     (if c = 34 then Some 34 else if c = 92 then Some 92 else if c = 47 then Some 47
      else if c = 98 then Some 8 else if c = 102 then Some 12 else if c = 110 then Some 10
      else if c = 114 then Some 13 else if c = 116 then Some 9 else None)"

text \<open>The body of a string, after its opening quote.\<close>

function read_json_string :: "ustr \<Rightarrow> (ustr \<times> ustr) option" where
  "read_json_string s =
     (case s of
        [] \<Rightarrow> None
      | c # r \<Rightarrow>
          if c = 34 then Some ([], r)
          else if c = 92 then
            (case r of
               [] \<Rightarrow> None
             | d # r' \<Rightarrow>
                 if d = 117 then
                   (case read_unicode_escape r' of
                      None \<Rightarrow> None
                    | Some (u, r'') \<Rightarrow>
                        if length r'' < length s
                        then map_option (\<lambda>(t, q). (u # t, q)) (read_json_string r'') else None)
                 else
                   (case simple_escape d of
                      None \<Rightarrow> None
                    | Some e \<Rightarrow> map_option (\<lambda>(t, q). (e # t, q)) (read_json_string r')))
          else if c < 32 then None
          else map_option (\<lambda>(t, q). (c # t, q)) (read_json_string r))"
  by pat_completeness auto
termination by (relation "measure length") auto

declare read_json_string.simps [simp del]

text \<open>Numbers: \<open>-?(0|[1-9][0-9]*)(\.[0-9]+)?([eE][-+]?[0-9]+)?\<close>.\<close>

definition digits_of :: "ustr \<Rightarrow> ustr \<times> ustr" where
  "digits_of s = (takeWhile is_digit s, dropWhile is_digit s)"

definition read_int_part :: "ustr \<Rightarrow> (ustr \<times> ustr) option" where
  "read_int_part s =
     (case s of
        [] \<Rightarrow> None
      | c # r \<Rightarrow>
          if c = 48 then Some ([48], r)
          else if is_digit c then Some (digits_of s)
          else None)"

definition read_frac :: "ustr \<Rightarrow> ustr \<times> ustr" where
  "read_frac s =
     (case s of
        c # r \<Rightarrow> (if c = 46 \<and> fst (digits_of r) \<noteq> [] then digits_of r else ([], s))
      | [] \<Rightarrow> ([], s))"

definition read_exp :: "ustr \<Rightarrow> int option \<times> ustr" where
  "read_exp s =
     (case s of
        c # r \<Rightarrow>
          (if c = 101 \<or> c = 69 then
             (let neg = (r \<noteq> [] \<and> hd r = 45);
                  r' = (if r \<noteq> [] \<and> (hd r = 45 \<or> hd r = 43) then tl r else r)
              in if fst (digits_of r') \<noteq> []
                 then (Some (if neg then - int (nat_of_digits (fst (digits_of r')))
                             else int (nat_of_digits (fst (digits_of r')))), snd (digits_of r'))
                 else (None, s))
           else (None, s))
      | [] \<Rightarrow> (None, s))"

definition pow10 :: "int \<Rightarrow> rat" where
  "pow10 e = (if 0 \<le> e then 10 ^ nat e else 1 / 10 ^ nat (- e))"

definition max_int_digits :: nat where
  "max_int_digits = 4300"

definition read_number :: "ustr \<Rightarrow> (json \<times> ustr) option" where
  "read_number s =
     (let neg = (s \<noteq> [] \<and> hd s = 45); s1 = (if neg then tl s else s) in
      case read_int_part s1 of
        None \<Rightarrow> None
      | Some (ds, s2) \<Rightarrow>
          (let (fs, s3) = read_frac s2; (e, s4) = read_exp s3; sgn = (if neg then -1 else 1) in
           if fs = [] \<and> e = None then
             (if length ds > max_int_digits then None
              else Some (JInt (sgn * int (nat_of_digits ds)), s4))
           else
             Some (JFloat (of_int (sgn * int (nat_of_digits (ds @ fs)))
                     * pow10 ((case e of None \<Rightarrow> 0 | Some x \<Rightarrow> x) - int (length fs))), s4)))"

definition strip_prefix :: "ustr \<Rightarrow> ustr \<Rightarrow> ustr option" where
  "strip_prefix p s = (if take (length p) s = p then Some (drop (length p) s) else None)"

definition read_word :: "ustr \<Rightarrow> (json \<times> ustr) option" where
  "read_word s =
     (case strip_prefix (lit ''null'') s of Some r \<Rightarrow> Some (JNull, r) | None \<Rightarrow>
      case strip_prefix (lit ''true'') s of Some r \<Rightarrow> Some (JBool True, r) | None \<Rightarrow>
      case strip_prefix (lit ''false'') s of Some r \<Rightarrow> Some (JBool False, r) | None \<Rightarrow>
      case read_number s of Some p \<Rightarrow> Some p | None \<Rightarrow>
      case strip_prefix (lit ''NaN'') s of Some r \<Rightarrow> Some (JNonFinite (lit ''nan''), r) | None \<Rightarrow>
      case strip_prefix (lit ''Infinity'') s of Some r \<Rightarrow> Some (JNonFinite (lit ''inf''), r) | None \<Rightarrow>
      case strip_prefix (lit ''-Infinity'') s of Some r \<Rightarrow> Some (JNonFinite (lit ''-inf''), r) | None \<Rightarrow>
      None)"

definition dict_of_pairs :: "(ustr \<times> 'v) list \<Rightarrow> (ustr \<times> 'v) list" where
  "dict_of_pairs ps = foldl (\<lambda>d (k, v). AList.update k v d) [] ps"

function (sequential) read_json :: "ustr \<Rightarrow> (json \<times> ustr) option"
    and read_members :: "ustr \<Rightarrow> ((ustr \<times> json) list \<times> ustr) option"
    and read_elements :: "ustr \<Rightarrow> (json list \<times> ustr) option" where
  "read_json s =
     (case s of
        [] \<Rightarrow> None
      | c # r \<Rightarrow>
          if c = 34 then map_option (\<lambda>(t, q). (JStr t, q)) (read_json_string r)
          else if c = 123 then
            (case skip_ws r of
               [] \<Rightarrow> None
             | d # r' \<Rightarrow>
                 if d = 125 then Some (JObj [], r')
                 else if length (d # r') < length s then
                   map_option (\<lambda>(ps, q). (JObj (dict_of_pairs ps), q)) (read_members (d # r'))
                 else None)
          else if c = 91 then
            (case skip_ws r of
               [] \<Rightarrow> None
             | d # r' \<Rightarrow>
                 if d = 93 then Some (JList [], r')
                 else if length (d # r') < length s then
                   map_option (\<lambda>(vs, q). (JList vs, q)) (read_elements (d # r'))
                 else None)
          else read_word s)"
| "read_members s =
     (case s of
        [] \<Rightarrow> None
      | c # r \<Rightarrow>
          if c \<noteq> 34 then None else
          (case read_json_string r of
             None \<Rightarrow> None
           | Some (k, r1) \<Rightarrow>
               (case skip_ws r1 of
                  [] \<Rightarrow> None
                | d # r2 \<Rightarrow>
                    if d \<noteq> 58 \<or> \<not> length (skip_ws r2) < length s then None else
                    (case read_json (skip_ws r2) of
                       None \<Rightarrow> None
                     | Some (v, r3) \<Rightarrow>
                         (case skip_ws r3 of
                            [] \<Rightarrow> None
                          | e # r4 \<Rightarrow>
                              if e = 125 then Some ([(k, v)], r4)
                              else if e = 44 \<and> length (skip_ws r4) < length s then
                                map_option (\<lambda>(ps, q). ((k, v) # ps, q)) (read_members (skip_ws r4))
                              else None)))))"
| "read_elements s =
     (case read_json s of
        None \<Rightarrow> None
      | Some (v, r3) \<Rightarrow>
          (case skip_ws r3 of
             [] \<Rightarrow> None
           | e # r4 \<Rightarrow>
               if e = 93 then Some ([v], r4)
               else if e = 44 \<and> length (skip_ws r4) < length s then
                 map_option (\<lambda>(vs, q). (v # vs, q)) (read_elements (skip_ws r4))
               else None))"
  by pat_completeness auto
termination
  by (relation "measure (\<lambda>x. case x of Inl s \<Rightarrow> 2 * length s
      | Inr (Inl s) \<Rightarrow> 2 * length s | Inr (Inr s) \<Rightarrow> 2 * length s + 1)") auto

declare read_json.simps [simp del] read_members.simps [simp del] read_elements.simps [simp del]

definition json_loads :: "ustr \<Rightarrow> json option" where
  "json_loads s =
     (case read_json (skip_ws s) of
        Some (v, r) \<Rightarrow> (if skip_ws r = [] then Some v else None)
      | None \<Rightarrow> None)"

subsection \<open>Reading back a written document\<close>

lemma is_digit_nat_str: "c \<in> set (nat_str n) \<Longrightarrow> is_digit c"
  using nat_str_digits [of n] by (auto simp: is_digit_def)

lemma hex_round_trip: "d < 16 \<Longrightarrow> hex_value (hex_digit d) = Some d"
  by (auto simp: hex_value_def hex_digit_def)

lemma read_hex4_control:
  "c < 32 \<Longrightarrow> read_hex4 (48 # 48 # hex_digit (c div 16) # hex_digit (c mod 16) # r) = Some (c, r)"
  by (simp add: read_hex4_def hex_round_trip hex_value_def [of 48] add.commute)

lemma read_json_string_escaped_char:
  "read_json_string (json_escape_char c @ r) =
     map_option (\<lambda>(t, q). (c # t, q)) (read_json_string r)"
proof -
  consider (special) "c \<in> {34, 92, 10, 13, 9, 12, 8}"
    | (control) "c \<notin> {34, 92, 10, 13, 9, 12, 8}" "c < 32"
    | (plain) "c \<notin> {34, 92, 10, 13, 9, 12, 8}" "32 \<le> c"
    by linarith
  then show ?thesis
  proof cases
    case special
    then show ?thesis
      by (auto simp: json_escape_char_def simple_escape_def read_json_string.simps [of "92 # _"])
  next
    case control
    then have "json_escape_char c =
        [92, 117, 48, 48, hex_digit (c div 16), hex_digit (c mod 16)]"
      by (simp add: json_escape_char_def)
    then show ?thesis using control
      by (simp add: read_json_string.simps [of "92 # _"] read_unicode_escape_def read_hex4_control)
  next
    case plain
    then show ?thesis
      by (simp add: json_escape_char_def read_json_string.simps [of "c # _"])
  qed
qed

lemma read_json_string_escaped:
  "read_json_string (concat (map json_escape_char s) @ 34 # r) = Some (s, r)"
  by (induction s) (simp_all add: read_json_string_escaped_char read_json_string.simps [of "34 # _"])

lemma skip_ws_nonws: "\<not> is_ws c \<Longrightarrow> skip_ws (c # s) = c # s"
  by (simp add: skip_ws_def)

lemma read_json_json_string: "read_json (json_string s @ r) = Some (JStr s, r)"
  by (simp add: json_string_def read_json.simps [of "34 # _"] read_json_string_escaped)

text \<open>A number ends where no digit, dot or exponent follows.\<close>

definition ends_number :: "ustr \<Rightarrow> bool" where
  "ends_number r \<longleftrightarrow> r = [] \<or> \<not> is_digit (hd r) \<and> hd r \<notin> {46, 101, 69}"

lemma digits_of_nat_str:
  assumes "r = [] \<or> \<not> is_digit (hd r)"
  shows "digits_of (nat_str n @ r) = (nat_str n, r)"
proof -
  have "takeWhile is_digit r = []" "dropWhile is_digit r = r"
    using assms by (cases r; simp)+
  moreover have "takeWhile is_digit (nat_str n @ r) = nat_str n @ takeWhile is_digit r"
    by (rule takeWhile_append2) (rule is_digit_nat_str)
  moreover have "dropWhile is_digit (nat_str n @ r) = dropWhile is_digit r"
    by (rule dropWhile_append2) (rule is_digit_nat_str)
  ultimately show ?thesis by (simp add: digits_of_def)
qed

lemma hd_nat_str_zero: "hd (nat_str n) = 48 \<longleftrightarrow> n = 0"
proof (induction n rule: nat_str.induct)
  case (1 n)
  show ?case
  proof (cases "n < 10")
    case True
    then show ?thesis by (subst nat_str.simps) simp
  next
    case False
    then have "n div 10 \<noteq> 0" by (simp add: div_eq_0_iff)
    moreover have "hd (nat_str n) = hd (nat_str (n div 10))"
      using False by (subst nat_str.simps) simp
    ultimately show ?thesis using 1 False by auto
  qed
qed

lemma read_int_part_nat_str:
  assumes "ends_number r"
  shows "read_int_part (nat_str n @ r) = Some (nat_str n, r)"
proof (cases "n = 0")
  case True
  then show ?thesis by (simp add: nat_str.simps [of 0] read_int_part_def)
next
  case False
  obtain c t where ct: "nat_str n = c # t" by (cases "nat_str n") auto
  then have "c \<noteq> 48" "is_digit c"
    using False hd_nat_str_zero [of n] is_digit_nat_str [of c n] by auto
  moreover have "digits_of (nat_str n @ r) = (nat_str n, r)"
    using assms by (intro digits_of_nat_str) (auto simp: ends_number_def)
  ultimately show ?thesis using ct by (simp add: read_int_part_def)
qed

definition short_int :: "int \<Rightarrow> bool" where
  "short_int i \<longleftrightarrow> length (nat_str (nat \<bar>i\<bar>)) \<le> max_int_digits"

lemma read_number_int_str:
  assumes "ends_number r" and "short_int i"
  shows "read_number (int_str i @ r) = Some (JInt i, r)"
proof -
  define n where "n = nat \<bar>i\<bar>"
  have frac: "read_frac r = ([], r)" and ex: "read_exp r = (None, r)"
    using assms(1) by (cases r; simp add: read_frac_def read_exp_def ends_number_def)+
  have int_part: "read_int_part (nat_str n @ r) = Some (nat_str n, r)"
    by (rule read_int_part_nat_str [OF assms(1)])
  have len: "length (nat_str n) \<le> max_int_digits" using assms(2) by (simp add: short_int_def n_def)
  show ?thesis
  proof (cases "i < 0")
    case True
    then have "int_str i = 45 # nat_str n" by (simp add: int_str_def n_def)
    then show ?thesis using True int_part frac ex len
      by (simp add: read_number_def Let_def n_def)
  next
    case False
    then have i: "int_str i = nat_str n" by (simp add: int_str_def n_def)
    have "hd (nat_str n @ r) \<noteq> 45"
      using is_digit_nat_str [of "hd (nat_str n)" n] by (auto simp: is_digit_def)
    then show ?thesis using False i int_part frac ex len
      by (simp add: read_number_def Let_def n_def)
  qed
qed

lemma strip_prefix_mismatch: "p \<noteq> [] \<Longrightarrow> s = [] \<or> hd p \<noteq> hd s \<Longrightarrow> strip_prefix p s = None"
  by (cases p; cases s) (auto simp: strip_prefix_def)

lemma hd_int_str: "hd (int_str i) = 45 \<or> is_digit (hd (int_str i))"
  using is_digit_nat_str [of "hd (nat_str n)" n for n] by (auto simp: int_str_def)

lemma read_json_int_str:
  assumes "ends_number r" and "short_int i"
  shows "read_json (int_str i @ r) = Some (JInt i, r)"
proof -
  obtain c t where ct: "int_str i = c # t" by (cases "int_str i") auto
  then have c: "c = 45 \<or> 48 \<le> c \<and> c \<le> 57" using hd_int_str [of i] by (simp add: is_digit_def)
  have word: "read_word (int_str i @ r) = Some (JInt i, r)"
    using c ct read_number_int_str [OF assms]
    by (auto simp: read_word_def strip_prefix_mismatch lit_def)
  then show ?thesis using c ct by (auto simp: read_json.simps [of "c # _"])
qed

fun short_scalar :: "scalar \<Rightarrow> bool" where
  "short_scalar (SInt i) = short_int i"
| "short_scalar _ = True"

lemma read_json_scalar:
  assumes "ends_number r" and "short_scalar v"
  shows "read_json (dump_scalar v @ r) = Some (json_of_scalar v, r)"
proof (cases v)
  case SNull
  then show ?thesis
    by (simp add: lit_def read_json.simps [of "110 # _"] read_word_def strip_prefix_def)
qed (use assms in \<open>auto simp: read_json_json_string read_json_int_str\<close>)

lemma skip_ws_scalar: "skip_ws (dump_scalar v @ r) = dump_scalar v @ r"
proof (cases v)
  case (SInt i)
  obtain c t where ct: "int_str i = c # t" by (cases "int_str i") auto
  then show ?thesis using SInt hd_int_str [of i]
    by (auto simp: skip_ws_nonws is_ws_def is_digit_def)
qed (simp_all add: json_string_def skip_ws_nonws is_ws_def lit_def)

lemma read_member:
  assumes "ends_number r" and "short_scalar v" and "r \<noteq> []" and "\<not> is_ws (hd r)"
  shows "read_members (json_string k @ 58 # dump_scalar v @ r) =
    (if hd r = 125 then Some ([(k, json_of_scalar v)], tl r)
     else if hd r = 44 then
       map_option (\<lambda>(ps, q). ((k, json_of_scalar v) # ps, q)) (read_members (skip_ws (tl r)))
     else None)"
proof -
  obtain e r4 where r: "r = e # r4" using assms(3) by (cases r) auto
  have len: "length (skip_ws r4) \<le> length r4" by (simp add: skip_ws_def length_dropWhile_le)
  let ?s = "concat (map json_escape_char k) @ 34 # 58 # dump_scalar v @ r"
  have "read_json_string ?s = Some (k, 58 # dump_scalar v @ r)"
    by (rule read_json_string_escaped)
  moreover have "read_json (dump_scalar v @ r) = Some (json_of_scalar v, r)"
    by (rule read_json_scalar) fact+
  ultimately show ?thesis using assms(4) len
    by (simp add: json_string_def read_members.simps [of "34 # _"] skip_ws_nonws is_ws_def
        skip_ws_scalar r)
qed

lemma skip_ws_dump_members: "ps \<noteq> [] \<Longrightarrow> skip_ws (dump_members ps @ r) = dump_members ps @ r"
  by (induction ps rule: dump_members.induct)
    (simp_all add: json_string_def skip_ws_nonws is_ws_def)

lemma read_members_written:
  assumes "doc \<noteq> []" and "\<forall>(k, v) \<in> set doc. short_scalar v"
  shows "read_members (dump_members doc @ 125 # r) =
    Some (map (\<lambda>(k, v). (k, json_of_scalar v)) doc, r)"
  using assms
proof (induction doc rule: dump_members.induct)
  case (2 k v)
  then show ?case using read_member [of "125 # r" v k] by (simp add: ends_number_def is_ws_def is_digit_def)
next
  case (3 k v p ps)
  then show ?case
    using read_member [of "44 # dump_members (p # ps) @ 125 # r" v k]
    by (simp add: ends_number_def is_ws_def is_digit_def skip_ws_dump_members)
qed simp

lemma update_fresh: "k \<notin> fst ` set d \<Longrightarrow> AList.update k v d = d @ [(k, v)]"
  by (induction d) auto

lemma dict_of_pairs_distinct:
  assumes "distinct (map fst ps)"
  shows "dict_of_pairs ps = ps"
proof -
  have "foldl (\<lambda>d (k, v). AList.update k v d) d ps = d @ ps"
    if "distinct (map fst ps)" "fst ` set d \<inter> fst ` set ps = {}" for d
    using that
  proof (induction ps arbitrary: d)
    case (Cons p ps)
    obtain k v where p: "p = (k, v)" by (cases p)
    have "k \<notin> fst ` set d" using Cons.prems(2) p by auto
    moreover have "fst ` set (d @ [(k, v)]) \<inter> fst ` set ps = {}" using Cons.prems p by auto
    ultimately show ?case using Cons.IH [of "d @ [(k, v)]"] Cons.prems(1) p
      by (simp add: update_fresh)
  qed simp
  from this [of "[]"] show ?thesis using assms by (simp add: dict_of_pairs_def)
qed

text \<open>\<open>json.loads(json.dumps(doc, sort_keys=True))\<close> is the document with its keys sorted.\<close>

lemma loads_dumps:
  assumes "doc \<noteq> []" and "\<forall>(k, v) \<in> set doc. short_scalar v" and "distinct (map fst doc)"
  shows "json_loads (json_dumps doc) =
    Some (JObj (map (\<lambda>(k, v). (k, json_of_scalar v)) (sort_key fst doc)))"
proof -
  let ?sd = "sort_key fst doc"
  let ?js = "map (\<lambda>(k, v). (k, json_of_scalar v)) ?sd"
  have ne: "?sd \<noteq> []" using assms(1) by (metis length_0_conv length_sort)
  have sh: "\<forall>(k, v) \<in> set ?sd. short_scalar v" using assms(2) by simp
  have keys: "map fst ?js = map fst ?sd" by (simp add: case_prod_beta comp_def)
  have "distinct (map fst ?sd)" using assms(3) by (simp add: distinct_map)
  then have dict: "dict_of_pairs ?js = ?js" by (intro dict_of_pairs_distinct) (simp only: keys)
  obtain c t where ct: "dump_members ?sd = c # t" "c = 34"
    using ne by (cases ?sd rule: dump_members.cases) (auto simp: json_string_def)
  have skip: "skip_ws (dump_members ?sd @ [125]) = dump_members ?sd @ [125]"
    by (rule skip_ws_dump_members [OF ne])
  have mem: "read_members (dump_members ?sd @ [125]) = Some (?js, [])"
    using read_members_written [OF ne sh, of "[]"] by simp
  have "read_json (json_dumps doc) = Some (JObj ?js, [])"
    using skip mem ct by (simp add: json_dumps_def read_json.simps [of "123 # _"] dict)
  then show ?thesis
    by (simp add: json_loads_def json_dumps_def skip_ws_nonws is_ws_def)
      (simp add: skip_ws_def)
qed

end
