(* ===== verification/Event.thy ===== *)
theory Event
  imports Ilp Json
begin

section \<open>Versioned immutable events (event.py)\<close>

text \<open>
  \<open>EventEnvelope\<close> with its validation, its spool payload (\<open>to_bytes\<close>/\<open>from_bytes\<close>) and its ILP
  row (\<open>to_ilp\<close>). Validation runs on dynamic values, as it does in the source: \<open>from_bytes\<close>
  passes it whatever the document holds. The lemmas show that a payload restores the envelope
  that wrote it, that everything restored is valid, and that a valid envelope always encodes.
\<close>

definition EVENT_PAYLOAD_VERSION :: int where
  "EVENT_PAYLOAD_VERSION = 2"

definition SIGNED_64_MAX :: int where
  "SIGNED_64_MAX = 2 ^ 63 - 1"

definition event_error :: "string \<Rightarrow> exn" where
  "event_error m = mk_exn EventEnvelopeError (lit m)"

record envelope =
  event_id :: ustr
  entity_id :: ustr
  state :: ustr
  attributes_json :: ustr
  ingested_at_ns :: int
  last_changed_ns :: int
  last_updated_ns :: int
  context_id :: "ustr option"

text \<open>Unit of the spool (\<open>NewSpoolEvent\<close> of spool.py).\<close>

record new_spool_event =
  ne_event_id :: ustr
  ne_payload :: bytes
  ne_created_ns :: int

subsection \<open>Validation\<close>

definition check_string :: "string \<Rightarrow> json \<Rightarrow> bool \<Rightarrow> ustr res" where
  "check_string name value allow_empty =
     (case value of
        JStr s \<Rightarrow>
          (if \<not> allow_empty \<and> s = [] then Inl (event_error (name @ '' must be a non-empty string''))
           else if 0 \<in> set s then Inl (event_error (name @ '' must not contain NUL''))
           else Inr s)
      | _ \<Rightarrow> Inl (event_error (name @ '' must be '' @
               (if allow_empty then ''a string'' else ''a non-empty string''))))"

definition check_timestamp_ns :: "string \<Rightarrow> json \<Rightarrow> int res" where
  "check_timestamp_ns name value =
     (case value of
        JInt v \<Rightarrow>
          (if 0 \<le> v \<and> v \<le> SIGNED_64_MAX then Inr v
           else Inl (event_error (name @ '' must be a non-negative signed 64-bit integer'')))
      | _ \<Rightarrow> Inl (event_error (name @ '' must be a non-negative signed 64-bit integer'')))"

text \<open>\<open>s.partition(".")\<close>: the part before the first dot, whether there is one, the part after.\<close>

definition partition_dot :: "ustr \<Rightarrow> ustr \<times> bool \<times> ustr" where
  "partition_dot s =
     (let d = takeWhile (\<lambda>c. c \<noteq> 46) s; r = dropWhile (\<lambda>c. c \<noteq> 46) s in
      (d, r \<noteq> [], tl r))"

record raw_envelope =
  raw_event_id :: json
  raw_entity_id :: json
  raw_state :: json
  raw_attributes_json :: json
  raw_ingested_at_ns :: json
  raw_last_changed_ns :: json
  raw_last_updated_ns :: json
  raw_context_id :: json

definition check_entity_id :: "ustr \<Rightarrow> unit res" where
  "check_entity_id s =
     (case partition_dot s of (domain, separator, object_id) \<Rightarrow>
        if \<not> separator \<or> domain = [] \<or> object_id = []
        then Inl (event_error ''entity_id must contain a non-empty domain and object ID'')
        else Inr ())"

definition check_attributes_json :: "ustr \<Rightarrow> unit res" where
  "check_attributes_json s =
     (case json_loads s of
        None \<Rightarrow> Inl (event_error ''attributes_json is not valid JSON'')
      | Some (JObj _) \<Rightarrow> Inr ()
      | Some _ \<Rightarrow> Inl (event_error ''attributes_json must contain a JSON object''))"

definition check_context_id :: "json \<Rightarrow> ustr option res" where
  "check_context_id v =
     (if v = JNull then Inr None
      else bindR (check_string ''context_id'' v False) (\<lambda>s. Inr (Some s)))"

definition post_init :: "raw_envelope \<Rightarrow> envelope res" where
  "post_init r =
     bindR (check_string ''event_id'' (raw_event_id r) False) (\<lambda>eid.
     bindR (check_string ''entity_id'' (raw_entity_id r) False) (\<lambda>ent.
     bindR (check_entity_id ent) (\<lambda>_.
     bindR (check_string ''state'' (raw_state r) True) (\<lambda>st.
     bindR (check_string ''attributes_json'' (raw_attributes_json r) False) (\<lambda>attrs.
     bindR (check_attributes_json attrs) (\<lambda>_.
     bindR (check_timestamp_ns ''ingested_at_ns'' (raw_ingested_at_ns r)) (\<lambda>ing.
     bindR (check_timestamp_ns ''last_changed_ns'' (raw_last_changed_ns r)) (\<lambda>lch.
     bindR (check_timestamp_ns ''last_updated_ns'' (raw_last_updated_ns r)) (\<lambda>lup.
     bindR (check_context_id (raw_context_id r)) (\<lambda>ctx.
       Inr \<lparr>event_id = eid, entity_id = ent, state = st, attributes_json = attrs,
             ingested_at_ns = ing, last_changed_ns = lch, last_updated_ns = lup,
             context_id = ctx\<rparr>))))))))))"

definition domain_of :: "envelope \<Rightarrow> ustr" where
  "domain_of e = fst (partition_dot (entity_id e))"

subsection \<open>The spool payload\<close>

definition context_scalar :: "ustr option \<Rightarrow> scalar" where
  "context_scalar c = (case c of None \<Rightarrow> SNull | Some s \<Rightarrow> SStr s)"

text \<open>\<open>{"version": EVENT_PAYLOAD_VERSION, **asdict(self)}\<close>\<close>

definition document :: "envelope \<Rightarrow> (ustr \<times> scalar) list" where
  "document e =
     [(lit ''version'', SInt EVENT_PAYLOAD_VERSION),
      (lit ''event_id'', SStr (event_id e)),
      (lit ''entity_id'', SStr (entity_id e)),
      (lit ''state'', SStr (state e)),
      (lit ''attributes_json'', SStr (attributes_json e)),
      (lit ''ingested_at_ns'', SInt (ingested_at_ns e)),
      (lit ''last_changed_ns'', SInt (last_changed_ns e)),
      (lit ''last_updated_ns'', SInt (last_updated_ns e)),
      (lit ''context_id'', context_scalar (context_id e))]"

definition to_bytes :: "envelope \<Rightarrow> bytes res" where
  "to_bytes e = utf8_encode (json_dumps (document e))"

definition field_names :: "ustr list" where
  "field_names = map lit [''event_id'', ''entity_id'', ''state'', ''attributes_json'',
     ''ingested_at_ns'', ''last_changed_ns'', ''last_updated_ns'', ''context_id'']"

text \<open>Python's \<open>==\<close> between a document value and an int: a float compares by value, a bool as 0 or 1.\<close>

fun json_equals_int :: "json \<Rightarrow> int \<Rightarrow> bool" where
  "json_equals_int (JInt v) i = (v = i)"
| "json_equals_int (JFloat q) i = (q = of_int i)"
| "json_equals_int (JBool b) i = ((if b then 1 else 0) = i)"
| "json_equals_int _ i = False"

definition field :: "(ustr \<times> json) list \<Rightarrow> string \<Rightarrow> json" where
  "field doc k = (case map_of doc (lit k) of Some v \<Rightarrow> v | None \<Rightarrow> JNull)"

definition from_bytes :: "bytes \<Rightarrow> envelope res" where
  "from_bytes payload =
     (if payload = [] then Inl (event_error ''event payload must be non-empty bytes'') else
      case Option.bind (utf8_decode payload) json_loads of
        None \<Rightarrow> Inl (event_error ''event payload is not valid UTF-8 JSON'')
      | Some (JObj doc) \<Rightarrow>
          (if \<not> (case map_of doc (lit ''version'') of
                   None \<Rightarrow> False | Some v \<Rightarrow> json_equals_int v EVENT_PAYLOAD_VERSION)
           then Inl (event_error ''unsupported event payload version'') else
           let doc' = AList.delete (lit ''version'') doc in
           if set (map fst doc') \<noteq> set field_names
           then Inl (event_error ''event payload has unexpected fields'')
           else post_init
             \<lparr>raw_event_id = field doc' ''event_id'', raw_entity_id = field doc' ''entity_id'',
              raw_state = field doc' ''state'',
              raw_attributes_json = field doc' ''attributes_json'',
              raw_ingested_at_ns = field doc' ''ingested_at_ns'',
              raw_last_changed_ns = field doc' ''last_changed_ns'',
              raw_last_updated_ns = field doc' ''last_updated_ns'',
              raw_context_id = field doc' ''context_id''\<rparr>)
      | Some _ \<Rightarrow> Inl (event_error ''event payload must contain a JSON object''))"

definition to_spool_event :: "envelope \<Rightarrow> new_spool_event res" where
  "to_spool_event e =
     bindR (to_bytes e) (\<lambda>payload.
       Inr \<lparr>ne_event_id = event_id e, ne_payload = payload, ne_created_ns = ingested_at_ns e\<rparr>)"

subsection \<open>The ILP row\<close>

definition ilp_symbols :: "envelope \<Rightarrow> (ustr \<times> ustr option) list" where
  "ilp_symbols e =
     [(lit ''entity_id'', Some (entity_id e)), (lit ''domain'', Some (domain_of e))]"

definition ilp_fields :: "envelope \<Rightarrow> (ustr \<times> field_value) list" where
  "ilp_fields e =
     [(lit ''event_id'', FStr (event_id e)),
      (lit ''state'', FStr (state e)),
      (lit ''attributes'', FStr (attributes_json e)),
      (lit ''ingested_at'', FTimestampMicros (ingested_at_ns e div 1000)),
      (lit ''last_changed'', FTimestampMicros (last_changed_ns e div 1000)),
      (lit ''context_id'', case context_id e of None \<Rightarrow> FNone | Some c \<Rightarrow> FStr c)]"

definition to_ilp :: "envelope \<Rightarrow> ustr \<Rightarrow> bytes res" where
  "to_ilp e table = encode_row table (ilp_symbols e) (ilp_fields e) (last_updated_ns e)"

subsection \<open>Valid envelopes\<close>

definition timestamp_ok :: "int \<Rightarrow> bool" where
  "timestamp_ok v \<longleftrightarrow> 0 \<le> v \<and> v \<le> SIGNED_64_MAX"

definition valid_envelope :: "envelope \<Rightarrow> bool" where
  "valid_envelope e \<longleftrightarrow>
     event_id e \<noteq> [] \<and> 0 \<notin> set (event_id e) \<and>
     0 \<notin> set (entity_id e) \<and>
     (\<exists>d o'. entity_id e = d @ 46 # o' \<and> d \<noteq> [] \<and> 46 \<notin> set d \<and> o' \<noteq> []) \<and>
     0 \<notin> set (state e) \<and>
     attributes_json e \<noteq> [] \<and> 0 \<notin> set (attributes_json e) \<and>
     (\<exists>obj. json_loads (attributes_json e) = Some (JObj obj)) \<and>
     timestamp_ok (ingested_at_ns e) \<and> timestamp_ok (last_changed_ns e) \<and>
     timestamp_ok (last_updated_ns e) \<and>
     (\<forall>c. context_id e = Some c \<longrightarrow> c \<noteq> [] \<and> 0 \<notin> set c)"

text \<open>The values the constructor gets when the listener builds an envelope, or when a restored
  document holds exactly these fields.\<close>

definition raw_of_envelope :: "envelope \<Rightarrow> raw_envelope" where
  "raw_of_envelope e =
     \<lparr>raw_event_id = JStr (event_id e), raw_entity_id = JStr (entity_id e),
      raw_state = JStr (state e), raw_attributes_json = JStr (attributes_json e),
      raw_ingested_at_ns = JInt (ingested_at_ns e), raw_last_changed_ns = JInt (last_changed_ns e),
      raw_last_updated_ns = JInt (last_updated_ns e),
      raw_context_id = (case context_id e of None \<Rightarrow> JNull | Some c \<Rightarrow> JStr c)\<rparr>"

lemma check_string_Inr:
  "check_string name v ae = Inr s \<longleftrightarrow> v = JStr s \<and> (ae \<or> s \<noteq> []) \<and> 0 \<notin> set s"
  by (auto simp: check_string_def split: json.splits)

lemma check_timestamp_Inr: "check_timestamp_ns name v = Inr i \<longleftrightarrow> v = JInt i \<and> timestamp_ok i"
  by (auto simp: check_timestamp_ns_def timestamp_ok_def split: json.splits)

lemma check_attributes_Inr: "check_attributes_json s = Inr () \<longleftrightarrow> (\<exists>obj. json_loads s = Some (JObj obj))"
  by (auto simp: check_attributes_json_def split: option.splits json.splits)

lemma check_context_Inr:
  "check_context_id v = Inr c \<longleftrightarrow>
     (case c of None \<Rightarrow> v = JNull | Some s \<Rightarrow> v = JStr s \<and> s \<noteq> [] \<and> 0 \<notin> set s)"
  by (auto simp: check_context_id_def bindR_eq_Inr check_string_Inr split: option.splits)

lemma partition_dot_eq:
  "partition_dot s = (d, True, r) \<longleftrightarrow> s = d @ 46 # r \<and> 46 \<notin> set d"
proof
  assume "partition_dot s = (d, True, r)"
  then have d: "d = takeWhile (\<lambda>c. c \<noteq> 46) s" and ne: "dropWhile (\<lambda>c. c \<noteq> 46) s \<noteq> []"
    and r: "r = tl (dropWhile (\<lambda>c. c \<noteq> 46) s)"
    by (auto simp: partition_dot_def Let_def)
  have "hd (dropWhile (\<lambda>c. c \<noteq> 46) s) = 46" using hd_dropWhile [OF ne] by simp
  then have "dropWhile (\<lambda>c. c \<noteq> 46) s = 46 # r" using ne r by (metis list.collapse)
  then show "s = d @ 46 # r \<and> 46 \<notin> set d"
    using d by (metis (mono_tags) set_takeWhileD takeWhile_dropWhile_id)
next
  assume s: "s = d @ 46 # r \<and> 46 \<notin> set d"
  then have "\<forall>c \<in> set d. c \<noteq> 46" by auto
  then show "partition_dot s = (d, True, r)"
    using s by (simp add: partition_dot_def Let_def takeWhile_append2 dropWhile_append2)
qed

lemma check_entity_id_Inr:
  "check_entity_id s = Inr () \<longleftrightarrow>
     (\<exists>d r. s = d @ 46 # r \<and> d \<noteq> [] \<and> 46 \<notin> set d \<and> r \<noteq> [])"
proof -
  obtain d b r where p: "partition_dot s = (d, b, r)" by (cases "partition_dot s")
  show ?thesis
  proof (cases b)
    case True
    then have s: "s = d @ 46 # r \<and> 46 \<notin> set d" using p partition_dot_eq by simp
    have unique: "d' = d \<and> r' = r" if "s = d' @ 46 # r'" "46 \<notin> set d'" for d' r'
      using that partition_dot_eq [of s d' r'] p True by simp
    have "check_entity_id s = Inr () \<longleftrightarrow> d \<noteq> [] \<and> r \<noteq> []"
      using p True by (auto simp: check_entity_id_def)
    also have "\<dots> \<longleftrightarrow> (\<exists>d r. s = d @ 46 # r \<and> d \<noteq> [] \<and> 46 \<notin> set d \<and> r \<noteq> [])"
      using s unique by blast
    finally show ?thesis .
  next
    case False
    have none: "\<not> (s = d' @ 46 # r' \<and> 46 \<notin> set d')" for d' r'
      using partition_dot_eq [of s d' r'] p False by simp
    have "check_entity_id s \<noteq> Inr ()" using p False by (simp add: check_entity_id_def)
    then show ?thesis using none by blast
  qed
qed

lemma post_init_Inr:
  "post_init r = Inr e \<longleftrightarrow> r = raw_of_envelope e \<and> valid_envelope e"
proof
  assume "post_init r = Inr e"
  then show "r = raw_of_envelope e \<and> valid_envelope e"
    by (cases r, cases e)
      (auto simp: post_init_def bindR_eq_Inr check_string_Inr check_timestamp_Inr
        check_attributes_Inr check_context_Inr check_entity_id_Inr raw_of_envelope_def
        valid_envelope_def split: option.splits)
next
  assume r: "r = raw_of_envelope e \<and> valid_envelope e"
  then have "check_entity_id (entity_id e) = Inr ()" "check_attributes_json (attributes_json e) = Inr ()"
    by (auto simp: check_entity_id_Inr check_attributes_Inr valid_envelope_def)
  moreover have "check_context_id (raw_context_id r) = Inr (context_id e)"
    using r by (auto simp: check_context_Inr raw_of_envelope_def valid_envelope_def split: option.splits)
  moreover have "entity_id e \<noteq> []" using r by (auto simp: valid_envelope_def)
  ultimately show "post_init r = Inr e"
    using r by (simp add: post_init_def raw_of_envelope_def check_string_def check_timestamp_ns_def
        valid_envelope_def timestamp_ok_def)
qed

lemma from_bytes_valid: "from_bytes p = Inr e \<Longrightarrow> valid_envelope e"
  by (auto simp: from_bytes_def Let_def post_init_Inr split: if_splits option.splits json.splits)

subsection \<open>The payload restores the envelope\<close>

lemma nat_str_length: "n < 10 ^ k \<Longrightarrow> 0 < k \<Longrightarrow> length (nat_str n) \<le> k"
proof (induction n arbitrary: k rule: nat_str.induct)
  case (1 n)
  show ?case
  proof (cases "n < 10")
    case True
    then show ?thesis using 1 by (subst nat_str.simps) simp
  next
    case False
    have "k \<noteq> 1" using False 1(2) by auto
    then obtain j where j: "k = Suc j" "0 < j" using 1(3) by (cases k) auto
    then have "n div 10 < 10 ^ j" using 1(2) by (simp add: less_mult_imp_div_less mult.commute)
    then have "length (nat_str (n div 10)) \<le> j" using 1(1) False j by simp
    then show ?thesis using False j by (subst nat_str.simps) simp
  qed
qed

lemma short_int_64: "\<bar>i\<bar> < 10 ^ 19 \<Longrightarrow> short_int i"
proof -
  assume "\<bar>i\<bar> < 10 ^ 19"
  then have "nat \<bar>i\<bar> < 10 ^ 19" by (simp add: nat_less_iff)
  then have "length (nat_str (nat \<bar>i\<bar>)) \<le> 19" by (rule nat_str_length) simp
  then show ?thesis by (simp add: short_int_def max_int_digits_def)
qed

lemma timestamp_short: "timestamp_ok i \<Longrightarrow> short_int i"
  by (rule short_int_64) (simp add: timestamp_ok_def SIGNED_64_MAX_def)

lemmas field_literals = lit_def

lemma document_sorted:
  "sort_key fst (document e) =
     [(lit ''attributes_json'', SStr (attributes_json e)),
      (lit ''context_id'', context_scalar (context_id e)),
      (lit ''entity_id'', SStr (entity_id e)),
      (lit ''event_id'', SStr (event_id e)),
      (lit ''ingested_at_ns'', SInt (ingested_at_ns e)),
      (lit ''last_changed_ns'', SInt (last_changed_ns e)),
      (lit ''last_updated_ns'', SInt (last_updated_ns e)),
      (lit ''state'', SStr (state e)),
      (lit ''version'', SInt EVENT_PAYLOAD_VERSION)]"
  by (simp add: document_def lit_def)

lemma document_keys_distinct: "distinct (map fst (document e))"
  by (simp add: document_def lit_def)

lemma document_short: "valid_envelope e \<Longrightarrow> \<forall>(k, v) \<in> set (document e). short_scalar v"
  by (auto simp: document_def valid_envelope_def timestamp_short context_scalar_def
      EVENT_PAYLOAD_VERSION_def short_int_64 split: option.splits)

lemma document_loads:
  assumes "valid_envelope e"
  shows "json_loads (json_dumps (document e)) =
    Some (JObj (map (\<lambda>(k, v). (k, json_of_scalar v)) (sort_key fst (document e))))"
  using assms by (intro loads_dumps document_short document_keys_distinct) (simp add: document_def)

lemma json_dumps_not_Nil: "json_dumps doc \<noteq> []"
  by (simp add: json_dumps_def)

lemma from_bytes_to_bytes:
  assumes "valid_envelope e" and "to_bytes e = Inr p"
  shows "from_bytes p = Inr e"
proof -
  have p: "encodable (json_dumps (document e))" "p = utf8_bytes (json_dumps (document e))"
    using assms(2) by (auto simp: to_bytes_def utf8_encode_def split: if_splits)
  have ctx: "json_of_scalar (context_scalar c) = (case c of None \<Rightarrow> JNull | Some s \<Rightarrow> JStr s)" for c
    by (simp add: context_scalar_def split: option.splits)
  have "post_init (raw_of_envelope e) = Inr e" using assms(1) by (simp add: post_init_Inr)
  then show ?thesis using p document_loads [OF assms(1)]
    by (simp add: from_bytes_def json_dumps_not_Nil Let_def document_sorted field_names_def field_def
        lit_def EVENT_PAYLOAD_VERSION_def raw_of_envelope_def ctx insert_commute)
qed

subsection \<open>Encoding a valid envelope\<close>

lemma timestamp_micros_ok: "timestamp_ok v \<Longrightarrow> signed_64_open (v div 1000)"
  by (auto simp: timestamp_ok_def SIGNED_64_MAX_def signed_64_open_def)

lemma valid_domain: "valid_envelope e \<Longrightarrow> domain_of e \<noteq> [] \<and> 0 \<notin> set (domain_of e)"
proof -
  assume v: "valid_envelope e"
  then obtain d r where dr: "entity_id e = d @ 46 # r" "d \<noteq> []" "46 \<notin> set d"
    by (auto simp: valid_envelope_def)
  then have "partition_dot (entity_id e) = (d, True, r)" by (simp add: partition_dot_eq)
  then show ?thesis using dr v by (simp add: domain_of_def valid_envelope_def)
qed

lemma escape_identifier_ok:
  "v \<noteq> [] \<Longrightarrow> 0 \<notin> set v \<Longrightarrow> escape_identifier v kind = Inr (escape_ident_text v)"
  by (simp add: escape_identifier_def require_name_def)

lemma lit_eq_Nil [simp]: "lit s = [] \<longleftrightarrow> s = []"
  by (simp add: lit_def)

lemma valid_line:
  assumes "valid_envelope e" and "table \<noteq> []" and "0 \<notin> set table"
  shows "\<exists>s. encode_line table (ilp_symbols e) (ilp_fields e) (last_updated_ns e) = Inr s"
proof -
  have key: "escape_identifier (lit k) kind = Inr (escape_ident_text (lit k))"
    if "k \<noteq> []" "0 \<notin> set (lit k)" for k kind
    using that by (intro escape_identifier_ok) auto
  have sym: "\<exists>ps. encode_symbols (ilp_symbols e) = Inr ps"
    using assms(1) valid_domain [OF assms(1)]
    by (auto simp: ilp_symbols_def escape_identifier_ok key lit_def valid_envelope_def)
  have flds: "\<exists>ps. encode_fields (ilp_fields e) = Inr ps \<and> ps \<noteq> []"
    using assms(1)
    by (auto simp: ilp_fields_def escape_identifier_ok lit_def valid_envelope_def
        timestamp_micros_ok escape_string_def split: option.splits)
  show ?thesis using sym flds assms(2,3)
    by (auto simp: encode_line_def escape_identifier_ok Let_def)
qed

subsection \<open>Text that was encodable in the payload is encodable in the row\<close>

lemma encodable_ascii: "\<forall>c \<in> set s. c < 128 \<Longrightarrow> encodable s"
  by (auto simp: encodable_def is_surrogate_def)

lemma ascii_nat_str: "encodable (nat_str n)"
  using nat_str_digits [of n] by (intro encodable_ascii) auto

lemma encodable_int_str [simp]: "encodable (int_str i)"
  by (simp add: int_str_def ascii_nat_str is_surrogate_def)

lemma encodable_lit_ascii: "\<forall>c \<in> set (lit s). c < 128 \<Longrightarrow> encodable (lit s)"
  by (rule encodable_ascii)

lemma encodable_concat_iff:
  "(\<And>c. encodable (f c) \<longleftrightarrow> encodable [c]) \<Longrightarrow> encodable (concat (map f s)) \<longleftrightarrow> encodable s"
  by (induction s) auto

lemma encodable_json_escape_char: "encodable (json_escape_char c) \<longleftrightarrow> encodable [c]"
proof (cases "c < 32")
  case True
  then have "c div 16 < 16" "c mod 16 < 16" by auto
  then show ?thesis using True
    by (auto simp: json_escape_char_def is_surrogate_def hex_digit_def)
next
  case False
  then show ?thesis by (auto simp: json_escape_char_def is_surrogate_def)
qed

lemma encodable_json_string: "encodable (json_string s) \<longleftrightarrow> encodable s"
  by (simp add: json_string_def encodable_concat_iff [OF encodable_json_escape_char] is_surrogate_def)

lemma encodable_escape_ident [simp]: "encodable (escape_ident_text s) \<longleftrightarrow> encodable s"
  unfolding escape_ident_text_eq
  by (rule encodable_concat_iff) (auto simp: ident_esc_def ident_stop_def is_surrogate_def)

lemma encodable_escape_string [simp]: "encodable (escape_string_text s) \<longleftrightarrow> encodable s"
  unfolding escape_string_text_eq
  by (rule encodable_concat_iff) (auto simp: string_esc_def is_surrogate_def)

lemma encodable_join: "encodable sep \<Longrightarrow> \<forall>p \<in> set ps. encodable p \<Longrightarrow> encodable (join sep ps)"
  by (induction sep ps rule: join.induct) auto

lemma encodable_dump_members:
  "encodable (dump_members ps) \<Longrightarrow> (k, SStr s) \<in> set ps \<Longrightarrow> encodable s"
  by (induction ps rule: dump_members.induct) (auto simp: encodable_json_string)

lemma payload_encodable:
  assumes "to_bytes e = Inr p"
  shows "encodable (event_id e) \<and> encodable (entity_id e) \<and> encodable (state e) \<and>
    encodable (attributes_json e) \<and> (\<forall>c. context_id e = Some c \<longrightarrow> encodable c)"
proof -
  have "encodable (dump_members (sort_key fst (document e)))"
    using assms by (auto simp: to_bytes_def utf8_encode_def json_dumps_def split: if_splits)
  from encodable_dump_members [OF this]
  have member: "encodable s" if "(k, SStr s) \<in> set (document e)" for k s
    using that by simp
  show ?thesis
    using member [of "lit ''event_id''" "event_id e"] member [of "lit ''entity_id''" "entity_id e"]
      member [of "lit ''state''" "state e"] member [of "lit ''attributes_json''" "attributes_json e"]
      member [of "lit ''context_id''" c for c]
    by (simp add: document_def context_scalar_def split: option.splits)
qed

lemma encodable_takeWhile: "encodable s \<Longrightarrow> encodable (takeWhile P s)"
  by (auto simp: encodable_def dest: set_takeWhileD)

lemma encodable_domain: "encodable (entity_id e) \<Longrightarrow> encodable (domain_of e)"
  by (simp add: domain_of_def partition_dot_def Let_def encodable_takeWhile)

lemma require_name_Inr: "require_name v kind = Inr x \<longleftrightarrow> v \<noteq> [] \<and> 0 \<notin> set v \<and> x = v"
  by (auto simp: require_name_def)

lemma encodable_symbols:
  "encode_symbols syms = Inr parts \<Longrightarrow>
     \<forall>(k, v) \<in> set syms. encodable k \<and> (\<forall>w. v = Some w \<longrightarrow> encodable w) \<Longrightarrow>
     \<forall>p \<in> set parts. encodable p"
  by (induction syms arbitrary: parts rule: encode_symbols.induct)
    (auto simp: bindR_eq_Inr escape_identifier_def require_name_Inr is_surrogate_def)

fun encodable_value :: "field_value \<Rightarrow> bool" where
  "encodable_value (FStr s) = encodable s"
| "encodable_value (FFloat (PyFinite s)) = encodable s"
| "encodable_value _ = True"

lemma encode_field_encodable:
  "encode_field v = Inr (Some t) \<Longrightarrow> encodable_value v \<Longrightarrow> encodable t"
  by (cases v)
    (auto simp: bindR_eq_Inr escape_string_def lit_def is_surrogate_def
      split: if_splits pyfloat.splits)

lemma encodable_fields:
  "encode_fields flds = Inr parts \<Longrightarrow> \<forall>(k, v) \<in> set flds. encodable k \<and> encodable_value v \<Longrightarrow>
     \<forall>p \<in> set parts. encodable p"
  by (induction flds arbitrary: parts rule: encode_fields.induct)
    (auto simp: bindR_eq_Inr escape_identifier_def require_name_Inr is_surrogate_def encode_field_encodable
      split: option.splits)

lemma encodable_line:
  assumes "encode_line table syms flds ts = Inr s" and "encodable table"
    and "\<forall>(k, v) \<in> set syms. encodable k \<and> (\<forall>w. v = Some w \<longrightarrow> encodable w)"
    and "\<forall>(k, v) \<in> set flds. encodable k \<and> encodable_value v"
  shows "encodable s"
  using assms encodable_symbols [OF _ assms(3)] encodable_fields [OF _ assms(4)]
  by (auto simp: encode_line_def bindR_eq_Inr escape_identifier_def require_name_Inr Let_def is_surrogate_def
      encodable_join split: if_splits)

definition valid_table :: "ustr \<Rightarrow> bool" where
  "valid_table t \<longleftrightarrow> t \<noteq> [] \<and> 0 \<notin> set t \<and> encodable t"

lemma to_ilp_total:
  assumes "valid_envelope e" and "to_bytes e = Inr p" and "valid_table table"
  shows "\<exists>row. to_ilp e table = Inr row"
proof -
  obtain s where s: "encode_line table (ilp_symbols e) (ilp_fields e) (last_updated_ns e) = Inr s"
    using valid_line assms by (auto simp: valid_table_def)
  note enc = payload_encodable [OF assms(2)]
  have "encodable s"
    by (rule encodable_line [OF s])
      (use assms(3) enc in \<open>auto simp: valid_table_def ilp_symbols_def ilp_fields_def encodable_domain
        lit_def is_surrogate_def split: option.splits\<close>)
  then show ?thesis using s by (auto simp: to_ilp_def encode_row_Inr)
qed

lemma row_ends_with_newline: "to_ilp e table = Inr row \<Longrightarrow> row \<noteq> [] \<and> last row = byte 10"
  by (auto simp: to_ilp_def encode_row_Inr encode_line_def bindR_eq_Inr Let_def split: if_splits)

subsection \<open>Properties\<close>

definition sample_envelope :: envelope where
  "sample_envelope =
     \<lparr>event_id = lit ''e1'', entity_id = lit ''sensor.kitchen'', state = lit ''21.5 C, \"ok\"'',
      attributes_json = lit ''{}'', ingested_at_ns = 3000, last_changed_ns = 1000,
      last_updated_ns = 2000, context_id = Some (lit ''c1'')\<rparr>"

definition sample_table :: ustr where
  "sample_table = lit ''hass''"

lemma sample_valid: "valid_envelope sample_envelope"
proof -
  have "json_loads (lit ''{}'') = Some (JObj [])"
    by (simp add: json_loads_def lit_def skip_ws_def is_ws_def read_json.simps [of "123 # _"])
  moreover have "\<exists>d r. lit ''sensor.kitchen'' = d @ 46 # r \<and> d \<noteq> [] \<and> 46 \<notin> set d \<and> r \<noteq> []"
    by (rule exI [of _ "lit ''sensor''"], rule exI [of _ "lit ''kitchen''"]) (simp add: lit_def)
  ultimately show ?thesis
    by (simp add: valid_envelope_def sample_envelope_def timestamp_ok_def SIGNED_64_MAX_def)
      (simp add: lit_def)
qed

lemma sample_payload: "\<exists>p. to_bytes sample_envelope = Inr p"
proof -
  have "encodable (json_dumps (document sample_envelope))"
    by (simp add: json_dumps_def document_sorted json_string_def encodable_json_string
        context_scalar_def is_surrogate_def sample_envelope_def)
      (simp add: lit_def is_surrogate_def json_escape_char_def)
  then show ?thesis by (simp add: to_bytes_def utf8_encode_def)
qed

lemma sample_table_valid: "valid_table sample_table"
  by (simp add: valid_table_def sample_table_def lit_def is_surrogate_def)

text \<open>
  C28: A spool payload restores the envelope that wrote it: for every valid envelope whose
  \<open>to_bytes\<close> succeeds, \<open>from_bytes\<close> returns exactly that envelope (JSON text, key order, UTF-8,
  version tag and the re-run validation included).
\<close>

theorem payload_round_trip:
  "valid_envelope e \<Longrightarrow> to_bytes e = Inr p \<Longrightarrow> from_bytes p = Inr e"
  by (rule from_bytes_to_bytes)

theorem payload_round_trip_witness:
  "\<exists>p. to_bytes sample_envelope = Inr p \<and> from_bytes p = Inr sample_envelope"
  using sample_payload payload_round_trip [OF sample_valid] by auto

text \<open>
  C27: No state or attribute text can forge line protocol: the concatenation of the ILP rows of
  any envelopes decodes as UTF-8 and reads back, by the grammar of escapes and separators, as one
  row per envelope in the same order, with the table, symbols, fields and designated timestamp
  of that envelope and nothing else.
\<close>

theorem ilp_batch_reads_back:
  assumes "list_all2 (\<lambda>e bs. to_ilp e table = Inr bs) es rows"
  shows "\<exists>s. utf8_decode (concat rows) = Some s \<and>
    read_rows (length es) s =
      Some (map (\<lambda>e. row_of table (ilp_symbols e) (ilp_fields e) (last_updated_ns e)) es)"
proof -
  let ?args = "map (\<lambda>e. (table, ilp_symbols e, ilp_fields e, last_updated_ns e)) es"
  have "list_all2 (\<lambda>a bs. encode_args a = Inr bs) ?args rows"
    using assms by (simp add: list_all2_map1 to_ilp_def)
  moreover have "list_all args_float_ok ?args"
    by (auto simp: list_all_iff ilp_fields_def split: option.splits)
  ultimately show ?thesis
    using batch_reads_back [of ?args rows] by (simp add: comp_def)
qed

theorem ilp_batch_reads_back_witness:
  "\<exists>row s. to_ilp sample_envelope sample_table = Inr row \<and> utf8_decode (concat [row, row]) = Some s \<and>
     read_rows 2 s = Some (replicate 2 (row_of sample_table (ilp_symbols sample_envelope)
       (ilp_fields sample_envelope) (last_updated_ns sample_envelope)))"
proof -
  obtain row where "to_ilp sample_envelope sample_table = Inr row"
    using sample_payload to_ilp_total [OF sample_valid _ sample_table_valid] by auto
  then show ?thesis
    using ilp_batch_reads_back [of sample_table "[sample_envelope, sample_envelope]" "[row, row]"]
    by (auto simp: numeral_2_eq_2)
qed

text \<open>
  C29: An event that was accepted into the spool never fails to encode: if a valid envelope
  serialises and the table name is a usable one, \<open>to_ilp\<close> of the envelope restored from its payload
  returns a row, which ends with a newline.
\<close>

theorem spooled_event_encodes:
  "valid_envelope e \<Longrightarrow> to_bytes e = Inr p \<Longrightarrow> valid_table table \<Longrightarrow>
     \<exists>row. bindR (from_bytes p) (\<lambda>e'. to_ilp e' table) = Inr row \<and> row \<noteq> [] \<and> last row = byte 10"
  using to_ilp_total row_ends_with_newline by (fastforce simp: from_bytes_to_bytes)

theorem spooled_event_encodes_witness:
  "\<exists>p row. to_bytes sample_envelope = Inr p \<and>
     bindR (from_bytes p) (\<lambda>e'. to_ilp e' sample_table) = Inr row \<and> last row = byte 10"
  using sample_payload spooled_event_encodes [OF sample_valid _ sample_table_valid] by blast

end
