(* ===== verification/SpoolDb.thy ===== *)
theory SpoolDb
  imports Event
begin

section \<open>The spool's SQLite connection (spool.py, the storage layer it uses)\<close>

text \<open>
  The three tables of the spool as SQLite holds them, the statements spool.py executes with their
  constraints, triggers and AUTOINCREMENT counters, and the connection: what is durable, what the
  open transaction sees, and a schedule of faults. \<open>faults s n = Some f\<close> means that statement
  number \<open>n\<close> fails with an arbitrary SQLite code and, as SQLite does for some codes, may roll the
  whole transaction back by itself. Every property that does not mention the schedule holds for
  all of them: a disk that fills up between any two statements, a failing COMMIT, a failing
  ROLLBACK.
\<close>

subsection \<open>Rows and tables\<close>

record pending_row =
  p_sequence :: int
  p_event_id :: ustr
  p_payload :: bytes
  p_created_ns :: int
  p_attempt_count :: int
  p_last_error :: "ustr option"
  p_uncertain :: int

record dead_row =
  d_id :: int
  d_original_sequence :: int
  d_event_id :: ustr
  d_payload :: bytes
  d_created_ns :: int
  d_failed_ns :: int
  d_attempt_count :: int
  d_last_error :: ustr
  d_uncertain :: int

record spool_stats =
  pending_rows :: int
  pending_bytes :: int
  dead_letter_rows :: int
  dead_letter_bytes :: int

record tables =
  pending :: "pending_row list"
  pending_seq :: int
  dead :: "dead_row list"
  dead_seq :: int
  stats_row :: "spool_stats option"
  user_version :: int

record limits =
  max_pending_rows :: int
  max_pending_bytes :: int
  max_event_bytes :: int
  max_dead_letter_rows :: int
  max_dead_letter_bytes :: int

subsection \<open>SQLite result codes\<close>

definition SQLITE_ERROR :: int where "SQLITE_ERROR = 1"
definition SQLITE_READONLY :: int where "SQLITE_READONLY = 8"
definition SQLITE_IOERR :: int where "SQLITE_IOERR = 10"
definition SQLITE_FULL :: int where "SQLITE_FULL = 13"
definition SQLITE_CANTOPEN :: int where "SQLITE_CANTOPEN = 14"
definition SQLITE_CONSTRAINT_CHECK :: int where "SQLITE_CONSTRAINT_CHECK = 275"
definition SQLITE_CONSTRAINT_UNIQUE :: int where "SQLITE_CONSTRAINT_UNIQUE = 2067"

definition SQLITE_INTEGER_MIN :: int where "SQLITE_INTEGER_MIN = - (2 ^ 63)"
definition SQLITE_INTEGER_MAX :: int where "SQLITE_INTEGER_MAX = 2 ^ 63 - 1"

definition sqlite_exn :: "int option \<Rightarrow> exn" where
  "sqlite_exn code = (mk_exn SqliteError [])\<lparr>exn_sqlite_code := code\<rparr>"

lemma exn_class_sqlite_exn [simp]: "exn_class (sqlite_exn c) = SqliteError"
  by (simp add: sqlite_exn_def)

record sql_fault =
  fault_code :: "int option"
  fault_rolls_back :: bool

subsection \<open>The connection\<close>

text \<open>
  What SQLite answers about its file layout and settings is its own business: \<open>pragmas p n\<close> is the
  answer to \<open>PRAGMA p\<close> executed as statement number \<open>n\<close>, \<open>wal_mode\<close> whether \<open>PRAGMA journal_mode =
  WAL\<close> answers \<open>wal\<close>, and \<open>disk_free\<close> what \<open>shutil.disk_usage\<close> reports (\<open>None\<close>: it raises
  \<open>OSError\<close>).
\<close>

datatype pragma = FreelistCount | AutoVacuum | WalCheckpointTruncate | Synchronous

record spool =
  durable :: tables
  working :: tables
  in_transaction :: bool
  opened :: bool
  faults :: "nat \<Rightarrow> sql_fault option"
  tick :: nat
  limits :: limits
  auto_vacuum :: int
  pragmas :: "pragma \<Rightarrow> nat \<Rightarrow> int"
  wal_mode :: bool
  disk_free :: "int option"

definition bump :: "spool \<Rightarrow> spool" where
  "bump s = s\<lparr>tick := Suc (tick s)\<rparr>"

text \<open>A statement fails by the schedule, fails by a constraint, or takes effect: in the open
  transaction, or at once when there is none.\<close>

definition after_fault :: "sql_fault \<Rightarrow> spool \<Rightarrow> spool" where
  "after_fault f s =
     (if fault_rolls_back f \<and> in_transaction s
      then s\<lparr>working := durable s, in_transaction := False\<rparr> else s)"

definition execute :: "(tables \<Rightarrow> exn + ('a \<times> tables)) \<Rightarrow> (spool, 'a) prog" where
  "execute stmt s =
     (case faults s (tick s) of
        Some f \<Rightarrow> (Inl (sqlite_exn (fault_code f)), bump (after_fault f s))
      | None \<Rightarrow>
          (case stmt (working s) of
             Inl e \<Rightarrow> (Inl e, bump s)
           | Inr (x, t) \<Rightarrow>
               (Inr x, bump (s\<lparr>working := t,
                  durable := (if in_transaction s then durable s else t)\<rparr>))))"

definition begin_immediate :: "(spool, unit) prog" where
  "begin_immediate s =
     (case faults s (tick s) of
        Some f \<Rightarrow> (Inl (sqlite_exn (fault_code f)), bump (after_fault f s))
      | None \<Rightarrow>
          (if in_transaction s then (Inl (sqlite_exn (Some SQLITE_ERROR)), bump s)
           else (Inr (), bump (s\<lparr>in_transaction := True\<rparr>))))"

definition commit :: "(spool, unit) prog" where
  "commit s =
     (case faults s (tick s) of
        Some f \<Rightarrow> (Inl (sqlite_exn (fault_code f)), bump (after_fault f s))
      | None \<Rightarrow> (Inr (), bump (s\<lparr>durable := working s, in_transaction := False\<rparr>)))"

definition rollback :: "(spool, unit) prog" where
  "rollback s =
     (case faults s (tick s) of
        Some f \<Rightarrow> (Inl (sqlite_exn (fault_code f)), bump (after_fault f s))
      | None \<Rightarrow> (Inr (), bump (s\<lparr>working := durable s, in_transaction := False\<rparr>)))"

text \<open>The property \<open>_db\<close>: using a closed spool raises.\<close>

definition require_open :: "(spool, unit) prog" where
  "require_open s =
     (if opened s then (Inr (), s)
      else (Inl (mk_exn SpoolClosedError (lit ''SQLite spool is closed'')), s))"

text \<open>The context manager \<open>_transaction\<close>: on any exception roll back what is still open and
  let the exception through; an exception of ROLLBACK itself takes its place.\<close>

definition transaction :: "(spool, 'a) prog \<Rightarrow> (spool, 'a) prog" where
  "transaction body =
     bindP require_open (\<lambda>_.
     bindP begin_immediate (\<lambda>_.
     catchP (bindP body (\<lambda>x. bindP commit (\<lambda>_. returnP x)))
       (\<lambda>e. bindP (getP in_transaction) (\<lambda>open_txn.
          if open_txn then bindP rollback (\<lambda>_. raiseP e) else raiseP e))))"

subsection \<open>Statements\<close>

text \<open>SQLite's \<open>length\<close> of a text counts the characters before the first NUL.\<close>

definition sql_length :: "ustr \<Rightarrow> nat" where
  "sql_length s = length (takeWhile (\<lambda>c. c \<noteq> 0) s)"

definition blob_bytes :: "bytes \<Rightarrow> int" where
  "blob_bytes p = int (length p)"

definition stats_checked :: "spool_stats option \<Rightarrow> bool" where
  "stats_checked st = (case st of None \<Rightarrow> True
     | Some x \<Rightarrow> 0 \<le> pending_rows x \<and> 0 \<le> pending_bytes x \<and> 0 \<le> dead_letter_rows x
         \<and> 0 \<le> dead_letter_bytes x)"

text \<open>The four triggers: each adds to or subtracts from the one row of \<open>spool_stats\<close>.\<close>

definition pending_delta :: "int \<Rightarrow> int \<Rightarrow> tables \<Rightarrow> tables" where
  "pending_delta n b t = t\<lparr>stats_row := map_option
     (\<lambda>x. x\<lparr>pending_rows := pending_rows x + n, pending_bytes := pending_bytes x + b\<rparr>) (stats_row t)\<rparr>"

definition dead_delta :: "int \<Rightarrow> int \<Rightarrow> tables \<Rightarrow> tables" where
  "dead_delta n b t = t\<lparr>stats_row := map_option
     (\<lambda>x. x\<lparr>dead_letter_rows := dead_letter_rows x + n,
           dead_letter_bytes := dead_letter_bytes x + b\<rparr>) (stats_row t)\<rparr>"

definition constraint_checked :: "tables \<Rightarrow> 'a \<Rightarrow> exn + ('a \<times> tables)" where
  "constraint_checked t x =
     (if stats_checked (stats_row t) then Inr (x, t)
      else Inl (sqlite_exn (Some SQLITE_CONSTRAINT_CHECK)))"

text \<open>\<open>SELECT payload, created_ns FROM pending ... UNION ALL ... FROM dead_letter ... LIMIT 1\<close>\<close>

definition stored_event :: "tables \<Rightarrow> ustr \<Rightarrow> (bytes \<times> int) option" where
  "stored_event t eid =
     (case find (\<lambda>r. p_event_id r = eid) (pending t) of
        Some r \<Rightarrow> Some (p_payload r, p_created_ns r)
      | None \<Rightarrow> map_option (\<lambda>r. (d_payload r, d_created_ns r))
                  (find (\<lambda>r. d_event_id r = eid) (dead t)))"

definition select_existing :: "ustr \<Rightarrow> tables \<Rightarrow> exn + ((bytes \<times> int) option \<times> tables)" where
  "select_existing eid t = Inr (stored_event t eid, t)"

definition select_stats :: "tables \<Rightarrow> exn + (spool_stats option \<times> tables)" where
  "select_stats t = Inr (stats_row t, t)"

definition new_pending_row :: "int \<Rightarrow> new_spool_event \<Rightarrow> pending_row" where
  "new_pending_row n ev =
     \<lparr>p_sequence = n, p_event_id = ne_event_id ev, p_payload = ne_payload ev,
      p_created_ns = ne_created_ns ev, p_attempt_count = 0, p_last_error = None, p_uncertain = 0\<rparr>"

definition insert_pending :: "new_spool_event \<Rightarrow> tables \<Rightarrow> exn + (unit \<times> tables)" where
  "insert_pending ev t =
     (if ne_event_id ev \<in> p_event_id ` set (pending t)
      then Inl (sqlite_exn (Some SQLITE_CONSTRAINT_UNIQUE))
      else if sql_length (ne_event_id ev) = 0 \<or> ne_payload ev = []
      then Inl (sqlite_exn (Some SQLITE_CONSTRAINT_CHECK))
      else if SQLITE_INTEGER_MAX \<le> pending_seq t then Inl (sqlite_exn (Some SQLITE_FULL))
      else
        let n = pending_seq t + 1 in
        constraint_checked
          (pending_delta 1 (blob_bytes (ne_payload ev))
             (t\<lparr>pending := pending t @ [new_pending_row n ev], pending_seq := n\<rparr>)) ())"

definition rows_with :: "int \<Rightarrow> tables \<Rightarrow> pending_row list" where
  "rows_with seq t = filter (\<lambda>r. p_sequence r = seq) (pending t)"

text \<open>\<open>DELETE FROM pending WHERE sequence = ?\<close>, with the row count.\<close>

definition delete_pending :: "int \<Rightarrow> tables \<Rightarrow> exn + (nat \<times> tables)" where
  "delete_pending seq t =
     constraint_checked
       (pending_delta (- int (length (rows_with seq t))) (- bytes_of p_payload (rows_with seq t))
          (t\<lparr>pending := filter (\<lambda>r. p_sequence r \<noteq> seq) (pending t)\<rparr>))
       (length (rows_with seq t))"

text \<open>\<open>delivery_uncertain = delivery_uncertain OR ?\<close>\<close>

definition sql_or :: "int \<Rightarrow> bool \<Rightarrow> int" where
  "sql_or a b = (if a \<noteq> 0 \<or> b then 1 else 0)"

definition touch_row :: "ustr \<Rightarrow> bool \<Rightarrow> pending_row \<Rightarrow> pending_row" where
  "touch_row err uncertain r =
     r\<lparr>p_attempt_count := p_attempt_count r + 1, p_last_error := Some err,
       p_uncertain := sql_or (p_uncertain r) uncertain\<rparr>"

definition update_attempt :: "ustr \<Rightarrow> bool \<Rightarrow> int \<Rightarrow> tables \<Rightarrow> exn + (nat \<times> tables)" where
  "update_attempt err uncertain seq t =
     Inr (length (rows_with seq t),
          t\<lparr>pending := map (\<lambda>r. if p_sequence r = seq then touch_row err uncertain r else r)
              (pending t)\<rparr>)"

definition select_pending :: "int \<Rightarrow> tables \<Rightarrow> exn + (pending_row option \<times> tables)" where
  "select_pending seq t = Inr (find (\<lambda>r. p_sequence r = seq) (pending t), t)"

text \<open>\<open>... ORDER BY sequence LIMIT ?\<close> and \<open>... ORDER BY dead_letter_id LIMIT ?\<close>\<close>

definition select_oldest_pending :: "int \<Rightarrow> tables \<Rightarrow> exn + (pending_row list \<times> tables)" where
  "select_oldest_pending n t = Inr (take (nat n) (sort_key p_sequence (pending t)), t)"

definition select_oldest_dead :: "int \<Rightarrow> tables \<Rightarrow> exn + (dead_row list \<times> tables)" where
  "select_oldest_dead n t = Inr (take (nat n) (sort_key d_id (dead t)), t)"

definition delete_dead :: "(dead_row \<Rightarrow> bool) \<Rightarrow> tables \<Rightarrow> exn + (nat \<times> tables)" where
  "delete_dead which t =
     constraint_checked
       (dead_delta (- int (length (filter which (dead t)))) (- bytes_of d_payload (filter which (dead t)))
          (t\<lparr>dead := filter (\<lambda>r. \<not> which r) (dead t)\<rparr>))
       (length (filter which (dead t)))"

definition insert_dead :: "dead_row \<Rightarrow> tables \<Rightarrow> exn + (unit \<times> tables)" where
  "insert_dead row t =
     (if d_original_sequence row \<in> d_original_sequence ` set (dead t)
         \<or> d_event_id row \<in> d_event_id ` set (dead t)
      then Inl (sqlite_exn (Some SQLITE_CONSTRAINT_UNIQUE))
      else if sql_length (d_event_id row) = 0 \<or> d_payload row = [] \<or> d_attempt_count row \<le> 0
         \<or> sql_length (d_last_error row) = 0
      then Inl (sqlite_exn (Some SQLITE_CONSTRAINT_CHECK))
      else if SQLITE_INTEGER_MAX \<le> dead_seq t then Inl (sqlite_exn (Some SQLITE_FULL))
      else
        constraint_checked
          (dead_delta 1 (blob_bytes (d_payload row))
             (t\<lparr>dead := dead t @ [row\<lparr>d_id := dead_seq t + 1\<rparr>], dead_seq := dead_seq t + 1\<rparr>)) ())"

text \<open>Statements without a visible effect on the tables, and the ones that answer about the file.\<close>

definition no_change :: "tables \<Rightarrow> exn + (unit \<times> tables)" where
  "no_change t = Inr ((), t)"

definition ask_pragma :: "pragma \<Rightarrow> (spool, int) prog" where
  "ask_pragma p = bindP (getP (\<lambda>s. pragmas s p (tick s))) (\<lambda>answer.
     bindP (execute no_change) (\<lambda>_. returnP answer))"

subsection \<open>Running statements inside a transaction\<close>

text \<open>
  \<open>inside L f d P\<close>: a transaction is open over the durable tables \<open>d\<close>, and the tables it sees
  satisfy \<open>P\<close>. \<open>outside L f d\<close>: the state an exception can leave, where nothing became durable.
\<close>

definition inside ::
    "limits \<Rightarrow> (nat \<Rightarrow> sql_fault option) \<Rightarrow> tables \<Rightarrow> (tables \<Rightarrow> bool) \<Rightarrow> spool \<Rightarrow> bool" where
  "inside L f d P s \<longleftrightarrow>
     in_transaction s \<and> durable s = d \<and> limits s = L \<and> faults s = f \<and> opened s \<and> P (working s)"

definition outside :: "limits \<Rightarrow> (nat \<Rightarrow> sql_fault option) \<Rightarrow> tables \<Rightarrow> spool \<Rightarrow> bool" where
  "outside L f d s \<longleftrightarrow>
     durable s = d \<and> limits s = L \<and> faults s = f \<and> opened s \<and>
     (\<not> in_transaction s \<longrightarrow> working s = d)"

definition idle :: "limits \<Rightarrow> (nat \<Rightarrow> sql_fault option) \<Rightarrow> tables \<Rightarrow> spool \<Rightarrow> bool" where
  "idle L f d s \<longleftrightarrow>
     \<not> in_transaction s \<and> working s = d \<and> durable s = d \<and> limits s = L \<and> faults s = f \<and> opened s"

definition no_faults :: "nat \<Rightarrow> sql_fault option" where
  "no_faults = (\<lambda>_. None)"

lemma bump_sel [simp]:
  "durable (bump s) = durable s" "working (bump s) = working s" "limits (bump s) = limits s"
  "faults (bump s) = faults s" "in_transaction (bump s) = in_transaction s" "opened (bump s) = opened s"
  "auto_vacuum (bump s) = auto_vacuum s" "tick (bump s) = Suc (tick s)" "disk_free (bump s) = disk_free s"
  by (simp_all add: bump_def)

lemma after_fault_sel [simp]:
  "durable (after_fault f s) = durable s" "limits (after_fault f s) = limits s"
  "faults (after_fault f s) = faults s" "opened (after_fault f s) = opened s"
  by (simp_all add: after_fault_def)

lemma after_fault_outside:
  "inside L f d P s \<Longrightarrow> outside L f d (bump (after_fault x s))"
  "idle L f d s \<Longrightarrow> outside L f d (bump (after_fault x s))"
  by (auto simp: inside_def outside_def idle_def after_fault_def)

text \<open>
  The rule for one statement: with \<open>err\<close> collecting the exceptions the statement itself can
  raise, an exception is either one of these or comes from a fault of the schedule.
\<close>

definition raises ::
    "limits \<Rightarrow> (nat \<Rightarrow> sql_fault option) \<Rightarrow> tables \<Rightarrow> (exn \<Rightarrow> bool) \<Rightarrow> exn \<Rightarrow> spool \<Rightarrow> bool" where
  "raises L f d err e s \<longleftrightarrow>
     outside L f d s \<and> (f = no_faults \<longrightarrow> err e) \<and> (exn_class e = SqliteError \<or> err e)"

lemma triple_execute:
  assumes "\<And>t x t'. P t \<Longrightarrow> stmt t = Inr (x, t') \<Longrightarrow> Q x t'"
    and "\<And>t e. P t \<Longrightarrow> stmt t = Inl e \<Longrightarrow> err e"
  shows "triple (inside L f d P) (execute stmt) (\<lambda>x. inside L f d (Q x)) (raises L f d err)"
proof (rule tripleI)
  fix s e s'
  assume i: "inside L f d P s" and ex: "execute stmt s = (Inl e, s')"
  show "raises L f d err e s'"
  proof (cases "faults s (tick s)")
    case None
    then show ?thesis using i ex assms(2) [of "working s" e]
      by (auto simp: execute_def raises_def outside_def inside_def split: sum.splits)
  next
    case (Some x)
    then have e: "e = sqlite_exn (fault_code x)" "s' = bump (after_fault x s)"
      using ex by (auto simp: execute_def)
    have "f \<noteq> no_faults" using Some i by (auto simp: inside_def no_faults_def)
    then show ?thesis using e after_fault_outside(1) [OF i] by (simp add: raises_def)
  qed
next
  fix s x s'
  assume i: "inside L f d P s" and ex: "execute stmt s = (Inr x, s')"
  then show "inside L f d (Q x) s'" using assms(1) [of "working s"]
    by (auto simp: execute_def inside_def split: option.splits sum.splits)
qed

text \<open>
  \<open>sim m g\<close>: inside a transaction the program \<open>m\<close> does to the tables what the pure function \<open>g\<close>
  does, unless a fault of the schedule stops it with an SQLite error. One rule per combinator
  turns every transaction body into a function on tables.
\<close>

type_synonym 'a on_tables = "limits \<Rightarrow> tables \<Rightarrow> exn + ('a \<times> tables)"

definition sim :: "(spool, 'a) prog \<Rightarrow> 'a on_tables \<Rightarrow> bool" where
  "sim m g \<longleftrightarrow> (\<forall>L f d t0. triple (inside L f d (\<lambda>t. t = t0)) m
     (\<lambda>x. inside L f d (\<lambda>t. g L t0 = Inr (x, t))) (raises L f d (\<lambda>e. g L t0 = Inl e)))"

definition returnT :: "'a \<Rightarrow> 'a on_tables" where
  "returnT x L t = Inr (x, t)"

definition raiseT :: "exn \<Rightarrow> 'a on_tables" where
  "raiseT e L t = Inl e"

definition stmtT :: "(tables \<Rightarrow> exn + ('a \<times> tables)) \<Rightarrow> 'a on_tables" where
  "stmtT stmt L t = stmt t"

definition bindT :: "'a on_tables \<Rightarrow> ('a \<Rightarrow> 'b on_tables) \<Rightarrow> 'b on_tables" where
  "bindT g h L t = (case g L t of Inl e \<Rightarrow> Inl e | Inr (x, t') \<Rightarrow> h x L t')"

primrec forT :: "('x \<Rightarrow> unit on_tables) \<Rightarrow> 'x list \<Rightarrow> unit on_tables" where
  "forT h [] = returnT ()"
| "forT h (x # xs) = bindT (h x) (\<lambda>_. forT h xs)"

primrec mapT :: "('x \<Rightarrow> 'a on_tables) \<Rightarrow> 'x list \<Rightarrow> 'a list on_tables" where
  "mapT h [] = returnT []"
| "mapT h (x # xs) = bindT (h x) (\<lambda>y. bindT (mapT h xs) (\<lambda>ys. returnT (y # ys)))"

named_theorems sim_intros \<open>rules for sim\<close>

lemma simD:
  "sim m g \<Longrightarrow> triple (inside L f d (\<lambda>t. t = t0)) m
     (\<lambda>x. inside L f d (\<lambda>t. g L t0 = Inr (x, t))) (raises L f d (\<lambda>e. g L t0 = Inl e))"
  by (simp add: sim_def)

lemma sim_execute [sim_intros]: "sim (execute stmt) (stmtT stmt)"
  unfolding sim_def stmtT_def by (intro allI triple_execute) auto

lemma sim_return [sim_intros]: "sim (returnP x) (returnT x)"
  by (auto simp: sim_def triple_def inside_def returnT_def)

lemma sim_raise [sim_intros]: "sim (raiseP e) (raiseT e)"
  by (auto simp: sim_def triple_def inside_def raises_def outside_def raiseT_def)

lemma sim_require_open [sim_intros]: "sim require_open (returnT ())"
  by (auto simp: sim_def triple_def inside_def require_open_def returnT_def)

lemma sim_limits [sim_intros]:
  assumes "\<And>L. sim (h L) (g L)"
  shows "sim (bindP (getP limits) h) (\<lambda>L. g L L)"
proof -
  have "triple (inside L f d (\<lambda>t. t = t0)) (bindP (getP limits) h)
      (\<lambda>x. inside L f d (\<lambda>t. g L L t0 = Inr (x, t))) (raises L f d (\<lambda>e. g L L t0 = Inl e))" for L f d t0
    using simD [OF assms [of L]] unfolding triple_def bindP_def by (force simp: inside_def)
  then show ?thesis by (simp add: sim_def)
qed

lemma sim_bind [sim_intros]:
  assumes "sim m g" and "\<And>x. sim (k x) (h x)"
  shows "sim (bindP m k) (bindT g h)"
  unfolding sim_def
proof (intro allI tripleI)
  fix L f d t0 s e s'
  assume i: "inside L f d (\<lambda>t. t = t0) s" and b: "bindP m k s = (Inl e, s')"
  show "raises L f d (\<lambda>e. bindT g h L t0 = Inl e) e s'"
  proof (cases "m s")
    case (Pair r s1)
    show ?thesis
    proof (cases r)
      case (Inl e1)
      with triple_InlD [OF simD [OF assms(1)] i] Pair b show ?thesis
        by (auto simp: bindP_def raises_def bindT_def)
    next
      case (Inr x)
      with triple_InrD [OF simD [OF assms(1)] i] Pair have
        "inside L f d (\<lambda>t. t = working s1) s1" "g L t0 = Inr (x, working s1)"
        by (auto simp: inside_def)
      with triple_InlD [OF simD [OF assms(2)]] b Pair Inr show ?thesis
        by (fastforce simp: bindP_def bindT_def raises_def)
    qed
  qed
next
  fix L f d t0 s x s'
  assume i: "inside L f d (\<lambda>t. t = t0) s" and b: "bindP m k s = (Inr x, s')"
  then obtain y s1 where m: "m s = (Inr y, s1)" and k: "k y s1 = (Inr x, s')"
    by (auto simp: bindP_def split: prod.splits sum.splits)
  from triple_InrD [OF simD [OF assms(1)] i m] have
    "inside L f d (\<lambda>t. t = working s1) s1" "g L t0 = Inr (y, working s1)"
    by (auto simp: inside_def)
  with triple_InrD [OF simD [OF assms(2)] _ k]
  show "inside L f d (\<lambda>t. bindT g h L t0 = Inr (x, t)) s'" by (simp add: bindT_def)
qed

lemma sim_for [sim_intros]: "(\<And>x. sim (h x) (g x)) \<Longrightarrow> sim (forP h xs) (forT g xs)"
  by (induction xs) (auto intro: sim_intros)

lemma sim_map [sim_intros]: "(\<And>x. sim (h x) (g x)) \<Longrightarrow> sim (mapP h xs) (mapT g xs)"
  by (induction xs) (auto intro!: sim_intros)

lemma sim_if [sim_intros]:
  "sim m g \<Longrightarrow> sim m' g' \<Longrightarrow> sim (if b then m else m') (if b then g else g')"
  by simp

text \<open>
  The transaction rule. On success the tables the body built are durable; on an exception
  nothing is, and the exception is one of the body's or comes from a fault.
\<close>

lemma triple_transaction:
  assumes body: "triple (inside L f d (\<lambda>t. t = d)) body (\<lambda>x. inside L f d (Q x)) (raises L f d err)"
  shows "triple (idle L f d) (transaction body) (\<lambda>x s. \<exists>d'. Q x d' \<and> idle L f d' s)
    (\<lambda>e s. raises L f d err e s \<and> (f = no_faults \<longrightarrow> idle L f d s))"
proof -
  let ?E = "\<lambda>e s. raises L f d err e s \<and> (f = no_faults \<longrightarrow> idle L f d s)"
  have start: "triple (idle L f d) begin_immediate (\<lambda>_. inside L f d (\<lambda>t. t = d)) ?E"
    by (rule tripleI)
      (auto simp: begin_immediate_def idle_def inside_def raises_def outside_def after_fault_def
        no_faults_def split: option.splits)
  have commit: "triple (inside L f d (Q x)) (bindP commit (\<lambda>_. returnP x))
      (\<lambda>x s. \<exists>d'. Q x d' \<and> idle L f d' s) (raises L f d err)" for x
  proof (rule tripleI)
    fix s e s'
    assume i: "inside L f d (Q x) s" and "bindP commit (\<lambda>_. returnP x) s = (Inl e, s')"
    then obtain y where "f (tick s) = Some y" "e = sqlite_exn (fault_code y)"
        "s' = bump (after_fault y s)"
      by (auto simp: bindP_def commit_def inside_def split: option.splits)
    then show "raises L f d err e s'"
      using after_fault_outside(1) [OF i] by (auto simp: raises_def no_faults_def)
  next
    fix s v s'
    assume i: "inside L f d (Q x) s" and "bindP commit (\<lambda>_. returnP x) s = (Inr v, s')"
    then show "\<exists>d'. Q v d' \<and> idle L f d' s'"
      by (auto simp: bindP_def commit_def inside_def idle_def split: option.splits
          intro!: exI [of _ "working s"])
  qed
  have handler: "triple (raises L f d err e) (bindP (getP in_transaction) (\<lambda>open_txn.
          if open_txn then bindP rollback (\<lambda>_. raiseP e) else raiseP e))
      Q' ?E" for e Q'
    by (rule tripleI)
      (auto simp: bindP_def idle_def rollback_def raises_def outside_def after_fault_def no_faults_def
        split: option.splits if_splits)
  have opened: "triple (idle L f d) require_open (\<lambda>_. idle L f d) ?E"
    by (auto simp: triple_def require_open_def idle_def)
  show ?thesis
    unfolding transaction_def
    by (intro triple_bind [OF opened] triple_bind [OF start]
        triple_catch [OF triple_bind [OF body commit] handler])
qed

lemma transaction_sim:
  assumes "sim body g"
  shows "triple (idle L f d) (transaction body) (\<lambda>x s. \<exists>d'. g L d = Inr (x, d') \<and> idle L f d' s)
    (\<lambda>e s. raises L f d (\<lambda>e. g L d = Inl e) e s \<and> (f = no_faults \<longrightarrow> idle L f d s))"
  by (rule triple_transaction [OF simD [OF assms]])

end
