(* ===== verification/Spool.thy ===== *)
theory Spool
  imports SpoolDb
begin

section \<open>The durable queue (spool.py, class SQLiteSpool)\<close>

text \<open>
  Every method of \<open>SQLiteSpool\<close> over the connection model of SpoolDb: argument checks, the
  transaction, the statements in the source's order, and the classification of SQLite's errors.
\<close>

subsection \<open>Classification of storage errors\<close>

definition primary_sqlite_code :: "int \<Rightarrow> int" where
  "primary_sqlite_code code = code AND 0xFF"

text \<open>SQLITE_READONLY and its extended codes \<open>_RECOVERY\<close>, \<open>_CANTLOCK\<close>, \<open>_ROLLBACK\<close>, \<open>_DBMOVED\<close>,
  \<open>_CANTINIT\<close>, \<open>_DIRECTORY\<close>.\<close>

definition READ_ONLY_SQLITE_CODES :: "int list" where
  "READ_ONLY_SQLITE_CODES =
     map primary_sqlite_code [SQLITE_READONLY, 264, 520, 776, 1032, 1288, 1544]"

definition OUT_OF_SPACE_SQLITE_CODES :: "int list" where
  "OUT_OF_SPACE_SQLITE_CODES = map primary_sqlite_code [SQLITE_CANTOPEN, SQLITE_IOERR]"

definition OUT_OF_SPACE_FREE_BYTES :: int where
  "OUT_OF_SPACE_FREE_BYTES = 64 * 1024"

definition classify_storage_error :: "exn \<Rightarrow> ustr \<Rightarrow> int option \<Rightarrow> exn" where
  "classify_storage_error err message free_bytes =
     (case map_option primary_sqlite_code (exn_sqlite_code err) of
        None \<Rightarrow> mk_exn SpoolError message
      | Some primary \<Rightarrow>
          if primary = SQLITE_FULL then
            mk_exn SpoolDiskFullError (message @ lit '': database or disk is full'')
          else if primary \<in> set READ_ONLY_SQLITE_CODES then
            mk_exn SpoolReadOnlyError (message @ lit '': database or filesystem is read-only'')
          else (case free_bytes of
              None \<Rightarrow> mk_exn SpoolError message
            | Some free \<Rightarrow>
                if primary \<in> set OUT_OF_SPACE_SQLITE_CODES \<and> free < OUT_OF_SPACE_FREE_BYTES then
                  mk_exn SpoolDiskFullError
                    (message @ lit '': database or disk is full ('' @ int_str free @ lit '' free bytes)'')
                else mk_exn SpoolError message))"

text \<open>\<open>except SpoolError: raise\<close>, then \<open>except sqlite3.Error\<close>: classified, or as a plain
  \<open>SpoolError\<close>.\<close>

definition classify_errors :: "string \<Rightarrow> (spool, 'a) prog \<Rightarrow> (spool, 'a) prog" where
  "classify_errors message m = catchP m (\<lambda>e.
     if isinstance e SpoolError then raiseP e
     else if isinstance e SqliteError then raiseP (classify_storage_error e (lit message) None)
     else raiseP e)"

definition plain_errors :: "string \<Rightarrow> (spool, 'a) prog \<Rightarrow> (spool, 'a) prog" where
  "plain_errors message m = catchP m (\<lambda>e.
     if isinstance e SpoolError then raiseP e
     else if isinstance e SqliteError then raiseP (mk_exn SpoolError (lit message))
     else raiseP e)"

subsection \<open>Argument checks\<close>

definition positive_integer :: "string \<Rightarrow> int \<Rightarrow> unit res" where
  "positive_integer name v =
     (if v \<le> 0 then Inl (mk_exn ValueError (lit (name @ '' must be a positive integer''))) else Inr ())"

definition sqlite_integer :: "string \<Rightarrow> int \<Rightarrow> unit res" where
  "sqlite_integer name v =
     (if SQLITE_INTEGER_MIN \<le> v \<and> v \<le> SQLITE_INTEGER_MAX then Inr ()
      else Inl (mk_exn ValueError (lit (name @ '' must be a signed 64-bit integer''))))"

definition error_text :: "ustr \<Rightarrow> unit res" where
  "error_text v =
     (if v = [] then Inl (mk_exn ValueError (lit ''last_error must be a non-empty string'')) else Inr ())"

definition sequence_tuple :: "int list \<Rightarrow> unit res" where
  "sequence_tuple seqs =
     bindR (mapR (positive_integer ''sequence'') seqs) (\<lambda>_.
       if distinct seqs then Inr ()
       else Inl (mk_exn ValueError (lit ''sequences must not contain duplicates'')))"

definition validate_new_event :: "limits \<Rightarrow> new_spool_event \<Rightarrow> unit res" where
  "validate_new_event L ev =
     (if ne_event_id ev = [] \<or> 0 \<in> set (ne_event_id ev) then
        Inl (mk_exn ValueError (lit ''event_id must be a non-empty string without NUL''))
      else if ne_payload ev = [] then
        Inl (mk_exn ValueError (lit ''payload must be non-empty bytes''))
      else bindR (sqlite_integer ''created_ns'' (ne_created_ns ev)) (\<lambda>_.
        if blob_bytes (ne_payload ev) > max_event_bytes L then
          Inl (mk_exn EventTooLargeError
            (lit ''event payload is '' @ int_str (blob_bytes (ne_payload ev)) @ lit '' bytes; limit is ''
               @ int_str (max_event_bytes L)))
        else Inr ()))"

definition liftR :: "'a res \<Rightarrow> (spool, 'a) prog" where
  "liftR r = (\<lambda>s. (r, s))"

subsection \<open>Counters\<close>

definition stats_of_row :: "(spool, spool_stats) prog" where
  "stats_of_row =
     bindP require_open (\<lambda>_.
     bindP (execute select_stats) (\<lambda>row.
       case row of None \<Rightarrow> raiseP (mk_exn SpoolStateError (lit ''spool stats row is missing''))
       | Some st \<Rightarrow> returnP st))"

definition current_stats :: "(spool, spool_stats) prog" where
  "current_stats = plain_errors ''failed to read spool stats'' stats_of_row"

subsection \<open>Writing events\<close>

text \<open>\<open>distinct_events\<close>: a dict keeps the position of the first insertion of a key.\<close>

fun distinct_events :: "new_spool_event list \<Rightarrow> new_spool_event list \<Rightarrow> new_spool_event list res" where
  "distinct_events acc [] = Inr acc"
| "distinct_events acc (ev # evs) =
     (case find (\<lambda>x. ne_event_id x = ne_event_id ev) acc of
        None \<Rightarrow> distinct_events (acc @ [ev]) evs
      | Some previous \<Rightarrow>
          if previous \<noteq> ev then
            Inl (mk_exn SpoolStateError
              (lit ''event_id is repeated with different content in one batch''))
          else distinct_events acc evs)"

text \<open>The first loop of the transaction: which of the events are not stored yet.\<close>

fun unseen_events :: "new_spool_event list \<Rightarrow> (spool, new_spool_event list) prog" where
  "unseen_events [] = returnP []"
| "unseen_events (ev # evs) =
     bindP (execute (select_existing (ne_event_id ev))) (\<lambda>existing.
       case existing of
         None \<Rightarrow> bindP (unseen_events evs) (\<lambda>rest. returnP (ev # rest))
       | Some (payload, created_ns) \<Rightarrow>
           if payload \<noteq> ne_payload ev \<or> created_ns \<noteq> ne_created_ns ev then
             raiseP (mk_exn SpoolStateError (lit ''event_id already exists with different content''))
           else unseen_events evs)"

definition enqueue_transaction :: "new_spool_event list \<Rightarrow> (spool, nat) prog" where
  "enqueue_transaction evs =
     bindP (unseen_events evs) (\<lambda>new_events.
     bindP stats_of_row (\<lambda>st.
     bindP (getP limits) (\<lambda>L.
       if pending_rows st + int (length new_events) > max_pending_rows L then
         raiseP (mk_exn SpoolFullError
           (lit ''pending row limit '' @ int_str (max_pending_rows L) @ lit '' reached''))
       else if pending_bytes st + bytes_of ne_payload new_events > max_pending_bytes L then
         raiseP (mk_exn SpoolFullError
           (lit ''pending payload-byte limit '' @ int_str (max_pending_bytes L) @ lit '' reached''))
       else bindP (forP (\<lambda>ev. execute (insert_pending ev)) new_events) (\<lambda>_.
         returnP (length new_events)))))"

definition enqueue_many :: "new_spool_event list \<Rightarrow> (spool, nat) prog" where
  "enqueue_many evs =
     bindP (getP limits) (\<lambda>L.
     bindP (liftR (mapR (validate_new_event L) evs)) (\<lambda>_.
       if evs = [] then returnP 0
       else bindP (liftR (distinct_events [] evs)) (\<lambda>distinct_evs.
         classify_errors ''failed to enqueue events''
           (transaction (enqueue_transaction distinct_evs)))))"

definition enqueue_event :: "ustr \<Rightarrow> bytes \<Rightarrow> int \<Rightarrow> (spool, bool) prog" where
  "enqueue_event eid payload created_ns =
     bindP (enqueue_many [\<lparr>ne_event_id = eid, ne_payload = payload, ne_created_ns = created_ns\<rparr>])
       (\<lambda>n. returnP (n = 1))"

subsection \<open>Reading the oldest batch\<close>

record spool_record =
  sr_sequence :: int
  sr_event_id :: ustr
  sr_payload :: bytes
  sr_created_ns :: int
  sr_attempt_count :: int
  sr_last_error :: "ustr option"
  sr_uncertain :: bool

definition spool_record_of :: "pending_row \<Rightarrow> spool_record" where
  "spool_record_of r =
     \<lparr>sr_sequence = p_sequence r, sr_event_id = p_event_id r, sr_payload = p_payload r,
      sr_created_ns = p_created_ns r, sr_attempt_count = p_attempt_count r,
      sr_last_error = p_last_error r, sr_uncertain = (p_uncertain r \<noteq> 0)\<rparr>"

fun take_batch :: "int \<Rightarrow> int \<Rightarrow> pending_row list \<Rightarrow> spool_record list \<Rightarrow> spool_record list res" where
  "take_batch max_bytes batch_bytes [] batch = Inr batch"
| "take_batch max_bytes batch_bytes (r # rs) batch =
     (if batch_bytes + blob_bytes (p_payload r) > max_bytes then
        (if batch = [] then
           Inl (mk_exn BatchLimitTooSmallError
             (lit ''oldest event is '' @ int_str (blob_bytes (p_payload r))
                @ lit '' bytes; batch limit is '' @ int_str max_bytes))
         else Inr batch)
      else take_batch max_bytes (batch_bytes + blob_bytes (p_payload r)) rs
        (batch @ [spool_record_of r]))"

definition peek_batch :: "int \<Rightarrow> int \<Rightarrow> (spool, spool_record list) prog" where
  "peek_batch max_rows max_bytes =
     bindP (liftR (positive_integer ''max_rows'' max_rows)) (\<lambda>_.
     bindP (liftR (positive_integer ''max_bytes'' max_bytes)) (\<lambda>_.
     bindP (plain_errors ''failed to read pending batch''
       (bindP require_open (\<lambda>_. execute (select_oldest_pending max_rows)))) (\<lambda>rows.
     liftR (take_batch max_bytes 0 rows []))))"

subsection \<open>Confirmed and failed deliveries\<close>

definition missing_pending :: "int \<Rightarrow> exn" where
  "missing_pending seq =
     mk_exn SpoolStateError (lit ''pending sequence '' @ int_str seq @ lit '' does not exist'')"

definition expect_one :: "exn \<Rightarrow> nat \<Rightarrow> (spool, unit) prog" where
  "expect_one e n = (if n \<noteq> 1 then raiseP e else returnP ())"

definition mark_delivered :: "int list \<Rightarrow> (spool, nat) prog" where
  "mark_delivered seqs =
     bindP (liftR (sequence_tuple seqs)) (\<lambda>_.
       if seqs = [] then returnP 0
       else bindP (classify_errors ''failed to mark events delivered'' (transaction
         (forP (\<lambda>seq. bindP (execute (delete_pending seq)) (expect_one (missing_pending seq))) seqs)))
         (\<lambda>_. returnP (length seqs)))"

definition record_attempt :: "int list \<Rightarrow> ustr \<Rightarrow> bool \<Rightarrow> (spool, nat) prog" where
  "record_attempt seqs last_error uncertain =
     bindP (liftR (sequence_tuple seqs)) (\<lambda>_.
     bindP (liftR (error_text last_error)) (\<lambda>_.
       if seqs = [] then returnP 0
       else bindP (classify_errors ''failed to record delivery attempt'' (transaction
         (forP (\<lambda>seq. bindP (execute (update_attempt last_error uncertain seq))
            (expect_one (missing_pending seq))) seqs)))
         (\<lambda>_. returnP (length seqs))))"

subsection \<open>Dead letters\<close>

text \<open>
  The \<open>while\<close> loop of \<open>move_to_dead_letter\<close>: evict the oldest dead letters until one more event
  of \<open>payload_bytes\<close> fits. It runs on the local counters of the source; every iteration deletes
  a row, so it ends.
\<close>

definition dead_letter_full :: exn where
  "dead_letter_full = mk_exn DeadLetterFullError
     (lit ''dead-letter store cannot accommodate an event within its configured limits'')"

lemma execute_Inr:
  "execute stmt s = (Inr x, s') \<Longrightarrow> stmt (working s) = Inr (x, working s') \<and> limits s' = limits s"
  by (auto simp: execute_def split: option.splits sum.splits)

lemma delete_dead_shrinks:
  assumes "execute (select_oldest_dead 1) s = (Inr (oldest # rest), s1)"
    and "execute (delete_dead (\<lambda>r. d_id r = d_id oldest)) s1 = (Inr n, s2)"
  shows "length (dead (working s2)) < length (dead (working s))"
proof -
  have "oldest \<in> set (dead (working s1))" and w: "working s1 = working s"
    using execute_Inr [OF assms(1)]
    by (auto simp: select_oldest_dead_def) (metis in_set_takeD list.set_intros(1) set_sort)
  then have "length (filter (\<lambda>r. d_id r \<noteq> d_id oldest) (dead (working s1))) < length (dead (working s1))"
    by (intro length_filter_less) auto
  moreover have "dead (working s2) = filter (\<lambda>r. d_id r \<noteq> d_id oldest) (dead (working s1))"
    using execute_Inr [OF assms(2)]
    by (auto simp: delete_dead_def constraint_checked_def dead_delta_def split: if_splits
      dest!: sym [of _ "working s2"])
  ultimately show ?thesis by (simp add: w)
qed

function evict :: "int \<Rightarrow> int \<Rightarrow> int \<Rightarrow> nat \<Rightarrow> (spool, int \<times> int \<times> nat) prog" where
  "evict payload_bytes current_rows current_bytes evicted s =
     (if current_rows + 1 > max_dead_letter_rows (limits s)
         \<or> current_bytes + payload_bytes > max_dead_letter_bytes (limits s)
      then (case execute (select_oldest_dead 1) s of
          (Inl e, s1) \<Rightarrow> (Inl e, s1)
        | (Inr [], s1) \<Rightarrow> (Inl dead_letter_full, s1)
        | (Inr (oldest # _), s1) \<Rightarrow>
            (case execute (delete_dead (\<lambda>r. d_id r = d_id oldest)) s1 of
               (Inl e, s2) \<Rightarrow> (Inl e, s2)
             | (Inr _, s2) \<Rightarrow>
                 evict payload_bytes (current_rows - 1)
                   (current_bytes - blob_bytes (d_payload oldest)) (Suc evicted) s2))
      else (Inr (current_rows, current_bytes, evicted), s))"
  by pat_completeness auto
termination
  by (relation "measure (\<lambda>(p, r, b, e, s). length (dead (working s)))")
    (auto dest: delete_dead_shrinks [OF sym sym])

declare evict.simps [simp del]

definition select_record :: "int \<Rightarrow> (spool, spool_record) prog" where
  "select_record seq =
     bindP (execute (select_pending seq)) (\<lambda>row.
       case row of None \<Rightarrow> raiseP (missing_pending seq)
       | Some r \<Rightarrow> returnP (spool_record_of r))"

definition dead_row_of :: "ustr \<Rightarrow> int \<Rightarrow> bool \<Rightarrow> spool_record \<Rightarrow> dead_row" where
  "dead_row_of last_error failed_ns uncertain r =
     \<lparr>d_id = 0, d_original_sequence = sr_sequence r, d_event_id = sr_event_id r,
      d_payload = sr_payload r, d_created_ns = sr_created_ns r, d_failed_ns = failed_ns,
      d_attempt_count = sr_attempt_count r + 1, d_last_error = last_error,
      d_uncertain = (if sr_uncertain r \<or> uncertain then 1 else 0)\<rparr>"

definition disappeared :: "int \<Rightarrow> exn" where
  "disappeared seq =
     mk_exn SpoolStateError (lit ''pending sequence '' @ int_str seq @ lit '' disappeared'')"

fun move_records :: "ustr \<Rightarrow> int \<Rightarrow> bool \<Rightarrow> spool_record list \<Rightarrow> int \<Rightarrow> int \<Rightarrow> nat \<Rightarrow> nat \<Rightarrow>
    (spool, nat \<times> nat) prog" where
  "move_records last_error failed_ns uncertain [] current_rows current_bytes moved evicted =
     returnP (moved, evicted)"
| "move_records last_error failed_ns uncertain (r # rs) current_rows current_bytes moved evicted =
     bindP (evict (blob_bytes (sr_payload r)) current_rows current_bytes evicted)
       (\<lambda>(rows, bytes, evicted').
     bindP (execute (insert_dead (dead_row_of last_error failed_ns uncertain r))) (\<lambda>_.
     bindP (execute (delete_pending (sr_sequence r))) (\<lambda>n.
     bindP (expect_one (disappeared (sr_sequence r)) n) (\<lambda>_.
     move_records last_error failed_ns uncertain rs (rows + 1)
       (bytes + blob_bytes (sr_payload r)) (Suc moved) evicted'))))"

definition move_transaction :: "int list \<Rightarrow> ustr \<Rightarrow> int \<Rightarrow> bool \<Rightarrow> (spool, nat \<times> nat) prog" where
  "move_transaction seqs last_error failed_ns uncertain =
     bindP (mapP select_record seqs) (\<lambda>records.
     bindP stats_of_row (\<lambda>st.
     move_records last_error failed_ns uncertain records
       (dead_letter_rows st) (dead_letter_bytes st) 0 0))"

definition move_to_dead_letter :: "int list \<Rightarrow> ustr \<Rightarrow> int \<Rightarrow> bool \<Rightarrow> (spool, nat \<times> nat) prog" where
  "move_to_dead_letter seqs last_error failed_ns uncertain =
     bindP (liftR (sequence_tuple seqs)) (\<lambda>_.
     bindP (liftR (error_text last_error)) (\<lambda>_.
     bindP (liftR (sqlite_integer ''failed_ns'' failed_ns)) (\<lambda>_.
       if seqs = [] then returnP (0, 0)
       else classify_errors ''failed to move events to dead letter''
         (transaction (move_transaction seqs last_error failed_ns uncertain)))))"

text \<open>\<open>DeadLetterRecord\<close>: the dead-letter row without its id, the flag as a \<open>bool\<close>.\<close>

record dead_letter_record =
  dl_original_sequence :: int
  dl_event_id :: ustr
  dl_payload :: bytes
  dl_created_ns :: int
  dl_failed_ns :: int
  dl_attempt_count :: int
  dl_last_error :: ustr
  dl_uncertain :: bool

definition dead_letter_record_of :: "dead_row \<Rightarrow> dead_letter_record" where
  "dead_letter_record_of r =
     \<lparr>dl_original_sequence = d_original_sequence r, dl_event_id = d_event_id r,
      dl_payload = d_payload r, dl_created_ns = d_created_ns r, dl_failed_ns = d_failed_ns r,
      dl_attempt_count = d_attempt_count r, dl_last_error = d_last_error r,
      dl_uncertain = (d_uncertain r \<noteq> 0)\<rparr>"

definition peek_dead_letters :: "int \<Rightarrow> (spool, dead_letter_record list) prog" where
  "peek_dead_letters n =
     bindP (liftR (positive_integer ''limit'' n)) (\<lambda>_.
     bindP (plain_errors ''failed to read dead letters''
       (bindP require_open (\<lambda>_. execute (select_oldest_dead n)))) (\<lambda>rows.
     returnP (map dead_letter_record_of rows)))"

definition missing_dead_letter :: "int \<Rightarrow> exn" where
  "missing_dead_letter seq =
     mk_exn SpoolStateError (lit ''dead-letter sequence '' @ int_str seq @ lit '' does not exist'')"

definition delete_dead_letters :: "int list \<Rightarrow> (spool, nat) prog" where
  "delete_dead_letters seqs =
     bindP (liftR (sequence_tuple seqs)) (\<lambda>_.
       if seqs = [] then returnP 0
       else bindP (plain_errors ''failed to delete dead letters'' (transaction
         (forP (\<lambda>seq. bindP (execute (delete_dead (\<lambda>r. d_original_sequence r = seq)))
            (expect_one (missing_dead_letter seq))) seqs)))
         (\<lambda>_. returnP (length seqs)))"

subsection \<open>Giving space back\<close>

definition AUTO_VACUUM_NONE :: int where "AUTO_VACUUM_NONE = 0"
definition AUTO_VACUUM_INCREMENTAL :: int where "AUTO_VACUUM_INCREMENTAL = 2"

record spool_reclaim =
  rc_auto_vacuum :: int
  rc_freed_pages :: int
  rc_wal_truncated :: bool
  rc_rewrote_file :: bool
  rc_error :: "exn option"

definition truncate_wal :: "(spool, bool) prog" where
  "truncate_wal = bindP (ask_pragma WalCheckpointTruncate) (\<lambda>busy. returnP (busy = 0))"

text \<open>What \<open>try\<close> and \<open>except (sqlite3.Error, SpoolClosedError)\<close> make of the two reclaims; the
  number of pages freed before the failure is kept by \<open>reclaim\<close> only.\<close>

definition failed_reclaim :: "int \<Rightarrow> exn \<Rightarrow> (spool, spool_reclaim) prog" where
  "failed_reclaim freed e =
     (if isinstance e SqliteError \<or> isinstance e SpoolClosedError then
        bindP (getP auto_vacuum) (\<lambda>av. returnP
          \<lparr>rc_auto_vacuum = av, rc_freed_pages = freed, rc_wal_truncated = False,
           rc_rewrote_file = False, rc_error = Some e\<rparr>)
      else raiseP e)"

definition reclaim :: "int \<Rightarrow> (spool, spool_reclaim) prog" where
  "reclaim max_pages =
     bindP (liftR (positive_integer ''max_pages'' max_pages)) (\<lambda>_.
     catchP (bindP require_open (\<lambda>_.
       bindP (getP auto_vacuum) (\<lambda>av.
       bindP (if av = AUTO_VACUUM_INCREMENTAL then
           bindP (ask_pragma FreelistCount) (\<lambda>pages.
           bindP (execute no_change) (\<lambda>_.
           bindP (ask_pragma FreelistCount) (\<lambda>after. returnP (max 0 (pages - after)))))
         else returnP 0) (\<lambda>freed.
       catchP (bindP truncate_wal (\<lambda>truncated. returnP
           \<lparr>rc_auto_vacuum = av, rc_freed_pages = freed, rc_wal_truncated = truncated,
            rc_rewrote_file = False, rc_error = None\<rparr>))
         (failed_reclaim freed)))))
       (failed_reclaim 0))"

definition compact :: "(spool, spool_reclaim) prog" where
  "compact =
     catchP (bindP require_open (\<lambda>_.
       bindP (ask_pragma FreelistCount) (\<lambda>pages.
       bindP (getP auto_vacuum) (\<lambda>av.
       bindP (whenP (av \<noteq> AUTO_VACUUM_INCREMENTAL) (execute no_change)) (\<lambda>_.
       bindP (execute no_change) (\<lambda>_.
       bindP (ask_pragma AutoVacuum) (\<lambda>mode.
       bindP (modifyP (\<lambda>s. s\<lparr>auto_vacuum := mode\<rparr>)) (\<lambda>_.
       bindP (ask_pragma FreelistCount) (\<lambda>after.
       bindP truncate_wal (\<lambda>truncated. returnP
         \<lparr>rc_auto_vacuum = mode, rc_freed_pages = max 0 (pages - after),
          rc_wal_truncated = truncated, rc_rewrote_file = True, rc_error = None\<rparr>)))))))))
     ) (failed_reclaim 0)"

subsection \<open>Opening and closing\<close>

text \<open>Two rows that say an event is both pending and dead.\<close>

definition overlap :: "tables \<Rightarrow> bool" where
  "overlap t \<longleftrightarrow> (\<exists>p \<in> set (pending t). \<exists>r \<in> set (dead t).
     p_event_id p = d_event_id r \<or> p_sequence p = d_original_sequence r)"

definition select_version :: "tables \<Rightarrow> exn + (int \<times> tables)" where
  "select_version t = Inr (user_version t, t)"

definition select_overlap :: "tables \<Rightarrow> exn + (bool \<times> tables)" where
  "select_overlap t = Inr (overlap t, t)"

definition insert_stats :: "tables \<Rightarrow> exn + (unit \<times> tables)" where
  "insert_stats t = Inr ((), t\<lparr>stats_row := (case stats_row t of
     None \<Rightarrow> Some \<lparr>pending_rows = 0, pending_bytes = 0, dead_letter_rows = 0, dead_letter_bytes = 0\<rparr>
   | Some st \<Rightarrow> Some st)\<rparr>)"

definition count_pending :: "tables \<Rightarrow> exn + ((int \<times> int) \<times> tables)" where
  "count_pending t = Inr ((int (length (pending t)), bytes_of p_payload (pending t)), t)"

definition count_dead :: "tables \<Rightarrow> exn + ((int \<times> int) \<times> tables)" where
  "count_dead t = Inr ((int (length (dead t)), bytes_of d_payload (dead t)), t)"

definition update_stats :: "spool_stats \<Rightarrow> tables \<Rightarrow> exn + (unit \<times> tables)" where
  "update_stats st t = constraint_checked (t\<lparr>stats_row := map_option (\<lambda>_. st) (stats_row t)\<rparr>) ()"

definition set_version :: "int \<Rightarrow> tables \<Rightarrow> exn + (unit \<times> tables)" where
  "set_version v t = Inr ((), t\<lparr>user_version := v\<rparr>)"

definition reconcile_stats :: "(spool, unit) prog" where
  "reconcile_stats =
     bindP (execute count_pending) (\<lambda>(pn, pb).
     bindP (execute count_dead) (\<lambda>(dn, db).
     execute (update_stats
       \<lparr>pending_rows = pn, pending_bytes = pb, dead_letter_rows = dn, dead_letter_bytes = db\<rparr>)))"

definition SCHEMA_VERSION :: int where "SCHEMA_VERSION = 1"

text \<open>The statements of \<open>_SCHEMA_STATEMENTS\<close>, three tables and four triggers, are \<open>IF NOT
  EXISTS\<close>; what they create is the model's \<open>tables\<close> with its constraints and triggers.\<close>

definition SCHEMA_STATEMENTS :: "(tables \<Rightarrow> exn + (unit \<times> tables)) list" where
  "SCHEMA_STATEMENTS = replicate 7 no_change"

definition schema_transaction :: "(spool, unit) prog" where
  "schema_transaction =
     bindP (execute select_version) (\<lambda>version.
       if version \<notin> {0, SCHEMA_VERSION} then
         raiseP (mk_exn UnsupportedSpoolVersionError
           (lit ''unsupported spool schema version '' @ int_str version @ lit ''; expected ''
              @ int_str SCHEMA_VERSION))
       else
         bindP (forP execute SCHEMA_STATEMENTS) (\<lambda>_.
         bindP (execute insert_stats) (\<lambda>_.
         bindP (execute select_overlap) (\<lambda>both.
           if both then raiseP (mk_exn SpoolStateError
             (lit ''an event exists in both pending and dead-letter state''))
           else bindP reconcile_stats (\<lambda>_.
             whenP (version = 0) (execute (set_version SCHEMA_VERSION)))))))"

definition initialize_schema :: "(spool, unit) prog" where
  "initialize_schema = transaction schema_transaction"

text \<open>\<open>close\<close>: roll back what is open and drop the connection, also when ROLLBACK raises.\<close>

definition close_spool :: "(spool, unit) prog" where
  "close_spool =
     bindP (getP opened) (\<lambda>was_open.
     bindP (modifyP (\<lambda>s. s\<lparr>opened := False\<rparr>)) (\<lambda>_.
     whenP was_open
       (bindP (getP in_transaction) (\<lambda>open_txn.
        catchP (whenP open_txn rollback)
          (\<lambda>e. bindP (modifyP (\<lambda>s. s\<lparr>working := durable s, in_transaction := False\<rparr>))
             (\<lambda>_. raiseP e))))))"

definition check_limits :: "limits \<Rightarrow> unit res" where
  "check_limits L =
     bindR (positive_integer ''max_pending_rows'' (max_pending_rows L)) (\<lambda>_.
     bindR (positive_integer ''max_pending_bytes'' (max_pending_bytes L)) (\<lambda>_.
     bindR (positive_integer ''max_event_bytes'' (max_event_bytes L)) (\<lambda>_.
     bindR (positive_integer ''max_dead_letter_rows'' (max_dead_letter_rows L)) (\<lambda>_.
     bindR (positive_integer ''max_dead_letter_bytes'' (max_dead_letter_bytes L)) (\<lambda>_.
       if max_event_bytes L > max_pending_bytes L then
         Inl (mk_exn ValueError (lit ''max_event_bytes must not exceed max_pending_bytes''))
       else if max_event_bytes L > max_dead_letter_bytes L then
         Inl (mk_exn ValueError (lit ''max_event_bytes must not exceed max_dead_letter_bytes''))
       else Inr ())))))"

definition connect :: "(spool, unit) prog" where
  "connect = bindP (execute no_change) (\<lambda>_. modifyP (\<lambda>s. s\<lparr>opened := True\<rparr>))"

definition open_connection :: "(spool, unit) prog" where
  "open_connection =
     bindP connect (\<lambda>_.
     bindP (execute no_change) (\<lambda>_.
     bindP (ask_pragma AutoVacuum) (\<lambda>mode.
     bindP (modifyP (\<lambda>s. s\<lparr>auto_vacuum := mode\<rparr>)) (\<lambda>_.
     bindP (execute no_change) (\<lambda>_.
     bindP (getP wal_mode) (\<lambda>wal.
       if \<not> wal then raiseP (mk_exn SpoolStateError (lit ''SQLite did not enable WAL mode''))
       else
         bindP (execute no_change) (\<lambda>_.
         bindP (ask_pragma Synchronous) (\<lambda>synchronous.
           if synchronous \<noteq> 2 then
             raiseP (mk_exn SpoolStateError
               (lit ''SQLite did not enable synchronous=FULL: '' @ int_str synchronous))
           else initialize_schema))))))))"

text \<open>\<open>__init__\<close>. \<open>busy_timeout_seconds\<close> is a finite number here; the source also rejects NaN and
  the infinities.\<close>

definition open_spool :: "limits \<Rightarrow> rat \<Rightarrow> (spool, unit) prog" where
  "open_spool L busy_timeout_seconds =
     bindP (liftR (check_limits L)) (\<lambda>_.
       if busy_timeout_seconds \<le> 0 then
         raiseP (mk_exn ValueError (lit ''busy_timeout_seconds must be positive and finite''))
       else
         bindP (modifyP (\<lambda>s. s\<lparr>limits := L, opened := False, auto_vacuum := AUTO_VACUUM_NONE\<rparr>)) (\<lambda>_.
         catchP open_connection (\<lambda>e.
           if isinstance e SpoolError then bindP close_spool (\<lambda>_. raiseP e)
           else if isinstance e SqliteError then
             bindP close_spool (\<lambda>_. bindP (getP disk_free) (\<lambda>free.
               raiseP (classify_storage_error e (lit ''failed to initialize SQLite spool'') free)))
           else raiseP e)))"

end
