(* ===== verification/SpoolSpec.thy ===== *)
theory SpoolSpec
  imports Spool
begin

section \<open>The queue the spool promises, and that SQLiteSpool implements it\<close>

text \<open>
  The abstract queue has no transactions, statements, triggers or counters: two lists and the two
  AUTOINCREMENT counters. Each operation of the spool is specified on it as one function, and the
  refinement theorems say that under every schedule of SQLite faults the method either does to the
  durable tables exactly what the specification does to the queue, or raises and leaves them
  unchanged; with no fault it is the specification, its errors included.
\<close>

record queue =
  q_pending :: "pending_row list"
  q_next :: int
  q_dead :: "dead_row list"
  q_dead_next :: int

definition queue_of :: "tables \<Rightarrow> queue" where
  "queue_of t = \<lparr>q_pending = pending t, q_next = pending_seq t, q_dead = dead t, q_dead_next = dead_seq t\<rparr>"

lemma queue_of_sel [simp]:
  "q_pending (queue_of t) = pending t" "q_next (queue_of t) = pending_seq t"
  "q_dead (queue_of t) = dead t" "q_dead_next (queue_of t) = dead_seq t"
  by (simp_all add: queue_of_def)

subsection \<open>Well-formed tables\<close>

definition pending_row_ok :: "pending_row \<Rightarrow> bool" where
  "pending_row_ok r \<longleftrightarrow> 0 < p_sequence r \<and> 0 < sql_length (p_event_id r) \<and> p_payload r \<noteq> [] \<and>
     0 \<le> p_attempt_count r \<and> p_uncertain r \<in> {0, 1}"

definition dead_row_ok :: "dead_row \<Rightarrow> bool" where
  "dead_row_ok r \<longleftrightarrow> 0 < sql_length (d_event_id r) \<and> d_payload r \<noteq> [] \<and>
     0 < d_attempt_count r \<and> 0 < sql_length (d_last_error r) \<and> d_uncertain r \<in> {0, 1}"

text \<open>What the table definitions enforce, rows in rowid order, and that a dead letter's original
  sequence was once handed out by \<open>pending\<close>.\<close>

definition schema_ok :: "tables \<Rightarrow> bool" where
  "schema_ok t \<longleftrightarrow>
     sorted_wrt (<) (map p_sequence (pending t)) \<and> distinct (map p_event_id (pending t)) \<and>
     (\<forall>r \<in> set (pending t). pending_row_ok r \<and> p_sequence r \<le> pending_seq t) \<and>
     sorted_wrt (<) (map d_id (dead t)) \<and> distinct (map d_event_id (dead t)) \<and>
     distinct (map d_original_sequence (dead t)) \<and>
     (\<forall>r \<in> set (dead t). dead_row_ok r \<and> d_id r \<le> dead_seq t \<and> d_original_sequence r \<le> pending_seq t) \<and>
     0 \<le> pending_seq t \<and> 0 \<le> dead_seq t"

definition exact_stats :: "tables \<Rightarrow> spool_stats" where
  "exact_stats t =
     \<lparr>pending_rows = int (length (pending t)), pending_bytes = bytes_of p_payload (pending t),
      dead_letter_rows = int (length (dead t)), dead_letter_bytes = bytes_of d_payload (dead t)\<rparr>"

definition tables_ok :: "tables \<Rightarrow> bool" where
  "tables_ok t \<longleftrightarrow> schema_ok t \<and> \<not> overlap t \<and> stats_row t = Some (exact_stats t)"

subsection \<open>Specifications\<close>

definition q_stored :: "queue \<Rightarrow> ustr \<Rightarrow> (bytes \<times> int) option" where
  "q_stored q eid =
     (case find (\<lambda>r. p_event_id r = eid) (q_pending q) of
        Some r \<Rightarrow> Some (p_payload r, p_created_ns r)
      | None \<Rightarrow> map_option (\<lambda>r. (d_payload r, d_created_ns r))
                  (find (\<lambda>r. d_event_id r = eid) (q_dead q)))"

definition conflicting :: "queue \<Rightarrow> new_spool_event \<Rightarrow> bool" where
  "conflicting q ev \<longleftrightarrow> q_stored q (ne_event_id ev) \<notin> {None, Some (ne_payload ev, ne_created_ns ev)}"

definition new_to :: "queue \<Rightarrow> new_spool_event list \<Rightarrow> new_spool_event list" where
  "new_to q evs = filter (\<lambda>ev. q_stored q (ne_event_id ev) = None) evs"

fun numbered :: "int \<Rightarrow> new_spool_event list \<Rightarrow> pending_row list" where
  "numbered n [] = []"
| "numbered n (ev # evs) = new_pending_row (n + 1) ev # numbered (n + 1) evs"

definition storage_full :: "string \<Rightarrow> exn" where
  "storage_full message =
     classify_storage_error (sqlite_exn (Some SQLITE_FULL)) (lit message) None"

definition spec_enqueue :: "new_spool_event list \<Rightarrow> limits \<Rightarrow> queue \<Rightarrow> exn + (nat \<times> queue)" where
  "spec_enqueue evs L q =
     bindR (mapR (validate_new_event L) evs) (\<lambda>_.
       if evs = [] then Inr (0, q)
       else bindR (distinct_events [] evs) (\<lambda>ds.
         let new = new_to q ds in
         if \<exists>ev \<in> set ds. conflicting q ev then
           Inl (mk_exn SpoolStateError (lit ''event_id already exists with different content''))
         else if int (length (q_pending q) + length new) > max_pending_rows L then
           Inl (mk_exn SpoolFullError
             (lit ''pending row limit '' @ int_str (max_pending_rows L) @ lit '' reached''))
         else if bytes_of p_payload (q_pending q) + bytes_of ne_payload new > max_pending_bytes L then
           Inl (mk_exn SpoolFullError
             (lit ''pending payload-byte limit '' @ int_str (max_pending_bytes L) @ lit '' reached''))
         else if new \<noteq> [] \<and> q_next q + int (length new) > SQLITE_INTEGER_MAX then
           Inl (storage_full ''failed to enqueue events'')
         else Inr (length new,
           q\<lparr>q_pending := q_pending q @ numbered (q_next q) new, q_next := q_next q + int (length new)\<rparr>)))"

definition first_missing :: "int list \<Rightarrow> int set \<Rightarrow> int option" where
  "first_missing seqs present = find (\<lambda>s. s \<notin> present) seqs"

definition spec_mark_delivered :: "int list \<Rightarrow> limits \<Rightarrow> queue \<Rightarrow> exn + (nat \<times> queue)" where
  "spec_mark_delivered seqs L q =
     bindR (sequence_tuple seqs) (\<lambda>_.
       case first_missing seqs (p_sequence ` set (q_pending q)) of
         Some s \<Rightarrow> Inl (missing_pending s)
       | None \<Rightarrow> Inr (length seqs,
           q\<lparr>q_pending := filter (\<lambda>r. p_sequence r \<notin> set seqs) (q_pending q)\<rparr>))"

definition spec_record_attempt :: "int list \<Rightarrow> ustr \<Rightarrow> bool \<Rightarrow> limits \<Rightarrow> queue \<Rightarrow> exn + (nat \<times> queue)" where
  "spec_record_attempt seqs err uncertain L q =
     bindR (sequence_tuple seqs) (\<lambda>_. bindR (error_text err) (\<lambda>_.
       case first_missing seqs (p_sequence ` set (q_pending q)) of
         Some s \<Rightarrow> Inl (missing_pending s)
       | None \<Rightarrow> Inr (length seqs,
           q\<lparr>q_pending := map (\<lambda>r. if p_sequence r \<in> set seqs then touch_row err uncertain r else r)
             (q_pending q)\<rparr>)))"

text \<open>The longest suffix of the dead letters that leaves room for one more of \<open>n\<close> bytes.\<close>

fun room_for :: "limits \<Rightarrow> int \<Rightarrow> dead_row list \<Rightarrow> dead_row list option" where
  "room_for L n rows =
     (if int (length rows) + 1 \<le> max_dead_letter_rows L \<and>
         bytes_of d_payload rows + n \<le> max_dead_letter_bytes L then Some rows
      else case rows of [] \<Rightarrow> None | _ # rest \<Rightarrow> room_for L n rest)"

declare room_for.simps [simp del]

fun spec_move_rows :: "ustr \<Rightarrow> int \<Rightarrow> bool \<Rightarrow> limits \<Rightarrow> pending_row list \<Rightarrow> queue \<Rightarrow> exn + (nat \<times> queue)" where
  "spec_move_rows err failed_ns uncertain L [] q = Inr (0, q)"
| "spec_move_rows err failed_ns uncertain L (r # rs) q =
     (case room_for L (blob_bytes (p_payload r)) (q_dead q) of
        None \<Rightarrow> Inl dead_letter_full
      | Some kept \<Rightarrow>
          if sql_length err = 0 then Inl (mk_exn SpoolError (lit ''failed to move events to dead letter''))
          else if SQLITE_INTEGER_MAX \<le> q_dead_next q then
            Inl (storage_full ''failed to move events to dead letter'')
          else
            let d = (dead_row_of err failed_ns uncertain (spool_record_of r))\<lparr>d_id := q_dead_next q + 1\<rparr> in
            bindR (spec_move_rows err failed_ns uncertain L rs
              (q\<lparr>q_pending := filter (\<lambda>x. p_sequence x \<noteq> p_sequence r) (q_pending q),
                 q_dead := kept @ [d], q_dead_next := q_dead_next q + 1\<rparr>))
              (\<lambda>(evicted, q'). Inr (evicted + (length (q_dead q) - length kept), q')))"

definition spec_move_to_dead_letter ::
    "int list \<Rightarrow> ustr \<Rightarrow> int \<Rightarrow> bool \<Rightarrow> limits \<Rightarrow> queue \<Rightarrow> exn + ((nat \<times> nat) \<times> queue)" where
  "spec_move_to_dead_letter seqs err failed_ns uncertain L q =
     bindR (sequence_tuple seqs) (\<lambda>_. bindR (error_text err) (\<lambda>_.
     bindR (sqlite_integer ''failed_ns'' failed_ns) (\<lambda>_.
       case first_missing seqs (p_sequence ` set (q_pending q)) of
         Some s \<Rightarrow> Inl (missing_pending s)
       | None \<Rightarrow>
           bindR (spec_move_rows err failed_ns uncertain L
               (map (\<lambda>s. the (find (\<lambda>r. p_sequence r = s) (q_pending q))) seqs) q)
             (\<lambda>(evicted, q'). Inr ((length seqs, evicted), q')))))"

definition spec_delete_dead_letters :: "int list \<Rightarrow> limits \<Rightarrow> queue \<Rightarrow> exn + (nat \<times> queue)" where
  "spec_delete_dead_letters seqs L q =
     bindR (sequence_tuple seqs) (\<lambda>_.
       case first_missing seqs (d_original_sequence ` set (q_dead q)) of
         Some s \<Rightarrow> Inl (missing_dead_letter s)
       | None \<Rightarrow> Inr (length seqs,
           q\<lparr>q_dead := filter (\<lambda>r. d_original_sequence r \<notin> set seqs) (q_dead q)\<rparr>))"

definition spec_peek_batch :: "int \<Rightarrow> int \<Rightarrow> limits \<Rightarrow> queue \<Rightarrow> exn + (spool_record list \<times> queue)" where
  "spec_peek_batch max_rows max_bytes L q =
     bindR (positive_integer ''max_rows'' max_rows) (\<lambda>_.
     bindR (positive_integer ''max_bytes'' max_bytes) (\<lambda>_.
     bindR (take_batch max_bytes 0 (take (nat max_rows) (q_pending q)) []) (\<lambda>batch. Inr (batch, q))))"

definition spec_peek_dead_letters :: "int \<Rightarrow> limits \<Rightarrow> queue \<Rightarrow> exn + (dead_letter_record list \<times> queue)" where
  "spec_peek_dead_letters n L q =
     bindR (positive_integer ''limit'' n) (\<lambda>_.
       Inr (map dead_letter_record_of (take (nat n) (q_dead q)), q))"

definition spec_stats :: "limits \<Rightarrow> queue \<Rightarrow> exn + (spool_stats \<times> queue)" where
  "spec_stats L q =
     Inr (\<lparr>pending_rows = int (length (q_pending q)), pending_bytes = bytes_of p_payload (q_pending q),
           dead_letter_rows = int (length (q_dead q)), dead_letter_bytes = bytes_of d_payload (q_dead q)\<rparr>, q)"

text \<open>
  \<open>refines m spec\<close>: from an idle connection over well-formed tables.
\<close>

definition storage_failure :: "exn \<Rightarrow> bool" where
  "storage_failure e \<longleftrightarrow>
     exn_class e \<in> {SpoolError, SpoolDiskFullError, SpoolReadOnlyError}"

definition fulfilled ::
    "(limits \<Rightarrow> queue \<Rightarrow> exn + ('a \<times> queue)) \<Rightarrow> limits \<Rightarrow> (nat \<Rightarrow> sql_fault option) \<Rightarrow> tables \<Rightarrow>
     'a \<Rightarrow> spool \<Rightarrow> bool" where
  "fulfilled spec L f d x s \<longleftrightarrow>
     (\<exists>d'. idle L f d' s \<and> tables_ok d' \<and> spec L (queue_of d) = Inr (x, queue_of d'))"

definition refused ::
    "(limits \<Rightarrow> queue \<Rightarrow> exn + ('a \<times> queue)) \<Rightarrow> limits \<Rightarrow> (nat \<Rightarrow> sql_fault option) \<Rightarrow> tables \<Rightarrow>
     exn \<Rightarrow> spool \<Rightarrow> bool" where
  "refused spec L f d e s \<longleftrightarrow>
     outside L f d s \<and> (f = no_faults \<longrightarrow> idle L f d s \<and> spec L (queue_of d) = Inl e) \<and>
     (spec L (queue_of d) = Inl e \<or> storage_failure e)"

definition refines :: "(spool, 'a) prog \<Rightarrow> (limits \<Rightarrow> queue \<Rightarrow> exn + ('a \<times> queue)) \<Rightarrow> bool" where
  "refines m spec \<longleftrightarrow> (\<forall>L f d. tables_ok d \<longrightarrow>
     triple (idle L f d) m (fulfilled spec L f d) (refused spec L f d))"

subsection \<open>Statements over well-formed tables\<close>

lemma tables_okD:
  assumes "tables_ok t"
  shows "schema_ok t" "\<not> overlap t" "stats_row t = Some (exact_stats t)"
  using assms by (simp_all add: tables_ok_def)

lemma exact_stats_checked [simp]: "stats_checked (Some (exact_stats t))"
  by (simp add: stats_checked_def exact_stats_def)

lemma schema_distinct:
  assumes "schema_ok t"
  shows "distinct (map p_sequence (pending t))" "distinct (map d_id (dead t))"
  using assms by (simp_all add: schema_ok_def strict_sorted_iff)

lemma sql_length_pos: "s \<noteq> [] \<Longrightarrow> 0 \<notin> set s \<Longrightarrow> 0 < sql_length s"
  by (cases s) (auto simp: sql_length_def)

lemma sorted_wrt_filter_map: "sorted_wrt (<) (map f xs) \<Longrightarrow> sorted_wrt (<) (map f (filter P xs))"
  by (simp add: sorted_wrt_map sorted_wrt_filter)

lemma distinct_filter_map: "distinct (map f xs) \<Longrightarrow> distinct (map f (filter P xs))"
  by (simp add: distinct_map_filter)

lemma bytes_of_filter_not:
  "bytes_of f (filter (\<lambda>x. \<not> P x) xs) = bytes_of f xs - bytes_of f (filter P xs)"
  by (induction xs) auto

lemma length_filter_not:
  "int (length (filter (\<lambda>x. \<not> P x) xs)) = int (length xs) - int (length (filter P xs))"
  using sum_length_filter_compl [of P xs] by linarith

lemma length_filter_key:
  "distinct (map k xs) \<Longrightarrow> length (filter (\<lambda>x. k x = v) xs) = (if v \<in> k ` set xs then 1 else 0)"
  by (induction xs) (auto simp: filter_empty_conv)

definition insertable :: "queue \<Rightarrow> new_spool_event \<Rightarrow> bool" where
  "insertable q ev \<longleftrightarrow> ne_event_id ev \<noteq> [] \<and> 0 \<notin> set (ne_event_id ev) \<and> ne_payload ev \<noteq> [] \<and>
     q_stored q (ne_event_id ev) = None"

lemma q_stored_None:
  "q_stored q eid = None \<longleftrightarrow> eid \<notin> p_event_id ` set (q_pending q) \<and> eid \<notin> d_event_id ` set (q_dead q)"
proof (cases "find (\<lambda>r. p_event_id r = eid) (q_pending q)")
  case None
  then have "q_stored q eid = None \<longleftrightarrow> find (\<lambda>r. d_event_id r = eid) (q_dead q) = None"
    by (simp add: q_stored_def)
  moreover have "eid \<notin> p_event_id ` set (q_pending q)" using None by (auto simp: find_None_iff)
  ultimately show ?thesis by (auto simp: find_None_iff)
next
  case (Some r)
  then have "eid \<in> p_event_id ` set (q_pending q)" by (auto simp: find_Some_iff)
  then show ?thesis using Some by (simp add: q_stored_def)
qed

definition with_new_row :: "new_spool_event \<Rightarrow> tables \<Rightarrow> tables" where
  "with_new_row ev t =
     pending_delta 1 (blob_bytes (ne_payload ev))
       (t\<lparr>pending := pending t @ [new_pending_row (pending_seq t + 1) ev], pending_seq := pending_seq t + 1\<rparr>)"

lemma with_new_row_ok:
  assumes "tables_ok t" and "insertable (queue_of t) ev"
  shows "tables_ok (with_new_row ev t)"
proof -
  note ok = tables_okD [OF assms(1)]
  let ?t = "with_new_row ev t"
  have fresh: "ne_event_id ev \<notin> p_event_id ` set (pending t)" "ne_event_id ev \<notin> d_event_id ` set (dead t)"
    using assms(2) by (auto simp: insertable_def q_stored_None)
  note sc = ok(1)[unfolded schema_ok_def]
  let ?r = "new_pending_row (pending_seq t + 1) ev"
  have row: "pending_row_ok ?r" using assms(2) sc
    by (simp add: pending_row_ok_def new_pending_row_def insertable_def sql_length_pos)
  have sel: "pending ?t = pending t @ [?r]" "pending_seq ?t = pending_seq t + 1" "dead ?t = dead t"
      "dead_seq ?t = dead_seq t"
    by (simp_all add: with_new_row_def pending_delta_def)
  have new: "p_sequence ?r = pending_seq t + 1" "p_event_id ?r = ne_event_id ev"
    by (simp_all add: new_pending_row_def)
  have "schema_ok ?t"
    unfolding schema_ok_def sel
  proof (intro conjI ballI)
    show "sorted_wrt (<) (map p_sequence (pending t @ [?r]))"
      using sc by (simp add: sorted_wrt_append new le_imp_less_Suc zle_add1_eq_le)
    show "distinct (map p_event_id (pending t @ [?r]))"
      using sc fresh(1) by (simp add: new)
  next
    fix r assume "r \<in> set (pending t @ [?r])"
    then show "pending_row_ok r" "p_sequence r \<le> pending_seq t + 1"
      using sc row by (auto simp: new)
  next
    fix r assume "r \<in> set (dead t)"
    then show "d_original_sequence r \<le> pending_seq t + 1" using sc by fastforce
  qed (use sc in simp_all)
  moreover have "\<not> overlap ?t"
    using ok(2) fresh(2) sc by (fastforce simp: overlap_def sel new)
  moreover have "stats_row ?t = Some (exact_stats ?t)"
    using ok(3) by (simp add: with_new_row_def pending_delta_def exact_stats_def new_pending_row_def blob_bytes_def)
  ultimately show ?thesis by (simp add: tables_ok_def)
qed

lemma insert_pending_eq:
  assumes "tables_ok t" and "insertable (queue_of t) ev"
  shows "insert_pending ev t =
    (if SQLITE_INTEGER_MAX \<le> pending_seq t then Inl (sqlite_exn (Some SQLITE_FULL))
     else Inr ((), with_new_row ev t))"
proof -
  have "0 < sql_length (ne_event_id ev)" using assms(2) by (simp add: insertable_def sql_length_pos)
  then show ?thesis
    using assms(2) with_new_row_ok [OF assms] 
    by (auto simp: insert_pending_def insertable_def q_stored_None Let_def constraint_checked_def
        with_new_row_def [symmetric] tables_ok_def)
qed

lemma without_pending_ok:
  assumes "tables_ok t"
  shows "\<exists>t'. delete_pending seq t = Inr (length (rows_with seq t), t') \<and> tables_ok t' \<and>
    queue_of t' = (queue_of t)\<lparr>q_pending := filter (\<lambda>r. p_sequence r \<noteq> seq) (pending t)\<rparr>"
proof -
  note ok = tables_okD [OF assms]
  let ?t = "pending_delta (- int (length (rows_with seq t))) (- bytes_of p_payload (rows_with seq t))
          (t\<lparr>pending := filter (\<lambda>r. p_sequence r \<noteq> seq) (pending t)\<rparr>)"
  have "schema_ok ?t"
    using ok(1) by (auto simp: schema_ok_def pending_delta_def sorted_wrt_filter_map distinct_filter_map)
  moreover have "\<not> overlap ?t"
    using ok(2) by (auto simp: overlap_def pending_delta_def)
  moreover have "stats_row ?t = Some (exact_stats ?t)"
    using ok(3) by (simp add: pending_delta_def exact_stats_def rows_with_def bytes_of_filter_not length_filter_not)
  ultimately have "tables_ok ?t" by (simp add: tables_ok_def)
  moreover from this have "delete_pending seq t = Inr (length (rows_with seq t), ?t)"
    by (auto simp: delete_pending_def constraint_checked_def tables_ok_def)
  ultimately show ?thesis by (auto simp: pending_delta_def queue_of_def)
qed

lemma rows_with_length:
  assumes "tables_ok t"
  shows "length (rows_with seq t) = (if seq \<in> p_sequence ` set (pending t) then 1 else 0)"
proof -
  have "distinct (map p_sequence (pending t))"
    using assms by (simp add: tables_ok_def schema_distinct)
  then show ?thesis by (simp add: rows_with_def length_filter_key)
qed

lemma map_rows_ok:
  assumes "tables_ok t"
    and "\<And>r. p_sequence (f r) = p_sequence r" "\<And>r. p_event_id (f r) = p_event_id r"
    and "\<And>r. p_payload (f r) = p_payload r" "\<And>r. pending_row_ok r \<Longrightarrow> pending_row_ok (f r)"
  shows "tables_ok (t\<lparr>pending := map f (pending t)\<rparr>)"
proof -
  have "p_sequence \<circ> f = p_sequence" "p_event_id \<circ> f = p_event_id" "p_payload \<circ> f = p_payload"
    using assms(2-4) by auto
  then show ?thesis
    using assms by (simp add: tables_ok_def schema_ok_def overlap_def exact_stats_def)
qed

lemma touch_row_ok:
  "pending_row_ok r \<Longrightarrow> pending_row_ok (if b then touch_row err unc r else r)"
  by (auto simp: pending_row_ok_def touch_row_def sql_or_def)

lemma update_attempt_ok:
  assumes "tables_ok t"
  shows "tables_ok (t\<lparr>pending := map (\<lambda>r. if p_sequence r = seq then touch_row err unc r else r) (pending t)\<rparr>)"
  by (rule map_rows_ok [OF assms]) (auto simp: touch_row_ok touch_row_def)

lemma delete_dead_ok:
  assumes "tables_ok t"
  shows "\<exists>t'. delete_dead which t = Inr (length (filter which (dead t)), t') \<and> tables_ok t' \<and>
    queue_of t' = (queue_of t)\<lparr>q_dead := filter (\<lambda>r. \<not> which r) (dead t)\<rparr>"
proof -
  note ok = tables_okD [OF assms]
  let ?t = "dead_delta (- int (length (filter which (dead t)))) (- bytes_of d_payload (filter which (dead t)))
          (t\<lparr>dead := filter (\<lambda>r. \<not> which r) (dead t)\<rparr>)"
  have "schema_ok ?t"
    using ok(1) by (auto simp: schema_ok_def dead_delta_def sorted_wrt_filter_map distinct_filter_map)
  moreover have "\<not> overlap ?t"
    using ok(2) by (auto simp: overlap_def dead_delta_def)
  moreover have "stats_row ?t = Some (exact_stats ?t)"
    using ok(3) by (simp add: dead_delta_def exact_stats_def bytes_of_filter_not length_filter_not)
  ultimately have "tables_ok ?t" by (simp add: tables_ok_def)
  moreover from this have "delete_dead which t = Inr (length (filter which (dead t)), ?t)"
    by (auto simp: delete_dead_def constraint_checked_def tables_ok_def)
  ultimately show ?thesis by (auto simp: dead_delta_def queue_of_def)
qed

text \<open>Moving one pending row: the insert and the delete together keep the tables well formed (in
  between, the event is in both tables).\<close>

definition moved_row :: "dead_row \<Rightarrow> tables \<Rightarrow> tables" where
  "moved_row d t = dead_delta 1 (blob_bytes (d_payload d))
     (t\<lparr>dead := dead t @ [d\<lparr>d_id := dead_seq t + 1\<rparr>], dead_seq := dead_seq t + 1\<rparr>)"

lemma insert_dead_eq:
  assumes "tables_ok t" and "r \<in> set (pending t)"
    and "d_original_sequence d = p_sequence r" "d_event_id d = p_event_id r" "d_payload d = p_payload r"
    and "0 < d_attempt_count d"
  shows "insert_dead d t =
    (if sql_length (d_last_error d) = 0 then Inl (sqlite_exn (Some SQLITE_CONSTRAINT_CHECK))
     else if SQLITE_INTEGER_MAX \<le> dead_seq t then Inl (sqlite_exn (Some SQLITE_FULL))
     else Inr ((), moved_row d t))"
proof -
  note ok = tables_okD [OF assms(1)]
  have "pending_row_ok r" using ok(1) assms(2) by (simp add: schema_ok_def)
  moreover have "d_original_sequence d \<notin> d_original_sequence ` set (dead t)"
      "d_event_id d \<notin> d_event_id ` set (dead t)"
    using ok(2) assms(2-4) by (auto simp: overlap_def)
  moreover have "stats_checked (stats_row (moved_row d t))"
    using ok(3) by (simp add: moved_row_def dead_delta_def stats_checked_def exact_stats_def blob_bytes_def)
  ultimately show ?thesis
    using assms(3-6) by (auto simp: insert_dead_def pending_row_ok_def constraint_checked_def moved_row_def)
qed

lemma moved_row_delete:
  assumes t: "tables_ok t" and r: "r \<in> set (pending t)"
    and d: "d_original_sequence d = p_sequence r" "d_event_id d = p_event_id r" "d_payload d = p_payload r"
    and ok: "dead_row_ok d"
  shows "\<exists>t'. delete_pending (p_sequence r) (moved_row d t) = Inr (1, t') \<and> tables_ok t' \<and>
    queue_of t' = (queue_of t)\<lparr>q_pending := filter (\<lambda>x. p_sequence x \<noteq> p_sequence r) (pending t),
      q_dead := dead t @ [d\<lparr>d_id := dead_seq t + 1\<rparr>], q_dead_next := dead_seq t + 1\<rparr>"
proof -
  note o = tables_okD [OF t]
  note sc = o(1)[unfolded schema_ok_def]
  let ?m = "moved_row d t"
  let ?d = "d\<lparr>d_id := dead_seq t + 1\<rparr>"
  let ?t = "pending_delta (- int (length (rows_with (p_sequence r) ?m)))
      (- bytes_of p_payload (rows_with (p_sequence r) ?m))
      (?m\<lparr>pending := filter (\<lambda>x. p_sequence x \<noteq> p_sequence r) (pending ?m)\<rparr>)"
  have rows: "length (rows_with (p_sequence r) ?m) = 1"
    using rows_with_length [OF t, of "p_sequence r"] r
    by (simp add: rows_with_def moved_row_def dead_delta_def)
  have sel: "pending ?t = filter (\<lambda>x. p_sequence x \<noteq> p_sequence r) (pending t)"
      "dead ?t = dead t @ [?d]" "dead_seq ?t = dead_seq t + 1" "pending_seq ?t = pending_seq t"
    by (simp_all add: pending_delta_def moved_row_def dead_delta_def)
  have fresh: "d_original_sequence d \<notin> d_original_sequence ` set (dead t)"
      "d_event_id d \<notin> d_event_id ` set (dead t)"
    using o(2) r d by (auto simp: overlap_def)
  have dok: "dead_row_ok ?d" using ok by (simp add: dead_row_ok_def)
  have "schema_ok ?t"
    unfolding schema_ok_def sel
  proof (intro conjI ballI)
    show "sorted_wrt (<) (map d_id (dead t @ [?d]))"
      using sc by (simp add: sorted_wrt_append zle_add1_eq_le)
    show "distinct (map d_event_id (dead t @ [?d]))" "distinct (map d_original_sequence (dead t @ [?d]))"
      using sc fresh by simp_all
    show "sorted_wrt (<) (map p_sequence (filter (\<lambda>x. p_sequence x \<noteq> p_sequence r) (pending t)))"
      using sc by (simp add: sorted_wrt_filter_map)
    show "distinct (map p_event_id (filter (\<lambda>x. p_sequence x \<noteq> p_sequence r) (pending t)))"
      using sc by (simp add: distinct_filter_map)
  next
    fix x assume "x \<in> set (dead t @ [?d])"
    then show "dead_row_ok x" "d_id x \<le> dead_seq t + 1" "d_original_sequence x \<le> pending_seq t"
      using sc dok d(1) r by fastforce+
  qed (use sc in simp_all)
  moreover have "\<not> overlap ?t"
    unfolding overlap_def sel
    using o(2) r d sc by (auto simp: overlap_def distinct_map dest: inj_onD)
  moreover have stats: "stats_row ?t = Some (exact_stats ?t)"
    using o(3) by (simp add: pending_delta_def moved_row_def dead_delta_def exact_stats_def rows_with_def
        bytes_of_filter_not length_filter_not blob_bytes_def)
  ultimately have "tables_ok ?t" by (simp add: tables_ok_def)
  moreover from stats have "delete_pending (p_sequence r) ?m = Inr (1, ?t)"
    by (simp add: delete_pending_def constraint_checked_def rows)
  ultimately show ?thesis
    by (auto simp: pending_delta_def moved_row_def dead_delta_def queue_of_def)
qed

end
