(* ===== verification/SpoolRefine.thy ===== *)
theory SpoolRefine
  imports SpoolSpec
begin

section \<open>SQLiteSpool implements the queue\<close>

text \<open>
  First the bodies of the transactions as functions on tables (\<open>sim\<close>), then these functions
  against the specifications on well-formed tables, then the refinement theorems.
\<close>

subsection \<open>Raising and wrapping\<close>

definition shown :: "string \<Rightarrow> exn \<Rightarrow> exn" where
  "shown message e =
     (if isinstance e SpoolError then e
      else if isinstance e SqliteError then classify_storage_error e (lit message) None else e)"

definition shown_plain :: "string \<Rightarrow> exn \<Rightarrow> exn" where
  "shown_plain message e =
     (if isinstance e SpoolError then e
      else if isinstance e SqliteError then mk_exn SpoolError (lit message) else e)"

lemma classify_class:
  "exn_class (classify_storage_error e m b) \<in> {SpoolError, SpoolDiskFullError, SpoolReadOnlyError}"
  by (simp add: classify_storage_error_def split: option.splits)

lemma shown_sqlite: "exn_class e = SqliteError \<Longrightarrow> storage_failure (shown m e)"
  using classify_class by (simp add: shown_def storage_failure_def isinstance_def)

lemma shown_plain_sqlite: "exn_class e = SqliteError \<Longrightarrow> storage_failure (shown_plain m e)"
  by (simp add: shown_plain_def storage_failure_def isinstance_def)

lemma shown_spool [simp]: "isinstance e SpoolError \<Longrightarrow> shown m e = e"
  "isinstance e SpoolError \<Longrightarrow> shown_plain m e = e"
  by (simp_all add: shown_def shown_plain_def)

lemma classify_errors_eq: "classify_errors m p = catchP p (\<lambda>e. raiseP (shown m e))"
  by (rule ext) (auto simp: classify_errors_def shown_def catchP_def split: prod.splits sum.splits)

lemma plain_errors_eq: "plain_errors m p = catchP p (\<lambda>e. raiseP (shown_plain m e))"
  by (rule ext) (auto simp: plain_errors_def shown_plain_def catchP_def split: prod.splits sum.splits)

lemma triple_rewrap:
  assumes "triple P m Q (\<lambda>e s. E (w e) s)"
  shows "triple P (catchP m (\<lambda>e. raiseP (w e))) Q E"
  using assms unfolding triple_def catchP_def by (fastforce split: prod.splits sum.splits)

lemma triple_liftR:
  assumes "\<And>e. r = Inl e \<Longrightarrow> spec L (queue_of d) = Inl e"
    and "\<And>x. r = Inr x \<Longrightarrow> triple (idle L f d) (k x) Q (refused spec L f d)"
  shows "triple (idle L f d) (bindP (liftR r) k) Q (refused spec L f d)"
  using assms unfolding triple_def bindP_def liftR_def
  by (cases r) (auto simp: refused_def outside_def idle_def)

lemma triple_liftR_end:
  assumes "\<And>e. r = Inl e \<Longrightarrow> spec L (queue_of d) = Inl e"
    and "\<And>x. r = Inr x \<Longrightarrow> spec L (queue_of d) = Inr (x, queue_of d)" and "tables_ok d"
  shows "triple (idle L f d) (liftR r) (fulfilled spec L f d) (refused spec L f d)"
  using assms unfolding triple_def liftR_def
  by (cases r) (auto simp: refused_def fulfilled_def outside_def idle_def)

lemma triple_idle_limits:
  assumes "triple (idle L f d) (k L) Q E"
  shows "triple (idle L f d) (bindP (getP limits) k) Q E"
  using assms unfolding triple_def bindP_def by (auto simp: idle_def)

lemma triple_idle_return:
  assumes "spec L (queue_of d) = Inr (x, queue_of d)" and "tables_ok d"
  shows "triple (idle L f d) (returnP x) (fulfilled spec L f d) E"
  using assms by (auto simp: triple_def fulfilled_def)

text \<open>The rule for a method that runs one transaction.\<close>

lemma triple_write:
  assumes "sim body g"
    and "\<And>e. g L d = Inl e \<Longrightarrow> spec L (queue_of d) = Inl (w e)"
    and "\<And>x d'. g L d = Inr (x, d') \<Longrightarrow> tables_ok d' \<and> spec L (queue_of d) = Inr (h x, queue_of d')"
    and "\<And>e. exn_class e = SqliteError \<Longrightarrow> storage_failure (w e)"
  shows "triple (idle L f d) (bindP (catchP (transaction body) (\<lambda>e. raiseP (w e))) (\<lambda>x. returnP (h x)))
    (fulfilled spec L f d) (refused spec L f d)"
proof (rule triple_bind)
  show "triple (idle L f d) (catchP (transaction body) (\<lambda>e. raiseP (w e)))
      (\<lambda>x. fulfilled spec L f d (h x)) (refused spec L f d)"
    by (rule triple_rewrap, rule triple_weaken [OF transaction_sim [OF assms(1)]])
      (use assms(2-4) in \<open>auto simp: fulfilled_def refused_def raises_def\<close>)
qed (rule triple_return)

text \<open>A method that only reads, outside any transaction.\<close>

lemma triple_read:
  assumes "tables_ok d" and "stmt d = Inr (y, d)"
    and "triple (idle L f d) (k y) (fulfilled spec L f d) (refused spec L f d)"
  shows "triple (idle L f d)
    (bindP (plain_errors m (bindP require_open (\<lambda>_. execute stmt))) k)
    (fulfilled spec L f d) (refused spec L f d)"
proof (rule triple_bind)
  show "triple (idle L f d) (plain_errors m (bindP require_open (\<lambda>_. execute stmt)))
      (\<lambda>x s. x = y \<and> idle L f d s) (refused spec L f d)"
    unfolding plain_errors_eq
  proof (rule triple_rewrap, rule tripleI)
    fix s e s'
    assume i: "idle L f d s" and "bindP require_open (\<lambda>_. execute stmt) s = (Inl e, s')"
    then obtain x where "f (tick s) = Some x" "e = sqlite_exn (fault_code x)"
        "s' = bump (after_fault x s)"
      using assms(2) by (auto simp: bindP_def require_open_def execute_def idle_def split: option.splits)
    then show "refused spec L f d (shown_plain m e) s'"
      using after_fault_outside(2) [OF i]
      by (auto simp: refused_def no_faults_def shown_plain_sqlite)
  next
    fix s x s'
    assume "idle L f d s" and "bindP require_open (\<lambda>_. execute stmt) s = (Inr x, s')"
    then show "x = y \<and> idle L f d s'"
      using assms(2) by (auto simp: bindP_def require_open_def execute_def idle_def split: option.splits)
  qed
  show "triple (\<lambda>s. x = y \<and> idle L f d s) (k x) (fulfilled spec L f d) (refused spec L f d)" for x
    by (cases "x = y") (use assms(3) in \<open>auto simp: triple_def\<close>)
qed

subsection \<open>Counters\<close>

definition statsT :: "spool_stats on_tables" where
  "statsT = bindT (returnT ()) (\<lambda>_. bindT (stmtT select_stats) (\<lambda>row.
     case row of None \<Rightarrow> raiseT (mk_exn SpoolStateError (lit ''spool stats row is missing''))
     | Some st \<Rightarrow> returnT st))"

lemma sim_stats [sim_intros]: "sim stats_of_row statsT"
  unfolding stats_of_row_def statsT_def
  by (intro sim_bind sim_require_open sim_execute) (auto split: option.splits intro: sim_intros)

lemma statsT_ok: "tables_ok t \<Longrightarrow> statsT L t = Inr (exact_stats t, t)"
  by (simp add: statsT_def bindT_def stmtT_def returnT_def select_stats_def tables_ok_def)

subsection \<open>enqueue_many\<close>

fun unseenT :: "new_spool_event list \<Rightarrow> new_spool_event list on_tables" where
  "unseenT [] = returnT []"
| "unseenT (ev # evs) = bindT (stmtT (select_existing (ne_event_id ev))) (\<lambda>existing.
     case existing of
       None \<Rightarrow> bindT (unseenT evs) (\<lambda>rest. returnT (ev # rest))
     | Some (payload, created_ns) \<Rightarrow>
         if payload \<noteq> ne_payload ev \<or> created_ns \<noteq> ne_created_ns ev then
           raiseT (mk_exn SpoolStateError (lit ''event_id already exists with different content''))
         else unseenT evs)"

lemma sim_unseen [sim_intros]: "sim (unseen_events evs) (unseenT evs)"
proof (induction evs)
  case Nil
  show ?case by (simp only: unseen_events.simps unseenT.simps sim_return)
next
  case (Cons ev evs)
  show ?case
    unfolding unseen_events.simps unseenT.simps
    by (rule sim_bind [OF sim_execute])
      (auto split: option.splits prod.splits intro!: sim_intros Cons)
qed

lemma stored_event_q: "stored_event t eid = q_stored (queue_of t) eid"
  by (simp add: stored_event_def q_stored_def split: option.split)

lemma unseenT_eq:
  "unseenT evs L t =
    (if \<exists>ev \<in> set evs. conflicting (queue_of t) ev then
       Inl (mk_exn SpoolStateError (lit ''event_id already exists with different content''))
     else Inr (new_to (queue_of t) evs, t))"
  by (induction evs)
    (auto simp: bindT_def stmtT_def returnT_def raiseT_def select_existing_def stored_event_q
      conflicting_def new_to_def split: option.splits)

definition insertT :: "new_spool_event \<Rightarrow> unit on_tables" where
  "insertT ev = stmtT (insert_pending ev)"

lemma insertT_app: "insertT ev L t = insert_pending ev t"
  by (simp add: insertT_def stmtT_def)

definition enqueueT :: "new_spool_event list \<Rightarrow> nat on_tables" where
  "enqueueT evs = bindT (unseenT evs) (\<lambda>new. bindT statsT (\<lambda>st L.
     (if pending_rows st + int (length new) > max_pending_rows L then
        raiseT (mk_exn SpoolFullError
          (lit ''pending row limit '' @ int_str (max_pending_rows L) @ lit '' reached''))
      else if pending_bytes st + bytes_of ne_payload new > max_pending_bytes L then
        raiseT (mk_exn SpoolFullError
          (lit ''pending payload-byte limit '' @ int_str (max_pending_bytes L) @ lit '' reached''))
      else bindT (forT insertT new) (\<lambda>_. returnT (length new))) L))"

lemma sim_enqueue: "sim (enqueue_transaction evs) (enqueueT evs)"
  unfolding enqueue_transaction_def enqueueT_def insertT_def
  by (intro sim_bind sim_unseen sim_stats sim_limits sim_if sim_raise sim_for sim_execute sim_return)

lemma with_new_row_sel:
  "pending (with_new_row ev t) = pending t @ [new_pending_row (pending_seq t + 1) ev]"
  "pending_seq (with_new_row ev t) = pending_seq t + 1"
  "dead (with_new_row ev t) = dead t" "dead_seq (with_new_row ev t) = dead_seq t"
  by (simp_all add: with_new_row_def pending_delta_def)

lemma insertable_after:
  assumes "insertable (queue_of t) ev'" and "ne_event_id ev' \<noteq> ne_event_id ev"
  shows "insertable (queue_of (with_new_row ev t)) ev'"
  using assms by (auto simp: insertable_def q_stored_None with_new_row_sel new_pending_row_def)

lemma insert_all:
  assumes "tables_ok t" and "\<forall>ev \<in> set new. insertable (queue_of t) ev"
    and "distinct (map ne_event_id new)"
  shows "if new \<noteq> [] \<and> pending_seq t + int (length new) > SQLITE_INTEGER_MAX
    then forT insertT new L t = Inl (sqlite_exn (Some SQLITE_FULL))
    else \<exists>t'. forT insertT new L t = Inr ((), t') \<and> tables_ok t' \<and>
      queue_of t' = (queue_of t)\<lparr>q_pending := pending t @ numbered (pending_seq t) new,
        q_next := pending_seq t + int (length new)\<rparr>"
  using assms
proof (induction new arbitrary: t)
  case Nil
  then show ?case by (auto simp: returnT_def queue_of_def)
next
  case (Cons ev new)
  have ins: "insertable (queue_of t) ev" using Cons.prems(2) by simp
  let ?t = "with_new_row ev t"
  show ?case
  proof (cases "SQLITE_INTEGER_MAX \<le> pending_seq t")
    case True
    then show ?thesis
      using insert_pending_eq [OF Cons.prems(1) ins] by (simp add: bindT_def insertT_app [of ev L t])
  next
    case False
    have "\<forall>e \<in> set new. insertable (queue_of ?t) e"
      using Cons.prems(2,3) insertable_after by (auto simp: image_iff)
    from Cons.IH [OF with_new_row_ok [OF Cons.prems(1) ins] this] Cons.prems(3)
    show ?thesis
      using False insert_pending_eq [OF Cons.prems(1) ins]
      by (auto simp: bindT_def insertT_app [of ev L t] with_new_row_sel queue_of_def split: if_splits)
  qed
qed

lemma distinct_events_Inr:
  assumes "distinct_events acc evs = Inr ds" and "distinct (map ne_event_id acc)"
  shows "distinct (map ne_event_id ds) \<and> set ds \<subseteq> set acc \<union> set evs"
  using assms
proof (induction acc evs rule: distinct_events.induct)
  case (2 acc ev evs)
  show ?case
  proof (cases "find (\<lambda>x. ne_event_id x = ne_event_id ev) acc")
    case None
    then have "distinct (map ne_event_id (acc @ [ev]))"
      using 2(4) by (auto simp: find_None_iff)
    then show ?thesis using 2(1) [OF None] 2(3) None by auto
  next
    case (Some p)
    then show ?thesis using 2(2) [OF Some] 2(3,4) by (auto split: if_splits)
  qed
qed simp

lemma validate_Inr:
  "validate_new_event L ev = Inr () \<longleftrightarrow>
    ne_event_id ev \<noteq> [] \<and> 0 \<notin> set (ne_event_id ev) \<and> ne_payload ev \<noteq> [] \<and>
    SQLITE_INTEGER_MIN \<le> ne_created_ns ev \<and> ne_created_ns ev \<le> SQLITE_INTEGER_MAX \<and>
    blob_bytes (ne_payload ev) \<le> max_event_bytes L"
  by (auto simp: validate_new_event_def sqlite_integer_def)

lemma mapR_unit_Inr: "mapR f xs = Inr us \<Longrightarrow> x \<in> set xs \<Longrightarrow> f x = Inr ()"
  by (induction xs arbitrary: us) (auto simp: bindR_eq_Inr)

lemma new_to_insertable:
  assumes "mapR (validate_new_event L) evs = Inr us" and "distinct_events [] evs = Inr ds"
  shows "\<forall>ev \<in> set (new_to q ds). insertable q ev" "distinct (map ne_event_id (new_to q ds))"
proof -
  have ds: "distinct (map ne_event_id ds)" "set ds \<subseteq> set evs"
    using distinct_events_Inr [OF assms(2)] by auto
  then show "\<forall>ev \<in> set (new_to q ds). insertable q ev"
    using mapR_unit_Inr [OF assms(1)] by (auto simp: new_to_def insertable_def validate_Inr)
  show "distinct (map ne_event_id (new_to q ds))"
    using ds by (simp add: new_to_def distinct_filter_map)
qed

lemma isinstance_full: "\<not> isinstance (sqlite_exn c) SpoolError" "isinstance (sqlite_exn c) SqliteError"
  by (simp_all add: isinstance_def)

lemma shown_full [simp]: "shown m (sqlite_exn (Some SQLITE_FULL)) = storage_full m"
  by (simp add: shown_def storage_full_def isinstance_full)

lemma enqueue_refines: "refines (enqueue_many evs) (spec_enqueue evs)"
  unfolding refines_def
proof (intro allI impI)
  fix L f d assume d: "tables_ok d"
  let ?Q = "fulfilled (spec_enqueue evs) L f d" and ?E = "refused (spec_enqueue evs) L f d"
  have main: "triple (idle L f d)
      (classify_errors ''failed to enqueue events'' (transaction (enqueue_transaction ds))) ?Q ?E"
    if v: "mapR (validate_new_event L) evs = Inr us" and ne: "evs \<noteq> []"
      and ds: "distinct_events [] evs = Inr ds" for us ds
  proof -
    let ?new = "new_to (queue_of d) ds"
    note ins = new_to_insertable [OF v ds, of "queue_of d"]
    note all = insert_all [OF d ins]
    have spec: "spec_enqueue evs L (queue_of d) =
        map_sum (shown ''failed to enqueue events'') (\<lambda>(x, t). (x, queue_of t)) (enqueueT ds L d) \<and>
        (\<forall>x t. enqueueT ds L d = Inr (x, t) \<longrightarrow> tables_ok t)"
      using all [of L] v ne ds d
      by (auto simp: spec_enqueue_def enqueueT_def bindT_def raiseT_def returnT_def unseenT_eq statsT_ok
          exact_stats_def isinstance_def Let_def split: if_splits)
    have "triple (idle L f d)
        (bindP (catchP (transaction (enqueue_transaction ds))
            (\<lambda>e. raiseP (shown ''failed to enqueue events'' e))) (\<lambda>x. returnP (id x))) ?Q ?E"
      by (rule triple_write [OF sim_enqueue]) (use spec shown_sqlite in auto)
    moreover have "bindP m (\<lambda>x. returnP (id x)) = m" for m :: "(spool, nat) prog"
      by (rule ext) (auto simp: bindP_def split: prod.splits sum.splits)
    ultimately show ?thesis by (simp add: classify_errors_eq)
  qed
  show "triple (idle L f d) (enqueue_many evs) ?Q ?E"
    unfolding enqueue_many_def
    by (rule triple_idle_limits, rule triple_liftR, simp add: spec_enqueue_def, rule triple_if,
        rule triple_idle_return, simp add: spec_enqueue_def, rule d, rule triple_liftR,
        simp add: spec_enqueue_def, rule main)
qed

subsection \<open>Loops over sequences\<close>

text \<open>\<open>mark_delivered\<close>, \<open>record_attempt\<close> and \<open>delete_dead_letters\<close> run one statement per
  sequence and expect it to change exactly one row.\<close>

definition expectT :: "exn \<Rightarrow> nat \<Rightarrow> unit on_tables" where
  "expectT e n = (if n \<noteq> 1 then raiseT e else returnT ())"

definition each_oneT :: "(int \<Rightarrow> tables \<Rightarrow> exn + (nat \<times> tables)) \<Rightarrow> (int \<Rightarrow> exn) \<Rightarrow> int \<Rightarrow> unit on_tables" where
  "each_oneT stmt missing seq = bindT (stmtT (stmt seq)) (expectT (missing seq))"

lemma sim_expect [sim_intros]: "sim (expect_one e n) (expectT e n)"
  unfolding expect_one_def expectT_def by (intro sim_if sim_raise sim_return)

lemma sim_each_one:
  "sim (forP (\<lambda>seq. bindP (execute (stmt seq)) (expect_one (missing seq))) seqs)
     (forT (each_oneT stmt missing) seqs)"
  unfolding each_oneT_def by (intro sim_for sim_bind sim_execute sim_expect)

text \<open>What one statement promises: it changes the row with the key and no other key.\<close>

definition one_row ::
    "(queue \<Rightarrow> int set) \<Rightarrow> (int \<Rightarrow> queue \<Rightarrow> queue) \<Rightarrow> (int \<Rightarrow> tables \<Rightarrow> exn + (nat \<times> tables)) \<Rightarrow> bool" where
  "one_row keys upd stmt \<longleftrightarrow>
     (\<forall>seq t. tables_ok t \<longrightarrow>
        (\<exists>t'. stmt seq t = Inr (if seq \<in> keys (queue_of t) then 1 else 0, t') \<and> tables_ok t' \<and>
           queue_of t' = upd seq (queue_of t))) \<and>
     (\<forall>seq q s. s \<noteq> seq \<longrightarrow> s \<in> keys (upd seq q) \<longleftrightarrow> s \<in> keys q)"

lemma each_one_all:
  assumes "one_row keys upd stmt" and "tables_ok t" and "distinct seqs"
  shows "case first_missing seqs (keys (queue_of t)) of
      Some s \<Rightarrow> forT (each_oneT stmt missing) seqs L t = Inl (missing s)
    | None \<Rightarrow> \<exists>t'. forT (each_oneT stmt missing) seqs L t = Inr ((), t') \<and> tables_ok t' \<and>
        queue_of t' = fold upd seqs (queue_of t)"
  using assms(2,3)
proof (induction seqs arbitrary: t)
  case Nil
  then show ?case by (auto simp: first_missing_def returnT_def)
next
  case (Cons s seqs)
  obtain t' where t': "stmt s t = Inr (if s \<in> keys (queue_of t) then 1 else 0, t')" "tables_ok t'"
      "queue_of t' = upd s (queue_of t)"
    using assms(1) Cons.prems(1) unfolding one_row_def by blast
  have step: "each_oneT stmt missing s L t =
      (if s \<in> keys (queue_of t) then Inr ((), t') else Inl (missing s))"
    using t'(1) by (simp add: each_oneT_def bindT_def stmtT_def expectT_def raiseT_def returnT_def)
  have keys: "first_missing seqs (keys (queue_of t')) = first_missing seqs (keys (queue_of t))"
    unfolding first_missing_def
  proof (rule find_cong [OF refl])
    fix x assume "x \<in> set seqs"
    then have "x \<noteq> s" using Cons.prems(2) by auto
    then show "(x \<notin> keys (queue_of t')) = (x \<notin> keys (queue_of t))"
      using assms(1) unfolding one_row_def t'(3) by blast
  qed
  show ?case
    using Cons.IH [OF t'(2)] Cons.prems(2) step keys t'(3)
    by (auto simp: first_missing_def bindT_def split: option.splits)
qed

lemma sequence_tuple_Inr: "sequence_tuple seqs = Inr () \<longleftrightarrow> distinct seqs \<and> (\<forall>s \<in> set seqs. 0 < s)"
proof -
  have "(\<exists>us. mapR (positive_integer ''sequence'') seqs = Inr us) \<longleftrightarrow> (\<forall>s \<in> set seqs. 0 < s)"
    by (induction seqs) (auto simp: bindR_eq_Inr positive_integer_def)
  then show ?thesis by (auto simp: sequence_tuple_def bindR_eq_Inr)
qed

lemma triple_each_one:
  assumes one: "one_row keys upd stmt" and d: "tables_ok d" and seqs: "distinct seqs"
    and spec: "spec L (queue_of d) =
      (case first_missing seqs (keys (queue_of d)) of Some s \<Rightarrow> Inl (missing s)
       | None \<Rightarrow> Inr (length seqs, fold upd seqs (queue_of d)))"
    and missing: "\<And>s. isinstance (missing s) SpoolError"
    and w: "\<And>e. isinstance e SpoolError \<Longrightarrow> w e = e"
      "\<And>e. exn_class e = SqliteError \<Longrightarrow> storage_failure (w e)"
  shows "triple (idle L f d)
    (bindP (catchP (transaction
        (forP (\<lambda>seq. bindP (execute (stmt seq)) (expect_one (missing seq))) seqs)) (\<lambda>e. raiseP (w e)))
      (\<lambda>_. returnP (length seqs)))
    (fulfilled spec L f d) (refused spec L f d)"
  by (rule triple_write [OF sim_each_one, where h = "\<lambda>_. length seqs"])
    (use each_one_all [OF one d seqs, of missing L] spec w missing in
      \<open>auto split: option.splits\<close>)

lemma fold_filter_out:
  "(\<And>s q. upd s q = set_rows (filter (\<lambda>r. key r \<noteq> s) (rows q)) q) \<Longrightarrow>
   (\<And>xs q. rows (set_rows xs q) = xs) \<Longrightarrow> (\<And>xs ys q. set_rows xs (set_rows ys q) = set_rows xs q) \<Longrightarrow>
   (\<And>q. set_rows (rows q) q = q) \<Longrightarrow>
   fold upd seqs q = set_rows (filter (\<lambda>r. key r \<notin> set seqs) (rows q)) q"
  by (induction seqs arbitrary: q) (auto intro!: arg_cong2 [where f = set_rows] filter_cong)

subsection \<open>mark_delivered\<close>

definition drop_pending :: "int \<Rightarrow> queue \<Rightarrow> queue" where
  "drop_pending seq q = q\<lparr>q_pending := filter (\<lambda>r. p_sequence r \<noteq> seq) (q_pending q)\<rparr>"

lemma fold_drop_pending:
  "fold drop_pending seqs q = q\<lparr>q_pending := filter (\<lambda>r. p_sequence r \<notin> set seqs) (q_pending q)\<rparr>"
  by (rule fold_filter_out [where set_rows = "\<lambda>xs q. q\<lparr>q_pending := xs\<rparr>"])
    (auto simp: drop_pending_def)

lemma one_row_delete: "one_row (\<lambda>q. p_sequence ` set (q_pending q)) drop_pending delete_pending"
  unfolding one_row_def
proof (intro conjI allI impI)
  fix seq t assume t: "tables_ok t"
  show "\<exists>t'. delete_pending seq t =
        Inr (if seq \<in> p_sequence ` set (q_pending (queue_of t)) then 1 else 0, t') \<and>
      tables_ok t' \<and> queue_of t' = drop_pending seq (queue_of t)"
    using without_pending_ok [OF t, of seq] rows_with_length [OF t, of seq]
    by (simp add: drop_pending_def)
qed (auto simp: drop_pending_def)

lemma mark_delivered_refines: "refines (mark_delivered seqs) (spec_mark_delivered seqs)"
  unfolding refines_def mark_delivered_def classify_errors_eq
proof (intro allI impI, rule triple_liftR, goal_cases)
  case (1 L f d e)
  then show ?case by (simp add: spec_mark_delivered_def)
next
  case (2 L f d)
  then have seqs: "sequence_tuple seqs = Inr ()" "distinct seqs" by (simp_all add: sequence_tuple_Inr)
  show ?case
  proof (rule triple_if)
    assume "seqs = []"
    then show "triple (idle L f d) (returnP 0) (fulfilled (spec_mark_delivered seqs) L f d)
        (refused (spec_mark_delivered seqs) L f d)"
      using 2(1) seqs(1)
      by (intro triple_idle_return) (auto simp: spec_mark_delivered_def first_missing_def queue_of_def)
  qed (rule triple_each_one [OF one_row_delete 2(1) seqs(2)],
      auto simp: spec_mark_delivered_def seqs(1) fold_drop_pending missing_pending_def shown_sqlite
        split: option.splits)
qed

subsection \<open>record_attempt\<close>

definition touch_pending :: "ustr \<Rightarrow> bool \<Rightarrow> int \<Rightarrow> queue \<Rightarrow> queue" where
  "touch_pending err unc seq q =
     q\<lparr>q_pending := map (\<lambda>r. if p_sequence r = seq then touch_row err unc r else r) (q_pending q)\<rparr>"

lemma touch_row_sel [simp]:
  "p_sequence (touch_row err unc r) = p_sequence r" "p_event_id (touch_row err unc r) = p_event_id r"
  "p_payload (touch_row err unc r) = p_payload r"
  "p_created_ns (touch_row err unc r) = p_created_ns r"
  by (simp_all add: touch_row_def)

lemma fold_touch_pending:
  "distinct seqs \<Longrightarrow> fold (touch_pending err unc) seqs q =
     q\<lparr>q_pending := map (\<lambda>r. if p_sequence r \<in> set seqs then touch_row err unc r else r) (q_pending q)\<rparr>"
proof (induction seqs arbitrary: q)
  case Nil
  then show ?case by simp
next
  case (Cons s seqs)
  then show ?case
    by (auto simp: touch_pending_def intro!: arg_cong2 [where f = "\<lambda>x. q_pending_update (\<lambda>_. x)"])
qed

lemma one_row_touch:
  "one_row (\<lambda>q. p_sequence ` set (q_pending q)) (touch_pending err unc) (update_attempt err unc)"
  unfolding one_row_def
proof (intro conjI allI impI)
  fix seq t assume t: "tables_ok t"
  show "\<exists>t'. update_attempt err unc seq t =
        Inr (if seq \<in> p_sequence ` set (q_pending (queue_of t)) then 1 else 0, t') \<and>
      tables_ok t' \<and> queue_of t' = touch_pending err unc seq (queue_of t)"
    using update_attempt_ok [OF t, of seq err unc] rows_with_length [OF t, of seq]
    by (simp add: update_attempt_def touch_pending_def queue_of_def)
qed (auto simp: touch_pending_def image_image if_distrib cong: if_cong)

lemma record_attempt_refines: "refines (record_attempt seqs err unc) (spec_record_attempt seqs err unc)"
  unfolding refines_def record_attempt_def classify_errors_eq
proof (intro allI impI, rule triple_liftR, goal_cases)
  case (1 L f d e)
  then show ?case by (simp add: spec_record_attempt_def)
next
  case (2 L f d)
  then have seqs: "sequence_tuple seqs = Inr ()" "distinct seqs" by (simp_all add: sequence_tuple_Inr)
  show ?case
  proof (rule triple_liftR, goal_cases)
    case (1 e)
    then show ?case by (simp add: spec_record_attempt_def seqs)
  next
    case err: (2 x)
    show ?case
    proof (rule triple_if)
      assume "seqs = []"
      then show "triple (idle L f d) (returnP 0) (fulfilled (spec_record_attempt seqs err unc) L f d)
          (refused (spec_record_attempt seqs err unc) L f d)"
        using 2(1) seqs(1) err
        by (intro triple_idle_return) (auto simp: spec_record_attempt_def first_missing_def queue_of_def)
    qed (rule triple_each_one [OF one_row_touch 2(1) seqs(2)],
        auto simp: spec_record_attempt_def seqs err fold_touch_pending missing_pending_def shown_sqlite
          split: option.splits)
  qed
qed

subsection \<open>delete_dead_letters\<close>

definition drop_dead :: "int \<Rightarrow> queue \<Rightarrow> queue" where
  "drop_dead seq q = q\<lparr>q_dead := filter (\<lambda>r. d_original_sequence r \<noteq> seq) (q_dead q)\<rparr>"

lemma fold_drop_dead:
  "fold drop_dead seqs q = q\<lparr>q_dead := filter (\<lambda>r. d_original_sequence r \<notin> set seqs) (q_dead q)\<rparr>"
  by (rule fold_filter_out [where set_rows = "\<lambda>xs q. q\<lparr>q_dead := xs\<rparr>"])
    (auto simp: drop_dead_def)

lemma one_row_delete_dead:
  "one_row (\<lambda>q. d_original_sequence ` set (q_dead q)) drop_dead
     (\<lambda>seq. delete_dead (\<lambda>r. d_original_sequence r = seq))"
  unfolding one_row_def
proof (intro conjI allI impI)
  fix seq t assume t: "tables_ok t"
  have "distinct (map d_original_sequence (dead t))" using t by (simp add: tables_ok_def schema_ok_def)
  then show "\<exists>t'. delete_dead (\<lambda>r. d_original_sequence r = seq) t =
        Inr (if seq \<in> d_original_sequence ` set (q_dead (queue_of t)) then 1 else 0, t') \<and>
      tables_ok t' \<and> queue_of t' = drop_dead seq (queue_of t)"
    using delete_dead_ok [OF t, of "\<lambda>r. d_original_sequence r = seq"]
    by (simp add: drop_dead_def length_filter_key)
qed (auto simp: drop_dead_def)

lemma delete_dead_letters_refines: "refines (delete_dead_letters seqs) (spec_delete_dead_letters seqs)"
  unfolding refines_def delete_dead_letters_def plain_errors_eq
proof (intro allI impI, rule triple_liftR, goal_cases)
  case (1 L f d e)
  then show ?case by (simp add: spec_delete_dead_letters_def)
next
  case (2 L f d)
  then have seqs: "sequence_tuple seqs = Inr ()" "distinct seqs" by (simp_all add: sequence_tuple_Inr)
  show ?case
  proof (rule triple_if)
    assume "seqs = []"
    then show "triple (idle L f d) (returnP 0) (fulfilled (spec_delete_dead_letters seqs) L f d)
        (refused (spec_delete_dead_letters seqs) L f d)"
      using 2(1) seqs(1)
      by (intro triple_idle_return) (auto simp: spec_delete_dead_letters_def first_missing_def queue_of_def)
  qed (rule triple_each_one [OF one_row_delete_dead 2(1) seqs(2)],
      auto simp: spec_delete_dead_letters_def seqs(1) fold_drop_dead missing_dead_letter_def
        shown_plain_sqlite split: option.splits)
qed

subsection \<open>Reads\<close>

lemma sort_pending: "schema_ok t \<Longrightarrow> sort_key p_sequence (pending t) = pending t"
  by (intro sort_key_id_if_sorted) (simp add: schema_ok_def strict_sorted_imp_sorted)

lemma sort_dead: "schema_ok t \<Longrightarrow> sort_key d_id (dead t) = dead t"
  by (intro sort_key_id_if_sorted) (simp add: schema_ok_def strict_sorted_imp_sorted)

lemma peek_batch_refines: "refines (peek_batch max_rows max_bytes) (spec_peek_batch max_rows max_bytes)"
  unfolding refines_def peek_batch_def
proof (intro allI impI, rule triple_liftR, goal_cases)
  case (1 L f d e)
  then show ?case by (simp add: spec_peek_batch_def)
next
  case rows: (2 L f d)
  show ?case
  proof (rule triple_liftR, goal_cases)
    case (1 e)
    then show ?case using rows by (simp add: spec_peek_batch_def)
  next
    case bytes: (2 x)
    show ?case
    proof (rule triple_read [OF rows(1)])
      show "select_oldest_pending max_rows d = Inr (take (nat max_rows) (pending d), d)"
        using rows(1) by (simp add: select_oldest_pending_def tables_ok_def sort_pending)
      show "triple (idle L f d) (liftR (take_batch max_bytes 0 (take (nat max_rows) (pending d)) []))
          (fulfilled (spec_peek_batch max_rows max_bytes) L f d)
          (refused (spec_peek_batch max_rows max_bytes) L f d)"
        by (rule triple_liftR_end) (use rows bytes in \<open>auto simp: spec_peek_batch_def\<close>)
    qed
  qed
qed

lemma peek_dead_letters_refines: "refines (peek_dead_letters n) (spec_peek_dead_letters n)"
  unfolding refines_def peek_dead_letters_def
proof (intro allI impI, rule triple_liftR, goal_cases)
  case (1 L f d e)
  then show ?case by (simp add: spec_peek_dead_letters_def)
next
  case (2 L f d)
  show ?case
  proof (rule triple_read [OF 2(1)])
    show "select_oldest_dead n d = Inr (take (nat n) (dead d), d)"
      using 2(1) by (simp add: select_oldest_dead_def tables_ok_def sort_dead)
  qed (rule triple_idle_return, use 2 in \<open>auto simp: spec_peek_dead_letters_def\<close>)
qed

lemma stats_refines: "refines current_stats spec_stats"
  unfolding refines_def
proof (intro allI impI tripleI, goal_cases)
  case (1 L f d s e s')
  show ?case
  proof (cases "f (tick s)")
    case None
    then show ?thesis using 1
      by (auto simp: current_stats_def plain_errors_eq stats_of_row_def bindP_def catchP_def require_open_def
          idle_def execute_def select_stats_def tables_ok_def)
  next
    case (Some x)
    then have "e = shown_plain ''failed to read spool stats'' (sqlite_exn (fault_code x))"
        "s' = bump (after_fault x s)"
      using 1 by (auto simp: current_stats_def plain_errors_eq stats_of_row_def bindP_def catchP_def
          require_open_def idle_def execute_def)
    then show ?thesis
      using after_fault_outside(2) [OF 1(2)] Some by (auto simp: refused_def no_faults_def shown_plain_sqlite)
  qed
next
  case (2 L f d s x s')
  then have "f (tick s) = None"
    by (auto simp: current_stats_def plain_errors_eq stats_of_row_def bindP_def catchP_def
          require_open_def idle_def execute_def split: option.splits)
  then show ?case using 2
    by (auto simp: current_stats_def plain_errors_eq stats_of_row_def bindP_def catchP_def require_open_def
          idle_def execute_def select_stats_def tables_ok_def fulfilled_def spec_stats_def exact_stats_def
        intro!: exI [of _ d])
qed

subsection \<open>move_to_dead_letter\<close>

text \<open>The eviction loop as a function on tables.\<close>

lemma delete_dead_length:
  assumes "delete_dead (\<lambda>r. d_id r = d_id oldest) t = Inr (n, t')" and "oldest \<in> set (dead t)"
  shows "length (dead t') < length (dead t)"
proof -
  have "dead t' = filter (\<lambda>r. d_id r \<noteq> d_id oldest) (dead t)"
    using assms(1) by (auto simp: delete_dead_def constraint_checked_def dead_delta_def split: if_splits)
  then show ?thesis using assms(2) by (auto intro: length_filter_less)
qed

function evictT :: "int \<Rightarrow> int \<Rightarrow> int \<Rightarrow> nat \<Rightarrow> (int \<times> int \<times> nat) on_tables" where
  "evictT payload rows bytes evicted L t =
     (if rows + 1 > max_dead_letter_rows L \<or> bytes + payload > max_dead_letter_bytes L then
        (case sort_key d_id (dead t) of
           [] \<Rightarrow> Inl dead_letter_full
         | oldest # _ \<Rightarrow>
             (case delete_dead (\<lambda>r. d_id r = d_id oldest) t of
                Inl e \<Rightarrow> Inl e
              | Inr (_, t') \<Rightarrow>
                  evictT payload (rows - 1) (bytes - blob_bytes (d_payload oldest)) (Suc evicted) L t'))
      else Inr ((rows, bytes, evicted), t))"
  by pat_completeness auto
termination
proof (relation "measure (\<lambda>(p, r, b, e, L, t). length (dead t))", goal_cases)
  case (2 payload rows bytes evicted L t oldest rest x n t')
  then have "oldest \<in> set (dead t)" by (metis list.set_intros(1) set_sort)
  then show ?case using 2 delete_dead_length [of oldest t n t'] by auto
qed simp

declare evictT.simps [simp del]

lemma evict_steps:
  "evict payload rows bytes evicted =
     bindP (getP limits) (\<lambda>L.
       if rows + 1 > max_dead_letter_rows L \<or> bytes + payload > max_dead_letter_bytes L then
         bindP (execute (select_oldest_dead 1)) (\<lambda>found.
           case found of
             [] \<Rightarrow> raiseP dead_letter_full
           | oldest # _ \<Rightarrow> bindP (execute (delete_dead (\<lambda>r. d_id r = d_id oldest))) (\<lambda>_.
               evict payload (rows - 1) (bytes - blob_bytes (d_payload oldest)) (Suc evicted)))
       else returnP (rows, bytes, evicted))"
  by (rule ext, subst evict.simps) (auto simp: bindP_def split: sum.splits prod.splits list.splits)

lemma evict_sim:
  "triple (inside L f d (\<lambda>t. t = t0)) (evict payload rows bytes evicted)
     (\<lambda>x. inside L f d (\<lambda>t. evictT payload rows bytes evicted L t0 = Inr (x, t)))
     (raises L f d (\<lambda>e. evictT payload rows bytes evicted L t0 = Inl e))"
proof (induction "length (dead t0)" arbitrary: t0 rows bytes evicted rule: less_induct)
  case less
  show ?case
  proof (cases "rows + 1 > max_dead_letter_rows L \<or> bytes + payload > max_dead_letter_bytes L")
    case False
    then show ?thesis
      by (auto simp: triple_def inside_def evict.simps [of payload] evictT.simps [of payload])
  next
    case True
    note steps = evict_steps [of payload rows bytes evicted]
    let ?found = "take 1 (sort_key d_id (dead t0))"
    have sel: "triple (inside L f d (\<lambda>t. t = t0)) (execute (select_oldest_dead 1))
        (\<lambda>x. inside L f d (\<lambda>t. t = t0 \<and> x = ?found)) (raises L f d (\<lambda>e. evictT payload rows bytes evicted L t0 = Inl e))"
      by (rule triple_execute) (auto simp: select_oldest_dead_def)
    have limits: "triple (inside L f d P) (bindP (getP limits) k) Q E"
      if "triple (inside L f d P) (k L) Q E" for P Q E and k :: "limits \<Rightarrow> (spool, int \<times> int \<times> nat) prog"
      using that unfolding triple_def bindP_def by (auto simp: inside_def)
    show ?thesis
    proof (cases "sort_key d_id (dead t0)")
      case Nil
      then have full: "evictT payload rows bytes evicted L t0 = Inl dead_letter_full"
        using True by (simp add: evictT.simps [of payload])
      show ?thesis
        unfolding steps
        by (rule limits, simp only: True if_True, rule triple_bind [OF sel])
          (use Nil full in \<open>auto simp: triple_def inside_def raises_def outside_def\<close>)
    next
      case (Cons oldest rest)
      then have mem: "oldest \<in> set (dead t0)" by (metis list.set_intros(1) set_sort)
      have "triple (inside L f d (\<lambda>t. t = t0)) (bindP (execute (delete_dead (\<lambda>r. d_id r = d_id oldest))) (\<lambda>_.
               evict payload (rows - 1) (bytes - blob_bytes (d_payload oldest)) (Suc evicted)))
          (\<lambda>x. inside L f d (\<lambda>t. evictT payload rows bytes evicted L t0 = Inr (x, t)))
          (raises L f d (\<lambda>e. evictT payload rows bytes evicted L t0 = Inl e))"
      proof (cases "delete_dead (\<lambda>r. d_id r = d_id oldest) t0")
        case (Inl e)
        then have eq: "evictT payload rows bytes evicted L t0 = Inl e"
          using True Cons by (simp add: evictT.simps [of payload])
        have "triple (inside L f d (\<lambda>t. t = t0)) (execute (delete_dead (\<lambda>r. d_id r = d_id oldest)))
            (\<lambda>_. inside L f d (\<lambda>t. False)) (raises L f d (\<lambda>e'. e = e'))"
          by (rule triple_execute) (auto simp: Inl)
        then show ?thesis
          unfolding eq by (intro triple_bind) (auto simp: triple_def inside_def)
      next
        case (Inr y)
        then obtain n t' where y: "delete_dead (\<lambda>r. d_id r = d_id oldest) t0 = Inr (n, t')" by (cases y) auto
        have eq: "evictT payload rows bytes evicted L t0 =
            evictT payload (rows - 1) (bytes - blob_bytes (d_payload oldest)) (Suc evicted) L t'"
          using True Cons y by (subst evictT.simps) simp
        have "triple (inside L f d (\<lambda>t. t = t0)) (execute (delete_dead (\<lambda>r. d_id r = d_id oldest)))
            (\<lambda>_. inside L f d (\<lambda>t. t = t'))
            (raises L f d (\<lambda>e. evictT payload rows bytes evicted L t0 = Inl e))"
          by (rule triple_execute) (auto simp: y)
        then show ?thesis
          unfolding eq by (rule triple_bind) (rule less.hyps [OF delete_dead_length [OF y mem]])
      qed
      then show ?thesis
        unfolding steps
        by (intro limits, simp only: True if_True, intro triple_bind [OF sel])
          (use Cons in \<open>auto simp: triple_def inside_def\<close>)
    qed
  qed
qed

lemma sim_evict [sim_intros]: "sim (evict payload rows bytes evicted) (evictT payload rows bytes evicted)"
  using evict_sim by (simp add: sim_def)

lemma bindP_return: "bindP m returnP = m"
  by (rule ext) (auto simp: bindP_def split: prod.splits sum.splits)

lemma evictT_ok:
  assumes "tables_ok t"
  shows "case room_for L payload (dead t) of
      None \<Rightarrow> evictT payload (int (length (dead t))) (bytes_of d_payload (dead t)) evicted L t = Inl dead_letter_full
    | Some kept \<Rightarrow> length kept \<le> length (dead t) \<and>
        (\<exists>t'. evictT payload (int (length (dead t))) (bytes_of d_payload (dead t)) evicted L t =
            Inr ((int (length kept), bytes_of d_payload kept, evicted + (length (dead t) - length kept)), t') \<and>
          tables_ok t' \<and> queue_of t' = (queue_of t)\<lparr>q_dead := kept\<rparr>)"
  using assms
proof (induction "dead t" arbitrary: t evicted)
  case Nil
  then show ?case
    using Nil(1)[symmetric] by (auto simp: evictT.simps [of payload] room_for.simps [of L] queue_of_def)
next
  case (Cons oldest rest)
  note dead = Cons(2)[symmetric]
  show ?case
  proof (cases "int (length (dead t)) + 1 \<le> max_dead_letter_rows L \<and>
      bytes_of d_payload (dead t) + payload \<le> max_dead_letter_bytes L")
    case True
    then have "room_for L payload (dead t) = Some (dead t)" by (simp add: room_for.simps [of L])
    then show ?thesis using True Cons(3) by (auto simp: evictT.simps [of payload] queue_of_def)
  next
    case False
    have sc: "schema_ok t" using Cons(3) by (simp add: tables_ok_def)
    have "\<forall>r \<in> set rest. d_id r \<noteq> d_id oldest" using sc by (auto simp: schema_ok_def dead)
    then have flt: "filter (\<lambda>r. d_id r \<noteq> d_id oldest) (dead t) = rest" by (simp add: dead filter_id_conv)
    obtain t' n where del: "delete_dead (\<lambda>r. d_id r = d_id oldest) t = Inr (n, t')" and t': "tables_ok t'"
        "queue_of t' = (queue_of t)\<lparr>q_dead := rest\<rparr>"
      using delete_dead_ok [OF Cons(3), of "\<lambda>r. d_id r = d_id oldest"] flt by auto
    have rest: "dead t' = rest" using arg_cong [OF t'(2), of q_dead] by simp
    have room: "room_for L payload (dead t) = room_for L payload rest"
      using False unfolding dead by (subst room_for.simps) (simp only: if_False list.case)
    have "evictT payload (int (length (dead t))) (bytes_of d_payload (dead t)) evicted L t =
        evictT payload (int (length rest)) (bytes_of d_payload rest) (Suc evicted) L t'"
    proof -
      have "int (length (dead t)) + 1 > max_dead_letter_rows L \<or>
          bytes_of d_payload (dead t) + payload > max_dead_letter_bytes L"
        using False by linarith
      moreover have "sort_key d_id (dead t) = oldest # rest" using sort_dead [OF sc] dead by simp
      ultimately show ?thesis using del
        by (subst evictT.simps) (simp add: dead blob_bytes_def)
    qed
    then show ?thesis
      using Cons(1) [OF rest [symmetric] t'(1), of "Suc evicted"] room t'(2)
      by (auto simp: rest dead Suc_diff_le split: option.splits)
  qed
qed

fun moveT :: "ustr \<Rightarrow> int \<Rightarrow> bool \<Rightarrow> spool_record list \<Rightarrow> int \<Rightarrow> int \<Rightarrow> nat \<Rightarrow> nat \<Rightarrow>
    (nat \<times> nat) on_tables" where
  "moveT err failed_ns unc [] rows bytes moved evicted = returnT (moved, evicted)"
| "moveT err failed_ns unc (r # rs) rows bytes moved evicted =
     bindT (evictT (blob_bytes (sr_payload r)) rows bytes evicted) (\<lambda>(rows, bytes, evicted').
     bindT (stmtT (insert_dead (dead_row_of err failed_ns unc r))) (\<lambda>_.
     bindT (stmtT (delete_pending (sr_sequence r))) (\<lambda>n.
     bindT (expectT (disappeared (sr_sequence r)) n) (\<lambda>_.
     moveT err failed_ns unc rs (rows + 1) (bytes + blob_bytes (sr_payload r)) (Suc moved) evicted'))))"

lemma sim_move: "sim (move_records err failed_ns unc rs rows bytes moved evicted)
    (moveT err failed_ns unc rs rows bytes moved evicted)"
proof (induction rs arbitrary: rows bytes moved evicted)
  case Nil
  show ?case by (simp only: move_records.simps moveT.simps sim_return)
next
  case (Cons r rs)
  show ?case
    unfolding move_records.simps moveT.simps
    by (rule sim_bind [OF sim_evict]) (auto intro!: sim_bind sim_execute sim_expect Cons)
qed

lemma moveT_ok:
  assumes "tables_ok t" and "set rs \<subseteq> set (pending t)" and "distinct (map p_sequence rs)"
  shows "case spec_move_rows err failed_ns unc L rs (queue_of t) of
      Inl e' \<Rightarrow> \<exists>e. moveT err failed_ns unc (map spool_record_of rs) (int (length (dead t)))
          (bytes_of d_payload (dead t)) moved evicted L t = Inl e \<and>
        shown ''failed to move events to dead letter'' e = e'
    | Inr (ev, q') \<Rightarrow> \<exists>t'. moveT err failed_ns unc (map spool_record_of rs) (int (length (dead t)))
          (bytes_of d_payload (dead t)) moved evicted L t = Inr ((moved + length rs, evicted + ev), t') \<and>
        tables_ok t' \<and> q' = queue_of t'"
  using assms
proof (induction rs arbitrary: t moved evicted)
  case Nil
  then show ?case by (simp add: returnT_def)
next
  case (Cons r rs)
  let ?n = "blob_bytes (p_payload r)" and ?rec = "spool_record_of r"
  let ?d = "dead_row_of err failed_ns unc ?rec"
  have n: "sr_payload ?rec = p_payload r" "sr_sequence ?rec = p_sequence r"
    by (simp_all add: spool_record_of_def)
  have r: "r \<in> set (pending t)" using Cons.prems(2) by simp
  have rok: "pending_row_ok r" using r Cons.prems(1) by (simp add: tables_ok_def schema_ok_def)
  note ev = evictT_ok [OF Cons.prems(1), where L = L and payload = ?n and evicted = evicted]
  show ?case
  proof (cases "room_for L ?n (dead t)")
    case None
    then show ?thesis using ev
      by (simp add: n bindT_def shown_def isinstance_def dead_letter_full_def)
  next
    case (Some kept)
    then obtain t1 where t1: "evictT ?n (int (length (dead t))) (bytes_of d_payload (dead t)) evicted L t =
          Inr ((int (length kept), bytes_of d_payload kept, evicted + (length (dead t) - length kept)), t1)"
        "tables_ok t1" "queue_of t1 = (queue_of t)\<lparr>q_dead := kept\<rparr>"
      using ev by auto
    have q1: "pending t1 = pending t" "dead t1 = kept" "dead_seq t1 = dead_seq t" "pending_seq t1 = pending_seq t"
      using arg_cong [OF t1(3), of q_pending] arg_cong [OF t1(3), of q_dead]
        arg_cong [OF t1(3), of q_dead_next] arg_cong [OF t1(3), of q_next] by simp_all
    have r1: "r \<in> set (pending t1)" using r q1 by simp
    have d: "d_original_sequence ?d = p_sequence r" "d_event_id ?d = p_event_id r"
        "d_payload ?d = p_payload r" "0 < d_attempt_count ?d" "d_last_error ?d = err"
      using rok by (auto simp: dead_row_of_def spool_record_of_def pending_row_ok_def)
    note ins = insert_dead_eq [OF t1(2) r1 d(1-4)]
    show ?thesis
    proof (cases "sql_length err = 0 \<or> SQLITE_INTEGER_MAX \<le> dead_seq t")
      case True
      then show ?thesis using Some t1(1) ins
        by (auto simp: n d(5) q1 bindT_def stmtT_def shown_def isinstance_def storage_full_def
            classify_storage_error_def sqlite_exn_def primary_sqlite_code_def SQLITE_CONSTRAINT_CHECK_def
            SQLITE_FULL_def READ_ONLY_SQLITE_CODES_def SQLITE_READONLY_def)
    next
      case False
      have dok: "dead_row_ok ?d"
        using rok d False by (auto simp: dead_row_ok_def pending_row_ok_def dead_row_of_def)
      obtain t2 where t2: "delete_pending (p_sequence r) (moved_row ?d t1) = Inr (1, t2)" "tables_ok t2"
          "queue_of t2 = (queue_of t1)\<lparr>q_pending := filter (\<lambda>x. p_sequence x \<noteq> p_sequence r) (pending t1),
             q_dead := dead t1 @ [?d\<lparr>d_id := dead_seq t1 + 1\<rparr>], q_dead_next := dead_seq t1 + 1\<rparr>"
        using moved_row_delete [OF t1(2) r1 d(1-3) dok] by auto
      have q2: "dead t2 = kept @ [?d\<lparr>d_id := dead_seq t + 1\<rparr>]"
          "pending t2 = filter (\<lambda>x. p_sequence x \<noteq> p_sequence r) (pending t)"
        using arg_cong [OF t2(3), of q_dead] arg_cong [OF t2(3), of q_pending] by (simp_all add: q1)
      have sub: "set rs \<subseteq> set (pending t2)"
        using Cons.prems(2,3) by (auto simp: q2) (metis image_eqI)
      have move: "moveT err failed_ns unc (map spool_record_of (r # rs)) (int (length (dead t)))
            (bytes_of d_payload (dead t)) moved evicted L t =
          moveT err failed_ns unc (map spool_record_of rs) (int (length (dead t2)))
            (bytes_of d_payload (dead t2)) (Suc moved) (evicted + (length (dead t) - length kept)) L t2"
        using t1(1) ins t2(1) False d(3)
        by (simp add: n bindT_def stmtT_def expectT_def returnT_def q1 q2 d(5) blob_bytes_def add.commute)
      have spec: "spec_move_rows err failed_ns unc L (r # rs) (queue_of t) =
          bindR (spec_move_rows err failed_ns unc L rs (queue_of t2))
            (\<lambda>(ev, q'). Inr (ev + (length (dead t) - length kept), q'))"
        using Some False by (simp add: t2(3) t1(3) q1 Let_def)
      have ds: "distinct (map p_sequence rs)" using Cons.prems(3) by simp
      show ?thesis
        unfolding spec move
        using Cons.IH [OF t2(2) sub ds, of "Suc moved" "evicted + (length (dead t) - length kept)"]
        by (auto split: sum.splits simp: algebra_simps)
    qed
  qed
qed


definition selectT :: "int \<Rightarrow> spool_record on_tables" where
  "selectT seq = bindT (stmtT (select_pending seq)) (\<lambda>row.
     case row of None \<Rightarrow> raiseT (missing_pending seq) | Some r \<Rightarrow> returnT (spool_record_of r))"

lemma sim_select: "sim (select_record seq) (selectT seq)"
  unfolding select_record_def selectT_def
  by (rule sim_bind [OF sim_execute]) (auto split: option.splits intro: sim_intros)

abbreviation row_of_seq :: "tables \<Rightarrow> int \<Rightarrow> pending_row" where
  "row_of_seq t s \<equiv> the (find (\<lambda>r. p_sequence r = s) (pending t))"

lemma find_sequence:
  "s \<in> p_sequence ` set (pending t) \<Longrightarrow> \<exists>r \<in> set (pending t). p_sequence r = s \<and>
     find (\<lambda>r. p_sequence r = s) (pending t) = Some r"
proof -
  assume "s \<in> p_sequence ` set (pending t)"
  then have "find (\<lambda>r. p_sequence r = s) (pending t) \<noteq> None" by (auto simp: find_None_iff)
  then show ?thesis by (auto simp: find_Some_iff)
qed

lemma mapT_select:
  "mapT selectT seqs L t =
     (case first_missing seqs (p_sequence ` set (pending t)) of
        Some s \<Rightarrow> Inl (missing_pending s)
      | None \<Rightarrow> Inr (map (\<lambda>s. spool_record_of (row_of_seq t s)) seqs, t))"
proof (induction seqs)
  case Nil
  then show ?case by (simp add: first_missing_def returnT_def)
next
  case (Cons s seqs)
  show ?case
  proof (cases "s \<in> p_sequence ` set (pending t)")
    case True
    then show ?thesis using find_sequence [OF True] Cons
      by (auto simp: first_missing_def bindT_def selectT_def stmtT_def select_pending_def returnT_def
          split: option.splits)
  next
    case False
    then have "find (\<lambda>r. p_sequence r = s) (pending t) = None" by (auto simp: find_None_iff)
    then show ?thesis using False
      by (simp add: first_missing_def bindT_def selectT_def stmtT_def select_pending_def raiseT_def)
  qed
qed

definition move_transactionT :: "int list \<Rightarrow> ustr \<Rightarrow> int \<Rightarrow> bool \<Rightarrow> (nat \<times> nat) on_tables" where
  "move_transactionT seqs err failed_ns unc =
     bindT (mapT selectT seqs) (\<lambda>recs. bindT statsT (\<lambda>st.
       moveT err failed_ns unc recs (dead_letter_rows st) (dead_letter_bytes st) 0 0))"

lemma sim_move_transaction:
  "sim (move_transaction seqs err failed_ns unc) (move_transactionT seqs err failed_ns unc)"
  unfolding move_transaction_def move_transactionT_def
  by (intro sim_bind sim_map sim_select sim_stats sim_move)

lemma move_transactionT_ok:
  assumes t: "tables_ok t" and "sequence_tuple seqs = Inr ()" and "error_text err = Inr ()"
    and "sqlite_integer ''failed_ns'' failed_ns = Inr ()"
  shows "case move_transactionT seqs err failed_ns unc L t of
      Inl e \<Rightarrow> spec_move_to_dead_letter seqs err failed_ns unc L (queue_of t) =
        Inl (shown ''failed to move events to dead letter'' e)
    | Inr (x, t') \<Rightarrow> tables_ok t' \<and>
        spec_move_to_dead_letter seqs err failed_ns unc L (queue_of t) = Inr (x, queue_of t')"
proof (cases "first_missing seqs (p_sequence ` set (pending t))")
  case (Some s)
  then show ?thesis using assms
    by (simp add: move_transactionT_def bindT_def mapT_select spec_move_to_dead_letter_def missing_pending_def)
next
  case None
  let ?rows = "map (row_of_seq t) seqs"
  have found: "s \<in> p_sequence ` set (pending t)" if "s \<in> set seqs" for s
    using None that by (auto simp: first_missing_def find_None_iff)
  then have sub: "set ?rows \<subseteq> set (pending t)" and seq: "p_sequence (row_of_seq t s) = s" if "s \<in> set seqs" for s
    using find_sequence that by fastforce+
  then have rows: "set ?rows \<subseteq> set (pending t)" "map p_sequence ?rows = seqs"
    using found find_sequence by (fastforce simp: map_idI)+
  have ds: "distinct (map p_sequence ?rows)" using rows(2) assms(2) by (simp add: sequence_tuple_Inr)
  have "move_transactionT seqs err failed_ns unc L t =
      moveT err failed_ns unc (map spool_record_of ?rows) (int (length (dead t))) (bytes_of d_payload (dead t)) 0 0 L t"
    using None t by (simp add: move_transactionT_def bindT_def mapT_select statsT_ok exact_stats_def comp_def)
  moreover have "spec_move_to_dead_letter seqs err failed_ns unc L (queue_of t) =
      bindR (spec_move_rows err failed_ns unc L ?rows (queue_of t)) (\<lambda>(ev, q'). Inr ((length seqs, ev), q'))"
    using None assms by (simp add: spec_move_to_dead_letter_def)
  ultimately show ?thesis
    using moveT_ok [OF t rows(1) ds, where err = err and failed_ns = failed_ns and unc = unc and L = L and moved = 0 and evicted = 0]
    by (auto split: sum.splits)
qed

lemma move_to_dead_letter_refines:
  "refines (move_to_dead_letter seqs err failed_ns unc) (spec_move_to_dead_letter seqs err failed_ns unc)"
  unfolding refines_def move_to_dead_letter_def classify_errors_eq
proof (intro allI impI, rule triple_liftR, goal_cases)
  case (1 L f d e)
  then show ?case by (simp add: spec_move_to_dead_letter_def)
next
  case seqs: (2 L f d)
  show ?case
  proof (rule triple_liftR, goal_cases)
    case (1 e)
    then show ?case using seqs by (simp add: spec_move_to_dead_letter_def)
  next
    case err: (2 y)
    show ?case
    proof (rule triple_liftR, goal_cases)
      case (1 e)
      then show ?case using seqs err by (simp add: spec_move_to_dead_letter_def)
    next
      case ns: (2 z)
      let ?spec = "spec_move_to_dead_letter seqs err failed_ns unc"
      show ?case
      proof (rule triple_if)
        assume "seqs = []"
        then show "triple (idle L f d) (returnP (0, 0)) (fulfilled ?spec L f d) (refused ?spec L f d)"
          using seqs err ns
          by (intro triple_idle_return) (auto simp: spec_move_to_dead_letter_def first_missing_def queue_of_def)
      next
        have "triple (idle L f d) (bindP (catchP (transaction (move_transaction seqs err failed_ns unc))
              (\<lambda>e. raiseP (shown ''failed to move events to dead letter'' e))) (\<lambda>x. returnP (id x)))
            (fulfilled ?spec L f d) (refused ?spec L f d)"
          by (rule triple_write [OF sim_move_transaction])
            (use move_transactionT_ok [OF seqs(1)] seqs err ns shown_sqlite in
              \<open>fastforce split: sum.splits\<close>)+
        then show "triple (idle L f d) (catchP (transaction (move_transaction seqs err failed_ns unc))
              (\<lambda>e. raiseP (shown ''failed to move events to dead letter'' e)))
            (fulfilled ?spec L f d) (refused ?spec L f d)"
          by (simp add: id_def bindP_return)
      qed
    qed
  qed
qed

end
