(* ===== verification/SpoolProps.thy ===== *)
theory SpoolProps
  imports SpoolRefine
begin

section \<open>What the spool guarantees\<close>

text \<open>
  Consequences of the abstract queue: what enqueue stores, what the ring of dead letters evicts, which
  prefix a batch is, and when the dead letters can be full.
\<close>

subsection \<open>Consequences of the specifications\<close>

lemma enqueue_Inr:
  assumes "spec_enqueue evs L q = Inr (n, q')"
  shows "\<exists>ds. distinct_events [] evs = Inr ds \<and> n = length (new_to q ds) \<and>
    q' = q\<lparr>q_pending := q_pending q @ numbered (q_next q) (new_to q ds),
           q_next := q_next q + int (length (new_to q ds))\<rparr> \<and>
    (\<forall>ev \<in> set ds. \<not> conflicting q ev) \<and>
    (evs \<noteq> [] \<longrightarrow> int (length (q_pending q')) \<le> max_pending_rows L \<and>
       bytes_of p_payload (q_pending q') \<le> max_pending_bytes L)"
proof -
  have len: "length (numbered k evs) = length evs" "bytes_of p_payload (numbered k evs) = bytes_of ne_payload evs"
    for k evs
    by (induction evs arbitrary: k) (auto simp: new_pending_row_def)
  show ?thesis
  proof (cases "evs = []")
    case True
    then show ?thesis using assms by (simp add: spec_enqueue_def new_to_def)
  next
    case False
    then show ?thesis using assms
      by (auto simp: spec_enqueue_def bindR_eq_Inr Let_def len split: if_splits)
  qed
qed

lemma numbered_append: "numbered n (xs @ ys) = numbered n xs @ numbered (n + int (length xs)) ys"
  by (induction xs arbitrary: n) (auto simp: algebra_simps)

lemma numbered_event_ids [simp]: "map p_event_id (numbered n evs) = map ne_event_id evs"
  by (induction evs arbitrary: n) (auto simp: new_pending_row_def)

lemma numbered_ids: "p_event_id ` set (numbered n evs) = ne_event_id ` set evs"
  using arg_cong [OF numbered_event_ids, of set] by (metis list.set_map)

lemma distinct_events_set: "distinct_events acc evs = Inr ds \<Longrightarrow> set ds = set acc \<union> set evs"
proof (induction acc evs rule: distinct_events.induct)
  case (2 acc ev evs)
  show ?case
  proof (cases "find (\<lambda>x. ne_event_id x = ne_event_id ev) acc")
    case None
    then show ?thesis using 2(1) [OF None] 2(3) by auto
  next
    case (Some p)
    then have p: "p = ev" using 2(3) by (auto split: if_splits)
    moreover have "p \<in> set acc" using Some by (auto simp: find_Some_iff)
    ultimately show ?thesis using 2(2) [OF Some] 2(3) Some by auto
  qed
qed simp

lemma find_append: "find P (xs @ ys) = (case find P xs of None \<Rightarrow> find P ys | Some x \<Rightarrow> Some x)"
  by (induction xs) auto

text \<open>Looking an id up after the rows of new events were appended.\<close>

lemma q_stored_appended:
  assumes "q_stored q eid = None"
  shows "q_stored (q\<lparr>q_pending := q_pending q @ rows\<rparr>) eid =
    map_option (\<lambda>r. (p_payload r, p_created_ns r)) (find (\<lambda>r. p_event_id r = eid) rows)"
proof -
  have "find (\<lambda>r. p_event_id r = eid) (q_pending q) = None"
      "find (\<lambda>r. d_event_id r = eid) (q_dead q) = None"
    using assms by (auto simp: q_stored_None find_None_iff)
  then show ?thesis
    by (simp add: q_stored_def find_append split: option.splits)
qed

lemma q_stored_kept:
  "q_stored q eid = Some v \<Longrightarrow> find (\<lambda>r. p_event_id r = eid) rows = None \<Longrightarrow>
     q_stored (q\<lparr>q_pending := q_pending q @ rows\<rparr>) eid = Some v"
  by (auto simp: q_stored_def find_append split: option.splits)

lemma find_numbered:
  assumes "distinct (map ne_event_id evs)" and "ev \<in> set evs"
  shows "\<exists>r. find (\<lambda>r. p_event_id r = ne_event_id ev) (numbered n evs) = Some r \<and>
    p_payload r = ne_payload ev \<and> p_created_ns r = ne_created_ns ev"
  using assms
proof (induction evs arbitrary: n)
  case (Cons x evs)
  show ?case
  proof (cases "x = ev")
    case True
    then show ?thesis by (simp add: new_pending_row_def)
  next
    case False
    then have "ev \<in> set evs" "ne_event_id x \<noteq> ne_event_id ev" using Cons.prems by auto
    then show ?thesis using Cons.IH [of "n + 1"] Cons.prems by (simp add: new_pending_row_def)
  qed
qed simp

text \<open>After a successful \<open>enqueue_many\<close> every one of its events is stored with its content, and
  a second call of the same input inserts nothing.\<close>

lemma spec_enqueue_stores:
  assumes "spec_enqueue evs L q = Inr (n, q')" and "ev \<in> set evs"
  shows "q_stored q' (ne_event_id ev) = Some (ne_payload ev, ne_created_ns ev)"
proof -
  obtain ds where ds: "distinct_events [] evs = Inr ds" and q': "q' = q\<lparr>q_pending := q_pending q @
        numbered (q_next q) (new_to q ds), q_next := q_next q + int (length (new_to q ds))\<rparr>"
      and ok: "\<forall>ev \<in> set ds. \<not> conflicting q ev"
    using enqueue_Inr [OF assms(1)] by auto
  let ?rows = "numbered (q_next q) (new_to q ds)"
  have q'': "q_stored q' eid = q_stored (q\<lparr>q_pending := q_pending q @ ?rows\<rparr>) eid" for eid
    by (simp add: q' q_stored_def split: option.split)
  have ev: "ev \<in> set ds" using distinct_events_set [OF ds] assms(2) by simp
  have dist: "distinct (map ne_event_id (new_to q ds))" "distinct (map ne_event_id ds)"
    using distinct_events_Inr [OF ds] by (simp_all add: new_to_def distinct_filter_map)
  show ?thesis
  proof (cases "q_stored q (ne_event_id ev)")
    case None
    then have "ev \<in> set (new_to q ds)" using ev by (simp add: new_to_def)
    from find_numbered [OF dist(1) this, of "q_next q"] show ?thesis
      unfolding q'' q_stored_appended [OF None] by auto
  next
    case (Some v)
    moreover have "\<not> conflicting q ev" using ok ev by blast
    ultimately have v: "v = (ne_payload ev, ne_created_ns ev)" by (simp add: conflicting_def)
    have "ne_event_id ev \<notin> ne_event_id ` set (new_to q ds)"
      using Some by (auto simp: new_to_def)
    then have "find (\<lambda>r. p_event_id r = ne_event_id ev) ?rows = None"
      unfolding numbered_ids [of "q_next q", symmetric] by (simp add: find_None_iff) (metis image_eqI)
    from q_stored_kept [OF Some this] show ?thesis by (simp add: q'' v)
  qed
qed

lemma spec_enqueue_again:
  assumes "spec_enqueue evs L q = Inr (n, q')"
  shows "spec_enqueue evs L q' = Inr (0, q')"
proof (cases "evs = []")
  case True
  then show ?thesis by (simp add: spec_enqueue_def)
next
  case False
  obtain us ds where v: "mapR (validate_new_event L) evs = Inr us" and ds: "distinct_events [] evs = Inr ds"
    using assms False by (auto simp: spec_enqueue_def bindR_eq_Inr)
  have stored: "q_stored q' (ne_event_id ev) = Some (ne_payload ev, ne_created_ns ev)" if "ev \<in> set ds" for ev
    using spec_enqueue_stores [OF assms] distinct_events_set [OF ds] that by simp
  then have "new_to q' ds = []" "\<not> (\<exists>ev \<in> set ds. conflicting q' ev)"
    by (auto simp: new_to_def filter_empty_conv conflicting_def)
  then show ?thesis
    using enqueue_Inr [OF assms] v ds False
    by (auto simp: spec_enqueue_def Let_def)
qed

subsection \<open>The longest prefix that fits\<close>

lemma take_batch_Inr:
  assumes "take_batch mb n rows acc = Inr batch" and "0 \<le> n"
  shows "\<exists>k \<le> length rows. batch = acc @ map spool_record_of (take k rows) \<and>
    (k = 0 \<or> n + bytes_of p_payload (take k rows) \<le> mb) \<and>
    (k < length rows \<longrightarrow> n + bytes_of p_payload (take (Suc k) rows) > mb) \<and>
    (rows \<noteq> [] \<and> acc = [] \<longrightarrow> 0 < k)"
  using assms
proof (induction rows arbitrary: n acc)
  case Nil
  then show ?case by simp
next
  case (Cons r rows)
  show ?case
  proof (cases "n + blob_bytes (p_payload r) > mb")
    case True
    then have "batch = acc" "acc \<noteq> []" using Cons.prems by (auto split: if_splits)
    then show ?thesis using True by (intro exI [of _ 0]) (auto simp: blob_bytes_def)
  next
    case False
    then have rest: "take_batch mb (n + blob_bytes (p_payload r)) rows (acc @ [spool_record_of r]) = Inr batch"
      using Cons.prems by simp
    have "0 \<le> n + blob_bytes (p_payload r)" using Cons.prems by (simp add: blob_bytes_def)
    from Cons.IH [OF rest this] obtain k where k: "k \<le> length rows"
        "batch = (acc @ [spool_record_of r]) @ map spool_record_of (take k rows)"
        "k = 0 \<or> n + blob_bytes (p_payload r) + bytes_of p_payload (take k rows) \<le> mb"
        "k < length rows \<longrightarrow> n + blob_bytes (p_payload r) + bytes_of p_payload (take (Suc k) rows) > mb"
      by auto
    then show ?thesis using False
      by (intro exI [of _ "Suc k"]) (auto simp: blob_bytes_def algebra_simps)
  qed
qed

lemma take_batch_Inl:
  assumes "take_batch mb n rows acc = Inl e"
  shows "acc = [] \<and> (\<exists>r rs. rows = r # rs \<and> n + blob_bytes (p_payload r) > mb) \<and>
    exn_class e = BatchLimitTooSmallError"
  using assms by (induction mb n rows acc rule: take_batch.induct) (auto split: if_splits)

subsection \<open>The dead-letter ring buffer\<close>

lemma room_for_Some:
  assumes "room_for L n rows = Some kept"
  shows "\<exists>k \<le> length rows. kept = drop k rows \<and> int (length kept) + 1 \<le> max_dead_letter_rows L \<and>
    bytes_of d_payload kept + n \<le> max_dead_letter_bytes L \<and>
    (\<forall>j < k. int (length (drop j rows)) + 1 > max_dead_letter_rows L \<or>
       bytes_of d_payload (drop j rows) + n > max_dead_letter_bytes L)"
  using assms
proof (induction rows)
  case Nil
  then show ?case by (auto simp: room_for.simps [of L n] split: if_splits)
next
  case (Cons r rows)
  show ?case
  proof (cases "int (length (r # rows)) + 1 \<le> max_dead_letter_rows L \<and>
         bytes_of d_payload (r # rows) + n \<le> max_dead_letter_bytes L")
    case True
    then have "kept = r # rows" using Cons.prems by (subst (asm) room_for.simps) (auto split: if_splits)
    then show ?thesis using True by (intro exI [of _ 0]) auto
  next
    case False
    then have "room_for L n rows = Some kept"
      using Cons.prems by (subst (asm) room_for.simps) (simp only: if_False list.case)
    from Cons.IH [OF this] obtain k where k: "k \<le> length rows" "kept = drop k rows"
        "int (length kept) + 1 \<le> max_dead_letter_rows L" "bytes_of d_payload kept + n \<le> max_dead_letter_bytes L"
        "\<forall>j < k. int (length (drop j rows)) + 1 > max_dead_letter_rows L \<or>
          bytes_of d_payload (drop j rows) + n > max_dead_letter_bytes L"
      by auto
    have "\<forall>j < Suc k. int (length (drop j (r # rows))) + 1 > max_dead_letter_rows L \<or>
       bytes_of d_payload (drop j (r # rows)) + n > max_dead_letter_bytes L"
    proof (intro allI impI)
      fix j assume "j < Suc k"
      then show "int (length (drop j (r # rows))) + 1 > max_dead_letter_rows L \<or>
          bytes_of d_payload (drop j (r # rows)) + n > max_dead_letter_bytes L"
        using False k(5) by (cases j) auto
    qed
    then show ?thesis using k by (intro exI [of _ "Suc k"]) auto
  qed
qed

lemma room_for_exists:
  assumes "n \<le> max_dead_letter_bytes L" and "0 < max_dead_letter_rows L"
  shows "room_for L n rows \<noteq> None"
  using assms by (induction rows) (simp_all add: room_for.simps [of L n])

definition dead_copies :: "ustr \<Rightarrow> int \<Rightarrow> bool \<Rightarrow> int \<Rightarrow> pending_row list \<Rightarrow> dead_row list" where
  "dead_copies err failed_ns unc n rs =
     map (\<lambda>(i, r). (dead_row_of err failed_ns unc (spool_record_of r))\<lparr>d_id := n + int i + 1\<rparr>)
       (enumerate 0 rs)"

lemma dead_copies_Cons:
  "dead_copies err failed_ns unc n (r # rs) =
     (dead_row_of err failed_ns unc (spool_record_of r))\<lparr>d_id := n + 1\<rparr> #
       dead_copies err failed_ns unc (n + 1) rs"
proof -
  have "enumerate (Suc 0) rs = map (\<lambda>(i, r). (Suc i, r)) (enumerate 0 rs)"
    by (rule nth_equalityI) (auto simp: nth_enumerate_eq)
  then show ?thesis by (auto simp: dead_copies_def algebra_simps)
qed

lemma length_dead_copies [simp]: "length (dead_copies err failed_ns unc n rs) = length rs"
  by (simp add: dead_copies_def)

lemma spec_move_rows_Inr:
  assumes "spec_move_rows err failed_ns unc L rs q = Inr (ev, q')"
  shows "q' = q\<lparr>q_pending := filter (\<lambda>x. p_sequence x \<notin> p_sequence ` set rs) (q_pending q),
      q_dead := drop ev (q_dead q @ dead_copies err failed_ns unc (q_dead_next q) rs),
      q_dead_next := q_dead_next q + int (length rs)\<rparr> \<and>
    ev \<le> length (q_dead q) + length rs \<and>
    (rs \<noteq> [] \<longrightarrow> int (length (q_dead q')) \<le> max_dead_letter_rows L \<and>
       bytes_of d_payload (q_dead q') \<le> max_dead_letter_bytes L)"
  using assms
proof (induction rs arbitrary: q ev)
  case Nil
  then show ?case by (auto simp: dead_copies_def)
next
  case (Cons r rs)
  obtain kept where room: "room_for L (blob_bytes (p_payload r)) (q_dead q) = Some kept"
    using Cons.prems by (auto split: option.splits)
  let ?d = "(dead_row_of err failed_ns unc (spool_record_of r))\<lparr>d_id := q_dead_next q + 1\<rparr>"
  let ?q = "q\<lparr>q_pending := filter (\<lambda>x. p_sequence x \<noteq> p_sequence r) (q_pending q),
      q_dead := kept @ [?d], q_dead_next := q_dead_next q + 1\<rparr>"
  obtain ev' where rec: "spec_move_rows err failed_ns unc L rs ?q = Inr (ev', q')"
      and ev: "ev = ev' + (length (q_dead q) - length kept)"
    using Cons.prems room by (auto simp: bindR_eq_Inr Let_def split: if_splits)
  obtain k where k: "k \<le> length (q_dead q)" "kept = drop k (q_dead q)"
      "int (length kept) + 1 \<le> max_dead_letter_rows L"
      "bytes_of d_payload kept + blob_bytes (p_payload r) \<le> max_dead_letter_bytes L"
    using room_for_Some [OF room] by auto
  have ev_k: "ev = ev' + k" using ev k(1,2) by simp
  have dp: "d_payload ?d = p_payload r" by (simp add: dead_row_of_def spool_record_of_def)
  note ih = Cons.IH [OF rec]
  have dead: "drop ev' (kept @ ?d # dead_copies err failed_ns unc (q_dead_next q + 1) rs) =
      drop ev (q_dead q @ dead_copies err failed_ns unc (q_dead_next q) (r # rs))"
    using k(1) by (simp add: ev_k k(2) dead_copies_Cons)
  have pend: "filter (\<lambda>x. p_sequence x \<notin> p_sequence ` set rs) (q_pending ?q) =
      filter (\<lambda>x. p_sequence x \<notin> p_sequence ` set (r # rs)) (q_pending q)"
    by (auto intro: filter_cong)
  have cap: "int (length (q_dead q')) \<le> max_dead_letter_rows L \<and>
       bytes_of d_payload (q_dead q') \<le> max_dead_letter_bytes L"
  proof (cases "rs = []")
    case True
    then have "q' = ?q" using rec by simp
    then show ?thesis using k(3,4) dp by (simp add: blob_bytes_def)
  next
    case False
    then show ?thesis using ih by blast
  qed
  have "q' = q\<lparr>q_pending := filter (\<lambda>x. p_sequence x \<notin> p_sequence ` set (r # rs)) (q_pending q),
      q_dead := drop ev (q_dead q @ dead_copies err failed_ns unc (q_dead_next q) (r # rs)),
      q_dead_next := q_dead_next q + int (length (r # rs))\<rparr>"
    using conjunct1 [OF ih] unfolding pend by (simp add: dead [symmetric] del: drop_append)
  moreover have "ev \<le> length (q_dead q) + length (r # rs)"
    using conjunct1 [OF conjunct2 [OF ih]] ev_k k(1,2) by simp
  ultimately show ?case using cap by blast
qed

lemma spec_move_rows_not_full:
  assumes "\<forall>r \<in> set rs. blob_bytes (p_payload r) \<le> max_dead_letter_bytes L" and "0 < max_dead_letter_rows L"
    and "spec_move_rows err failed_ns unc L rs q = Inl e"
  shows "exn_class e \<noteq> DeadLetterFullError"
  using assms
proof (induction rs arbitrary: q)
  case (Cons r rs)
  obtain kept where room: "room_for L (blob_bytes (p_payload r)) (q_dead q) = Some kept"
    using room_for_exists Cons.prems(1,2) by (meson list.set_intros(1) not_None_eq)
  have full: "exn_class (storage_full m) \<noteq> DeadLetterFullError" for m
    using classify_class [of "sqlite_exn (Some SQLITE_FULL)" "lit m" None] by (auto simp: storage_full_def)
  let ?q = "q\<lparr>q_pending := filter (\<lambda>x. p_sequence x \<noteq> p_sequence r) (q_pending q),
      q_dead := kept @ [(dead_row_of err failed_ns unc (spool_record_of r))\<lparr>d_id := q_dead_next q + 1\<rparr>],
      q_dead_next := q_dead_next q + 1\<rparr>"
  show ?case
  proof (cases "sql_length err = 0 \<or> SQLITE_INTEGER_MAX \<le> q_dead_next q")
    case True
    then have "e = mk_exn SpoolError (lit ''failed to move events to dead letter'') \<or>
        e = storage_full ''failed to move events to dead letter''"
      using Cons.prems(3) room by (simp split: if_splits)
    then show ?thesis using full by auto
  next
    case False
    then have "bindR (spec_move_rows err failed_ns unc L rs ?q)
        (\<lambda>(ev, q'). Inr (ev + (length (q_dead q) - length kept), q')) = Inl e"
      using Cons.prems(3) room by (simp add: Let_def)
    then have "spec_move_rows err failed_ns unc L rs ?q = Inl e"
      unfolding bindR_eq_Inl by (simp split: prod.splits)
    from Cons.IH [OF _ Cons.prems(2) this] Cons.prems(1) show ?thesis by simp
  qed
qed simp

end
