(* ===== verification/SpoolLaws.thy ===== *)
theory SpoolLaws
  imports SpoolProps
begin

section \<open>The spool as its owner sees it\<close>

text \<open>Atomicity from every connection state, opening, closing and reclaiming, and the properties
  of spool.py.\<close>

subsection \<open>Every method from every connection state\<close>

text \<open>
  A failed ROLLBACK leaves the transaction open, and a closed spool has no connection. From these
  states too a writing method is atomic: it changes the durable tables as specified, or raises and
  changes nothing.
\<close>

definition spool_ok :: "spool \<Rightarrow> bool" where
  "spool_ok s \<longleftrightarrow> tables_ok (durable s) \<and> (\<not> in_transaction s \<longrightarrow> working s = durable s)"

definition stored :: "spool \<Rightarrow> queue" where
  "stored s = queue_of (durable s)"

definition same_store :: "spool \<Rightarrow> spool \<Rightarrow> bool" where
  "same_store s s' \<longleftrightarrow> durable s' = durable s \<and> limits s' = limits s \<and> spool_ok s'"

definition atomic :: "(spool, 'a) prog \<Rightarrow> (limits \<Rightarrow> queue \<Rightarrow> exn + ('a \<times> queue)) \<Rightarrow> bool" where
  "atomic m spec \<longleftrightarrow> (\<forall>s. spool_ok s \<longrightarrow> (case m s of
       (Inl e, s') \<Rightarrow> same_store s s'
     | (Inr x, s') \<Rightarrow> spool_ok s' \<and> limits s' = limits s \<and>
         spec (limits s) (stored s) = Inr (x, stored s')))"

definition read_only :: "(spool, 'a) prog \<Rightarrow> bool" where
  "read_only m \<longleftrightarrow> (\<forall>s. spool_ok s \<longrightarrow> same_store s (snd (m s)))"

lemma atomicD:
  assumes "atomic m spec" and "spool_ok s" and "m s = (r, s')"
  shows "r = Inl e \<Longrightarrow> same_store s s'"
    and "r = Inr x \<Longrightarrow> spool_ok s' \<and> limits s' = limits s \<and> spec (limits s) (stored s) = Inr (x, stored s')"
  using assms(1)[unfolded atomic_def, rule_format, OF assms(2)] assms(3) by auto

lemma same_store_refl [simp]: "spool_ok s \<Longrightarrow> same_store s s"
  by (simp add: same_store_def)

lemma same_store_trans: "same_store s s1 \<Longrightarrow> same_store s1 s2 \<Longrightarrow> same_store s s2"
  by (auto simp: same_store_def)

lemma same_store_okD: "same_store s s' \<Longrightarrow> spool_ok s'"
  by (simp add: same_store_def)

lemma fault_same_store: "spool_ok s \<Longrightarrow> same_store s (bump (after_fault x s))"
  by (auto simp: same_store_def spool_ok_def after_fault_def)

lemma transaction_blocked:
  assumes "spool_ok s" and "\<not> opened s \<or> in_transaction s"
  shows "\<exists>e s'. transaction body s = (Inl e, s') \<and> same_store s s'"
  using assms fault_same_store [OF assms(1)]
  by (auto simp: transaction_def bindP_def require_open_def begin_immediate_def same_store_def
      spool_ok_def split: option.splits)

lemma atomicI:
  assumes "refines m spec"
    and "\<And>s. spool_ok s \<Longrightarrow> \<not> opened s \<or> in_transaction s \<Longrightarrow>
      (case m s of (Inl e, s') \<Rightarrow> same_store s s'
       | (Inr x, s') \<Rightarrow> s' = s \<and> spec (limits s) (stored s) = Inr (x, stored s))"
  shows "atomic m spec"
  unfolding atomic_def
proof (intro allI impI)
  fix s assume ok: "spool_ok s"
  show "case m s of (Inl e, s') \<Rightarrow> same_store s s'
     | (Inr x, s') \<Rightarrow> spool_ok s' \<and> limits s' = limits s \<and>
         spec (limits s) (stored s) = Inr (x, stored s')"
  proof (cases "\<not> opened s \<or> in_transaction s")
    case True
    from assms(2) [OF ok this] show ?thesis using ok by (auto split: prod.splits sum.splits)
  next
    case False
    let ?d = "durable s"
    have d: "tables_ok ?d" "idle (limits s) (faults s) ?d s"
      using ok False by (simp_all add: spool_ok_def idle_def)
    obtain r s' where m: "m s = (r, s')" by (cases "m s")
    have t: "triple (idle (limits s) (faults s) ?d) m (fulfilled spec (limits s) (faults s) ?d)
        (refused spec (limits s) (faults s) ?d)"
      using assms(1) d(1) by (simp add: refines_def)
    show ?thesis
    proof (cases r)
      case (Inl e)
      with triple_InlD [OF t d(2)] m have "outside (limits s) (faults s) ?d s'"
        by (simp add: refused_def)
      then show ?thesis using m Inl d(1) by (simp add: same_store_def outside_def spool_ok_def)
    next
      case (Inr x)
      with triple_InrD [OF t d(2)] m have "fulfilled spec (limits s) (faults s) ?d x s'" by simp
      then show ?thesis using m Inr
        by (auto simp: fulfilled_def idle_def spool_ok_def stored_def)
    qed
  qed
qed

lemma catch_transaction_blocked:
  assumes "spool_ok s" and "\<not> opened s \<or> in_transaction s"
  shows "\<exists>e s'. catchP (transaction body) (\<lambda>e. raiseP (w e)) s = (Inl e, s') \<and> same_store s s'"
  using transaction_blocked [OF assms, of body] by (auto simp: catchP_def)

lemma atomic_enqueue: "atomic (enqueue_many evs) (spec_enqueue evs)"
proof (rule atomicI [OF enqueue_refines])
  fix s assume s: "spool_ok s" "\<not> opened s \<or> in_transaction s"
  show "case enqueue_many evs s of (Inl e, s') \<Rightarrow> same_store s s'
       | (Inr x, s') \<Rightarrow> s' = s \<and> spec_enqueue evs (limits s) (stored s) = Inr (x, stored s)"
  proof (cases "distinct_events [] evs")
    case (Inl e)
    then show ?thesis using s(1)
      by (auto simp: enqueue_many_def bindP_def liftR_def spec_enqueue_def bindR_def split: sum.splits)
  next
    case (Inr ds)
    obtain e s' where "catchP (transaction (enqueue_transaction ds))
        (\<lambda>e. raiseP (shown ''failed to enqueue events'' e)) s = (Inl e, s')" "same_store s s'"
      using catch_transaction_blocked [OF s] by blast
    then show ?thesis using s(1) Inr
      by (auto simp: enqueue_many_def bindP_def liftR_def classify_errors_eq spec_enqueue_def bindR_def
          split: sum.splits)
  qed
qed

lemma atomic_mark_delivered: "atomic (mark_delivered seqs) (spec_mark_delivered seqs)"
proof (rule atomicI [OF mark_delivered_refines])
  fix s assume s: "spool_ok s" "\<not> opened s \<or> in_transaction s"
  obtain e s' where b: "catchP (transaction (forP (\<lambda>seq. bindP (execute (delete_pending seq))
      (expect_one (missing_pending seq))) seqs)) (\<lambda>e. raiseP (shown ''failed to mark events delivered'' e)) s
      = (Inl e, s')" "same_store s s'"
    using catch_transaction_blocked [OF s] by blast
  show "case mark_delivered seqs s of (Inl e, s') \<Rightarrow> same_store s s'
       | (Inr x, s') \<Rightarrow> s' = s \<and> spec_mark_delivered seqs (limits s) (stored s) = Inr (x, stored s)"
    using b s(1)
    by (auto simp: mark_delivered_def bindP_def liftR_def classify_errors_eq spec_mark_delivered_def bindR_def
        first_missing_def split: sum.splits)
qed

lemma atomic_record_attempt: "atomic (record_attempt seqs err unc) (spec_record_attempt seqs err unc)"
proof (rule atomicI [OF record_attempt_refines])
  fix s assume s: "spool_ok s" "\<not> opened s \<or> in_transaction s"
  obtain e s' where b: "catchP (transaction (forP (\<lambda>seq. bindP (execute (update_attempt err unc seq))
      (expect_one (missing_pending seq))) seqs)) (\<lambda>e. raiseP (shown ''failed to record delivery attempt'' e)) s
      = (Inl e, s')" "same_store s s'"
    using catch_transaction_blocked [OF s] by blast
  show "case record_attempt seqs err unc s of (Inl e, s') \<Rightarrow> same_store s s'
       | (Inr x, s') \<Rightarrow> s' = s \<and> spec_record_attempt seqs err unc (limits s) (stored s) = Inr (x, stored s)"
    using b s(1)
    by (auto simp: record_attempt_def bindP_def liftR_def classify_errors_eq spec_record_attempt_def bindR_def
        first_missing_def split: sum.splits)
qed

lemma atomic_move: "atomic (move_to_dead_letter seqs err ns unc) (spec_move_to_dead_letter seqs err ns unc)"
proof (rule atomicI [OF move_to_dead_letter_refines])
  fix s assume s: "spool_ok s" "\<not> opened s \<or> in_transaction s"
  obtain e s' where b: "catchP (transaction (move_transaction seqs err ns unc))
      (\<lambda>e. raiseP (shown ''failed to move events to dead letter'' e)) s
      = (Inl e, s')" "same_store s s'"
    using catch_transaction_blocked [OF s] by blast
  show "case move_to_dead_letter seqs err ns unc s of (Inl e, s') \<Rightarrow> same_store s s'
       | (Inr x, s') \<Rightarrow> s' = s \<and> spec_move_to_dead_letter seqs err ns unc (limits s) (stored s) = Inr (x, stored s)"
    using b s(1)
    by (auto simp: move_to_dead_letter_def bindP_def liftR_def classify_errors_eq spec_move_to_dead_letter_def
        bindR_def first_missing_def split: sum.splits)
qed

lemma atomic_delete_dead: "atomic (delete_dead_letters seqs) (spec_delete_dead_letters seqs)"
proof (rule atomicI [OF delete_dead_letters_refines])
  fix s assume s: "spool_ok s" "\<not> opened s \<or> in_transaction s"
  obtain e s' where b: "catchP (transaction
        (forP (\<lambda>seq. bindP (execute (delete_dead (\<lambda>r. d_original_sequence r = seq)))
            (expect_one (missing_dead_letter seq))) seqs)) (\<lambda>e. raiseP (shown_plain ''failed to delete dead letters'' e)) s
      = (Inl e, s')" "same_store s s'"
    using catch_transaction_blocked [OF s] by blast
  show "case delete_dead_letters seqs s of (Inl e, s') \<Rightarrow> same_store s s'
       | (Inr x, s') \<Rightarrow> s' = s \<and> spec_delete_dead_letters seqs (limits s) (stored s) = Inr (x, stored s)"
    using b s(1)
    by (auto simp: delete_dead_letters_def bindP_def liftR_def plain_errors_eq spec_delete_dead_letters_def bindR_def
        first_missing_def split: sum.splits)
qed

subsection \<open>Methods that only read\<close>

lemma read_execute:
  assumes "\<And>t x t'. stmt t = Inr (x, t') \<Longrightarrow> t' = t"
  shows "read_only (execute stmt)"
  unfolding read_only_def
proof (intro allI impI)
  fix s assume "spool_ok s"
  then show "same_store s (snd (execute stmt s))"
    using fault_same_store [of s] assms [of "working s"]
    by (auto simp: execute_def same_store_def spool_ok_def split: option.splits sum.splits)
qed

lemma read_bind:
  assumes "read_only m" and "\<And>x. read_only (k x)"
  shows "read_only (bindP m k)"
  unfolding read_only_def
proof (intro allI impI)
  fix s assume ok: "spool_ok s"
  obtain r s1 where m: "m s = (r, s1)" by (cases "m s")
  then have s1: "same_store s s1" using assms(1) ok by (metis read_only_def snd_conv)
  then have "same_store s (snd (k x s1))" for x
    using assms(2) same_store_okD same_store_trans unfolding read_only_def by blast
  then show "same_store s (snd (bindP m k s))" using m s1 by (auto simp: bindP_def split: sum.splits)
qed

lemma read_catch:
  assumes "read_only m" and "\<And>e. read_only (h e)"
  shows "read_only (catchP m h)"
  unfolding read_only_def
proof (intro allI impI)
  fix s assume ok: "spool_ok s"
  obtain r s1 where m: "m s = (r, s1)" by (cases "m s")
  then have s1: "same_store s s1" using assms(1) ok by (metis read_only_def snd_conv)
  then have "same_store s (snd (h e s1))" for e
    using assms(2) same_store_okD same_store_trans unfolding read_only_def by blast
  then show "same_store s (snd (catchP m h s))" using m s1 by (auto simp: catchP_def split: sum.splits)
qed

lemma read_basic:
  "read_only (returnP x)" "read_only (raiseP e)" "read_only (getP f)" "read_only (liftR r)"
  "read_only require_open" "read_only (execute no_change)"
  by (auto simp: read_only_def liftR_def require_open_def intro!: read_execute [unfolded read_only_def, rule_format])
    (simp add: no_change_def)

lemma read_peek_batch: "read_only (peek_batch n b)"
  unfolding peek_batch_def plain_errors_eq
  by (intro read_bind read_catch read_basic read_execute) (simp add: select_oldest_pending_def)

lemma read_peek_dead_letters: "read_only (peek_dead_letters n)"
  unfolding peek_dead_letters_def plain_errors_eq
  by (intro read_bind read_catch read_basic read_execute) (simp add: select_oldest_dead_def)

lemma read_stats: "read_only current_stats"
  unfolding current_stats_def stats_of_row_def plain_errors_eq
  by (intro read_bind read_catch read_basic read_execute; (simp add: select_stats_def)?)
    (auto split: option.splits intro: read_basic)

subsection \<open>Giving space back never fails and never touches an event\<close>

lemma read_ask_pragma: "read_only (ask_pragma p)"
  unfolding ask_pragma_def by (intro read_bind read_basic)

lemma read_truncate_wal: "read_only truncate_wal"
  unfolding truncate_wal_def by (intro read_bind read_ask_pragma read_basic)

lemma read_failed_reclaim: "read_only (failed_reclaim n e)"
  unfolding failed_reclaim_def by (auto intro!: read_bind read_basic)

lemma read_set_auto_vacuum: "read_only (modifyP (\<lambda>s. s\<lparr>auto_vacuum := mode\<rparr>))"
  by (auto simp: read_only_def same_store_def spool_ok_def)

lemma read_whenP: "read_only m \<Longrightarrow> read_only (whenP b m)"
  by (simp add: whenP_def read_basic)

lemma read_if: "read_only m \<Longrightarrow> read_only m' \<Longrightarrow> read_only (if b then m else m')"
  by simp

lemma read_reclaim: "read_only (reclaim n)"
  unfolding reclaim_def
  by (intro read_bind read_catch read_if read_basic read_ask_pragma read_truncate_wal read_failed_reclaim)

lemma read_compact: "read_only compact"
  unfolding compact_def
  by (intro read_bind read_catch read_whenP read_basic read_ask_pragma read_truncate_wal
      read_failed_reclaim read_set_auto_vacuum)

text \<open>The exceptions a program can raise, whatever the state.\<close>

definition raises_only :: "(exn \<Rightarrow> bool) \<Rightarrow> (spool, 'a) prog \<Rightarrow> bool" where
  "raises_only P m \<longleftrightarrow> (\<forall>s e. fst (m s) = Inl e \<longrightarrow> P e)"

lemma raises_only_bind: "raises_only P m \<Longrightarrow> (\<And>x. raises_only P (k x)) \<Longrightarrow> raises_only P (bindP m k)"
  unfolding raises_only_def bindP_def by (auto split: prod.splits sum.splits) (metis fst_conv)+

lemma raises_only_catch: "(\<And>e. raises_only P (h e)) \<Longrightarrow> raises_only P (catchP m h)"
  unfolding raises_only_def catchP_def by (auto split: prod.splits sum.splits)

lemma raises_only_catch_all:
  assumes "raises_only P m" and "\<And>e. P e \<Longrightarrow> raises_only Q (h e)"
  shows "raises_only Q (catchP m h)"
  using assms unfolding raises_only_def catchP_def by (auto split: prod.splits sum.splits) (metis fst_conv)

definition sqlite_or_closed :: "exn \<Rightarrow> bool" where
  "sqlite_or_closed e \<longleftrightarrow> isinstance e SqliteError \<or> isinstance e SpoolClosedError"

lemma raises_only_basic:
  "raises_only P (returnP x)" "raises_only P (getP f)" "raises_only P (modifyP g)"
  "raises_only sqlite_or_closed require_open" "raises_only sqlite_or_closed (execute no_change)"
  by (auto simp: raises_only_def require_open_def execute_def no_change_def sqlite_or_closed_def
      isinstance_def split: option.splits if_splits)

lemma raises_only_ask: "raises_only sqlite_or_closed (ask_pragma p)"
  unfolding ask_pragma_def by (intro raises_only_bind raises_only_basic)

lemma raises_only_truncate: "raises_only sqlite_or_closed truncate_wal"
  unfolding truncate_wal_def by (intro raises_only_bind raises_only_basic raises_only_ask)

lemma failed_reclaim_returns: "sqlite_or_closed e \<Longrightarrow> raises_only (\<lambda>_. False) (failed_reclaim n e)"
  unfolding failed_reclaim_def sqlite_or_closed_def by (auto intro!: raises_only_bind raises_only_basic)

lemma compact_returns: "raises_only (\<lambda>_. False) compact"
  unfolding compact_def
  by (rule raises_only_catch_all [OF _ failed_reclaim_returns])
    (auto simp: whenP_def intro!: raises_only_bind raises_only_basic raises_only_ask raises_only_truncate)

lemma raises_only_weaken: "raises_only P m \<Longrightarrow> (\<And>e. P e \<Longrightarrow> Q e) \<Longrightarrow> raises_only Q m"
  by (auto simp: raises_only_def)

lemma reclaim_returns: "0 < n \<Longrightarrow> raises_only (\<lambda>_. False) (reclaim n)"
proof -
  assume n: "0 < n"
  have lift: "raises_only Q (bindP (liftR (positive_integer ''max_pages'' n)) k)" if "raises_only Q (k ())" for Q k
    using that n by (auto simp: raises_only_def bindP_def liftR_def positive_integer_def)
  have tail: "raises_only sqlite_or_closed (catchP (bindP truncate_wal k) (failed_reclaim f))"
    if "\<And>b. raises_only sqlite_or_closed (k b)" for k f
    by (rule raises_only_weaken [OF raises_only_catch_all [OF _ failed_reclaim_returns]])
      (auto intro!: raises_only_bind raises_only_truncate that)
  show ?thesis
    unfolding reclaim_def
    by (rule lift, rule raises_only_catch_all [OF _ failed_reclaim_returns])
      (auto intro!: raises_only_bind raises_only_basic raises_only_ask tail)
qed

subsection \<open>Opening and closing\<close>

lemma close_store:
  assumes "spool_ok s"
  shows "same_store s (snd (close_spool s)) \<and> \<not> opened (snd (close_spool s)) \<and>
    (opened s \<longrightarrow> \<not> in_transaction (snd (close_spool s)))"
  using assms
  by (auto simp: close_spool_def bindP_def whenP_def catchP_def rollback_def same_store_def spool_ok_def
      after_fault_def bump_def split: option.splits)

text \<open>Repairing the counters is all that opening changes.\<close>

definition reconciled :: "tables \<Rightarrow> tables" where
  "reconciled t = t\<lparr>stats_row := Some (exact_stats t), user_version := SCHEMA_VERSION\<rparr>"

definition schemaT :: "unit on_tables" where
  "schemaT L t =
     (if user_version t \<notin> {0, SCHEMA_VERSION} then
        Inl (mk_exn UnsupportedSpoolVersionError
           (lit ''unsupported spool schema version '' @ int_str (user_version t) @ lit ''; expected ''
              @ int_str SCHEMA_VERSION))
      else if overlap t then Inl (mk_exn SpoolStateError
             (lit ''an event exists in both pending and dead-letter state''))
      else Inr ((), reconciled t))"

definition schema_stepsT :: "unit on_tables" where
  "schema_stepsT = bindT (stmtT select_version) (\<lambda>version.
       if version \<notin> {0, SCHEMA_VERSION} then
         raiseT (mk_exn UnsupportedSpoolVersionError
           (lit ''unsupported spool schema version '' @ int_str version @ lit ''; expected ''
              @ int_str SCHEMA_VERSION))
       else
         bindT (forT stmtT SCHEMA_STATEMENTS) (\<lambda>_.
         bindT (stmtT insert_stats) (\<lambda>_.
         bindT (stmtT select_overlap) (\<lambda>both.
           if both then raiseT (mk_exn SpoolStateError
             (lit ''an event exists in both pending and dead-letter state''))
           else bindT (bindT (stmtT count_pending) (\<lambda>(pn, pb). bindT (stmtT count_dead) (\<lambda>(dn, db).
               stmtT (update_stats \<lparr>pending_rows = pn, pending_bytes = pb, dead_letter_rows = dn,
                 dead_letter_bytes = db\<rparr>)))) (\<lambda>_.
             if version = 0 then stmtT (set_version SCHEMA_VERSION) else returnT ())))))"

lemma sim_schema_steps: "sim schema_transaction schema_stepsT"
  unfolding schema_transaction_def schema_stepsT_def reconcile_stats_def whenP_def
  by (intro sim_bind sim_execute sim_if sim_raise sim_for sim_return | clarsimp | rule sim_bind sim_execute)+

lemma schema_steps_eq: "schema_stepsT L t = schemaT L t"
proof -
  have "forT stmtT SCHEMA_STATEMENTS L t = Inr ((), t)"
    by (simp add: SCHEMA_STATEMENTS_def numeral_eq_Suc bindT_def stmtT_def no_change_def returnT_def)
  moreover have "stats_checked (Some \<lparr>pending_rows = int (length (pending t)),
      pending_bytes = bytes_of p_payload (pending t), dead_letter_rows = int (length (dead t)),
      dead_letter_bytes = bytes_of d_payload (dead t)\<rparr>)"
    by (simp add: stats_checked_def)
  ultimately show ?thesis
    by (cases "stats_row t")
      (simp_all add: schema_stepsT_def schemaT_def bindT_def stmtT_def raiseT_def returnT_def select_version_def
        insert_stats_def select_overlap_def count_pending_def count_dead_def update_stats_def set_version_def
        constraint_checked_def reconciled_def exact_stats_def overlap_def)
qed

lemma sim_schema: "sim schema_transaction schemaT"
  using sim_schema_steps by (simp add: sim_def schema_steps_eq)

lemma reconciled_ok: "schema_ok t \<Longrightarrow> \<not> overlap t \<Longrightarrow> tables_ok (reconciled t)"
  by (simp add: tables_ok_def reconciled_def schema_ok_def overlap_def exact_stats_def)

definition quiet :: "(nat \<Rightarrow> sql_fault option) \<Rightarrow> tables \<Rightarrow> spool \<Rightarrow> bool" where
  "quiet f d s \<longleftrightarrow> durable s = d \<and> faults s = f \<and> (\<not> in_transaction s \<longrightarrow> working s = d)"

lemma idle_step: "triple (idle L f d) (execute no_change) (\<lambda>_. idle L f d) (\<lambda>_. quiet f d)"
  by (auto simp: triple_def execute_def no_change_def idle_def quiet_def after_fault_def split: option.splits)

lemma idle_ask: "triple (idle L f d) (ask_pragma p) (\<lambda>_. idle L f d) (\<lambda>_. quiet f d)"
  by (auto simp: triple_def ask_pragma_def bindP_def execute_def no_change_def idle_def quiet_def after_fault_def
      split: option.splits)

lemma idle_get: "triple (idle L f d) (getP g) (\<lambda>_. idle L f d) E"
  by (simp add: triple_def)

lemma idle_set: "triple (idle L f d) (modifyP (\<lambda>s. s\<lparr>auto_vacuum := m\<rparr>)) (\<lambda>_. idle L f d) E"
  by (simp add: triple_def idle_def)

lemma idle_raise: "triple (idle L f d) (raiseP e) Q (\<lambda>_. quiet f d)"
  by (simp add: triple_def idle_def quiet_def)

lemma idle_initialize:
  "triple (idle L f d) initialize_schema (\<lambda>_ s. \<not> overlap d \<and> idle L f (reconciled d) s) (\<lambda>_. quiet f d)"
  unfolding initialize_schema_def
  by (rule triple_weaken [OF transaction_sim [OF sim_schema]])
    (auto simp: raises_def outside_def quiet_def schemaT_def split: if_splits)

lemma open_connection_triple:
  "triple (\<lambda>s. quiet f d s \<and> \<not> in_transaction s \<and> limits s = L) open_connection
     (\<lambda>_ s. \<not> overlap d \<and> idle L f (reconciled d) s) (\<lambda>_. quiet f d)"
proof -
  have connect: "triple (\<lambda>s. quiet f d s \<and> \<not> in_transaction s \<and> limits s = L) connect
      (\<lambda>_. idle L f d) (\<lambda>_. quiet f d)"
    by (auto simp: triple_def connect_def bindP_def execute_def no_change_def idle_def quiet_def after_fault_def
        split: option.splits)
  show ?thesis
    unfolding open_connection_def
    by (intro triple_bind [OF connect] triple_bind [OF idle_step] triple_bind [OF idle_ask]
        triple_bind [OF idle_set] triple_bind [OF idle_get] triple_if idle_raise idle_initialize)
qed

lemma close_quiet:
  "triple (quiet f d) (bindP close_spool (\<lambda>_. m)) Q (\<lambda>_ s. quiet f d s \<and> \<not> opened s)"
  if "triple (\<lambda>s. quiet f d s \<and> \<not> opened s) m Q (\<lambda>_ s. quiet f d s \<and> \<not> opened s)"
  by (rule triple_bind [OF _ that])
    (auto simp: triple_def close_spool_def bindP_def whenP_def catchP_def rollback_def quiet_def
      after_fault_def bump_def split: option.splits)

lemma open_spool_triple:
  "triple (\<lambda>s. quiet f d s \<and> \<not> in_transaction s) (open_spool L timeout)
     (\<lambda>_ s. check_limits L = Inr () \<and> \<not> overlap d \<and> idle L f (reconciled d) s)
     (\<lambda>_. quiet f d)"
proof -
  have handler: "triple (quiet f d) (if isinstance e SpoolError then bindP close_spool (\<lambda>_. raiseP e)
           else if isinstance e SqliteError then
             bindP close_spool (\<lambda>_. bindP (getP disk_free) (\<lambda>free.
               raiseP (classify_storage_error e (lit ''failed to initialize SQLite spool'') free)))
           else raiseP e) Q (\<lambda>_. quiet f d)" for e and Q :: "unit \<Rightarrow> spool \<Rightarrow> bool"
    by (intro triple_if triple_weaken [OF close_quiet])
      (auto simp: triple_def bindP_def)
  have "triple (\<lambda>s. quiet f d s \<and> \<not> in_transaction s)
      (modifyP (\<lambda>s. s\<lparr>limits := L, opened := False, auto_vacuum := AUTO_VACUUM_NONE\<rparr>))
      (\<lambda>_ s. quiet f d s \<and> \<not> in_transaction s \<and> limits s = L) (\<lambda>_. quiet f d)"
    by (auto simp: triple_def quiet_def)
  then have "triple (\<lambda>s. quiet f d s \<and> \<not> in_transaction s)
      (bindP (modifyP (\<lambda>s. s\<lparr>limits := L, opened := False, auto_vacuum := AUTO_VACUUM_NONE\<rparr>)) (\<lambda>_.
         catchP open_connection (\<lambda>e.
           if isinstance e SpoolError then bindP close_spool (\<lambda>_. raiseP e)
           else if isinstance e SqliteError then
             bindP close_spool (\<lambda>_. bindP (getP disk_free) (\<lambda>free.
               raiseP (classify_storage_error e (lit ''failed to initialize SQLite spool'') free)))
           else raiseP e)))
      (\<lambda>_ s. \<not> overlap d \<and> idle L f (reconciled d) s) (\<lambda>_. quiet f d)"
    by (rule triple_bind) (rule triple_catch [OF open_connection_triple handler])
  then show ?thesis
    unfolding open_spool_def
    by (cases "check_limits L") (auto simp: triple_def bindP_def liftR_def)
qed

end
