(* ===== verification/SpoolClaims.thy ===== *)
theory SpoolClaims
  imports SpoolLaws
begin

section \<open>Properties of the spool\<close>

text \<open>The life of a spool: opened over any file its schema admits, then any calls in any order,
  under any schedule of faults.\<close>

datatype spool_call =
    CEnqueue "new_spool_event list"
  | CPeek int int
  | CDelivered "int list"
  | CAttempt "int list" ustr bool
  | CDead "int list" ustr int bool
  | CPeekDead int
  | CDeleteDead "int list"
  | CStats
  | CReclaim int
  | CCompact
  | CClose

fun run_call :: "spool_call \<Rightarrow> spool \<Rightarrow> spool" where
  "run_call (CEnqueue evs) s = snd (enqueue_many evs s)"
| "run_call (CPeek n b) s = snd (peek_batch n b s)"
| "run_call (CDelivered seqs) s = snd (mark_delivered seqs s)"
| "run_call (CAttempt seqs err unc) s = snd (record_attempt seqs err unc s)"
| "run_call (CDead seqs err ns unc) s = snd (move_to_dead_letter seqs err ns unc s)"
| "run_call (CPeekDead n) s = snd (peek_dead_letters n s)"
| "run_call (CDeleteDead seqs) s = snd (delete_dead_letters seqs s)"
| "run_call CStats s = snd (current_stats s)"
| "run_call (CReclaim n) s = snd (reclaim n s)"
| "run_call CCompact s = snd (compact s)"
| "run_call CClose s = snd (close_spool s)"

inductive spool_reached :: "spool \<Rightarrow> bool" where
  after_open: "quiet f d s0 \<Longrightarrow> \<not> in_transaction s0 \<Longrightarrow> schema_ok d \<Longrightarrow>
     open_spool L timeout s0 = (Inr (), s) \<Longrightarrow> spool_reached s"
| after_call: "spool_reached s \<Longrightarrow> spool_reached (run_call c s)"

inductive_cases spool_reached_cases: "spool_reached s"

lemma atomic_snd: "atomic m spec \<Longrightarrow> spool_ok s \<Longrightarrow> spool_ok (snd (m s)) \<and> limits (snd (m s)) = limits s"
  using atomicD [of m spec s] by (cases "m s"; cases "fst (m s)") (auto simp: same_store_def)

lemma read_only_snd: "read_only m \<Longrightarrow> spool_ok s \<Longrightarrow> spool_ok (snd (m s)) \<and> limits (snd (m s)) = limits s"
  by (auto simp: read_only_def same_store_def)

lemma close_snd: "spool_ok s \<Longrightarrow> spool_ok (snd (close_spool s)) \<and> limits (snd (close_spool s)) = limits s"
  using close_store by (simp add: same_store_def)

lemma run_call_ok: "spool_ok s \<Longrightarrow> spool_ok (run_call c s) \<and> limits (run_call c s) = limits s"
  by (cases c)
    (auto simp: atomic_snd atomic_enqueue atomic_mark_delivered atomic_record_attempt atomic_move atomic_delete_dead
      read_only_snd read_peek_batch read_peek_dead_letters read_stats read_reclaim read_compact
      close_snd
      dest: atomic_snd [OF atomic_enqueue] atomic_snd [OF atomic_mark_delivered]
        atomic_snd [OF atomic_record_attempt] atomic_snd [OF atomic_move] atomic_snd [OF atomic_delete_dead]
        read_only_snd [OF read_peek_batch] read_only_snd [OF read_peek_dead_letters]
        read_only_snd [OF read_stats] read_only_snd [OF read_reclaim] read_only_snd [OF read_compact])

lemma opened_ok:
  assumes "quiet f d s0" and "\<not> in_transaction s0" and "schema_ok d" and "open_spool L timeout s0 = (Inr (), s)"
  shows "check_limits L = Inr () \<and> \<not> overlap d \<and> idle L f (reconciled d) s"
  using triple_InrD [OF open_spool_triple _ assms(4)] assms(1,2) by blast

text \<open>A spool over an empty file, with no faults, for the witnesses.\<close>

definition empty_tables :: tables where
  "empty_tables = \<lparr>pending = [], pending_seq = 0, dead = [], dead_seq = 0, stats_row = None, user_version = 0\<rparr>"

definition sample_limits :: limits where
  "sample_limits = \<lparr>max_pending_rows = 3, max_pending_bytes = 10, max_event_bytes = 4,
     max_dead_letter_rows = 2, max_dead_letter_bytes = 6\<rparr>"

definition new_file :: spool where
  "new_file = \<lparr>durable = empty_tables, working = empty_tables, in_transaction = False, opened = False,
     faults = no_faults, tick = 0, limits = sample_limits, auto_vacuum = 0,
     pragmas = (\<lambda>_ _. 2), wal_mode = True, disk_free = None\<rparr>"

definition opened_spool :: spool where
  "opened_spool = snd (open_spool sample_limits 1 new_file)"

lemma new_file_quiet: "quiet no_faults empty_tables new_file" "\<not> in_transaction new_file" "schema_ok empty_tables"
  by (simp_all add: quiet_def new_file_def schema_ok_def empty_tables_def)

lemma open_new_file: "open_spool sample_limits 1 new_file = (Inr (), opened_spool)"
proof -
  have "fst (open_spool sample_limits 1 new_file) = Inr ()"
    by (simp add: open_spool_def open_connection_def connect_def initialize_schema_def transaction_def
        schema_transaction_def reconcile_stats_def SCHEMA_STATEMENTS_def numeral_eq_Suc ask_pragma_def
        bindP_def catchP_def whenP_def liftR_def execute_def no_change_def new_file_def no_faults_def bump_def
        check_limits_def sample_limits_def positive_integer_def require_open_def begin_immediate_def commit_def
        select_version_def insert_stats_def select_overlap_def overlap_def empty_tables_def count_pending_def
        count_dead_def update_stats_def constraint_checked_def stats_checked_def set_version_def SCHEMA_VERSION_def)
  then show ?thesis by (simp add: opened_spool_def prod_eq_iff)
qed

lemma opened_spool_idle: "idle sample_limits no_faults (reconciled empty_tables) opened_spool"
  "tables_ok (reconciled empty_tables)" "spool_ok opened_spool"
proof -
  note o = opened_ok [OF new_file_quiet open_new_file]
  then show "idle sample_limits no_faults (reconciled empty_tables) opened_spool" by simp
  show "tables_ok (reconciled empty_tables)" using o new_file_quiet(3) by (simp add: reconciled_ok)
  then show "spool_ok opened_spool" using o by (auto simp: spool_ok_def idle_def)
qed

text \<open>Without faults a method runs as its specification computes.\<close>

lemma run_spec:
  assumes "refines m spec" and "idle L no_faults d s" and "tables_ok d" and "spec L (queue_of d) = Inr (x, q')"
  shows "\<exists>d' s'. m s = (Inr x, s') \<and> idle L no_faults d' s' \<and> tables_ok d' \<and> queue_of d' = q' \<and> spool_ok s'"
proof -
  obtain r s' where m: "m s = (r, s')" by (cases "m s")
  have t: "triple (idle L no_faults d) m (fulfilled spec L no_faults d) (refused spec L no_faults d)"
    using assms(1,3) by (simp add: refines_def)
  show ?thesis
  proof (cases r)
    case (Inl e)
    with triple_InlD [OF t assms(2)] m assms(4) show ?thesis by (auto simp: refused_def)
  next
    case (Inr y)
    with triple_InrD [OF t assms(2)] m assms(4) obtain d' where
      "y = x" "idle L no_faults d' s'" "tables_ok d'" "queue_of d' = q'" by (auto simp: fulfilled_def)
    then show ?thesis using m Inr by (auto simp: spool_ok_def idle_def)
  qed
qed

definition sample_event :: new_spool_event where
  "sample_event = \<lparr>ne_event_id = [97], ne_payload = [1, 2], ne_created_ns = 5\<rparr>"

lemma sample_enqueue:
  "\<exists>d s'. enqueue_many [sample_event] opened_spool = (Inr 1, s') \<and> idle sample_limits no_faults d s' \<and>
     tables_ok d \<and> queue_of d = \<lparr>q_pending = [new_pending_row 1 sample_event], q_next = 1, q_dead = [], q_dead_next = 0\<rparr> \<and>
     spool_ok s'"
proof -
  have "spec_enqueue [sample_event] sample_limits (queue_of (reconciled empty_tables)) =
      Inr (1, \<lparr>q_pending = [new_pending_row 1 sample_event], q_next = 1, q_dead = [], q_dead_next = 0\<rparr>)"
    by (simp add: spec_enqueue_def validate_new_event_def sqlite_integer_def SQLITE_INTEGER_MIN_def
        SQLITE_INTEGER_MAX_def blob_bytes_def sample_limits_def new_to_def q_stored_def conflicting_def
        queue_of_def reconciled_def empty_tables_def Let_def sample_event_def)
  from run_spec [where spec = "spec_enqueue [sample_event]", OF enqueue_refines opened_spool_idle(1,2) this]
  show ?thesis by simp
qed

lemma sample_dead_letter:
  "\<exists>s1 s2. spool_ok s1 \<and> enqueue_many [sample_event] opened_spool = (Inr 1, s1) \<and>
     move_to_dead_letter [1] [98] 7 True s1 = (Inr (1, 0), s2)"
proof -
  obtain d s1 where s1: "enqueue_many [sample_event] opened_spool = (Inr 1, s1)" "idle sample_limits no_faults d s1"
      "tables_ok d" "queue_of d = \<lparr>q_pending = [new_pending_row 1 sample_event], q_next = 1, q_dead = [], q_dead_next = 0\<rparr>"
      "spool_ok s1"
    using sample_enqueue by blast
  have "\<exists>q'. spec_move_to_dead_letter [1] [98] 7 True sample_limits (queue_of d) = Inr ((1, 0), q')"
    by (simp add: s1(4) spec_move_to_dead_letter_def sequence_tuple_def positive_integer_def error_text_def
        sqlite_integer_def SQLITE_INTEGER_MIN_def SQLITE_INTEGER_MAX_def first_missing_def new_pending_row_def
        room_for.simps sample_limits_def blob_bytes_def sample_event_def sql_length_def Let_def)
  then obtain q' where "spec_move_to_dead_letter [1] [98] 7 True sample_limits (queue_of d) = Inr ((1, 0), q')" ..
  from run_spec [where spec = "spec_move_to_dead_letter [1] [98] 7 True", OF move_to_dead_letter_refines s1(2,3) this]
  show ?thesis using s1 by blast
qed

lemma rows_found:
  assumes "first_missing seqs (p_sequence ` set (pending t)) = None"
  shows "set (map (row_of_seq t) seqs) \<subseteq> set (pending t)" "map p_sequence (map (row_of_seq t) seqs) = seqs"
proof -
  have "row_of_seq t i \<in> set (pending t) \<and> p_sequence (row_of_seq t i) = i" if "i \<in> set seqs" for i
  proof -
    have "i \<in> p_sequence ` set (pending t)"
      using assms that by (auto simp: first_missing_def find_None_iff)
    from find_sequence [OF this] show ?thesis by auto
  qed
  then show "set (map (row_of_seq t) seqs) \<subseteq> set (pending t)" "map p_sequence (map (row_of_seq t) seqs) = seqs"
    by (auto simp: comp_def intro: map_idI)
qed

lemma mapR_ValueError:
  "mapR (positive_integer n) xs = Inl e \<Longrightarrow> exn_class e = ValueError"
  by (induction xs) (auto simp: bindR_eq_Inl positive_integer_def split: if_splits)

text \<open>
  C2: The writing methods of \<open>SQLiteSpool\<close> implement the abstract queue. Over well-formed tables,
  under every schedule of SQLite faults (any statement, COMMIT or ROLLBACK may fail with any code),
  \<open>enqueue_many\<close>, \<open>mark_delivered\<close>, \<open>record_attempt\<close>, \<open>move_to_dead_letter\<close> and
  \<open>delete_dead_letters\<close> either make durable exactly what the specification does to the queue, with
  its return value and correct counters, or raise and leave every durable row as it was; without
  faults they are the specification, its exceptions and messages included.
\<close>

theorem spool_writes_refine_queue:
  "refines (enqueue_many evs) (spec_enqueue evs) \<and>
   refines (mark_delivered seqs) (spec_mark_delivered seqs) \<and>
   refines (record_attempt seqs err unc) (spec_record_attempt seqs err unc) \<and>
   refines (move_to_dead_letter seqs err ns unc) (spec_move_to_dead_letter seqs err ns unc) \<and>
   refines (delete_dead_letters seqs) (spec_delete_dead_letters seqs)"
  by (intro conjI enqueue_refines mark_delivered_refines record_attempt_refines
      move_to_dead_letter_refines delete_dead_letters_refines)

text \<open>
  C33: \<open>peek_batch\<close>, \<open>peek_dead_letters\<close> and \<open>stats\<close> return what the queue holds: the oldest
  rows in sequence order up to the two bounds, the oldest dead letters, and counters that equal the
  row counts and payload bytes of the tables. They change nothing durable.
\<close>

theorem spool_reads_refine_queue:
  "refines (peek_batch max_rows max_bytes) (spec_peek_batch max_rows max_bytes) \<and>
   refines (peek_dead_letters n) (spec_peek_dead_letters n) \<and>
   refines current_stats spec_stats"
  by (intro conjI peek_batch_refines peek_dead_letters_refines stats_refines)

text \<open>
  C26: In every reachable state of a spool (opened over any file the schema admits, then any
  sequence of calls, any faults, closing included) the durable tables are well formed: sequences
  and ids strictly increasing, no event id or sequence twice, none both pending and dead, every row
  valid and the counters exact; and the limits are the checked ones.
\<close>

theorem spool_reached_well_formed:
  "spool_reached s \<Longrightarrow> tables_ok (durable s) \<and> check_limits (limits s) = Inr ()"
proof -
  assume "spool_reached s"
  then have "spool_ok s \<and> check_limits (limits s) = Inr ()"
  proof induction
    case (after_open f d s0 L timeout s)
    from opened_ok [OF this] reconciled_ok after_open(3) show ?case
      by (auto simp: spool_ok_def idle_def)
  next
    case (after_call s c)
    then show ?case using run_call_ok by simp
  qed
  then show ?thesis by (simp add: spool_ok_def)
qed

theorem spool_reached_well_formed_witness:
  "tables_ok (durable (run_call CClose (run_call (CEnqueue []) opened_spool)))"
  using spool_reached_well_formed spool_reached.intros new_file_quiet open_new_file by blast

text \<open>
  C32: Opening a spool loses nothing and repairs the counters: whatever the stored counters were,
  after a successful \<open>__init__\<close> the tables are well formed and hold the same pending and dead
  rows as the file; a file with an event both pending and dead is refused; and when opening fails,
  at any statement, the file's rows are untouched.
\<close>

theorem opening_preserves_rows:
  assumes "quiet f d s0" and "\<not> in_transaction s0" and "schema_ok d"
  shows "case open_spool L timeout s0 of
      (Inr _, s) \<Rightarrow> \<not> overlap d \<and> opened s \<and> tables_ok (durable s) \<and> queue_of (durable s) = queue_of d \<and> limits s = L
    | (Inl _, s) \<Rightarrow> durable s = d"
proof -
  obtain r s where o: "open_spool L timeout s0 = (r, s)" by (cases "open_spool L timeout s0")
  show ?thesis
  proof (cases r)
    case (Inl e)
    have "quiet f d s"
      by (rule triple_InlD [OF open_spool_triple _ o [unfolded Inl]]) (use assms in simp)
    then show ?thesis using o Inl by (simp add: quiet_def)
  next
    case (Inr u)
    with opened_ok [OF assms, of L timeout s] o have s: "\<not> overlap d" "idle L f (reconciled d) s" by simp_all
    have "queue_of (reconciled d) = queue_of d" by (simp add: reconciled_def queue_of_def)
    then show ?thesis using s o Inr reconciled_ok [OF assms(3) s(1)] by (simp add: idle_def)
  qed
qed

theorem opening_preserves_rows_witness:
  "queue_of (durable opened_spool) = queue_of empty_tables \<and> tables_ok (durable opened_spool)"
  using opening_preserves_rows [OF new_file_quiet, of sample_limits 1] by (simp add: open_new_file)

text \<open>
  C13: Storing is idempotent and complete: when \<open>enqueue_many\<close> returns, every event of the call
  is stored with its content, and repeating the call inserts nothing and changes no row, whatever
  faults strike the repetition.
\<close>

theorem enqueue_is_idempotent:
  assumes "spool_ok s" and "enqueue_many evs s = (Inr n, s1)" and "enqueue_many evs s1 = (r, s2)"
  shows "(\<forall>ev \<in> set evs. q_stored (stored s1) (ne_event_id ev) = Some (ne_payload ev, ne_created_ns ev)) \<and>
    stored s2 = stored s1 \<and> (\<forall>k. r = Inr k \<longrightarrow> k = 0)"
proof -
  have first: "spool_ok s1" "limits s1 = limits s" "spec_enqueue evs (limits s) (stored s) = Inr (n, stored s1)"
    using atomicD(2) [OF atomic_enqueue assms(1,2)] by simp_all
  note again = spec_enqueue_again [OF first(3)]
  have "stored s2 = stored s1 \<and> (\<forall>k. r = Inr k \<longrightarrow> k = 0)"
  proof (cases r)
    case (Inl e)
    with atomicD(1) [OF atomic_enqueue first(1) assms(3)] show ?thesis
      by (simp add: same_store_def stored_def)
  next
    case (Inr k)
    with atomicD(2) [OF atomic_enqueue first(1) assms(3)] again first(2) show ?thesis by simp
  qed
  then show ?thesis using spec_enqueue_stores [OF first(3)] by blast
qed

theorem enqueue_is_idempotent_witness:
  "\<exists>s1. q_stored (stored s1) [97] = Some ([1, 2], 5) \<and>
     stored (snd (enqueue_many [sample_event] s1)) = stored s1"
proof -
  obtain s1 where s1: "enqueue_many [sample_event] opened_spool = (Inr 1, s1)" using sample_enqueue by blast
  from enqueue_is_idempotent [OF opened_spool_idle(3) s1, of "fst (enqueue_many [sample_event] s1)"
      "snd (enqueue_many [sample_event] s1)"]
  show ?thesis by (auto simp: sample_event_def)
qed

text \<open>
  C24: Capacity and order: a successful non-empty \<open>enqueue_many\<close> keeps the old rows and appends
  the new ones after them, and afterwards neither the row limit nor the payload-byte limit is
  exceeded.
\<close>

theorem enqueue_appends_within_limits:
  assumes "spool_ok s" and "enqueue_many evs s = (Inr n, s')" and "evs \<noteq> []"
  shows "\<exists>new. pending (durable s') = pending (durable s) @ new \<and> length new = n \<and>
    (\<forall>r \<in> set new. p_sequence r > pending_seq (durable s) \<and> p_attempt_count r = 0 \<and> p_uncertain r = 0) \<and>
    int (length (pending (durable s'))) \<le> max_pending_rows (limits s) \<and>
    bytes_of p_payload (pending (durable s')) \<le> max_pending_bytes (limits s)"
proof -
  have new: "r \<in> set (numbered k evs) \<Longrightarrow> p_sequence r > k \<and> p_attempt_count r = 0 \<and> p_uncertain r = 0"
    for r k and evs :: "new_spool_event list"
    by (induction evs arbitrary: k) (fastforce simp: new_pending_row_def)+
  have len: "length (numbered k evs) = length evs" for k and evs :: "new_spool_event list"
    by (induction evs arbitrary: k) auto
  have "spec_enqueue evs (limits s) (stored s) = Inr (n, stored s')"
    using atomicD(2) [OF atomic_enqueue assms(1,2)] by simp
  from enqueue_Inr [OF this] obtain ds where ds: "n = length (new_to (stored s) ds)"
      "stored s' = (stored s)\<lparr>q_pending := q_pending (stored s) @ numbered (q_next (stored s)) (new_to (stored s) ds),
         q_next := q_next (stored s) + int (length (new_to (stored s) ds))\<rparr>"
      "int (length (q_pending (stored s'))) \<le> max_pending_rows (limits s)"
      "bytes_of p_payload (q_pending (stored s')) \<le> max_pending_bytes (limits s)"
    using assms(3) by blast
  have "pending (durable s') = pending (durable s) @ numbered (pending_seq (durable s)) (new_to (stored s) ds)"
    using arg_cong [OF ds(2), of q_pending] by (simp add: stored_def)
  then show ?thesis using new len ds(1,3,4) by (auto simp: stored_def)
qed

theorem enqueue_appends_within_limits_witness:
  "\<exists>s' :: spool. \<exists>new. pending (durable s') = pending (durable opened_spool) @ new \<and> length new = 1 \<and>
     bytes_of p_payload (pending (durable s')) \<le> max_pending_bytes (limits opened_spool)"
proof -
  obtain s1 where "enqueue_many [sample_event] opened_spool = (Inr 1, s1)"
    using sample_enqueue by blast
  from enqueue_appends_within_limits [OF opened_spool_idle(3) this] obtain new where
      "pending (durable s1) = pending (durable opened_spool) @ new" "length new = 1"
      "bytes_of p_payload (pending (durable s1)) \<le> max_pending_bytes (limits opened_spool)"
    by blast
  then show ?thesis by blast
qed

text \<open>
  C34: The dead-letter store is a ring buffer that loses only its oldest rows: a successful
  \<open>move_to_dead_letter\<close> removes exactly the named rows from \<open>pending\<close>, appends one copy of each
  in the given order (attempt count plus one, the uncertain flag never cleared), drops the oldest
  \<open>evicted\<close> dead letters of the whole, reports both counts, and afterwards both dead-letter limits
  hold.
\<close>

theorem dead_letter_ring_buffer:
  assumes "spool_ok s" and "move_to_dead_letter seqs err ns unc s = (Inr (moved, evicted), s')" and "seqs \<noteq> []"
  shows "let rows = map (row_of_seq (durable s)) seqs in
    moved = length seqs \<and> map p_sequence rows = seqs \<and> set rows \<subseteq> set (pending (durable s)) \<and>
    pending (durable s') = filter (\<lambda>r. p_sequence r \<notin> set seqs) (pending (durable s)) \<and>
    dead (durable s') = drop evicted (dead (durable s) @ dead_copies err ns unc (dead_seq (durable s)) rows) \<and>
    int (length (dead (durable s'))) \<le> max_dead_letter_rows (limits s) \<and>
    bytes_of d_payload (dead (durable s')) \<le> max_dead_letter_bytes (limits s)"
proof -
  let ?rows = "map (row_of_seq (durable s)) seqs" and ?q = "stored s"
  have spec: "spec_move_to_dead_letter seqs err ns unc (limits s) ?q = Inr ((moved, evicted), stored s')"
    using atomicD(2) [OF atomic_move assms(1,2)] by simp
  then have none: "first_missing seqs (p_sequence ` set (pending (durable s))) = None"
      and moved: "moved = length seqs" and rows: "spec_move_rows err ns unc (limits s) ?rows ?q = Inr (evicted, stored s')"
    by (auto simp: spec_move_to_dead_letter_def bindR_eq_Inr stored_def split: option.splits)
  note found = rows_found [OF none]
  note res = spec_move_rows_Inr [OF rows]
  have "p_sequence ` set ?rows = set seqs" using found(2) by (metis list.set_map)
  then have p: "pending (durable s') = filter (\<lambda>r. p_sequence r \<notin> set seqs) (pending (durable s))"
    using arg_cong [OF conjunct1 [OF res], of q_pending] by (simp add: stored_def)
  have d: "dead (durable s') = drop evicted (dead (durable s) @ dead_copies err ns unc (dead_seq (durable s)) ?rows)"
    using arg_cong [OF conjunct1 [OF res], of q_dead] by (simp add: stored_def)
  have "int (length (dead (durable s'))) \<le> max_dead_letter_rows (limits s)"
      "bytes_of d_payload (dead (durable s')) \<le> max_dead_letter_bytes (limits s)"
    using conjunct2 [OF conjunct2 [OF res]] assms(3) by (simp_all add: stored_def)
  then show ?thesis unfolding Let_def by (intro conjI moved found p d)
qed

theorem dead_letter_ring_buffer_witness:
  "\<exists>s1 s2. move_to_dead_letter [1] [98] 7 True s1 = (Inr (1, 0), s2) \<and>
     length (dead (durable s2)) \<le> 2 \<and> pending (durable s2) = filter (\<lambda>r. p_sequence r \<noteq> 1) (pending (durable s1))"
proof -
  obtain s1 s2 where s: "spool_ok s1" "enqueue_many [sample_event] opened_spool = (Inr 1, s1)"
      "move_to_dead_letter [1] [98] 7 True s1 = (Inr (1, 0), s2)"
    using sample_dead_letter by blast
  have "limits s1 = sample_limits"
    using atomic_snd [OF atomic_enqueue opened_spool_idle(3), of "[sample_event]"] s(2) opened_spool_idle(1)
    by (simp add: idle_def)
  then show ?thesis
    using dead_letter_ring_buffer [OF s(1,3)] s(3) by (auto simp: Let_def sample_limits_def)
qed

text \<open>
  The dead-letter move cannot get stuck on capacity: if every pending payload fits
  \<open>max_event_bytes\<close>, which \<open>__init__\<close> keeps within \<open>max_dead_letter_bytes\<close>, then
  \<open>move_to_dead_letter\<close> never raises \<open>DeadLetterFullError\<close>, under any faults.
\<close>

theorem dead_letter_never_full:
  assumes "idle L f d s" and "tables_ok d" and "check_limits L = Inr ()"
    and "\<forall>r \<in> set (pending d). blob_bytes (p_payload r) \<le> max_event_bytes L"
    and "move_to_dead_letter seqs err ns unc s = (Inl e, s')"
  shows "exn_class e \<noteq> DeadLetterFullError"
proof -
  let ?spec = "spec_move_to_dead_letter seqs err ns unc"
  have L: "max_event_bytes L \<le> max_dead_letter_bytes L" "0 < max_dead_letter_rows L"
    using assms(3) by (auto simp: check_limits_def bindR_eq_Inr positive_integer_def split: if_splits)
  have "refused ?spec L f d e s'"
    using triple_InlD [OF move_to_dead_letter_refines [unfolded refines_def, rule_format, OF assms(2)] assms(1,5)] .
  then have "?spec L (queue_of d) = Inl e \<or> storage_failure e" by (simp add: refused_def)
  then show ?thesis
  proof
    assume e: "?spec L (queue_of d) = Inl e"
    show ?thesis
    proof (cases "first_missing seqs (p_sequence ` set (pending d))")
      case (Some i)
      then show ?thesis using e
        by (auto simp: spec_move_to_dead_letter_def bindR_eq_Inl missing_pending_def sequence_tuple_def
            error_text_def sqlite_integer_def mapR_ValueError split: if_splits)
    next
      case None
      note rows_found(1) [OF None]
      then have small: "\<forall>r \<in> set (map (row_of_seq d) seqs). blob_bytes (p_payload r) \<le> max_dead_letter_bytes L"
        using assms(4) L(1) by force
      show ?thesis using e None spec_move_rows_not_full [OF small L(2)]
        by (auto simp: spec_move_to_dead_letter_def bindR_eq_Inl sequence_tuple_def
            error_text_def sqlite_integer_def mapR_ValueError split: if_splits)
    qed
  qed (auto simp: storage_failure_def)
qed

theorem dead_letter_never_full_witness:
  "\<exists>e s'. move_to_dead_letter [5] [98] 7 True opened_spool = (Inl e, s') \<and> exn_class e \<noteq> DeadLetterFullError"
proof -
  let ?m = "move_to_dead_letter [5] [98] 7 True"
  obtain r s' where m: "?m opened_spool = (r, s')" by (cases "?m opened_spool")
  have t: "triple (idle sample_limits no_faults (reconciled empty_tables)) ?m
      (fulfilled (spec_move_to_dead_letter [5] [98] 7 True) sample_limits no_faults (reconciled empty_tables))
      (refused (spec_move_to_dead_letter [5] [98] 7 True) sample_limits no_faults (reconciled empty_tables))"
    using move_to_dead_letter_refines opened_spool_idle(2) by (simp add: refines_def)
  have bad: "spec_move_to_dead_letter [5] [98] 7 True sample_limits (queue_of (reconciled empty_tables)) \<noteq> Inr x" for x
    by (simp add: spec_move_to_dead_letter_def sequence_tuple_def positive_integer_def error_text_def
        sqlite_integer_def SQLITE_INTEGER_MIN_def SQLITE_INTEGER_MAX_def first_missing_def queue_of_def
        reconciled_def empty_tables_def)
  show ?thesis
  proof (cases r)
    case (Inr x)
    with triple_InrD [OF t opened_spool_idle(1)] m bad show ?thesis by (auto simp: fulfilled_def)
  next
    case (Inl e)
    have "check_limits sample_limits = Inr ()"
      by (simp add: check_limits_def sample_limits_def positive_integer_def)
    moreover have "\<forall>r \<in> set (pending (reconciled empty_tables)). blob_bytes (p_payload r) \<le> max_event_bytes sample_limits"
      by (simp add: reconciled_def empty_tables_def)
    ultimately show ?thesis
      using dead_letter_never_full [OF opened_spool_idle(1,2)] m Inl by blast
  qed
qed

text \<open>
  A delivery batch is the longest prefix that fits: \<open>peek_batch\<close> returns the first \<open>k\<close>
  pending rows in sequence order with \<open>k\<close> at most \<open>max_rows\<close> and their payloads at most
  \<open>max_bytes\<close>, and one more row would exceed a bound; it is empty only if nothing is pending, and
  \<open>BatchLimitTooSmallError\<close> means that the oldest payload alone exceeds \<open>max_bytes\<close>.
\<close>

theorem peek_batch_is_longest_prefix:
  assumes "idle L f d s" and "tables_ok d" and "peek_batch max_rows max_bytes s = (r, s')"
  shows "case r of
      Inr batch \<Rightarrow> \<exists>k. batch = map spool_record_of (take k (pending d)) \<and> int k \<le> max_rows \<and>
        (k = 0 \<longleftrightarrow> pending d = []) \<and> k \<le> length (pending d) \<and>
        bytes_of p_payload (take k (pending d)) \<le> max_bytes \<and>
        (k < length (pending d) \<longrightarrow> int k = max_rows \<or>
          bytes_of p_payload (take (Suc k) (pending d)) > max_bytes)
    | Inl e \<Rightarrow> exn_class e = BatchLimitTooSmallError \<longrightarrow>
        (\<exists>row rows. pending d = row # rows \<and> blob_bytes (p_payload row) > max_bytes)"
proof -
  let ?spec = "spec_peek_batch max_rows max_bytes" and ?rows = "take (nat max_rows) (pending d)"
  note t = peek_batch_refines [unfolded refines_def, rule_format, OF assms(2)]
  show ?thesis
  proof (cases r)
    case (Inl e)
    have "refused ?spec L f d e s'"
      using triple_InlD [OF t assms(1)] assms(3) Inl by blast
    then have "?spec L (queue_of d) = Inl e \<or> storage_failure e" by (simp add: refused_def)
    then have "\<exists>row rows. pending d = row # rows \<and> blob_bytes (p_payload row) > max_bytes"
      if "exn_class e = BatchLimitTooSmallError"
    proof
      assume "?spec L (queue_of d) = Inl e"
      then have "take_batch max_bytes 0 ?rows [] = Inl e"
        using that by (auto simp: spec_peek_batch_def bindR_eq_Inl positive_integer_def split: if_splits)
      from take_batch_Inl [OF this] show ?thesis by (cases "pending d") (auto simp: take_Cons' split: if_splits)
    qed (use that in \<open>auto simp: storage_failure_def\<close>)
    then show ?thesis using Inl by simp
  next
    case (Inr batch)
    have "fulfilled ?spec L f d batch s'"
      using triple_InrD [OF t assms(1)] assms(3) Inr by blast
    then have "0 < max_rows" "0 < max_bytes" "take_batch max_bytes 0 ?rows [] = Inr batch"
      by (auto simp: fulfilled_def spec_peek_batch_def bindR_eq_Inr positive_integer_def split: if_splits)
    moreover from take_batch_Inr [OF this(3)] obtain k where k: "k \<le> length ?rows"
        "batch = map spool_record_of (take k ?rows)" "k = 0 \<or> bytes_of p_payload (take k ?rows) \<le> max_bytes"
        "k < length ?rows \<longrightarrow> bytes_of p_payload (take (Suc k) ?rows) > max_bytes" "?rows \<noteq> [] \<longrightarrow> 0 < k"
      unfolding append.append_Nil add_0 by blast
    moreover have tk: "take k ?rows = take k (pending d)" using k(1) by (simp add: min_absorb1)
    moreover have "take (Suc k) ?rows = take (Suc k) (pending d)" if "k < length ?rows"
      using that by (simp add: min_absorb1)
    moreover have "0 < nat max_rows" using calculation(1) by simp
    ultimately show ?thesis
      unfolding Inr sum.case by (intro exI [of _ k]) (auto split: if_splits)
  qed
qed

theorem peek_batch_is_longest_prefix_witness:
  "\<exists>r s'. peek_batch 2 10 opened_spool = (r, s') \<and>
     (case r of Inr batch \<Rightarrow> batch = [] | Inl e \<Rightarrow> exn_class e \<noteq> BatchLimitTooSmallError)"
proof -
  have p: "pending (reconciled empty_tables) = []" by (simp add: reconciled_def empty_tables_def)
  obtain r s' where m: "peek_batch 2 10 opened_spool = (r, s')" by (cases "peek_batch 2 10 opened_spool")
  from peek_batch_is_longest_prefix [OF opened_spool_idle(1,2) m]
  show ?thesis using m p by (cases r) auto
qed

text \<open>
  The classification of SQLite errors is exactly the one the worker relies on: for every
  result code, extended ones included, \<open>classify_storage_error\<close> says "disk full" iff the primary
  code is SQLITE_FULL, or CANTOPEN or IOERR with less than 64 KiB measured free; "read-only" iff the
  primary code is SQLITE_READONLY; a plain \<open>SpoolError\<close> otherwise, in particular without a code.
\<close>

definition out_of_space :: "int \<Rightarrow> int option \<Rightarrow> bool" where
  "out_of_space code free \<longleftrightarrow> code mod 256 = 13 \<or>
     (code mod 256 \<in> {10, 14} \<and> (\<exists>n. free = Some n \<and> n < 65536))"

lemma primary_mod: "primary_sqlite_code c = c mod 256"
proof -
  have "c AND 255 = take_bit 8 c" by (simp add: take_bit_eq_mask mask_eq_exp_minus_1)
  then show ?thesis by (simp add: primary_sqlite_code_def take_bit_eq_mod)
qed

theorem storage_classification_exact:
  "exn_class (classify_storage_error e msg free) =
     (case exn_sqlite_code e of
        None \<Rightarrow> SpoolError
      | Some c \<Rightarrow> if out_of_space c free then SpoolDiskFullError
                 else if c mod 256 = 8 then SpoolReadOnlyError else SpoolError)"
  by (auto simp: classify_storage_error_def primary_mod out_of_space_def SQLITE_FULL_def READ_ONLY_SQLITE_CODES_def
      OUT_OF_SPACE_SQLITE_CODES_def SQLITE_READONLY_def SQLITE_CANTOPEN_def SQLITE_IOERR_def
      OUT_OF_SPACE_FREE_BYTES_def split: option.splits)

text \<open>
  Reclaiming space is safe next to durable writes: from every state (closed spools and failing
  statements included) \<open>reclaim\<close>, given a positive number of pages, and \<open>compact\<close> return a report
  and never raise, and change neither the durable tables nor the limits.
\<close>

theorem reclaiming_is_harmless:
  assumes "spool_ok s" and "0 < n"
  shows "(\<exists>report s'. reclaim n s = (Inr report, s') \<and> durable s' = durable s \<and> spool_ok s') \<and>
    (\<exists>report s'. compact s = (Inr report, s') \<and> durable s' = durable s \<and> spool_ok s')"
proof -
  have "\<exists>x s'. m s = (Inr x, s') \<and> durable s' = durable s \<and> spool_ok s'"
    if "raises_only (\<lambda>_. False) m" "read_only m" for m :: "(spool, spool_reclaim) prog"
  proof -
    obtain r s' where m: "m s = (r, s')" by (cases "m s")
    then have "same_store s s'" using that(2) assms(1) by (auto simp: read_only_def)
    moreover have "\<exists>x. r = Inr x" using that(1) m unfolding raises_only_def by (metis fst_conv sum.exhaust)
    ultimately show ?thesis using m by (auto simp: same_store_def)
  qed
  then show ?thesis using reclaim_returns [OF assms(2)] compact_returns read_reclaim read_compact by blast
qed

theorem reclaiming_is_harmless_witness:
  "\<exists>report s'. compact (snd (close_spool opened_spool)) = (Inr report, s') \<and> spool_ok s'"
  using reclaiming_is_harmless [of "snd (close_spool opened_spool)" 1] close_snd opened_spool_idle(3) by auto

end
