(* ===== verification/StorageGuard.thy ===== *)
theory StorageGuard
  imports QdbPrelude
begin

section \<open>The free-space guard (storage_guard.py)\<close>

text \<open>
  The decision whether the filesystem of the spool has room, from the two numbers the operating
  system reports or the error it raises. A ratio is a rational number; the source multiplies it in
  binary floating point before \<open>math.ceil\<close>.
\<close>

record storage_usage =
  usage_total :: int
  usage_free :: int

record storage_status =
  free_bytes :: int
  total_bytes :: int
  reserve_bytes :: int
  status_error :: "ustr option"

definition status_blocked :: "storage_status \<Rightarrow> bool" where
  "status_blocked st \<longleftrightarrow> status_error st \<noteq> None \<or> free_bytes st < reserve_bytes st"

definition reserve_bytes_for :: "int \<Rightarrow> int \<Rightarrow> rat \<Rightarrow> int" where
  "reserve_bytes_for tot min_free_bytes min_free_ratio =
     max min_free_bytes \<lceil>of_int tot * min_free_ratio\<rceil>"

definition validate_free_space_settings :: "int \<Rightarrow> rat \<Rightarrow> unit res" where
  "validate_free_space_settings min_free_bytes min_free_ratio =
     (if min_free_bytes < 0 then
        Inl (mk_exn ValueError (lit ''min_free_bytes must be a non-negative integer''))
      else if \<not> (0 \<le> min_free_ratio \<and> min_free_ratio < 1) then
        Inl (mk_exn ValueError (lit ''min_free_ratio must be finite and in [0, 1)''))
      else Inr ())"

text \<open>The guard object holds its two settings; what \<open>usage_source\<close> answers is an argument: the
  numbers, or the text of the \<open>OSError\<close> it raised.\<close>

record filesystem_guard =
  min_free_bytes :: int
  min_free_ratio :: rat

definition make_guard :: "int \<Rightarrow> rat \<Rightarrow> filesystem_guard res" where
  "make_guard mfb mfr =
     bindR (validate_free_space_settings mfb mfr) (\<lambda>_.
       Inr \<lparr>min_free_bytes = mfb, min_free_ratio = mfr\<rparr>)"

definition guard_check :: "filesystem_guard \<Rightarrow> ustr + storage_usage \<Rightarrow> storage_status" where
  "guard_check g answer =
     (case answer of
        Inl err \<Rightarrow>
          \<lparr>free_bytes = 0, total_bytes = 0, reserve_bytes = min_free_bytes g, status_error = Some err\<rparr>
      | Inr usage \<Rightarrow>
          \<lparr>free_bytes = usage_free usage, total_bytes = usage_total usage,
           reserve_bytes = reserve_bytes_for (usage_total usage) (min_free_bytes g) (min_free_ratio g),
           status_error = None\<rparr>)"

subsection \<open>Lemmas\<close>

lemma reserve_at_least_floor: "m \<le> reserve_bytes_for tot m r"
  by (simp add: reserve_bytes_for_def)

lemma reserve_covers_ratio: "of_int tot * r \<le> of_int (reserve_bytes_for tot m r)"
  unfolding reserve_bytes_for_def
  by (rule order_trans [OF le_of_int_ceiling]) simp

lemma reserve_leaves_room:
  assumes "0 \<le> tot" and "r < 1" and "0 \<le> r" and "m \<le> tot"
  shows "reserve_bytes_for tot m r \<le> tot"
proof -
  have "of_int tot * r \<le> of_int tot * 1" using assms by (intro mult_left_mono) auto
  then have "\<lceil>of_int tot * r\<rceil> \<le> tot" by (simp add: ceiling_le_iff)
  then show ?thesis using assms(4) by (simp add: reserve_bytes_for_def)
qed

text \<open>
  The guard fails closed and keeps its reserve: with valid settings, a measurement lets the
  worker persist iff the filesystem could be read and its free bytes are at least both the absolute
  floor and the configured share of the tot; an unreadable filesystem always blocks. The reserve
  never exceeds a filesystem at least as large as the floor, so an empty one is never blocked.
\<close>

theorem guard_fails_closed:
  assumes "make_guard m r = Inr g"
  shows "status_blocked (guard_check g (Inl err)) \<and>
    (\<not> status_blocked (guard_check g (Inr u)) \<longleftrightarrow>
       m \<le> usage_free u \<and> of_int (usage_total u) * r \<le> (of_int (usage_free u) :: rat)) \<and>
    (m \<le> usage_total u \<and> usage_free u = usage_total u \<longrightarrow> \<not> status_blocked (guard_check g (Inr u)))"
proof -
  have g: "g = \<lparr>min_free_bytes = m, min_free_ratio = r\<rparr>" "0 \<le> m" "0 \<le> r" "r < 1"
    using assms by (auto simp: make_guard_def validate_free_space_settings_def split: if_splits)
  have "status_blocked (guard_check g (Inl err))" by (simp add: status_blocked_def guard_check_def)
  moreover have "\<not> status_blocked (guard_check g (Inr u)) \<longleftrightarrow>
       m \<le> usage_free u \<and> of_int (usage_total u) * r \<le> (of_int (usage_free u) :: rat)"
    by (auto simp: status_blocked_def guard_check_def g reserve_bytes_for_def ceiling_le_iff not_less)
  moreover have "\<not> status_blocked (guard_check g (Inr u))" if "m \<le> usage_total u" "usage_free u = usage_total u"
    using reserve_leaves_room [of "usage_total u" r m] that g
    by (simp add: status_blocked_def guard_check_def not_less)
  ultimately show ?thesis by blast
qed

theorem guard_fails_closed_witness:
  "\<not> status_blocked (guard_check \<lparr>min_free_bytes = 10, min_free_ratio = 1 / 20\<rparr>
     (Inr \<lparr>usage_total = 1000, usage_free = 50\<rparr>))"
  using guard_fails_closed [of 10 "1 / 20" _ "[]" "\<lparr>usage_total = 1000, usage_free = 50\<rparr>"]
  by (simp add: make_guard_def validate_free_space_settings_def)

end
