(* ===== verification/AttrFilter.thy ===== *)
theory AttrFilter
  imports QdbPrelude
begin

section \<open>The attribute filter (attribute_filter.py)\<close>

text \<open>
  \<open>fnmatch.fnmatchcase\<close> of the standard library on code points: \<open>*\<close>, \<open>?\<close>, and character sets
  \<open>[...]\<close> and \<open>[!...]\<close> with ranges, a \<open>[\<close> without its \<open>]\<close> being a literal.
\<close>

subsection \<open>Character sets\<close>

datatype set_item = Single nat | Range nat nat

text \<open>The text between the brackets as single characters and ranges; a hyphen at either end is a
  character, an empty range disappears.\<close>

fun set_items :: "ustr \<Rightarrow> set_item list" where
  "set_items (a # m # b # rest) =
     (if m = 45 then (if a \<le> b then [Range a b] else []) @ set_items rest
      else Single a # set_items (m # b # rest))"
| "set_items (a # rest) = Single a # set_items rest"
| "set_items [] = []"

fun item_matches :: "nat \<Rightarrow> set_item \<Rightarrow> bool" where
  "item_matches c (Single a) = (c = a)"
| "item_matches c (Range a b) = (a \<le> c \<and> c \<le> b)"

definition set_matches :: "ustr \<Rightarrow> nat \<Rightarrow> bool" where
  "set_matches stuff c =
     (if stuff \<noteq> [] \<and> hd stuff = 33 then \<not> list_ex (item_matches c) (set_items (tl stuff))
      else list_ex (item_matches c) (set_items stuff))"

text \<open>The set that starts after a \<open>[\<close>: a leading \<open>!\<close> and then a leading \<open>]\<close> belong to it.\<close>

definition take_lead :: "nat \<Rightarrow> ustr \<Rightarrow> ustr \<times> ustr" where
  "take_lead c p = (if p \<noteq> [] \<and> hd p = c then ([c], tl p) else ([], p))"

definition split_set :: "ustr \<Rightarrow> (ustr \<times> ustr) option" where
  "split_set p =
     (let (bang, p1) = take_lead 33 p;
          (close, p2) = take_lead 93 p1
      in case dropWhile (\<lambda>c. c \<noteq> 93) p2 of
           [] \<Rightarrow> None
         | _ # rest \<Rightarrow> Some (bang @ close @ takeWhile (\<lambda>c. c \<noteq> 93) p2, rest))"

lemma split_set_shorter: "split_set p = Some (stuff, rest) \<Longrightarrow> length rest < length p"
proof -
  assume s: "split_set p = Some (stuff, rest)"
  obtain bang p1 where p1: "take_lead 33 p = (bang, p1)" by fastforce
  obtain close p2 where p2: "take_lead 93 p1 = (close, p2)" by fastforce
  have "length p2 \<le> length p" using p1 p2 by (auto simp: take_lead_def split: if_splits)
  moreover obtain x where "dropWhile (\<lambda>c. c \<noteq> 93) p2 = x # rest"
    using s p1 p2 by (auto simp: split_set_def split: list.splits)
  moreover have "length (dropWhile (\<lambda>c. c \<noteq> (93::nat)) p2) \<le> length p2" by (rule length_dropWhile_le)
  ultimately show ?thesis by simp
qed

function fnmatchcase :: "ustr \<Rightarrow> ustr \<Rightarrow> bool" where
  "fnmatchcase name [] = (name = [])"
| "fnmatchcase name (p # ps) =
     (if p = 42 then
        fnmatchcase name ps \<or> (if name = [] then False else fnmatchcase (tl name) (p # ps))
      else if p = 63 then name \<noteq> [] \<and> fnmatchcase (tl name) ps
      else if p = 91 then
        (case split_set ps of
           None \<Rightarrow> name \<noteq> [] \<and> hd name = 91 \<and> fnmatchcase (tl name) ps
         | Some (stuff, rest) \<Rightarrow>
             name \<noteq> [] \<and> set_matches stuff (hd name) \<and> fnmatchcase (tl name) rest)
      else name \<noteq> [] \<and> hd name = p \<and> fnmatchcase (tl name) ps)"
  by pat_completeness auto
termination
  by (relation "measure (\<lambda>(name, p). length name + length p)")
    (auto dest: split_set_shorter simp: neq_Nil_conv)

declare fnmatchcase.simps [simp del]

subsection \<open>The filter\<close>

record attribute_filter =
  allow :: "ustr list"
  deny :: "ustr list"

definition filter_passes :: "attribute_filter \<Rightarrow> ustr \<Rightarrow> bool" where
  "filter_passes f name =
     (if deny f \<noteq> [] \<and> list_ex (fnmatchcase name) (deny f) then False
      else if allow f = [] then True
      else list_ex (fnmatchcase name) (allow f))"

text \<open>\<open>str.strip()\<close> removes the code points for which \<open>str.isspace\<close> holds.\<close>

definition py_isspace :: "nat \<Rightarrow> bool" where
  "py_isspace c \<longleftrightarrow> (9 \<le> c \<and> c \<le> 13) \<or> (28 \<le> c \<and> c \<le> 32) \<or> c = 133 \<or> c = 160 \<or> c = 5760 \<or>
     (8192 \<le> c \<and> c \<le> 8202) \<or> c = 8232 \<or> c = 8233 \<or> c = 8239 \<or> c = 8287 \<or> c = 12288"

definition py_strip :: "ustr \<Rightarrow> ustr" where
  "py_strip s = rev (dropWhile py_isspace (rev (dropWhile py_isspace s)))"

fun py_split :: "nat \<Rightarrow> ustr \<Rightarrow> ustr list" where
  "py_split sep [] = [[]]"
| "py_split sep (c # cs) =
     (if c = sep then [] # py_split sep cs
      else (case py_split sep cs of [] \<Rightarrow> [[c]] | w # ws \<Rightarrow> (c # w) # ws))"

text \<open>\<open>seen.setdefault\<close>: the keys of the dict in the order of their first insertion.\<close>

definition add_pattern :: "ustr list \<Rightarrow> ustr \<Rightarrow> ustr list" where
  "add_pattern seen part =
     (let pattern = py_strip part in
      if pattern \<noteq> [] \<and> pattern \<notin> set seen then seen @ [pattern] else seen)"

definition parse_attribute_patterns :: "ustr option \<Rightarrow> ustr list" where
  "parse_attribute_patterns value =
     (case value of
        None \<Rightarrow> []
      | Some v \<Rightarrow> if v = [] then [] else foldl add_pattern [] (py_split 44 v))"

subsection \<open>Lemmas\<close>

text \<open>The wildcards without sets, as a relation between names and patterns.\<close>

inductive glob :: "ustr \<Rightarrow> ustr \<Rightarrow> bool" where
  glob_end: "glob [] []"
| glob_star: "glob name ps \<Longrightarrow> glob (any @ name) (42 # ps)"
| glob_one: "glob name ps \<Longrightarrow> glob (c # name) (63 # ps)"
| glob_char: "glob name ps \<Longrightarrow> c \<notin> {42, 63, 91} \<Longrightarrow> glob (c # name) (c # ps)"

inductive_cases glob_NilE: "glob name []"
inductive_cases glob_ConsE: "glob name (p # ps)"

lemma star_skips: "fnmatchcase name ps \<Longrightarrow> fnmatchcase (any @ name) (42 # ps)"
  by (induction any) (auto simp: fnmatchcase.simps(2) [of _ 42])

lemma fnmatch_glob:
  "91 \<notin> set ps \<Longrightarrow> fnmatchcase name ps \<longleftrightarrow> glob name ps"
proof (induction name ps rule: fnmatchcase.induct)
  case (1 name)
  then show ?case by (auto simp: fnmatchcase.simps(1) intro: glob_end elim: glob_NilE)
next
  case (2 name p ps)
  show ?case
  proof (cases "p = 42")
    case True
    have "glob name (42 # ps) \<longleftrightarrow> glob name ps \<or> (name \<noteq> [] \<and> glob (tl name) (42 # ps))"
    proof
      assume "glob name (42 # ps)"
      then obtain any rest where s: "name = any @ rest" "glob rest ps" by (auto elim: glob_ConsE)
      then show "glob name ps \<or> (name \<noteq> [] \<and> glob (tl name) (42 # ps))"
        by (cases any) (auto intro: glob_star)
    next
      assume "glob name ps \<or> (name \<noteq> [] \<and> glob (tl name) (42 # ps))"
      then show "glob name (42 # ps)"
      proof
        assume "glob name ps"
        then show ?thesis using glob_star [of name ps "[]"] by simp
      next
        assume n: "name \<noteq> [] \<and> glob (tl name) (42 # ps)"
        then obtain any rest where "tl name = any @ rest" "glob rest ps" by (auto elim: glob_ConsE)
        then show ?thesis using n glob_star [of rest ps "hd name # any"] by (cases name) auto
      qed
    qed
    moreover have "91 \<notin> set ps" "91 \<notin> set (p # ps)" using 2(7) by auto
    ultimately show ?thesis using 2(1,2) True by (simp add: fnmatchcase.simps(2) [of name 42])
  next
    case False
    have "p \<noteq> 91" "91 \<notin> set ps" using 2(7) by auto
    then show ?thesis using 2(3,6) False
      by (cases name) (auto simp: fnmatchcase.simps(2) [of _ p] intro: glob_one glob_char elim: glob_ConsE)
  qed
qed

lemma py_split_no_sep: "w \<in> set (py_split sep s) \<Longrightarrow> sep \<notin> set w"
  by (induction s arbitrary: w) (auto split: list.splits if_splits)

lemma py_split_chars: "w \<in> set (py_split sep s) \<Longrightarrow> set w \<subseteq> set s"
  by (induction s arbitrary: w) (fastforce split: list.splits if_splits)+

lemma py_strip_chars: "set (py_strip s) \<subseteq> set s"
proof
  fix x assume "x \<in> set (py_strip s)"
  then have "x \<in> set (rev (dropWhile py_isspace s))"
    using set_dropWhileD [of x py_isspace "rev (dropWhile py_isspace s)"] by (simp add: py_strip_def)
  then show "x \<in> set s" using set_dropWhileD [of x py_isspace s] by simp
qed

definition patterns_in :: "ustr \<Rightarrow> ustr set" where
  "patterns_in v = {p. p \<noteq> [] \<and> (\<exists>w \<in> set (py_split 44 v). p = py_strip w)}"

lemma fold_patterns:
  "distinct acc \<Longrightarrow> distinct (foldl add_pattern acc ws) \<and>
     set (foldl add_pattern acc ws) = set acc \<union> {p. p \<noteq> [] \<and> (\<exists>w \<in> set ws. p = py_strip w)}"
proof (induction ws arbitrary: acc)
  case (Cons w ws)
  have "distinct (add_pattern acc w)" "set (add_pattern acc w) = set acc \<union> (if py_strip w = [] then {} else {py_strip w})"
    using Cons.prems by (auto simp: add_pattern_def Let_def)
  then show ?case using Cons.IH [of "add_pattern acc w"] by auto
qed simp

lemma parse_patterns:
  "distinct (parse_attribute_patterns (Some v)) \<and> set (parse_attribute_patterns (Some v)) = patterns_in v"
  using fold_patterns [of "[]" "py_split 44 v"]
  by (cases "v = []") (auto simp: parse_attribute_patterns_def patterns_in_def py_strip_def)

lemma patterns_no_set: "91 \<notin> set v \<Longrightarrow> p \<in> patterns_in v \<Longrightarrow> 91 \<notin> set p"
  using py_strip_chars py_split_chars unfolding patterns_in_def by blast

subsection \<open>Property\<close>

text \<open>
  The attribute filter is the documented one. For an allow text and a deny text typed in the
  options (without character sets), split at commas, stripped, blanks and repetitions dropped, an
  attribute name is written iff no deny pattern matches it, and the allow list is empty or one of
  its patterns does, where \<open>*\<close> stands for any text, \<open>?\<close> for one character and matching is
  case-sensitive.
\<close>

theorem attribute_filter_semantics:
  assumes "91 \<notin> set allowed" and "91 \<notin> set denied"
  shows "filter_passes \<lparr>allow = parse_attribute_patterns (Some allowed),
      deny = parse_attribute_patterns (Some denied)\<rparr> name \<longleftrightarrow>
    (\<forall>p \<in> patterns_in denied. \<not> glob name p) \<and>
    (patterns_in allowed = {} \<or> (\<exists>p \<in> patterns_in allowed. glob name p))"
proof -
  have match: "fnmatchcase name p \<longleftrightarrow> glob name p" if "p \<in> patterns_in v" "91 \<notin> set v" for p v
    using fnmatch_glob patterns_no_set that by blast
  have nil: "parse_attribute_patterns (Some v) = [] \<longleftrightarrow> patterns_in v = {}" for v
    using parse_patterns [of v] by auto
  have ex: "list_ex (fnmatchcase name) (parse_attribute_patterns (Some v)) \<longleftrightarrow> (\<exists>p \<in> patterns_in v. glob name p)"
    if "91 \<notin> set v" for v
    using match parse_patterns [of v] that by (auto simp: list_ex_iff)
  show ?thesis
    using assms by (auto simp: filter_passes_def ex nil)
qed

theorem attribute_filter_semantics_witness:
  "\<not> filter_passes \<lparr>allow = parse_attribute_patterns (Some (lit '' a*, b'')),
      deny = parse_attribute_patterns (Some (lit ''?bc''))\<rparr> (lit ''abc'')"
proof -
  have "glob (lit ''abc'') (lit ''?bc'')"
    by (simp add: lit_def) (intro glob_one glob_char glob_end; simp)
  moreover have "lit ''?bc'' \<in> patterns_in (lit ''?bc'')"
    by (simp add: patterns_in_def lit_def py_strip_def py_isspace_def)
  ultimately show ?thesis
    using attribute_filter_semantics [of "lit '' a*, b''" "lit ''?bc''" "lit ''abc''"]
    by (auto simp: lit_def)
qed

end
