(* ===== verification/Transport.thy ===== *)
theory Transport
  imports Json Utf8 AttrFilter
begin

section \<open>The HTTP transport (transport.py)\<close>

text \<open>
  One reusable connection to QuestDB. The network is a field of the state: \<open>net s n\<close> is what
  request number \<open>n\<close> meets, a network failure or a response. Every connection made gets a number,
  and the log records which connection carried which request, so that reuse is visible.
\<close>

definition WRITE_PATH :: ustr where "WRITE_PATH = lit ''/write?precision=n''"
definition EXEC_PATH :: ustr where "EXEC_PATH = lit ''/exec?query=''"
definition MAX_ERROR_BODY_BYTES :: nat where "MAX_ERROR_BODY_BYTES = 16 * 1024"

definition ilp_exn :: "exn_class \<Rightarrow> ustr \<Rightarrow> bool \<Rightarrow> bool \<Rightarrow> int option \<Rightarrow> exn" where
  "ilp_exn c message retryable delivery_uncertain status_code =
     \<lparr>exn_class = c, exn_msg = message, exn_retryable = retryable, exn_uncertain = delivery_uncertain,
      exn_status = status_code, exn_sqlite_code = None\<rparr>"

lemma ilp_exn_sel [simp]:
  "exn_class (ilp_exn c m r u st) = c" "exn_msg (ilp_exn c m r u st) = m"
  "exn_retryable (ilp_exn c m r u st) = r" "exn_uncertain (ilp_exn c m r u st) = u"
  "exn_status (ilp_exn c m r u st) = st"
  by (simp_all add: ilp_exn_def)

subsection \<open>State\<close>

datatype exchange = NetworkFailure ustr | Response int bytes

record http_request =
  rq_connection :: nat
  rq_post :: bool
  rq_path :: ustr
  rq_body :: bytes

record transport =
  connection :: "nat option"
  connections_made :: nat
  requests :: "http_request list"
  net :: "nat \<Rightarrow> exchange"
  headers :: "(ustr \<times> ustr) list"

subsection \<open>Construction\<close>

definition b64_char :: "nat \<Rightarrow> nat" where
  "b64_char i =
     (if i < 26 then 65 + i else if i < 52 then 71 + i else if i < 62 then i - 4
      else if i = 62 then 43 else 47)"

text \<open>\<open>base64.b64encode\<close>\<close>

fun b64encode :: "bytes \<Rightarrow> ustr" where
  "b64encode (a # b # c # rest) =
     (let n = unat a * 65536 + unat b * 256 + unat c in
      [b64_char (n div 262144), b64_char (n div 4096 mod 64), b64_char (n div 64 mod 64),
       b64_char (n mod 64)] @ b64encode rest)"
| "b64encode [a, b] =
     (let n = unat a * 256 + unat b in
      [b64_char (n div 1024), b64_char (n div 16 mod 64), b64_char (n mod 16 * 4), 61])"
| "b64encode [a] = [b64_char (unat a div 4), b64_char (unat a mod 4 * 16), 61, 61]"
| "b64encode [] = []"

definition make_transport ::
    "ustr \<Rightarrow> int \<Rightarrow> bool \<Rightarrow> rat \<Rightarrow> ustr option \<Rightarrow> ustr option \<Rightarrow> bool \<Rightarrow> (nat \<Rightarrow> exchange) \<Rightarrow> transport res" where
  "make_transport host port use_tls timeout_seconds username password has_ssl_context network =
     (if host = [] then Inl (mk_exn ValueError (lit ''host must not be empty''))
      else if \<not> (1 \<le> port \<and> port \<le> 65535) then
        Inl (mk_exn ValueError (lit ''port must be between 1 and 65535''))
      else if timeout_seconds \<le> 0 then
        Inl (mk_exn ValueError (lit ''timeout_seconds must be positive''))
      else if (username = None) \<noteq> (password = None) then
        Inl (mk_exn ValueError (lit ''username and password must be provided together''))
      else if has_ssl_context \<and> \<not> use_tls then
        Inl (mk_exn ValueError (lit ''ssl_context requires use_tls=True''))
      else
        (let base = [(lit ''Content-Type'', lit ''text/plain; charset=utf-8'')];
             made = (\<lambda>hs. \<lparr>connection = None, connections_made = 0, requests = [], net = network, headers = hs\<rparr>)
         in case (username, password) of
              (Some u, Some p) \<Rightarrow>
                bindR (utf8_encode (u @ 58 # p)) (\<lambda>bs.
                  Inr (made (base @ [(lit ''Authorization'', lit ''Basic '' @ b64encode bs)])))
            | _ \<Rightarrow> Inr (made base)))"

subsection \<open>The connection\<close>

definition close_transport :: "(transport, unit) prog" where
  "close_transport = modifyP (\<lambda>s. s\<lparr>connection := None\<rparr>)"

definition get_connection :: "(transport, nat) prog" where
  "get_connection = bindP (getP connection) (\<lambda>c.
     case c of
       Some n \<Rightarrow> returnP n
     | None \<Rightarrow> bindP (getP connections_made) (\<lambda>n.
         bindP (modifyP (\<lambda>s. s\<lparr>connection := Some n, connections_made := Suc n\<rparr>)) (\<lambda>_. returnP n)))"

text \<open>\<open>connection.request\<close>, \<open>getresponse\<close> and \<open>read\<close> of at most one byte over the limit.\<close>

definition exchange_on :: "nat \<Rightarrow> bool \<Rightarrow> ustr \<Rightarrow> bytes \<Rightarrow> (transport, exchange) prog" where
  "exchange_on c post path body =
     bindP (getP (\<lambda>s. net s (length (requests s)))) (\<lambda>answer.
     bindP (modifyP (\<lambda>s. s\<lparr>requests := requests s @
         [\<lparr>rq_connection = c, rq_post = post, rq_path = path, rq_body = body\<rparr>]\<rparr>)) (\<lambda>_.
     returnP (case answer of
        NetworkFailure n \<Rightarrow> NetworkFailure n
      | Response st b \<Rightarrow> Response st (take (MAX_ERROR_BODY_BYTES + 1) b))))"

subsection \<open>Error details\<close>

text \<open>\<open>bytes.decode("utf-8", errors="replace")\<close>: each maximal invalid prefix becomes U+FFFD.\<close>

definition second_ok :: "nat \<Rightarrow> nat \<Rightarrow> bool" where
  "second_ok lead b \<longleftrightarrow>
     (if lead = 224 then 160 \<le> b \<and> b \<le> 191 else if lead = 237 then 128 \<le> b \<and> b \<le> 159
      else if lead = 240 then 144 \<le> b \<and> b \<le> 191 else if lead = 244 then 128 \<le> b \<and> b \<le> 143
      else 128 \<le> b \<and> b \<le> 191)"

definition needed_tail :: "nat \<Rightarrow> nat option" where
  "needed_tail b =
     (if b < 128 then Some 0 else if 194 \<le> b \<and> b \<le> 223 then Some 1
      else if 224 \<le> b \<and> b \<le> 239 then Some 2 else if 240 \<le> b \<and> b \<le> 244 then Some 3 else None)"

definition tail_length :: "nat \<Rightarrow> nat \<Rightarrow> nat list \<Rightarrow> nat" where
  "tail_length lead n rest =
     (case take n rest of
        [] \<Rightarrow> 0
      | b # bs \<Rightarrow> if second_ok lead b then Suc (length (takeWhile (\<lambda>x. 128 \<le> x \<and> x \<le> 191) bs)) else 0)"

function decode_replace_nats :: "nat list \<Rightarrow> ustr" where
  "decode_replace_nats [] = []"
| "decode_replace_nats (b # rest) =
     (case needed_tail b of
        None \<Rightarrow> 65533 # decode_replace_nats rest
      | Some n \<Rightarrow>
          (let k = tail_length b n rest;
               char = (case utf8_decode_nats (take (Suc k) (b # rest)) of
                         Some [c] \<Rightarrow> c | _ \<Rightarrow> 65533)
           in char # decode_replace_nats (drop k rest)))"
  by pat_completeness auto
termination by (relation "measure length") auto

definition decode_replace :: "bytes \<Rightarrow> ustr" where
  "decode_replace b = decode_replace_nats (map unat b)"

definition status_message :: "string \<Rightarrow> int \<Rightarrow> bytes \<Rightarrow> ustr" where
  "status_message prefix st body =
     (let detail = py_strip (decode_replace body);
          message = lit prefix @ int_str st
      in if detail \<noteq> [] then message @ lit '': '' @ detail else message)"

subsection \<open>send_batch\<close>

definition send_batch :: "bytes \<Rightarrow> (transport, unit) prog" where
  "send_batch payload =
     (if payload = [] then raiseP (mk_exn ValueError (lit ''payload must be non-empty bytes''))
      else if last payload \<noteq> 10 then
        raiseP (mk_exn ValueError (lit ''ILP payload must end with a newline''))
      else
        bindP get_connection (\<lambda>c.
        bindP (exchange_on c True WRITE_PATH payload) (\<lambda>answer.
        case answer of
          NetworkFailure name \<Rightarrow>
            bindP close_transport (\<lambda>_. raiseP (ilp_exn RetryableIlpError
              (lit ''QuestDB request failed: '' @ name) True True None))
        | Response st body \<Rightarrow>
            let truncated = length body > MAX_ERROR_BODY_BYTES in
            if 200 \<le> st \<and> st < 300 then whenP truncated close_transport
            else
              bindP (whenP truncated close_transport) (\<lambda>_.
              let message = status_message ''QuestDB returned HTTP '' st (take MAX_ERROR_BODY_BYTES body) in
              if st = 401 \<or> st = 403 then
                raiseP (ilp_exn AuthenticationIlpError message False False (Some st))
              else if st = 408 \<or> st = 425 \<or> st = 429 then
                bindP (whenP (st = 408) close_transport) (\<lambda>_.
                  raiseP (ilp_exn RetryableIlpError message True (st = 408) (Some st)))
              else if 500 \<le> st \<and> st < 600 then
                bindP close_transport (\<lambda>_.
                  raiseP (ilp_exn RetryableIlpError message True True (Some st)))
              else raiseP (ilp_exn PermanentIlpError message False False (Some st))))))"

subsection \<open>exec_query\<close>

definition unreserved :: "nat \<Rightarrow> bool" where
  "unreserved c \<longleftrightarrow> (48 \<le> c \<and> c \<le> 57) \<or> (65 \<le> c \<and> c \<le> 90) \<or> (97 \<le> c \<and> c \<le> 122) \<or>
     c \<in> {45, 46, 95, 126}"

definition hex_upper :: "nat \<Rightarrow> nat" where
  "hex_upper n = (if n < 10 then 48 + n else 55 + n)"

text \<open>\<open>urllib.parse.quote(query, safe="")\<close>\<close>

definition quote_byte :: "byte \<Rightarrow> ustr" where
  "quote_byte b =
     (if unreserved (unat b) then [unat b]
      else [37, hex_upper (unat b div 16), hex_upper (unat b mod 16)])"

definition url_quote :: "ustr \<Rightarrow> ustr res" where
  "url_quote q = bindR (utf8_encode q) (\<lambda>bs. Inr (concat (map quote_byte bs)))"

definition exec_once :: "ustr \<Rightarrow> (transport, (ustr \<times> json) list) prog" where
  "exec_once path =
     bindP get_connection (\<lambda>c.
     bindP (exchange_on c False path []) (\<lambda>answer.
     case answer of
       NetworkFailure name \<Rightarrow>
         bindP close_transport (\<lambda>_. raiseP (ilp_exn RetryableIlpError
           (lit ''QuestDB exec request failed: '' @ name) True False None))
     | Response st body \<Rightarrow>
         let truncated = length body > MAX_ERROR_BODY_BYTES in
         bindP (whenP truncated close_transport) (\<lambda>_.
         if \<not> (200 \<le> st \<and> st < 300) then
           (let message = status_message ''QuestDB exec returned HTTP '' st (take MAX_ERROR_BODY_BYTES body) in
            if st = 401 \<or> st = 403 then
              raiseP (ilp_exn AuthenticationIlpError message False False (Some st))
            else if st = 408 \<or> st = 425 \<or> st = 429 then
              bindP (whenP (st = 408) close_transport) (\<lambda>_.
                raiseP (ilp_exn RetryableIlpError message True False (Some st)))
            else if 500 \<le> st \<and> st < 600 then
              bindP close_transport (\<lambda>_.
                raiseP (ilp_exn RetryableIlpError message True False (Some st)))
            else raiseP (ilp_exn PermanentIlpError message False False (Some st)))
         else
           (case Option.bind (utf8_decode body) json_loads of
              None \<Rightarrow> raiseP (ilp_exn PermanentIlpError
                (lit ''QuestDB exec returned an invalid JSON response'') False False None)
            | Some (JObj doc) \<Rightarrow> returnP doc
            | Some _ \<Rightarrow> raiseP (ilp_exn PermanentIlpError
                (lit ''QuestDB exec returned a non-object JSON response'') False False None)))))"

text \<open>The \<open>while True\<close> loop, counted by the repetitions that are left.\<close>

fun exec_attempts :: "nat \<Rightarrow> ustr \<Rightarrow> (transport, (ustr \<times> json) list) prog" where
  "exec_attempts left path =
     catchP (exec_once path) (\<lambda>e.
       if isinstance e RetryableIlpError then
         (case left of 0 \<Rightarrow> raiseP e | Suc n \<Rightarrow> bindP close_transport (\<lambda>_. exec_attempts n path))
       else raiseP e)"

declare exec_attempts.simps [simp del]

definition exec_query :: "ustr \<Rightarrow> int \<Rightarrow> (transport, (ustr \<times> json) list) prog" where
  "exec_query query retries =
     (if query = [] then raiseP (mk_exn ValueError (lit ''query must be a non-empty string''))
      else if retries < 0 then raiseP (mk_exn ValueError (lit ''retries must not be negative''))
      else (case url_quote query of
          Inl e \<Rightarrow> raiseP e
        | Inr q \<Rightarrow> exec_attempts (nat retries) (EXEC_PATH @ q)))"

subsection \<open>Lemmas\<close>

definition transport_ok :: "transport \<Rightarrow> bool" where
  "transport_ok s \<longleftrightarrow> (\<forall>c. connection s = Some c \<longrightarrow> c < connections_made s) \<and>
     (\<forall>q \<in> set (requests s). rq_connection q < connections_made s)"

text \<open>What one request does to the connection and the log.\<close>

definition used_connection :: "transport \<Rightarrow> nat" where
  "used_connection s = (case connection s of Some c \<Rightarrow> c | None \<Rightarrow> connections_made s)"

definition after_request :: "transport \<Rightarrow> bool \<Rightarrow> ustr \<Rightarrow> bytes \<Rightarrow> transport" where
  "after_request s post path body =
     s\<lparr>connection := Some (used_connection s),
       connections_made := (case connection s of Some c \<Rightarrow> connections_made s | None \<Rightarrow> Suc (connections_made s)),
       requests := requests s @ [\<lparr>rq_connection = used_connection s, rq_post = post, rq_path = path, rq_body = body\<rparr>]\<rparr>"

lemma get_connection_eq:
  "get_connection s = (Inr (used_connection s), s\<lparr>connection := Some (used_connection s),
     connections_made := (case connection s of Some c \<Rightarrow> connections_made s | None \<Rightarrow> Suc (connections_made s))\<rparr>)"
  by (cases "connection s") (simp_all add: get_connection_def bindP_def used_connection_def)

definition truncate_body :: "exchange \<Rightarrow> exchange" where
  "truncate_body answer = (case answer of NetworkFailure n \<Rightarrow> NetworkFailure n
     | Response st b \<Rightarrow> Response st (take (MAX_ERROR_BODY_BYTES + 1) b))"

lemma request_eq:
  "bindP get_connection (\<lambda>c. bindP (exchange_on c post path body) k) s =
     k (truncate_body (net s (length (requests s)))) (after_request s post path body)"
  by (simp add: bindP_def get_connection_eq exchange_on_def after_request_def truncate_body_def)

lemma close_steps:
  "bindP close_transport k s = k () (s\<lparr>connection := None\<rparr>)"
  "bindP (whenP b close_transport) k s = k () (if b then s\<lparr>connection := None\<rparr> else s)"
  "whenP b close_transport s = (Inr (), if b then s\<lparr>connection := None\<rparr> else s)"
  by (simp_all add: bindP_def close_transport_def whenP_def)

lemma after_request_ok: "transport_ok s \<Longrightarrow> transport_ok (after_request s post path body)"
  by (auto simp: transport_ok_def after_request_def used_connection_def less_Suc_eq split: option.splits)

lemma closed_ok: "transport_ok s \<Longrightarrow> transport_ok (s\<lparr>connection := None\<rparr>)"
  by (simp add: transport_ok_def)

text \<open>The classification of \<open>send_batch\<close>: \<open>None\<close> is a confirmed delivery.\<close>

definition send_failure :: "exchange \<Rightarrow> (exn_class \<times> bool \<times> bool \<times> int option) option" where
  "send_failure answer =
     (case answer of
        NetworkFailure _ \<Rightarrow> Some (RetryableIlpError, True, True, None)
      | Response st _ \<Rightarrow>
          if 200 \<le> st \<and> st < 300 then None
          else if st \<in> {401, 403} then Some (AuthenticationIlpError, False, False, Some st)
          else if st \<in> {425, 429} then Some (RetryableIlpError, True, False, Some st)
          else if st = 408 \<or> (500 \<le> st \<and> st < 600) then Some (RetryableIlpError, True, True, Some st)
          else Some (PermanentIlpError, False, False, Some st))"

definition keeps_connection :: "exchange \<Rightarrow> bool" where
  "keeps_connection answer =
     (case answer of
        NetworkFailure _ \<Rightarrow> False
      | Response st body \<Rightarrow> length body \<le> MAX_ERROR_BODY_BYTES \<and> st \<noteq> 408 \<and> \<not> (500 \<le> st \<and> st < 600))"

lemma truncated_iff: "length (take (MAX_ERROR_BODY_BYTES + 1) b) > MAX_ERROR_BODY_BYTES \<longleftrightarrow>
    length b > MAX_ERROR_BODY_BYTES"
  by simp

lemma send_batch_eq:
  assumes "payload \<noteq> []" and "last payload = 10"
  shows "\<exists>r. send_batch payload s = (r, (after_request s True WRITE_PATH payload)
        \<lparr>connection := (if keeps_connection (net s (length (requests s))) then Some (used_connection s) else None)\<rparr>) \<and>
     (case send_failure (net s (length (requests s))) of
        None \<Rightarrow> r = Inr ()
      | Some (c, retryable, uncertain, st) \<Rightarrow> \<exists>e. r = Inl e \<and> exn_class e = c \<and> exn_retryable e = retryable \<and>
          exn_uncertain e = uncertain \<and> exn_status e = st)"
proof (cases "net s (length (requests s))")
  case (NetworkFailure n)
  then show ?thesis using assms
    by (simp add: send_batch_def request_eq truncate_body_def send_failure_def keeps_connection_def
        close_steps)
next
  case (Response st b)
  have conn: "(after_request s True WRITE_PATH payload)\<lparr>connection := Some (used_connection s)\<rparr> =
      after_request s True WRITE_PATH payload" by (simp add: after_request_def)
  show ?thesis using assms
    by (simp add: send_batch_def request_eq Response truncate_body_def send_failure_def keeps_connection_def
        close_steps Let_def conn)
qed

lemma exec_once_result:
  assumes "transport_ok s" and "exec_once path s = (r, s')"
  shows "\<exists>c. s' = (after_request s False path [])\<lparr>connection := c\<rparr> \<and>
     (c = None \<or> c = Some (used_connection s)) \<and> (\<forall>e. r = Inl e \<longrightarrow> \<not> exn_uncertain e \<and>
       (exn_retryable e \<longleftrightarrow> exn_class e = RetryableIlpError))"
proof (cases "net s (length (requests s))")
  case (NetworkFailure n)
  then show ?thesis using assms(2)
    by (auto simp: exec_once_def request_eq truncate_body_def close_steps)
next
  case (Response st b)
  have conn: "(after_request s False path [])\<lparr>connection := Some (used_connection s)\<rparr> =
      after_request s False path []" by (simp add: after_request_def)
  have c: "connection (after_request s False path []) = Some (used_connection s)"
    by (simp add: after_request_def)
  show ?thesis using assms(2)
    by (auto simp: exec_once_def request_eq Response truncate_body_def
        close_steps Let_def c split: if_splits option.splits json.splits
        intro: exI [of _ None] exI [of _ "Some (used_connection s)"] conn [symmetric])
qed

lemma exec_attempts_trace:
  assumes "transport_ok s" and "exec_attempts n path s = (r, s')"
  shows "\<exists>new. requests s' = requests s @ new \<and> new \<noteq> [] \<and> length new \<le> Suc n \<and>
    distinct (map rq_connection new) \<and>
    (\<forall>q \<in> set (tl new). rq_connection q \<ge> connections_made s) \<and>
    (\<forall>q \<in> set new. rq_connection q = used_connection s \<or> rq_connection q \<ge> connections_made s) \<and>
    (\<forall>q \<in> set new. rq_path q = path \<and> \<not> rq_post q) \<and>
    (\<forall>e. r = Inl e \<longrightarrow> \<not> exn_uncertain e \<and> (exn_retryable e \<longrightarrow> length new = Suc n)) \<and> transport_ok s'"
  using assms
proof (induction n arbitrary: s)
  case 0
  obtain r1 s1 where o: "exec_once path s = (r1, s1)" by (cases "exec_once path s")
  from exec_once_result [OF 0(1) o] obtain c where s1: "s1 = (after_request s False path [])\<lparr>connection := c\<rparr>"
      and c: "c = None \<or> c = Some (used_connection s)"
      and e: "\<forall>e. r1 = Inl e \<longrightarrow> \<not> exn_uncertain e"
    by blast
  have "r = r1" "s' = s1"
    using 0(2) o by (auto simp: exec_attempts.simps [of 0] catchP_def split: sum.splits if_splits)
  moreover have "transport_ok s1"
    using c after_request_ok [OF 0(1)] unfolding s1 by (auto simp: transport_ok_def after_request_def)
  ultimately show ?case using e
    by (intro exI [of _ "[\<lparr>rq_connection = used_connection s, rq_post = False, rq_path = path, rq_body = []\<rparr>]"])
      (auto simp: s1 after_request_def)
next
  case (Suc n)
  obtain r1 s1 where o: "exec_once path s = (r1, s1)" by (cases "exec_once path s")
  from exec_once_result [OF Suc(2) o] obtain c where s1: "s1 = (after_request s False path [])\<lparr>connection := c\<rparr>"
      and c: "c = None \<or> c = Some (used_connection s)"
      and e: "\<forall>e. r1 = Inl e \<longrightarrow> \<not> exn_uncertain e \<and> (exn_retryable e \<longleftrightarrow> exn_class e = RetryableIlpError)"
    by blast
  let ?q = "\<lparr>rq_connection = used_connection s, rq_post = False, rq_path = path, rq_body = []\<rparr>"
  have ok1: "transport_ok s1"
    using c after_request_ok [OF Suc(2)] unfolding s1 by (auto simp: transport_ok_def after_request_def)
  show ?case
  proof (cases "\<exists>e. r1 = Inl e \<and> isinstance e RetryableIlpError")
    case False
    then have "r = r1" "s' = s1"
      using Suc(3) o by (auto simp: exec_attempts.simps [of "Suc n"] catchP_def split: sum.splits if_splits)
    then show ?thesis using e ok1 False
      by (intro exI [of _ "[?q]"]) (auto simp: s1 after_request_def isinstance_def)
  next
    case True
    let ?s2 = "s1\<lparr>connection := None\<rparr>"
    have rest: "exec_attempts n path ?s2 = (r, s')"
      using Suc(3) o True by (auto simp: exec_attempts.simps [of "Suc n"] catchP_def close_steps)
    have made: "connections_made ?s2 \<ge> connections_made s" "used_connection s < connections_made ?s2"
        "used_connection ?s2 = connections_made ?s2"
      using Suc(2) by (auto simp: s1 after_request_def used_connection_def transport_ok_def split: option.splits)
    from Suc.IH [OF closed_ok [OF ok1] rest] obtain new where new: "requests s' = requests ?s2 @ new" "new \<noteq> []"
        "length new \<le> Suc n" "distinct (map rq_connection new)"
        "\<forall>q \<in> set new. rq_connection q = used_connection ?s2 \<or> rq_connection q \<ge> connections_made ?s2"
        "\<forall>q \<in> set new. rq_path q = path \<and> \<not> rq_post q"
        "\<forall>e. r = Inl e \<longrightarrow> \<not> exn_uncertain e \<and> (exn_retryable e \<longrightarrow> length new = Suc n)" "transport_ok s'"
      by blast
    have ge: "\<forall>q \<in> set new. rq_connection q \<ge> connections_made ?s2" using new(5) made(3) by auto
    then have "used_connection s \<notin> set (map rq_connection new)" using made(2) by fastforce
    then have "distinct (map rq_connection (?q # new))" using new(4) by simp
    moreover have "requests s' = requests s @ (?q # new)" using new(1) by (simp add: s1 after_request_def)
    moreover have "\<forall>q \<in> set new. rq_connection q \<ge> connections_made s" using ge made(1) by fastforce
    ultimately show ?thesis using new
      by (intro exI [of _ "?q # new"] conjI) auto
  qed
qed

text \<open>Percent decoding, the inverse of \<open>url_quote\<close>.\<close>

definition hex_digit_value :: "nat \<Rightarrow> nat option" where
  "hex_digit_value c =
     (if 48 \<le> c \<and> c \<le> 57 then Some (c - 48) else if 65 \<le> c \<and> c \<le> 70 then Some (c - 55) else None)"

fun percent_decode :: "ustr \<Rightarrow> bytes option" where
  "percent_decode [] = Some []"
| "percent_decode (c # cs) =
     (if c = 37 then
        (case cs of
           a # b # rest \<Rightarrow>
             Option.bind (hex_digit_value a) (\<lambda>x. Option.bind (hex_digit_value b) (\<lambda>y.
               map_option (\<lambda>bs. of_nat (16 * x + y) # bs) (percent_decode rest)))
         | _ \<Rightarrow> None)
      else if unreserved c then map_option (\<lambda>bs. of_nat c # bs) (percent_decode cs)
      else None)"

lemma hex_upper_value: "n < 16 \<Longrightarrow> hex_digit_value (hex_upper n) = Some n"
  by (simp add: hex_digit_value_def hex_upper_def)

lemma quote_byte_decode: "percent_decode (quote_byte b @ rest) = map_option (\<lambda>bs. b # bs) (percent_decode rest)"
proof -
  have b: "unat b < 256" using unsigned_less [of b] by simp
  then have digits: "unat b div 16 < 16" "unat b mod 16 < 16" by auto
  have inverse: "word_of_nat (unat b) = b" by simp
  have "word_of_nat (16 * (unat b div 16) + unat b mod 16) = b" by (simp only: mult_div_mod_eq inverse)
  then have esc: "percent_decode (37 # hex_upper (unat b div 16) # hex_upper (unat b mod 16) # rest) =
      map_option (\<lambda>bs. b # bs) (percent_decode rest)"
    using digits by (simp add: hex_upper_value del: of_nat_add of_nat_mult)
  have "unreserved c \<Longrightarrow> c \<noteq> 37" for c by (auto simp: unreserved_def)
  then show ?thesis using esc inverse by (simp add: quote_byte_def)
qed

lemma quote_bytes_decode: "percent_decode (concat (map quote_byte bs)) = Some bs"
  by (induction bs) (simp_all add: quote_byte_decode)

lemma quote_byte_chars: "c \<in> set (quote_byte b) \<Longrightarrow> c = 37 \<or> unreserved c"
proof -
  assume c: "c \<in> set (quote_byte b)"
  have "unat b < 256" using unsigned_less [of b] by simp
  then have "unat b div 16 < 16" "unat b mod 16 < 16" by auto
  then have "unreserved (hex_upper (unat b div 16))" "unreserved (hex_upper (unat b mod 16))"
    by (auto simp: hex_upper_def unreserved_def)
  then show ?thesis using c by (auto simp: quote_byte_def split: if_splits)
qed

subsection \<open>Properties\<close>

text \<open>A transport no one has used, for the witnesses: its network first drops a connection, then
  answers 204.\<close>

definition fresh_transport :: transport where
  "fresh_transport = \<lparr>connection = None, connections_made = 0, requests = [],
     net = (\<lambda>n. if n = 0 then NetworkFailure [] else Response 204 []), headers = []\<rparr>"

lemma fresh_transport_ok: "transport_ok fresh_transport"
  by (simp add: transport_ok_def fresh_transport_def)

text \<open>
  C5: Every outcome of a delivery is classified, and never optimistically. One \<open>send_batch\<close> of a
  non-empty payload that ends with a newline makes one POST of exactly that payload, and returns
  iff QuestDB answered 2xx; a network failure, a 408 and every 5xx is retryable and uncertain
  (QuestDB may have committed); 425 and 429 are retryable and certain; 401 and 403 are rejected
  credentials; everything else is permanent. The connection survives exactly the exchanges that
  left it usable.
\<close>

theorem send_batch_classified:
  assumes "payload \<noteq> []" and "last payload = 10" and "send_batch payload s = (r, s')"
  shows "(case send_failure (net s (length (requests s))) of
      None \<Rightarrow> r = Inr ()
    | Some (c, retryable, uncertain, st) \<Rightarrow> \<exists>e. r = Inl e \<and> exn_class e = c \<and> exn_retryable e = retryable \<and>
        exn_uncertain e = uncertain \<and> exn_status e = st) \<and>
    requests s' = requests s @ [\<lparr>rq_connection = used_connection s, rq_post = True, rq_path = WRITE_PATH,
      rq_body = payload\<rparr>] \<and>
    connection s' = (if keeps_connection (net s (length (requests s))) then Some (used_connection s) else None)"
  using send_batch_eq [OF assms(1,2), of s] assms(3) by (auto simp: after_request_def)

theorem send_batch_classified_witness:
  "\<exists>e s'. send_batch [10] fresh_transport = (Inl e, s') \<and> exn_class e = RetryableIlpError \<and> exn_uncertain e \<and>
     connection s' = None"
  using send_batch_classified [of "[10]" fresh_transport "fst (send_batch [10] fresh_transport)"
      "snd (send_batch [10] fresh_transport)"]
  by (auto simp: send_failure_def fresh_transport_def keeps_connection_def prod_eq_iff
      intro!: exI [of _ "snd (send_batch [10] fresh_transport)"])

text \<open>
  \<open>exec_query\<close> makes at most one request more than its \<open>retries\<close>, each on a connection of its
  own (a repetition never reuses the one that failed), gives up early only on an error that is not
  retryable, and never reports an uncertain delivery.
\<close>

theorem exec_query_retries_fresh:
  assumes "transport_ok s" and "exec_query query retries s = (r, s')"
    and "query \<noteq> []" and "0 \<le> retries" and "encodable query"
  shows "\<exists>new. requests s' = requests s @ new \<and> new \<noteq> [] \<and> length new \<le> Suc (nat retries) \<and>
    distinct (map rq_connection new) \<and> (\<forall>q \<in> set new. \<not> rq_post q) \<and>
    (\<forall>e. r = Inl e \<longrightarrow> \<not> exn_uncertain e \<and> (exn_retryable e \<longrightarrow> length new = Suc (nat retries)))"
proof -
  obtain q where "url_quote query = Inr q"
    using assms(5) by (auto simp: url_quote_def utf8_encode_def)
  then have "exec_attempts (nat retries) (EXEC_PATH @ q) s = (r, s')"
    using assms(2-4) by (simp add: exec_query_def)
  from exec_attempts_trace [OF assms(1) this] show ?thesis by blast
qed

theorem exec_query_retries_fresh_witness:
  "\<exists>new. requests (snd (exec_query [83] 1 fresh_transport)) = new \<and> length new \<le> 2 \<and>
     distinct (map rq_connection new)"
  using exec_query_retries_fresh [OF fresh_transport_ok, of "[83]" 1 "fst (exec_query [83] 1 fresh_transport)"
      "snd (exec_query [83] 1 fresh_transport)"]
  by (auto simp: is_surrogate_def encodable_def fresh_transport_def)

text \<open>
  A query cannot leave its URL parameter: the quoted text consists of unreserved characters
  and percent escapes only, and percent decoding followed by UTF-8 decoding gives back the query.
\<close>

theorem quoted_query_decodes:
  assumes "url_quote query = Inr quoted"
  shows "Option.bind (percent_decode quoted) utf8_decode = Some query \<and>
    (\<forall>c \<in> set quoted. c = 37 \<or> unreserved c)"
proof -
  obtain bs where bs: "utf8_encode query = Inr bs" and quoted: "quoted = concat (map quote_byte bs)"
    using assms by (auto simp: url_quote_def bindR_eq_Inr)
  have "utf8_decode bs = Some query" using bs utf8_encode_decode by simp
  then show ?thesis using quote_byte_chars by (auto simp: quoted quote_bytes_decode)
qed

theorem quoted_query_decodes_witness:
  "\<exists>quoted. url_quote (lit ''a&b=c d'') = Inr quoted \<and> 38 \<notin> set quoted \<and>
     Option.bind (percent_decode quoted) utf8_decode = Some (lit ''a&b=c d'')"
proof -
  have "encodable (lit ''a&b=c d'')" by (simp add: lit_def encodable_def is_surrogate_def)
  then obtain quoted where t: "url_quote (lit ''a&b=c d'') = Inr quoted"
    by (auto simp: url_quote_def utf8_encode_def)
  from quoted_query_decodes [OF t] show ?thesis using t by (auto simp: unreserved_def)
qed

end
