(* ===== verification/Schema.thy ===== *)
theory Schema
  imports Transport
begin

section \<open>The owned table schema (schema.py)\<close>

text \<open>
  \<open>IlpSchemaManager\<close>: the DDL of the owned table, the strict validation of \<open>SHOW COLUMNS\<close>, the retention
  and its fallback, as programs over the transport; the lemmas give the exact meaning of a passed
  validation and the certainty of its errors.
\<close>

definition EXPECTED_COLUMNS :: "(ustr \<times> ustr) list" where
  "EXPECTED_COLUMNS =
     [(lit ''last_updated'', lit ''TIMESTAMP''), (lit ''entity_id'', lit ''SYMBOL''),
      (lit ''domain'', lit ''SYMBOL''), (lit ''state'', lit ''VARCHAR''),
      (lit ''attributes'', lit ''VARCHAR''), (lit ''event_id'', lit ''VARCHAR''),
      (lit ''context_id'', lit ''VARCHAR''), (lit ''ingested_at'', lit ''TIMESTAMP''),
      (lit ''last_changed'', lit ''TIMESTAMP'')]"

definition DESIGNATED_COLUMN :: ustr where "DESIGNATED_COLUMN = lit ''last_updated''"

definition UPSERT_KEY_COLUMNS :: "ustr list" where
  "UPSERT_KEY_COLUMNS = [lit ''last_updated'', lit ''entity_id'']"

definition TABLE_MISSING_MARKER :: ustr where "TABLE_MISSING_MARKER = lit ''does not exist''"

definition double_char :: "nat \<Rightarrow> ustr \<Rightarrow> ustr" where
  "double_char q v = concat (map (\<lambda>c. if c = q then [q, q] else [c]) v)"

definition quote_identifier :: "ustr \<Rightarrow> ustr" where
  "quote_identifier v = 34 # double_char 34 v @ [34]"

fun join_with :: "ustr \<Rightarrow> ustr list \<Rightarrow> ustr" where
  "join_with sep [] = []"
| "join_with sep [x] = x"
| "join_with sep (x # y # ys) = x @ sep @ join_with sep (y # ys)"

definition create_table_ddl :: "ustr \<Rightarrow> ustr" where
  "create_table_ddl table =
     lit ''CREATE TABLE IF NOT EXISTS '' @ quote_identifier table @ lit '' ('' @
     join_with (lit '', '') (map (\<lambda>(name, typ). name @ 32 # typ) EXPECTED_COLUMNS) @ lit '') '' @
     lit ''TIMESTAMP('' @ DESIGNATED_COLUMN @ lit '') PARTITION BY DAY WAL '' @
     lit ''DEDUP UPSERT KEYS('' @ join_with (lit '', '') UPSERT_KEY_COLUMNS @ lit '')''"

subsection \<open>Validation of SHOW COLUMNS\<close>

text \<open>Python's truth value of a JSON value.\<close>

fun truthy :: "json \<Rightarrow> bool" where
  "truthy JNull = False"
| "truthy (JBool b) = b"
| "truthy (JInt i) = (i \<noteq> 0)"
| "truthy (JFloat q) = (q \<noteq> 0)"
| "truthy (JNonFinite s) = True"
| "truthy (JStr s) = (s \<noteq> [])"
| "truthy (JList xs) = (xs \<noteq> [])"
| "truthy (JObj kvs) = (kvs \<noteq> [])"

type_synonym column = "ustr \<times> bool \<times> bool"

fun column_row :: "json \<Rightarrow> (ustr \<times> column) option" where
  "column_row (JList row) =
     (if length row \<le> 8 then None
      else (case (row ! 0, row ! 1) of
          (JStr name, JStr typ) \<Rightarrow> Some (name, typ, truthy (row ! 7), truthy (row ! 8))
        | _ \<Rightarrow> None))"
| "column_row _ = None"

definition schema_exn :: "exn_class \<Rightarrow> ustr \<Rightarrow> exn" where
  "schema_exn c m = mk_exn c m"

fun read_columns :: "ustr \<Rightarrow> (ustr \<times> column) list \<Rightarrow> json list \<Rightarrow> (ustr \<times> column) list res" where
  "read_columns table actual [] = Inr actual"
| "read_columns table actual (row # rows) =
     (case column_row row of
        None \<Rightarrow> Inl (mk_exn SchemaError (lit ''malformed SHOW COLUMNS row for '' @ table))
      | Some (name, c) \<Rightarrow> read_columns table (AList.update name c actual) rows)"

datatype schema_problem =
    MissingColumns "ustr list"
  | UnexpectedColumns "ustr list"
  | WrongTypes "(ustr \<times> ustr \<times> ustr) list"
  | WrongDesignated "ustr list"
  | WrongUpsertKeys "ustr list"

definition names_with :: "(column \<Rightarrow> bool) \<Rightarrow> (ustr \<times> column) list \<Rightarrow> ustr list" where
  "names_with P actual = sort (map fst (filter (\<lambda>(name, c). P c) actual))"

definition schema_problems :: "(ustr \<times> column) list \<Rightarrow> schema_problem list" where
  "schema_problems actual =
     (let missing = sort (filter (\<lambda>n. n \<notin> set (map fst actual)) (map fst EXPECTED_COLUMNS));
          extra = sort (filter (\<lambda>n. n \<notin> set (map fst EXPECTED_COLUMNS)) (map fst actual));
          wrong_types = concat (map (\<lambda>(name, typ). case map_of actual name of
              None \<Rightarrow> [] | Some c \<Rightarrow> if fst c \<noteq> typ then [(name, fst c, typ)] else []) EXPECTED_COLUMNS);
          designated = names_with (\<lambda>(_, d, _). d) actual;
          upsert_keys = names_with (\<lambda>(_, _, u). u) actual
      in (if missing \<noteq> [] then [MissingColumns missing] else []) @
         (if extra \<noteq> [] then [UnexpectedColumns extra] else []) @
         (if wrong_types \<noteq> [] then [WrongTypes wrong_types] else []) @
         (if designated \<noteq> [DESIGNATED_COLUMN] then [WrongDesignated designated] else []) @
         (if upsert_keys \<noteq> sort UPSERT_KEY_COLUMNS then [WrongUpsertKeys upsert_keys] else []))"

text \<open>Python prints a list of plain names as \<open>['a', 'b']\<close>, an empty one is replaced by \<open>none\<close>.\<close>

definition name_list :: "ustr list \<Rightarrow> ustr" where
  "name_list ns = (if ns = [] then lit ''none''
     else 91 # join_with (lit '', '') (map (\<lambda>n. 39 # n @ [39]) ns) @ [93])"

fun problem_text :: "schema_problem \<Rightarrow> ustr" where
  "problem_text (MissingColumns ns) = lit ''missing columns: '' @ join_with (lit '', '') ns"
| "problem_text (UnexpectedColumns ns) = lit ''unexpected columns: '' @ join_with (lit '', '') ns"
| "problem_text (WrongTypes ts) = lit ''wrong column types: '' @ join_with (lit '', '')
     (map (\<lambda>(name, act, expected). name @ lit '' is '' @ act @ lit '', expected '' @ expected) ts)"
| "problem_text (WrongDesignated ns) = lit ''designated timestamp is '' @ name_list ns @
     lit ''; expected ['' @ DESIGNATED_COLUMN @ lit '']''"
| "problem_text (WrongUpsertKeys ns) = lit ''dedup upsert keys are '' @ name_list ns @
     lit ''; expected '' @ name_list (sort UPSERT_KEY_COLUMNS)"

definition validate_table_columns :: "json \<Rightarrow> ustr \<Rightarrow> unit res" where
  "validate_table_columns dataset table =
     (case dataset of
        JList rows \<Rightarrow>
          bindR (read_columns table [] rows) (\<lambda>actual.
            if schema_problems actual \<noteq> [] then
              Inl (mk_exn SchemaMismatchError (lit ''table '' @ table @
                lit '' does not match the owned schema: '' @
                join_with (lit ''; '') (map problem_text (schema_problems actual))))
            else Inr ())
      | _ \<Rightarrow> Inl (mk_exn SchemaError (lit ''unexpected SHOW COLUMNS response for '' @ table)))"

subsection \<open>IlpSchemaManager\<close>

record schema_manager =
  sm_transport :: transport
  retention_days :: int
  ttl_rejected :: bool

definition on_transport :: "(transport, 'a) prog \<Rightarrow> (schema_manager, 'a) prog" where
  "on_transport m s = (case m (sm_transport s) of (r, t) \<Rightarrow> (r, s\<lparr>sm_transport := t\<rparr>))"

definition contains :: "ustr \<Rightarrow> ustr \<Rightarrow> bool" where
  "contains needle hay \<longleftrightarrow>
     list_ex (\<lambda>i. take (length needle) (drop i hay) = needle) [0..<Suc (length hay)]"

definition doc_get :: "(ustr \<times> json) list \<Rightarrow> string \<Rightarrow> json" where
  "doc_get doc k = (case map_of doc (lit k) of None \<Rightarrow> JNull | Some v \<Rightarrow> v)"

text \<open>\<open>int(value)\<close> of a number.\<close>

fun json_int :: "json \<Rightarrow> int res option" where
  "json_int (JInt i) = Some (Inr i)"
| "json_int (JBool b) = Some (Inr (if b then 1 else 0))"
| "json_int (JFloat q) = Some (Inr (if q < 0 then - \<lfloor>- q\<rfloor> else \<lfloor>q\<rfloor>))"
| "json_int (JNonFinite s) =
     Some (Inl (mk_exn (if s = lit ''nan'' then ValueError else OverflowError)
       (lit ''cannot convert float to integer'')))"
| "json_int _ = None"

definition ttl_query :: "ustr \<Rightarrow> ustr" where
  "ttl_query table =
     lit ''SELECT table_name, ttlValue, ttlUnit FROM tables() '' @
     lit ''WHERE table_name = '' @ 39 # double_char 39 table @ [39]"

definition ttl_of_document :: "ustr \<Rightarrow> (ustr \<times> json) list \<Rightarrow> int option res" where
  "ttl_of_document table doc =
     (let malformed = Inl (mk_exn SchemaError (lit ''malformed tables() response for '' @ table)) in
      case doc_get doc ''dataset'' of
        JList (JList row # _) \<Rightarrow>
          (case (if length row > 1 then json_int (row ! 1) else None) of
             None \<Rightarrow> malformed
           | Some (Inl e) \<Rightarrow> Inl e
           | Some (Inr ttl) \<Rightarrow> Inr (if ttl > 0 then Some ttl else None))
      | _ \<Rightarrow> malformed)"

definition liftS :: "'a res \<Rightarrow> (schema_manager, 'a) prog" where
  "liftS r = (\<lambda>s. (r, s))"

definition read_ttl_days :: "ustr \<Rightarrow> (schema_manager, int option) prog" where
  "read_ttl_days table =
     bindP (on_transport (exec_query (ttl_query table) 0)) (\<lambda>doc. liftS (ttl_of_document table doc))"

definition set_ttl_query :: "ustr \<Rightarrow> int \<Rightarrow> ustr" where
  "set_ttl_query table days =
     lit ''ALTER TABLE '' @ quote_identifier table @ lit '' SET TTL '' @ int_str days @ lit '' DAYS''"

definition apply_retention :: "ustr \<Rightarrow> (schema_manager, unit) prog" where
  "apply_retention table =
     bindP (getP ttl_rejected) (\<lambda>rejected.
       if rejected then returnP ()
       else
         bindP (read_ttl_days table) (\<lambda>current.
         bindP (getP retention_days) (\<lambda>desired.
           if current = (if desired = 0 then None else Some desired) then returnP ()
           else if desired = 0 then
             bindP (on_transport (exec_query (set_ttl_query table 0) 0)) (\<lambda>_. returnP ())
           else
             catchP (bindP (on_transport (exec_query (set_ttl_query table desired) 0)) (\<lambda>_. returnP ()))
               (\<lambda>e. if isinstance e PermanentIlpError
                    then modifyP (\<lambda>s. s\<lparr>ttl_rejected := True\<rparr>) else raiseP e))))"

definition show_columns_query :: "ustr \<Rightarrow> ustr" where
  "show_columns_query table = lit ''SHOW COLUMNS FROM '' @ quote_identifier table"

definition ensure_table :: "ustr \<Rightarrow> (schema_manager, unit) prog" where
  "ensure_table table =
     (if table = [] \<or> 0 \<in> set table then
        raiseP (mk_exn ValueError (lit ''table must be a non-empty string without NUL''))
      else
        bindP (on_transport (exec_query (create_table_ddl table) 0)) (\<lambda>_.
        bindP (catchP (on_transport (exec_query (show_columns_query table) 0)) (\<lambda>e.
          if isinstance e PermanentIlpError then
            (if contains TABLE_MISSING_MARKER (exn_msg e) then
               raiseP (ilp_exn RetryableIlpError (lit ''table disappeared during schema check'') True False None)
             else raiseP e)
          else raiseP e)) (\<lambda>doc.
        bindP (liftS (validate_table_columns (doc_get doc ''dataset'') table)) (\<lambda>_.
        apply_retention table))))"

definition close_schema :: "(schema_manager, unit) prog" where
  "close_schema = on_transport close_transport"

subsection \<open>Lemmas\<close>

text \<open>SQL's reading of a quoted name or string: up to the closing quote, a doubled one being one.\<close>

fun read_quoted :: "nat \<Rightarrow> ustr \<Rightarrow> (ustr \<times> ustr) option" where
  "read_quoted q [] = None"
| "read_quoted q [c] = (if c = q then Some ([], []) else None)"
| "read_quoted q (c # d # cs) =
     (if c = q then
        (if d = q then map_option (\<lambda>(v, r). (q # v, r)) (read_quoted q cs) else Some ([], d # cs))
      else map_option (\<lambda>(v, r). (c # v, r)) (read_quoted q (d # cs)))"

lemma read_quoted_double:
  "rest = [] \<or> hd rest \<noteq> q \<Longrightarrow> read_quoted q (double_char q v @ q # rest) = Some (v, rest)"
proof (induction v)
  case Nil
  then show ?case by (cases rest) (simp_all add: double_char_def)
next
  case (Cons c v)
  show ?case
  proof (cases "c = q")
    case True
    then show ?thesis using Cons by (simp add: double_char_def)
  next
    case False
    obtain d ds where d: "double_char q v @ q # rest = d # ds" by (cases "double_char q v @ q # rest") auto
    have "double_char q (c # v) @ q # rest = c # d # ds" using False d by (simp add: double_char_def)
    then show ?thesis using Cons d False by simp
  qed
qed

definition owned_columns :: "ustr \<Rightarrow> column option" where
  "owned_columns = map_of (map (\<lambda>(name, typ).
     (name, typ, name = DESIGNATED_COLUMN, name \<in> set UPSERT_KEY_COLUMNS)) EXPECTED_COLUMNS)"

text \<open>The columns a dataset describes: of two rows with one name the last counts.\<close>

fun described :: "json list \<Rightarrow> (ustr \<times> column) list option" where
  "described [] = Some []"
| "described (row # rows) = Option.bind (column_row row) (\<lambda>c. map_option (\<lambda>cs. c # cs) (described rows))"

lemma read_columns_described:
  "read_columns table acc rows =
     (case described rows of
        None \<Rightarrow> Inl (mk_exn SchemaError (lit ''malformed SHOW COLUMNS row for '' @ table))
      | Some cs \<Rightarrow> Inr (foldl (\<lambda>d (n, c). AList.update n c d) acc cs))"
  by (induction rows arbitrary: acc) (auto split: option.splits)

lemma fold_update_distinct:
  "distinct (map fst acc) \<Longrightarrow> distinct (map fst (foldl (\<lambda>d (n, c). AList.update n c d) acc cs))"
  by (induction cs arbitrary: acc) (auto simp: distinct_update)

lemma fold_update_map_of:
  "map_of (foldl (\<lambda>d (n, c). AList.update n c d) acc cs) = map_of acc ++ map_of (rev cs)"
  by (induction cs arbitrary: acc) (auto simp: update_conv' map_add_def fun_eq_iff split: option.splits)

lemma map_of_map_names: "map_of (map (\<lambda>(n, t). (n, g n t)) xs) n = map_option (g n) (map_of xs n)"
  by (induction xs) auto

lemma owned_columns_eq:
  "owned_columns n = map_option (\<lambda>typ. (typ, n = DESIGNATED_COLUMN, n \<in> set UPSERT_KEY_COLUMNS)) (map_of EXPECTED_COLUMNS n)"
  unfolding owned_columns_def by (rule map_of_map_names)

lemma expected_distinct: "distinct (map fst EXPECTED_COLUMNS)"
  by (simp add: EXPECTED_COLUMNS_def lit_def)

lemma keys_expected: "DESIGNATED_COLUMN \<in> set UPSERT_KEY_COLUMNS" "set UPSERT_KEY_COLUMNS \<subseteq> set (map fst EXPECTED_COLUMNS)"
  "distinct UPSERT_KEY_COLUMNS"
  by (simp_all add: EXPECTED_COLUMNS_def UPSERT_KEY_COLUMNS_def DESIGNATED_COLUMN_def lit_def)

lemma sort_eq_iff_set: "distinct xs \<Longrightarrow> distinct ys \<Longrightarrow> sort xs = sort ys \<longleftrightarrow> set xs = set ys"
  by (metis distinct_sort set_sort sorted_distinct_set_unique sorted_sort)

lemma names_with_set:
  assumes "distinct (map fst actual)"
  shows "set (names_with P actual) = {n. \<exists>c. map_of actual n = Some c \<and> P c}"
  using assms by (force simp: names_with_def map_of_eq_Some_iff)

lemma names_with_eq:
  assumes "distinct (map fst actual)" and "distinct ys"
  shows "names_with P actual = sort ys \<longleftrightarrow> (\<forall>n. n \<in> set ys \<longleftrightarrow> (\<exists>c. map_of actual n = Some c \<and> P c))"
proof -
  have "distinct (map fst (filter (\<lambda>(name, c). P c) actual))"
    using assms(1) by (simp add: distinct_map_filter)
  then show ?thesis
    using sort_eq_iff_set [OF _ assms(2)] names_with_set [OF assms(1), of P]
    by (auto simp: names_with_def set_eq_iff)
qed

lemma sort_Nil_iff: "sort (xs :: ustr list) = [] \<longleftrightarrow> xs = []"
  by (metis length_0_conv length_sort)

lemma schema_problems_none:
  assumes "distinct (map fst actual)"
  shows "schema_problems actual = [] \<longleftrightarrow> map_of actual = owned_columns"
proof -
  let ?A = "map_of actual" and ?E = "map_of EXPECTED_COLUMNS"
  have domA: "n \<in> set (map fst actual) \<longleftrightarrow> ?A n \<noteq> None" for n
    by (auto simp: map_of_eq_None_iff)
  have domE: "n \<in> set (map fst EXPECTED_COLUMNS) \<longleftrightarrow> ?E n \<noteq> None" for n
    by (auto simp: map_of_eq_None_iff)
  have missing: "sort (filter (\<lambda>n. n \<notin> set (map fst actual)) (map fst EXPECTED_COLUMNS)) = [] \<longleftrightarrow>
      (\<forall>n. ?E n \<noteq> None \<longrightarrow> ?A n \<noteq> None)"
  proof -
    have "sort (filter (\<lambda>n. n \<notin> set (map fst actual)) (map fst EXPECTED_COLUMNS)) = [] \<longleftrightarrow>
        (\<forall>n. n \<in> set (map fst EXPECTED_COLUMNS) \<longrightarrow> n \<in> set (map fst actual))"
      unfolding sort_Nil_iff filter_empty_conv by blast
    then show ?thesis unfolding domA domE .
  qed
  have extra: "sort (filter (\<lambda>n. n \<notin> set (map fst EXPECTED_COLUMNS)) (map fst actual)) = [] \<longleftrightarrow>
      (\<forall>n. ?A n \<noteq> None \<longrightarrow> ?E n \<noteq> None)"
  proof -
    have "sort (filter (\<lambda>n. n \<notin> set (map fst EXPECTED_COLUMNS)) (map fst actual)) = [] \<longleftrightarrow>
        (\<forall>n. n \<in> set (map fst actual) \<longrightarrow> n \<in> set (map fst EXPECTED_COLUMNS))"
      unfolding sort_Nil_iff filter_empty_conv by blast
    then show ?thesis unfolding domA domE .
  qed
  have types: "concat (map (\<lambda>(name, typ). case ?A name of
              None \<Rightarrow> [] | Some c \<Rightarrow> if fst c \<noteq> typ then [(name, fst c, typ)] else []) EXPECTED_COLUMNS) = [] \<longleftrightarrow>
      (\<forall>n typ c. ?E n = Some typ \<longrightarrow> ?A n = Some c \<longrightarrow> fst c = typ)"
    by (auto simp: map_of_eq_Some_iff [OF expected_distinct] split: option.splits if_splits)
  have desig: "names_with (\<lambda>(_, d, _). d) actual = [DESIGNATED_COLUMN] \<longleftrightarrow>
      (\<forall>n. n = DESIGNATED_COLUMN \<longleftrightarrow> (\<exists>c. ?A n = Some c \<and> fst (snd c)))"
    using names_with_eq [OF assms, of "[DESIGNATED_COLUMN]" "\<lambda>(_, d, _). d"] by (simp add: case_prod_unfold)
  have keys: "names_with (\<lambda>(_, _, u). u) actual = sort UPSERT_KEY_COLUMNS \<longleftrightarrow>
      (\<forall>n. n \<in> set UPSERT_KEY_COLUMNS \<longleftrightarrow> (\<exists>c. ?A n = Some c \<and> snd (snd c)))"
    using names_with_eq [OF assms keys_expected(3), of "\<lambda>(_, _, u). u"] by (simp add: case_prod_unfold)
  have all: "schema_problems actual = [] \<longleftrightarrow>
      (\<forall>n. ?E n \<noteq> None \<longrightarrow> ?A n \<noteq> None) \<and> (\<forall>n. ?A n \<noteq> None \<longrightarrow> ?E n \<noteq> None) \<and>
      (\<forall>n typ c. ?E n = Some typ \<longrightarrow> ?A n = Some c \<longrightarrow> fst c = typ) \<and>
      (\<forall>n. n = DESIGNATED_COLUMN \<longleftrightarrow> (\<exists>c. ?A n = Some c \<and> fst (snd c))) \<and>
      (\<forall>n. n \<in> set UPSERT_KEY_COLUMNS \<longleftrightarrow> (\<exists>c. ?A n = Some c \<and> snd (snd c)))"
  proof -
    have guard: "(if P then [x] else []) = [] \<longleftrightarrow> \<not> P" for P and x :: schema_problem by simp
    show ?thesis
      unfolding schema_problems_def Let_def append_is_Nil_conv guard not_not missing extra types desig keys ..
  qed
  show ?thesis
  proof
    assume p: "schema_problems actual = []"
    note q = p [unfolded all]
    have m: "?E n \<noteq> None \<Longrightarrow> ?A n \<noteq> None" "?A n \<noteq> None \<Longrightarrow> ?E n \<noteq> None" for n
      using conjunct1 [OF q] conjunct1 [OF conjunct2 [OF q]] by blast+
    note q2 = conjunct2 [OF conjunct2 [OF q]]
    have t: "?E n = Some ty \<Longrightarrow> ?A n = Some c \<Longrightarrow> fst c = ty" for n c and ty :: ustr
      using conjunct1 [OF q2] by blast
    have f: "?A n = Some c \<Longrightarrow> fst (snd c) = (n = DESIGNATED_COLUMN) \<and> snd (snd c) = (n \<in> set UPSERT_KEY_COLUMNS)"
      for n c
      using conjunct2 [OF q2] by (cases c) auto
    have "?A n = owned_columns n" for n
    proof (cases "?E n")
      case None
      then have "?A n = None" using m(2) by blast
      then show ?thesis using None by (simp add: owned_columns_eq)
    next
      case (Some ty)
      then obtain c where c: "?A n = Some c" using m(1) [of n] by auto
      then show ?thesis using Some t [OF Some c] f [OF c] by (cases c) (simp add: owned_columns_eq)
    qed
    then show "?A = owned_columns" by blast
  next
    assume a: "?A = owned_columns"
    have present: "?E DESIGNATED_COLUMN \<noteq> None" "n \<in> set UPSERT_KEY_COLUMNS \<Longrightarrow> ?E n \<noteq> None" for n
      using keys_expected domE by blast+
    show "schema_problems actual = []"
      unfolding all a owned_columns_eq
    proof (intro conjI allI)
      show "(n = DESIGNATED_COLUMN) = (\<exists>c. map_option (\<lambda>typ. (typ, n = DESIGNATED_COLUMN, n \<in> set UPSERT_KEY_COLUMNS))
          (?E n) = Some c \<and> fst (snd c))" for n
        using present(1) by (cases "?E n") auto
      show "(n \<in> set UPSERT_KEY_COLUMNS) = (\<exists>c. map_option (\<lambda>typ. (typ, n = DESIGNATED_COLUMN, n \<in> set UPSERT_KEY_COLUMNS))
          (?E n) = Some c \<and> snd (snd c))" for n
        using present(2) [of n] by (cases "?E n") auto
    qed auto
  qed
qed

lemma validation_iff:
  "validate_table_columns dataset table = Inr () \<longleftrightarrow>
     (\<exists>rows cs. dataset = JList rows \<and> described rows = Some cs \<and> map_of (rev cs) = owned_columns)"
proof (cases dataset)
  case (JList rows)
  show ?thesis
  proof (cases "described rows")
    case None
    then show ?thesis using JList
      by (auto simp: validate_table_columns_def read_columns_described)
  next
    case (Some cs)
    let ?actual = "foldl (\<lambda>d (n, c). AList.update n c d) [] cs"
    have "map_of ?actual = map_of (rev cs)" by (simp add: fold_update_map_of)
    moreover have "distinct (map fst ?actual)" by (simp add: fold_update_distinct)
    ultimately show ?thesis
      using JList Some schema_problems_none [of ?actual]
      by (auto simp: validate_table_columns_def read_columns_described)
  qed
qed (simp_all add: validate_table_columns_def)

text \<open>No operation of the schema manager reports an uncertain delivery.\<close>

definition certain :: "('s, 'a) prog \<Rightarrow> bool" where
  "certain m \<longleftrightarrow> (\<forall>s e s'. m s = (Inl e, s') \<longrightarrow> \<not> exn_uncertain e)"

lemma certain_bind: "certain m \<Longrightarrow> (\<And>x. certain (k x)) \<Longrightarrow> certain (bindP m k)"
  unfolding certain_def bindP_def by (auto split: prod.splits sum.splits)

lemma certain_catch:
  assumes "certain m" and "\<And>e. \<not> exn_uncertain e \<Longrightarrow> certain (h e)"
  shows "certain (catchP m h)"
  using assms unfolding certain_def catchP_def by (auto split: prod.splits sum.splits) blast

lemma certain_basic:
  "certain (returnP x)" "certain (getP f)" "certain (modifyP g)" "\<not> exn_uncertain e \<Longrightarrow> certain (raiseP e)"
  by (auto simp: certain_def)

lemma certain_if: "certain m \<Longrightarrow> certain m' \<Longrightarrow> certain (if b then m else m')"
  by simp

lemma certain_liftS: "(\<And>e. r = Inl e \<Longrightarrow> \<not> exn_uncertain e) \<Longrightarrow> certain (liftS r)"
  by (auto simp: certain_def liftS_def)

lemma certain_on_transport: "certain m \<Longrightarrow> certain (on_transport m)"
  unfolding certain_def on_transport_def by (auto split: prod.splits)

lemma certain_exec_once: "certain (exec_once path)"
  unfolding certain_def
proof (intro allI impI)
  fix s e s' assume m: "exec_once path s = (Inl e, s')"
  show "\<not> exn_uncertain e"
    using m by (cases "net s (length (requests s))")
      (auto simp: exec_once_def request_eq truncate_body_def close_steps Let_def
        split: if_splits option.splits json.splits)
qed

lemma certain_exec_attempts: "certain (exec_attempts n path)"
proof (induction n)
  case 0
  show ?case unfolding exec_attempts.simps [of 0]
    by (rule certain_catch [OF certain_exec_once]) (auto intro: certain_basic)
next
  case (Suc n)
  have "certain close_transport" by (simp add: close_transport_def certain_basic)
  then show ?case unfolding exec_attempts.simps [of "Suc n"]
    by (intro certain_catch [OF certain_exec_once]) (auto intro!: certain_basic certain_bind Suc)
qed

lemma certain_exec_query: "certain (exec_query q n)"
  unfolding exec_query_def
  by (auto simp: url_quote_def utf8_encode_def bindR_eq_Inl split: sum.splits if_splits
      intro!: certain_basic certain_exec_attempts)

lemma ttl_of_document_certain: "ttl_of_document table doc = Inl e \<Longrightarrow> \<not> exn_uncertain e"
proof -
  have "json_int v = Some (Inl e) \<Longrightarrow> \<not> exn_uncertain e" for v by (cases v) auto
  then show "ttl_of_document table doc = Inl e \<Longrightarrow> \<not> exn_uncertain e"
    by (auto simp: ttl_of_document_def Let_def split: json.splits list.splits option.splits sum.splits if_splits)
qed

lemma validate_certain: "validate_table_columns dataset table = Inl e \<Longrightarrow> \<not> exn_uncertain e"
  by (auto simp: validate_table_columns_def bindR_eq_Inl read_columns_described
      split: json.splits option.splits if_splits)

lemma certain_apply_retention: "certain (apply_retention table)"
  unfolding apply_retention_def read_ttl_days_def
  by (intro certain_bind certain_if certain_catch certain_basic certain_on_transport certain_exec_query
      certain_liftS [OF ttl_of_document_certain]; assumption)

lemma certain_ensure: "certain (ensure_table table)"
  unfolding ensure_table_def
  by (intro certain_bind certain_if certain_catch certain_basic certain_on_transport certain_exec_query
      certain_liftS [OF validate_certain] certain_apply_retention; simp)

lemma ensure_returns:
  assumes "ensure_table table s = (Inr (), s')"
  shows "\<exists>d1 t1 doc t2 rows cs.
    exec_query (create_table_ddl table) 0 (sm_transport s) = (Inr d1, t1) \<and>
    exec_query (show_columns_query table) 0 t1 = (Inr doc, t2) \<and>
    doc_get doc ''dataset'' = JList rows \<and> described rows = Some cs \<and> map_of (rev cs) = owned_columns"
proof -
  from assms obtain d1 s1 where c1: "on_transport (exec_query (create_table_ddl table) 0) s = (Inr d1, s1)"
    by (auto simp: ensure_table_def bindP_def split: if_splits prod.splits sum.splits)
  then obtain t1 where t1: "exec_query (create_table_ddl table) 0 (sm_transport s) = (Inr d1, t1)" "s1 = s\<lparr>sm_transport := t1\<rparr>"
    by (auto simp: on_transport_def split: prod.splits)
  obtain r2 s2 where c2: "on_transport (exec_query (show_columns_query table) 0) s1 = (r2, s2)" by fastforce
  then obtain t2 where t2: "exec_query (show_columns_query table) 0 t1 = (r2, t2)" "s2 = s1\<lparr>sm_transport := t2\<rparr>"
    using t1(2) by (auto simp: on_transport_def split: prod.splits)
  show ?thesis
  proof (cases r2)
    case (Inl e)
    then show ?thesis using assms c1 c2
      by (auto simp: ensure_table_def bindP_def catchP_def split: if_splits)
  next
    case (Inr doc)
    then have "validate_table_columns (doc_get doc ''dataset'') table = Inr ()"
      using assms c1 c2 by (auto simp: ensure_table_def bindP_def catchP_def liftS_def split: if_splits sum.splits)
    then show ?thesis using t1(1) t2(1) Inr validation_iff by blast
  qed
qed

subsection \<open>Properties\<close>

text \<open>
  C30: Validation accepts exactly the owned schema: \<open>validate_table_columns\<close> passes iff the dataset
  is a list of well-formed rows and the columns they describe are, as a map from names to type,
  designated flag and upsert-key flag, the declared one; no column missing, extra, of another
  type, wrongly designated or wrongly keyed is let through, and nothing else is rejected.
\<close>

theorem validation_exact:
  "validate_table_columns dataset table = Inr () \<longleftrightarrow>
     (\<exists>rows cs. dataset = JList rows \<and> described rows = Some cs \<and> map_of (rev cs) = owned_columns)"
  by (rule validation_iff)

text \<open>
  C31: The writer starts on a table only after seeing its schema: when \<open>ensure\<close> returns, QuestDB
  has answered the CREATE TABLE IF NOT EXISTS, and then SHOW COLUMNS of the same table with a
  document whose columns are exactly the owned ones. When it raises, the error is never an
  uncertain delivery.
\<close>

theorem ensure_validates:
  "case ensure_table table s of
     (Inr _, s') \<Rightarrow> \<exists>d1 t1 doc t2 rows cs.
       exec_query (create_table_ddl table) 0 (sm_transport s) = (Inr d1, t1) \<and>
       exec_query (show_columns_query table) 0 t1 = (Inr doc, t2) \<and>
       doc_get doc ''dataset'' = JList rows \<and> described rows = Some cs \<and> map_of (rev cs) = owned_columns
   | (Inl e, s') \<Rightarrow> \<not> exn_uncertain e"
proof (cases "ensure_table table s")
  case (Pair r s')
  show ?thesis
  proof (cases r)
    case (Inl e)
    then show ?thesis using Pair certain_ensure [of table] by (auto simp: certain_def)
  next
    case (Inr u)
    then show ?thesis using Pair ensure_returns [of table s s'] by simp
  qed
qed

end
