(* ===== verification/WorkerBase.thy ===== *)
theory WorkerBase
  imports SpoolClaims StorageGuard Schema
begin

section \<open>The writer service: settings, state and the persist side (worker.py)\<close>

text \<open>
  The object \<open>WriterService\<close> as a record. It owns the spool of SpoolDb and the transport of
  Transport, so a step of the worker is a step of the code down to the SQL statements. Clocks, the
  random source and the filesystem are the field \<open>env\<close>, read by the number of the call. The
  local variables of the coroutines (\<open>held\<close>, \<open>pending_since\<close>, \<open>retry_at\<close>, \<open>blocked\<close>, \<open>isolate_next\<close>,
  \<open>schema_ready\<close> and the \<open>_Backoff\<close> object) are fields too, since they live across \<open>await\<close>s.
\<close>

subsection \<open>Settings\<close>

record worker_settings =
  ingress_queue_capacity :: int
  max_serialized_event_bytes :: int
  persist_batch_rows :: int
  delivery_batch_rows :: int
  delivery_batch_bytes :: int
  flush_interval_seconds :: rat
  persist_idle_poll_seconds :: rat
  retry_initial_seconds :: rat
  retry_max_seconds :: rat
  retry_multiplier :: rat
  retry_jitter_ratio :: rat
  flush_on_shutdown :: bool
  setting_min_free_bytes :: int
  setting_min_free_ratio :: rat

definition value_error :: "string \<Rightarrow> 'a res" where
  "value_error m = Inl (mk_exn ValueError (lit m))"

definition settings_post_init :: "worker_settings \<Rightarrow> unit res" where
  "settings_post_init s =
     bindR (mapR (\<lambda>(name, v). positive_integer name v)
       [(''ingress_queue_capacity'', ingress_queue_capacity s),
        (''max_serialized_event_bytes'', max_serialized_event_bytes s),
        (''persist_batch_rows'', persist_batch_rows s),
        (''delivery_batch_rows'', delivery_batch_rows s),
        (''delivery_batch_bytes'', delivery_batch_bytes s)]) (\<lambda>_.
     if flush_interval_seconds s \<le> 0 then value_error ''flush_interval_seconds must be positive''
     else if persist_idle_poll_seconds s \<le> 0 then value_error ''persist_idle_poll_seconds must be positive''
     else bindR (validate_free_space_settings (setting_min_free_bytes s) (setting_min_free_ratio s)) (\<lambda>_.
       if retry_initial_seconds s \<le> 0 then value_error ''retry_initial_seconds must be positive''
       else if retry_max_seconds s < retry_initial_seconds s then
         value_error ''retry_max_seconds must not be below retry_initial_seconds''
       else if retry_multiplier s < 1 then value_error ''retry_multiplier must be at least 1''
       else if \<not> (0 \<le> retry_jitter_ratio s \<and> retry_jitter_ratio s \<le> 1) then
         value_error ''retry_jitter_ratio must be between 0 and 1''
       else Inr ()))"

subsection \<open>Backoff\<close>

text \<open>An object \<open>_Backoff\<close> is its base; the other fields are settings. The delivery loop has one, and
  the flush at shutdown makes another.\<close>

datatype backoff = LoopBackoff | FlushBackoff

definition next_delay :: "worker_settings \<Rightarrow> rat \<Rightarrow> rat \<Rightarrow> (rat \<times> rat) res" where
  "next_delay s base unit_value =
     (if \<not> (0 \<le> unit_value \<and> unit_value \<le> 1) then
        value_error ''random_source must return a value between 0 and 1''
      else
        let factor = 1 + retry_jitter_ratio s * (2 * unit_value - 1);
            delay = base * factor
        in Inr (max 0 (min (retry_max_seconds s) delay),
                min (retry_max_seconds s) (base * retry_multiplier s)))"

subsection \<open>State\<close>

datatype worker_state =
  NEW | STARTING | RUNNING | RETRY_WAIT | BLOCKED | STOPPING | STOPPED | FAILED

instantiation worker_state :: enum
begin

definition enum_worker_state :: "worker_state list" where
  "enum_worker_state = [NEW, STARTING, RUNNING, RETRY_WAIT, BLOCKED, STOPPING, STOPPED, FAILED]"

definition enum_all_worker_state :: "(worker_state \<Rightarrow> bool) \<Rightarrow> bool" where
  "enum_all_worker_state P \<longleftrightarrow> P NEW \<and> P STARTING \<and> P RUNNING \<and> P RETRY_WAIT \<and> P BLOCKED \<and>
     P STOPPING \<and> P STOPPED \<and> P FAILED"

definition enum_ex_worker_state :: "(worker_state \<Rightarrow> bool) \<Rightarrow> bool" where
  "enum_ex_worker_state P \<longleftrightarrow> P NEW \<or> P STARTING \<or> P RUNNING \<or> P RETRY_WAIT \<or> P BLOCKED \<or>
     P STOPPING \<or> P STOPPED \<or> P FAILED"

instance
proof
  have UNIV: "UNIV = {NEW, STARTING, RUNNING, RETRY_WAIT, BLOCKED, STOPPING, STOPPED, FAILED}"
    using worker_state.exhaust by blast
  show "(UNIV :: worker_state set) = set enum_class.enum"
    by (simp add: UNIV enum_worker_state_def)
  show "distinct (enum_class.enum :: worker_state list)"
    by (simp add: enum_worker_state_def)
  show "enum_class.enum_all P \<longleftrightarrow> Ball UNIV P" for P :: "worker_state \<Rightarrow> bool"
    unfolding UNIV by (simp add: enum_all_worker_state_def)
  show "enum_class.enum_ex P \<longleftrightarrow> Bex UNIV P" for P :: "worker_state \<Rightarrow> bool"
    unfolding UNIV by (simp add: enum_ex_worker_state_def)
qed

end

datatype block_reason =
  BlockAuth | BlockSpoolFull | BlockDiskFull | BlockReadOnly | BlockDiskSpace | BlockStorage

definition STORAGE_BLOCK_REASONS :: "block_reason list" where
  "STORAGE_BLOCK_REASONS = [BlockSpoolFull, BlockDiskFull, BlockReadOnly, BlockDiskSpace, BlockStorage]"

record error_record =
  er_ts_ns :: int
  er_error :: ustr

record built_batch =
  bb_payload :: bytes
  bb_sequences :: "int list"
  bb_uncertain :: "int list"

text \<open>
  Where each coroutine stands: at an \<open>await\<close>, or at its end. \<open>DeliverSending\<close> and \<open>DeliverEnsuring\<close>
  are calls handed to the executor thread by \<open>asyncio.to_thread\<close>; \<open>DeliverSent\<close> and
  \<open>DeliverEnsured\<close> hold what the call returned or raised, before the coroutine runs on.
\<close>

datatype persist_task = PersistLooping | PersistReturned | PersistRaised exn

datatype delivery_task =
    DeliverLooping
  | DeliverEnsuring
  | DeliverEnsured "unit res"
  | DeliverSending built_batch
  | DeliverSent built_batch "unit res"
  | DeliverReturned
  | DeliverRaised exn
  | DeliverCancelled

datatype main_task =
    MainNotStarted
  | MainOpening
  | MainWaiting
  | MainAwaitPersist
  | MainFlushEnsuring
  | MainFlushEnsured "unit res"
  | MainFlushSending built_batch
  | MainFlushSent built_batch "unit res"
  | MainCancelling
  | MainEnded "exn option"
  | MainExited

record worker_env =
  monotonic :: "nat \<Rightarrow> rat"
  wall_time_ns :: "nat \<Rightarrow> int"
  random_source :: "nat \<Rightarrow> rat"
  disk_usage :: "nat \<Rightarrow> ustr + storage_usage"

record worker =
  table :: ustr
  settings :: worker_settings
  filesystem_guard :: filesystem_guard
  has_schema :: bool
  spool :: spool
  transport :: transport
  schema_manager :: schema_manager
  ingress :: "new_spool_event list"
  unfinished_tasks :: int
  held :: "new_spool_event list"
  stop_requested :: bool
  stop_async :: bool
  wake_persist :: bool
  wake_deliver :: bool
  shutdown_deadline :: "rat option"
  failure :: "exn option"
  w_state :: worker_state
  accepting :: bool
  held_unpersisted :: nat
  ingress_high_watermark :: nat
  submitted_events :: int
  persisted_events :: int
  delivered_events :: int
  retry_attempts :: int
  dead_lettered_events :: int
  dead_letter_evicted_events :: int
  uncertain_delivered_events :: int
  overflowed_events :: int
  oversized_events :: int
  known_stats :: spool_stats
  retry_delay_seconds :: "rat option"
  last_error :: "ustr option"
  last_success_ns :: "int option"
  block_reason :: "block_reason option"
  last_errors :: "error_record list"
  storage_blocks :: int
  storage_block_attempts :: int
  storage_recoveries :: int
  storage_episode :: "block_reason option"
  last_reclaim :: "rat option"
  rewrite_attempted :: bool
  disk_status :: "storage_status option"
  main_task :: main_task
  persist_task :: persist_task
  delivery_task :: delivery_task
  pending_since :: "rat option"
  retry_at :: "rat option"
  d_blocked :: bool
  isolate_next :: bool
  schema_ready :: bool
  backoff_base :: "backoff \<Rightarrow> rat"
  env :: worker_env
  now :: nat

type_synonym 'a worker_prog = "(worker, 'a) prog"

definition on_spool :: "(spool, 'a) prog \<Rightarrow> 'a worker_prog" where
  "on_spool m w = (case m (spool w) of (r, s) \<Rightarrow> (r, w\<lparr>spool := s\<rparr>))"

definition liftW :: "'a res \<Rightarrow> 'a worker_prog" where
  "liftW r = (\<lambda>w. (r, w))"

definition ask_env :: "(worker_env \<Rightarrow> nat \<Rightarrow> 'a) \<Rightarrow> 'a worker_prog" where
  "ask_env f w = (Inr (f (env w) (now w)), w\<lparr>now := Suc (now w)\<rparr>)"

lemma on_spool_app: "on_spool m w = (fst (m (spool w)), w\<lparr>spool := snd (m (spool w))\<rparr>)"
  by (simp add: on_spool_def split_beta)

lemma ask_env_app [simp]: "ask_env f w = (Inr (f (env w) (now w)), w\<lparr>now := Suc (now w)\<rparr>)"
  by (simp add: ask_env_def)

lemma liftW_app [simp]: "liftW r w = (r, w)"
  by (simp add: liftW_def)

subsection \<open>Error texts\<close>

fun class_name :: "exn_class \<Rightarrow> string" where
  "class_name ValueError = ''ValueError''"
| "class_name TypeError = ''TypeError''"
| "class_name OverflowError = ''OverflowError''"
| "class_name UnicodeEncodeError = ''UnicodeEncodeError''"
| "class_name RuntimeError = ''RuntimeError''"
| "class_name OSError = ''OSError''"
| "class_name CancelledError = ''CancelledError''"
| "class_name ConfigEntryNotReady = ''ConfigEntryNotReady''"
| "class_name Invalid = ''Invalid''"
| "class_name IndexError = ''IndexError''"
| "class_name KeyError = ''KeyError''"
| "class_name AttributeError = ''AttributeError''"
| "class_name SqliteError = ''Error''"
| "class_name IlpEncodingError = ''IlpEncodingError''"
| "class_name EventEnvelopeError = ''EventEnvelopeError''"
| "class_name SpoolError = ''SpoolError''"
| "class_name SpoolClosedError = ''SpoolClosedError''"
| "class_name SpoolStateError = ''SpoolStateError''"
| "class_name UnsupportedSpoolVersionError = ''UnsupportedSpoolVersionError''"
| "class_name SpoolFullError = ''SpoolFullError''"
| "class_name SpoolStorageError = ''SpoolStorageError''"
| "class_name SpoolDiskFullError = ''SpoolDiskFullError''"
| "class_name SpoolReadOnlyError = ''SpoolReadOnlyError''"
| "class_name DeadLetterFullError = ''DeadLetterFullError''"
| "class_name EventTooLargeError = ''EventTooLargeError''"
| "class_name BatchLimitTooSmallError = ''BatchLimitTooSmallError''"
| "class_name IlpTransportError = ''IlpTransportError''"
| "class_name PermanentIlpError = ''PermanentIlpError''"
| "class_name RetryableIlpError = ''RetryableIlpError''"
| "class_name AuthenticationIlpError = ''AuthenticationIlpError''"
| "class_name SchemaError = ''SchemaError''"
| "class_name SchemaMismatchError = ''SchemaMismatchError''"
| "class_name WorkerError = ''WorkerError''"
| "class_name WorkerStartError = ''WorkerStartError''"
| "class_name WorkerStartTimeoutError = ''WorkerStartTimeoutError''"
| "class_name WorkerShutdownError = ''WorkerShutdownError''"
| "class_name WorkerConfigurationError = ''WorkerConfigurationError''"

definition MAX_ERROR_TEXT :: nat where "MAX_ERROR_TEXT = 4096"

text \<open>\<open>_error_text\<close>: NUL becomes U+FFFD, and a long text ends in U+2026.\<close>

definition exn_text :: "exn \<Rightarrow> ustr" where
  "exn_text e =
     (let message = map (\<lambda>c. if c = 0 then 65533 else c)
            (lit (class_name (exn_class e)) @ lit '': '' @ exn_msg e)
      in if length message > MAX_ERROR_TEXT then take MAX_ERROR_TEXT message @ [8230] else message)"

definition storage_block_reason :: "exn \<Rightarrow> block_reason" where
  "storage_block_reason e =
     (if isinstance e SpoolDiskFullError then BlockDiskFull
      else if isinstance e SpoolReadOnlyError then BlockReadOnly
      else BlockStorage)"

definition storage_status_text :: "storage_status \<Rightarrow> ustr" where
  "storage_status_text st =
     (case status_error st of
        Some err \<Rightarrow> lit ''free space could not be read: '' @ err
      | None \<Rightarrow> int_str (free_bytes st) @ lit '' free bytes are below the '' @
          int_str (reserve_bytes st) @ lit '' byte reserve'')"

subsection \<open>The guarded fields\<close>

definition set_spool_stats :: "spool_stats \<Rightarrow> unit worker_prog" where
  "set_spool_stats st = modifyP (\<lambda>w. w\<lparr>known_stats := st\<rparr>)"

definition set_held :: "nat \<Rightarrow> unit worker_prog" where
  "set_held count = modifyP (\<lambda>w. w\<lparr>held_unpersisted := count\<rparr>)"

text \<open>\<open>deque(maxlen=10)\<close>\<close>

definition append_error :: "error_record \<Rightarrow> error_record list \<Rightarrow> error_record list" where
  "append_error r rs = drop (length rs + 1 - 10) (rs @ [r])"

definition set_delivery_state ::
    "worker_state \<Rightarrow> ustr option \<Rightarrow> rat option \<Rightarrow> block_reason option \<Rightarrow> unit worker_prog" where
  "set_delivery_state st err delay reason =
     bindP (modifyP (\<lambda>w. w\<lparr>
         w_state := (if w_state w = STOPPING \<or> w_state w = FAILED then w_state w else st),
         last_error := err, retry_delay_seconds := delay,
         block_reason := (if st = BLOCKED then reason else None)\<rparr>)) (\<lambda>_.
     case err of
       None \<Rightarrow> returnP ()
     | Some text_of \<Rightarrow> bindP (ask_env wall_time_ns) (\<lambda>ts.
         modifyP (\<lambda>w. w\<lparr>last_errors := append_error \<lparr>er_ts_ns = ts, er_error = text_of\<rparr> (last_errors w)\<rparr>)))"

definition count_dead_letter_move :: "nat \<Rightarrow> nat \<Rightarrow> unit worker_prog" where
  "count_dead_letter_move moved evicted =
     modifyP (\<lambda>w. w\<lparr>dead_lettered_events := dead_lettered_events w + int moved,
       dead_letter_evicted_events := dead_letter_evicted_events w + int evicted\<rparr>)"

definition next_retry_delay :: "backoff \<Rightarrow> rat worker_prog" where
  "next_retry_delay b =
     bindP (ask_env random_source) (\<lambda>u.
     bindP (getP (\<lambda>w. next_delay (settings w) (backoff_base w b) u)) (\<lambda>r.
     case r of
       Inl e \<Rightarrow> raiseP e
     | Inr (delay, base) \<Rightarrow>
         bindP (modifyP (\<lambda>w. w\<lparr>backoff_base := (backoff_base w)(b := base)\<rparr>)) (\<lambda>_. returnP delay)))"

text \<open>\<open>reset\<close>, and what \<open>__init__\<close> makes of a new object.\<close>

definition reset_backoff :: "backoff \<Rightarrow> unit worker_prog" where
  "reset_backoff b =
     modifyP (\<lambda>w. w\<lparr>backoff_base := (backoff_base w)(b := retry_initial_seconds (settings w))\<rparr>)"

definition count_retry :: "unit worker_prog" where
  "count_retry = modifyP (\<lambda>w. w\<lparr>retry_attempts := retry_attempts w + 1\<rparr>)"

definition spool_stats_now :: "spool_stats worker_prog" where
  "spool_stats_now = bindP (on_spool current_stats) (\<lambda>st. bindP (set_spool_stats st) (\<lambda>_. returnP st))"

subsection \<open>Storage pauses\<close>

definition block_on_storage :: "block_reason \<Rightarrow> ustr \<Rightarrow> unit worker_prog" where
  "block_on_storage reason err =
     bindP (modifyP (\<lambda>w. w\<lparr>storage_block_attempts := storage_block_attempts w + 1,
         storage_blocks := (if storage_episode w = None then storage_blocks w + 1 else storage_blocks w),
         storage_episode := (if storage_episode w = None then Some reason else storage_episode w)\<rparr>)) (\<lambda>_.
     set_delivery_state BLOCKED (Some err) None (Some reason))"

definition resume_after_storage_block :: "unit worker_prog" where
  "resume_after_storage_block =
     bindP (modifyP (\<lambda>w. w\<lparr>
         storage_recoveries := (if storage_episode w \<noteq> None then storage_recoveries w + 1 else storage_recoveries w),
         storage_episode := None, rewrite_attempted := False\<rparr>)) (\<lambda>_.
     bindP (getP (\<lambda>w. w_state w = BLOCKED \<and>
         (case block_reason w of Some r \<Rightarrow> r \<in> set STORAGE_BLOCK_REASONS | None \<Rightarrow> False))) (\<lambda>show_running.
     whenP show_running (set_delivery_state RUNNING None None None)))"

definition check_storage :: "storage_status worker_prog" where
  "check_storage =
     bindP (ask_env disk_usage) (\<lambda>answer.
     bindP (getP (\<lambda>w. guard_check (filesystem_guard w) answer)) (\<lambda>st.
     bindP (modifyP (\<lambda>w. w\<lparr>disk_status := Some st\<rparr>)) (\<lambda>_. returnP st)))"

definition RECLAIM_MAX_PAGES :: int where "RECLAIM_MAX_PAGES = 256"
definition RECLAIM_INTERVAL_SECONDS :: rat where "RECLAIM_INTERVAL_SECONDS = 1"

text \<open>\<open>except SpoolError: return False\<close> around the two calls of \<open>_reclaim_spool\<close>.\<close>

definition reclaim_call :: "(spool, spool_reclaim) prog \<Rightarrow> spool_reclaim option worker_prog" where
  "reclaim_call m =
     catchP (bindP (on_spool m) (\<lambda>r. returnP (Some r)))
       (\<lambda>e. if isinstance e SpoolError then returnP None else raiseP e)"

definition reclaim_spool :: "bool worker_prog" where
  "reclaim_spool =
     bindP (ask_env monotonic) (\<lambda>t.
     bindP (getP last_reclaim) (\<lambda>last_one.
       if (case last_one of None \<Rightarrow> False | Some l \<Rightarrow> t - l < RECLAIM_INTERVAL_SECONDS) then returnP False
       else
         bindP (modifyP (\<lambda>w. w\<lparr>last_reclaim := Some t\<rparr>)) (\<lambda>_.
         bindP (reclaim_call (reclaim RECLAIM_MAX_PAGES)) (\<lambda>res.
         case res of
           None \<Rightarrow> returnP False
         | Some report \<Rightarrow>
             if rc_error report \<noteq> None then returnP False
             else
               bindP (getP rewrite_attempted) (\<lambda>attempted.
                 if rc_auto_vacuum report \<noteq> AUTO_VACUUM_INCREMENTAL \<and> \<not> attempted then
                   bindP (modifyP (\<lambda>w. w\<lparr>rewrite_attempted := True\<rparr>)) (\<lambda>_.
                   bindP (reclaim_call compact) (\<lambda>rewritten.
                   returnP (case rewritten of None \<Rightarrow> False | Some rr \<Rightarrow> rc_error rr = None)))
                 else returnP (rc_freed_pages report \<noteq> 0 \<or> rc_wal_truncated report))))))"

end
