(* ===== verification/WorkerPersist.thy ===== *)
theory WorkerPersist
  imports WorkerBase
begin

section \<open>Ingress, the persist loop and the life of the worker thread (worker.py)\<close>

text \<open>
  What other threads call (\<open>start\<close>, \<open>submit\<close>, \<open>stop\<close>, \<open>snapshot\<close>), the persist coroutine, and the
  thread's own body \<open>_run\<close>. A definition covers what runs without an \<open>await\<close> in between.
\<close>

subsection \<open>The ingress queue\<close>

text \<open>\<open>queue.Queue\<close>: \<open>put_nowait\<close> answers \<open>None\<close> for \<open>Full\<close>, \<open>get_nowait\<close> for \<open>Empty\<close>.\<close>

definition put_nowait :: "int \<Rightarrow> 'e \<Rightarrow> 'e list \<Rightarrow> 'e list option" where
  "put_nowait maxsize x q = (if 0 < maxsize \<and> maxsize \<le> int (length q) then None else Some (q @ [x]))"

fun get_nowait :: "'e list \<Rightarrow> ('e \<times> 'e list) option" where
  "get_nowait [] = None"
| "get_nowait (x # q) = Some (x, q)"

definition task_done :: "unit worker_prog" where
  "task_done =
     bindP (getP unfinished_tasks) (\<lambda>n.
       if n - 1 < 0 then raiseP (mk_exn ValueError (lit ''task_done() called too many times''))
       else modifyP (\<lambda>w. w\<lparr>unfinished_tasks := n - 1\<rparr>))"

text \<open>The loop runs while a thread runs the coroutines.\<close>

definition in_loop :: "worker \<Rightarrow> bool" where
  "in_loop w \<longleftrightarrow> (case main_task w of
      MainNotStarted \<Rightarrow> False | MainOpening \<Rightarrow> False | MainEnded _ \<Rightarrow> False | MainExited \<Rightarrow> False
    | _ \<Rightarrow> True)"

definition thread_alive :: "worker \<Rightarrow> bool" where
  "thread_alive w \<longleftrightarrow> main_task w \<noteq> MainNotStarted \<and> main_task w \<noteq> MainExited"

definition signal_loop :: "(worker \<Rightarrow> worker) \<Rightarrow> unit worker_prog" where
  "signal_loop action = modifyP (\<lambda>w. if in_loop w then action w else w)"

definition submit :: "envelope \<Rightarrow> bool worker_prog" where
  "submit event =
     bindP (liftW (to_spool_event event)) (\<lambda>ev.
     bindP (getP (max_serialized_event_bytes \<circ> settings)) (\<lambda>limit_bytes.
       if int (length (ne_payload ev)) > limit_bytes then
         bindP (modifyP (\<lambda>w. w\<lparr>oversized_events := oversized_events w + 1,
             last_error := Some (lit ''serialized event is '' @ int_str (int (length (ne_payload ev))) @
               lit '' bytes; limit is '' @ int_str limit_bytes)\<rparr>)) (\<lambda>_. returnP False)
       else
         bindP (getP accepting) (\<lambda>is_accepting.
           if \<not> is_accepting then returnP False
           else
             bindP (getP (\<lambda>w. put_nowait (ingress_queue_capacity (settings w)) ev (ingress w))) (\<lambda>res.
             case res of
               None \<Rightarrow>
                 bindP (modifyP (\<lambda>w. w\<lparr>overflowed_events := overflowed_events w + 1,
                     last_error := Some (lit ''ingress queue is full'')\<rparr>)) (\<lambda>_. returnP False)
             | Some q \<Rightarrow>
                 bindP (modifyP (\<lambda>w. w\<lparr>ingress := q, unfinished_tasks := unfinished_tasks w + 1,
                     submitted_events := submitted_events w + 1,
                     ingress_high_watermark := max (ingress_high_watermark w) (length q)\<rparr>)) (\<lambda>_.
                 bindP (signal_loop (\<lambda>w. w\<lparr>wake_persist := True\<rparr>)) (\<lambda>_.
                 returnP True))))))"

subsection \<open>The persist loop\<close>

fun drain :: "nat \<Rightarrow> 'e list \<Rightarrow> 'e list \<Rightarrow> 'e list \<times> 'e list" where
  "drain limit_rows hs q =
     (if length hs < limit_rows then
        (case q of [] \<Rightarrow> (hs, q) | x # q' \<Rightarrow> drain limit_rows (hs @ [x]) q')
      else (hs, q))"

declare drain.simps [simp del]

definition drain_ingress :: "unit worker_prog" where
  "drain_ingress =
     bindP (getP (\<lambda>w. drain (nat (persist_batch_rows (settings w))) (held w) (ingress w))) (\<lambda>(hs, q).
     bindP (modifyP (\<lambda>w. w\<lparr>held := hs, ingress := q\<rparr>)) (\<lambda>_.
     set_held (length hs)))"

text \<open>\<open>try: spool.enqueue_many(tuple(held))\<close> with its two handlers: why persistence must pause.\<close>

definition try_enqueue :: "new_spool_event list \<Rightarrow> (block_reason \<times> ustr) option worker_prog" where
  "try_enqueue evs =
     catchP (bindP (on_spool (enqueue_many evs)) (\<lambda>_. returnP None)) (\<lambda>e.
       if isinstance e SpoolFullError then returnP (Some (BlockSpoolFull, exn_text e))
       else if isinstance e SpoolStorageError then returnP (Some (storage_block_reason e, exn_text e))
       else raiseP e)"

definition persist_held :: "bool worker_prog" where
  "persist_held =
     bindP (getP held) (\<lambda>evs.
       if evs = [] then returnP True
       else
         bindP check_storage (\<lambda>first_status.
         bindP (if status_blocked first_status then
             bindP reclaim_spool (\<lambda>moved. if moved then check_storage else returnP first_status)
           else returnP first_status) (\<lambda>st.
           if status_blocked st then
             bindP (block_on_storage BlockDiskSpace (storage_status_text st)) (\<lambda>_. returnP False)
           else
             bindP (try_enqueue evs) (\<lambda>res.
             case res of
               Some (reason, err) \<Rightarrow> bindP (block_on_storage reason err) (\<lambda>_. returnP False)
             | None \<Rightarrow>
                 bindP (forP (\<lambda>_. task_done) evs) (\<lambda>_.
                 bindP (modifyP (\<lambda>w. w\<lparr>persisted_events := persisted_events w + int (length evs), held := []\<rparr>)) (\<lambda>_.
                 bindP (set_held 0) (\<lambda>_.
                 bindP spool_stats_now (\<lambda>_.
                 bindP resume_after_storage_block (\<lambda>_. returnP True)))))))))"

definition SHUTDOWN_RETRY_SECONDS :: rat where "SHUTDOWN_RETRY_SECONDS = 5 / 100"

datatype persist_pause = PersistDone | PersistSleep rat | PersistWait rat

text \<open>One pass of \<open>_persist_loop\<close>: to its \<open>return\<close>, its \<open>raise\<close>, or what it awaits next.\<close>

definition persist_pass :: "persist_pause worker_prog" where
  "persist_pass =
     bindP drain_ingress (\<lambda>_.
     bindP (getP held) (\<lambda>evs.
     bindP (if evs \<noteq> [] then bindP persist_held (\<lambda>_. returnP ()) else returnP ()) (\<lambda>_.
     bindP spool_stats_now (\<lambda>_.
     bindP (modifyP (\<lambda>w. w\<lparr>wake_deliver := True\<rparr>)) (\<lambda>_.
     bindP (getP stop_async) (\<lambda>stopping.
       if stopping then
         bindP (getP (\<lambda>w. (length (held w) + length (ingress w), shutdown_deadline w))) (\<lambda>(left, deadline).
           if left = 0 then returnP PersistDone
           else (case deadline of
               None \<Rightarrow> returnP (PersistSleep SHUTDOWN_RETRY_SECONDS)
             | Some d \<Rightarrow>
                 bindP (ask_env monotonic) (\<lambda>t.
                   if t \<ge> d then
                     raiseP (mk_exn WorkerShutdownError (lit ''shutdown left '' @ nat_str left @
                       lit '' accepted events unpersisted''))
                   else
                     bindP (ask_env monotonic) (\<lambda>t'.
                       returnP (PersistSleep (min SHUTDOWN_RETRY_SECONDS (max 0 (d - t'))))))))
       else
         bindP (modifyP (\<lambda>w. w\<lparr>wake_persist := False\<rparr>)) (\<lambda>_.
         bindP (getP (persist_idle_poll_seconds \<circ> settings)) (\<lambda>poll.
         returnP (PersistWait poll)))))))))"

definition persist_step :: "worker \<Rightarrow> worker" where
  "persist_step w =
     (case persist_pass w of
        (Inl e, w') \<Rightarrow> w'\<lparr>persist_task := PersistRaised e\<rparr>
      | (Inr PersistDone, w') \<Rightarrow> w'\<lparr>persist_task := PersistReturned\<rparr>
      | (Inr _, w') \<Rightarrow> w')"

subsection \<open>Construction\<close>

definition no_stats :: spool_stats where
  "no_stats = \<lparr>pending_rows = 0, pending_bytes = 0, dead_letter_rows = 0, dead_letter_bytes = 0\<rparr>"

text \<open>
  \<open>WriterService.__init__\<close>. The spool file and the objects the factories will make are part of the
  initial state; nothing touches them before the thread runs.
\<close>

definition make_worker ::
    "ustr \<Rightarrow> worker_settings \<Rightarrow> bool \<Rightarrow> spool \<Rightarrow> transport \<Rightarrow> schema_manager \<Rightarrow> worker_env \<Rightarrow> worker res" where
  "make_worker tab st with_schema file tr sm environment =
     (if tab = [] \<or> 0 \<in> set tab then value_error ''table must be a non-empty string without NUL''
      else bindR (make_guard (setting_min_free_bytes st) (setting_min_free_ratio st)) (\<lambda>guard.
        Inr \<lparr>table = tab, settings = st, filesystem_guard = guard, has_schema = with_schema,
          spool = file, transport = tr, schema_manager = sm,
          ingress = [], unfinished_tasks = 0, held = [],
          stop_requested = False, stop_async = False, wake_persist = False, wake_deliver = False,
          shutdown_deadline = None, failure = None, w_state = NEW, accepting = False,
          held_unpersisted = 0, ingress_high_watermark = 0, submitted_events = 0, persisted_events = 0,
          delivered_events = 0, retry_attempts = 0, dead_lettered_events = 0,
          dead_letter_evicted_events = 0, uncertain_delivered_events = 0, overflowed_events = 0,
          oversized_events = 0, known_stats = no_stats, retry_delay_seconds = None, last_error = None,
          last_success_ns = None, block_reason = None, last_errors = [], storage_blocks = 0,
          storage_block_attempts = 0, storage_recoveries = 0, storage_episode = None,
          last_reclaim = None, rewrite_attempted = False, disk_status = None,
          main_task = MainNotStarted, persist_task = PersistLooping, delivery_task = DeliverLooping,
          pending_since = None, retry_at = None, d_blocked = False, isolate_next = False,
          schema_ready = \<not> with_schema, backoff_base = (\<lambda>_. retry_initial_seconds st),
          env = environment, now = 0\<rparr>))"

subsection \<open>start and stop\<close>

definition positive_seconds :: "string \<Rightarrow> rat \<Rightarrow> rat res" where
  "positive_seconds name v =
     (if v \<le> 0 then value_error (name @ '' must be positive and finite'') else Inr v)"

text \<open>\<open>start\<close> up to the wait for \<open>_ready\<close>, and what it does after it.\<close>

definition start_thread :: "rat \<Rightarrow> unit worker_prog" where
  "start_thread timeout_seconds =
     bindP (liftW (positive_seconds ''timeout_seconds'' timeout_seconds)) (\<lambda>_.
     bindP (getP w_state) (\<lambda>st.
       if st \<noteq> NEW then
         raiseP (mk_exn WorkerStartError (lit ''writer service is one-shot and already used''))
       else modifyP (\<lambda>w. w\<lparr>w_state := STARTING, main_task := MainOpening\<rparr>)))"

definition start_finish :: "bool \<Rightarrow> unit worker_prog" where
  "start_finish ready =
     (if \<not> ready then
        bindP (modifyP (\<lambda>w. w\<lparr>accepting := False,
            last_error := Some (lit ''worker initialization timed out''), stop_requested := True\<rparr>)) (\<lambda>_.
        bindP (signal_loop (\<lambda>w. w\<lparr>stop_async := True\<rparr>)) (\<lambda>_.
        raiseP (mk_exn WorkerStartTimeoutError (lit ''worker initialization timed out''))))
      else
        bindP (getP (\<lambda>w. (w_state w, last_error w))) (\<lambda>(st, err).
          if st = FAILED then
            raiseP (mk_exn WorkerStartError
              (case err of Some m \<Rightarrow> if m = [] then lit ''worker initialization failed'' else m
               | None \<Rightarrow> lit ''worker initialization failed''))
          else if st = NEW \<or> st = STARTING then
            raiseP (mk_exn WorkerStartError (lit ''worker entered unexpected state '' @
              (if st = NEW then lit ''new'' else lit ''starting'')))
          else returnP ()))"

text \<open>\<open>stop\<close> up to the join: an answer at once, or \<open>None\<close> when it waits for the thread.\<close>

definition stop_request :: "rat \<Rightarrow> bool option worker_prog" where
  "stop_request timeout_seconds =
     bindP (liftW (positive_seconds ''timeout_seconds'' timeout_seconds)) (\<lambda>timeout.
     bindP (modifyP (\<lambda>w. w\<lparr>accepting := False\<rparr>)) (\<lambda>_.
     bindP (getP (\<lambda>w. (w_state w, thread_alive w))) (\<lambda>(st, alive).
       if st = NEW then bindP (modifyP (\<lambda>w. w\<lparr>w_state := STOPPED\<rparr>)) (\<lambda>_. returnP (Some True))
       else if \<not> alive then returnP (Some True)
       else
         bindP (ask_env monotonic) (\<lambda>t.
         bindP (modifyP (\<lambda>w. w\<lparr>w_state := STOPPING, shutdown_deadline := Some (t + timeout),
             stop_requested := True\<rparr>)) (\<lambda>_.
         bindP (signal_loop (\<lambda>w. w\<lparr>stop_async := True\<rparr>)) (\<lambda>_. returnP None))))))"

definition stop_join :: "worker \<Rightarrow> bool" where
  "stop_join w \<longleftrightarrow> \<not> thread_alive w"

subsection \<open>The thread\<close>

text \<open>
  \<open>_run\<close> up to \<open>asyncio.run\<close> and the first lines of \<open>_async_main\<close>: the spool is opened, then the
  other two factories run; \<open>tr\<close> and \<open>sm\<close> are what they answer.
\<close>

definition run_open ::
    "limits \<Rightarrow> rat \<Rightarrow> transport res \<Rightarrow> schema_manager res \<Rightarrow> unit worker_prog" where
  "run_open L busy_timeout_seconds tr sm =
     bindP (on_spool (open_spool L busy_timeout_seconds)) (\<lambda>_.
     bindP (liftW tr) (\<lambda>t.
     bindP (modifyP (\<lambda>w. w\<lparr>transport := t\<rparr>)) (\<lambda>_.
     bindP (getP has_schema) (\<lambda>with_schema.
     bindP (if with_schema then bindP (liftW sm) (\<lambda>s. modifyP (\<lambda>w. w\<lparr>schema_manager := s\<rparr>))
            else returnP ()) (\<lambda>_.
     bindP spool_stats_now (\<lambda>_.
     bindP (modifyP (\<lambda>w. w\<lparr>w_state := (if stop_requested w then STOPPING else RUNNING),
         accepting := \<not> stop_requested w\<rparr>)) (\<lambda>_.
     modifyP (\<lambda>w. w\<lparr>stop_async := stop_requested w, main_task := MainWaiting\<rparr>))))))))"

definition run_step :: "limits \<Rightarrow> rat \<Rightarrow> transport res \<Rightarrow> schema_manager res \<Rightarrow> worker \<Rightarrow> worker" where
  "run_step L busy_timeout_seconds tr sm w =
     (case run_open L busy_timeout_seconds tr sm w of
        (Inl e, w') \<Rightarrow> w'\<lparr>main_task := MainEnded (Some e)\<rparr>
      | (Inr _, w') \<Rightarrow> w')"

text \<open>
  The \<open>except\<close> and \<open>finally\<close> of \<open>_run\<close>. Closing an object that was never opened does nothing, so
  the three are closed unconditionally.
\<close>

definition close_resources :: "exn option worker_prog" where
  "close_resources =
     bindP (modifyP (\<lambda>w. w\<lparr>transport := snd (close_transport (transport w))\<rparr>)) (\<lambda>_.
     bindP (catchP (bindP (on_spool close_spool) (\<lambda>_. returnP None)) (\<lambda>e. returnP (Some e))) (\<lambda>err.
     bindP (modifyP (\<lambda>w. w\<lparr>schema_manager := snd (close_schema (schema_manager w))\<rparr>)) (\<lambda>_.
     returnP err)))"

definition run_failed :: "exn \<Rightarrow> worker \<Rightarrow> worker" where
  "run_failed e w = w\<lparr>failure := Some e, accepting := False, w_state := FAILED, last_error := Some (exn_text e)\<rparr>"

definition run_finally :: "exn option \<Rightarrow> worker \<Rightarrow> worker" where
  "run_finally failed w =
     (let w1 = (case failed of Some e \<Rightarrow> run_failed e w | None \<Rightarrow> w);
          (res, w2) = close_resources w1;
          w3 = w2\<lparr>accepting := False, main_task := MainExited\<rparr>
      in case (res, failed) of
           (Inr (Some e), None) \<Rightarrow> w3\<lparr>failure := Some e, w_state := FAILED, last_error := Some (exn_text e)\<rparr>
         | (_, None) \<Rightarrow> w3\<lparr>w_state := STOPPED\<rparr>
         | _ \<Rightarrow> w3)"

subsection \<open>Diagnostics\<close>

record worker_snapshot =
  sn_state :: worker_state
  sn_thread_alive :: bool
  sn_accepting :: bool
  sn_ingress_queue_depth :: nat
  sn_held_unpersisted :: nat
  sn_ingress_high_watermark :: nat
  sn_submitted_events :: int
  sn_persisted_events :: int
  sn_delivered_events :: int
  sn_retry_attempts :: int
  sn_dead_lettered_events :: int
  sn_dead_letter_evicted_events :: int
  sn_uncertain_delivered_events :: int
  sn_overflowed_events :: int
  sn_oversized_events :: int
  sn_stats :: spool_stats
  sn_retry_delay_seconds :: "rat option"
  sn_last_error :: "ustr option"
  sn_last_success_ns :: "int option"
  sn_block_reason :: "block_reason option"
  sn_last_errors :: "error_record list"
  sn_storage_blocks :: int
  sn_storage_block_attempts :: int
  sn_storage_recoveries :: int
  sn_disk_free_bytes :: "int option"
  sn_disk_reserve_bytes :: "int option"

definition snapshot :: "worker \<Rightarrow> worker_snapshot" where
  "snapshot w =
     \<lparr>sn_state = w_state w, sn_thread_alive = thread_alive w, sn_accepting = accepting w,
      sn_ingress_queue_depth = length (ingress w), sn_held_unpersisted = held_unpersisted w,
      sn_ingress_high_watermark = ingress_high_watermark w, sn_submitted_events = submitted_events w,
      sn_persisted_events = persisted_events w, sn_delivered_events = delivered_events w,
      sn_retry_attempts = retry_attempts w, sn_dead_lettered_events = dead_lettered_events w,
      sn_dead_letter_evicted_events = dead_letter_evicted_events w,
      sn_uncertain_delivered_events = uncertain_delivered_events w,
      sn_overflowed_events = overflowed_events w, sn_oversized_events = oversized_events w,
      sn_stats = known_stats w, sn_retry_delay_seconds = retry_delay_seconds w,
      sn_last_error = last_error w, sn_last_success_ns = last_success_ns w,
      sn_block_reason = block_reason w, sn_last_errors = last_errors w,
      sn_storage_blocks = storage_blocks w, sn_storage_block_attempts = storage_block_attempts w,
      sn_storage_recoveries = storage_recoveries w,
      sn_disk_free_bytes = map_option free_bytes (disk_status w),
      sn_disk_reserve_bytes = map_option reserve_bytes (disk_status w)\<rparr>"

end
