(* ===== verification/WorkerDelivery.thy ===== *)
theory WorkerDelivery
  imports WorkerPersist Event
begin

section \<open>The delivery loop (worker.py)\<close>

text \<open>
  The delivery coroutine from one \<open>await\<close> to the next, and the main coroutine that supervises the
  other two and flushes once at shutdown. The two calls that leave the thread, \<open>schema.ensure\<close> and
  \<open>transport.send_batch\<close>, are steps of their own: the coroutine hands the call over, the executor
  runs it, the coroutine goes on with its result.
\<close>

subsection \<open>Building a batch\<close>

definition MAX_SQLITE_BATCH_BYTES :: int where "MAX_SQLITE_BATCH_BYTES = 2 ^ 63 - 1"

definition encode_record :: "ustr \<Rightarrow> bytes \<Rightarrow> bytes res" where
  "encode_record tab payload = bindR (from_bytes payload) (\<lambda>ev. to_ilp ev tab)"

datatype scan = Built built_batch | Undecodable spool_record exn

text \<open>The loop over the records: the batch so far is \<open>b\<close>.\<close>

fun scan_records :: "ustr \<Rightarrow> int \<Rightarrow> built_batch \<Rightarrow> spool_record list \<Rightarrow> scan res" where
  "scan_records tab limit_bytes b [] = Inr (Built b)"
| "scan_records tab limit_bytes b (r # rs) =
     (case encode_record tab (sr_payload r) of
        Inl e \<Rightarrow>
          if isinstance e EventEnvelopeError \<or> isinstance e IlpEncodingError then
            Inr (if bb_payload b \<noteq> [] then Built b else Undecodable r e)
          else Inl e
      | Inr enc \<Rightarrow>
          if int (length (bb_payload b)) + int (length enc) > limit_bytes then
            (if bb_payload b = [] then
               Inl (mk_exn WorkerConfigurationError (lit ''encoded event is '' @ int_str (int (length enc)) @
                 lit '' bytes; delivery batch limit is '' @ int_str limit_bytes))
             else Inr (Built b))
          else scan_records tab limit_bytes
            \<lparr>bb_payload = bb_payload b @ enc, bb_sequences = bb_sequences b @ [sr_sequence r],
             bb_uncertain = bb_uncertain b @ (if sr_uncertain r then [sr_sequence r] else [])\<rparr> rs)"

definition empty_batch :: built_batch where
  "empty_batch = \<lparr>bb_payload = [], bb_sequences = [], bb_uncertain = []\<rparr>"

text \<open>\<open>None\<close> when the dead-letter store refused the row.\<close>

definition bury_undecodable :: "spool_record \<Rightarrow> exn \<Rightarrow> built_batch option worker_prog" where
  "bury_undecodable r e =
     bindP (ask_env wall_time_ns) (\<lambda>failed_ns.
     bindP (catchP
         (bindP (on_spool (move_to_dead_letter [sr_sequence r] (exn_text e) failed_ns False)) (\<lambda>m. returnP (Inr m)))
         (\<lambda>x. if isinstance x DeadLetterFullError then returnP (Inl x) else raiseP x)) (\<lambda>res.
     case res of
       Inl x \<Rightarrow> bindP (set_delivery_state BLOCKED (Some (exn_text x)) None None) (\<lambda>_. returnP None)
     | Inr (moved, evicted) \<Rightarrow>
         bindP (count_dead_letter_move moved evicted) (\<lambda>_.
         bindP (set_delivery_state RUNNING (Some (exn_text e)) None None) (\<lambda>_.
         returnP (Some empty_batch)))))"

definition build_batch :: "bool \<Rightarrow> built_batch option worker_prog" where
  "build_batch isolate =
     bindP (getP (\<lambda>w. (if isolate then 1 else delivery_batch_rows (settings w)))) (\<lambda>max_rows.
     bindP (on_spool (peek_batch max_rows MAX_SQLITE_BATCH_BYTES)) (\<lambda>records.
       if records = [] then returnP None
       else
         bindP (getP (\<lambda>w. scan_records (table w) (delivery_batch_bytes (settings w)) empty_batch records)) (\<lambda>scanned.
         case scanned of
           Inl e \<Rightarrow> raiseP e
         | Inr (Built b) \<Rightarrow> returnP (Some b)
         | Inr (Undecodable r e) \<Rightarrow> bury_undecodable r e)))"

subsection \<open>One delivery\<close>

datatype outcome =
  OutcomeRetry rat | OutcomeBlocked | OutcomeDeadLetter | OutcomeSplit | OutcomeSuccess

text \<open>\<open>_deliver_once\<close> up to the call of \<open>send_batch\<close>: the batch to send, or the outcome.\<close>

definition deliver_begin :: "bool \<Rightarrow> backoff \<Rightarrow> (built_batch + outcome) worker_prog" where
  "deliver_begin isolate b =
     bindP (build_batch isolate) (\<lambda>built.
     case built of
       None \<Rightarrow>
         bindP (next_retry_delay b) (\<lambda>delay.
         bindP (getP (\<lambda>w. case last_error w of
             Some m \<Rightarrow> if m = [] then lit ''dead-letter move failed'' else m
           | None \<Rightarrow> lit ''dead-letter move failed'')) (\<lambda>err.
         bindP count_retry (\<lambda>_.
         bindP (set_delivery_state RETRY_WAIT (Some err) (Some delay) None) (\<lambda>_.
         returnP (Inr (OutcomeRetry delay))))))
     | Some batch \<Rightarrow> returnP (if bb_sequences batch = [] then Inr OutcomeDeadLetter else Inl batch))"

definition retry_later :: "backoff \<Rightarrow> exn \<Rightarrow> outcome worker_prog" where
  "retry_later b e =
     bindP (next_retry_delay b) (\<lambda>delay.
     bindP count_retry (\<lambda>_.
     bindP (set_delivery_state RETRY_WAIT (Some (exn_text e)) (Some delay) None) (\<lambda>_.
     returnP (OutcomeRetry delay))))"

text \<open>A rejected single row (HTTP 400).\<close>

definition bury_rejected :: "backoff \<Rightarrow> built_batch \<Rightarrow> exn \<Rightarrow> outcome worker_prog" where
  "bury_rejected b batch e =
     bindP (ask_env wall_time_ns) (\<lambda>failed_ns.
     bindP (catchP
         (bindP (on_spool (move_to_dead_letter (bb_sequences batch) (exn_text e) failed_ns (exn_uncertain e)))
            (\<lambda>m. returnP (Inr m)))
         (\<lambda>x. if isinstance x DeadLetterFullError then returnP (Inl x) else raiseP x)) (\<lambda>res.
     case res of
       Inl x \<Rightarrow> retry_later b x
     | Inr (moved, evicted) \<Rightarrow>
         bindP (count_dead_letter_move moved evicted) (\<lambda>_.
         bindP (set_delivery_state RUNNING (Some (exn_text e)) None None) (\<lambda>_.
         returnP OutcomeDeadLetter))))"

definition deliver_failed :: "backoff \<Rightarrow> built_batch \<Rightarrow> exn \<Rightarrow> outcome worker_prog" where
  "deliver_failed b batch e =
     (if isinstance e AuthenticationIlpError then
        bindP (set_delivery_state BLOCKED (Some (exn_text e)) None (Some BlockAuth)) (\<lambda>_.
        returnP OutcomeBlocked)
      else if isinstance e RetryableIlpError then
        bindP (on_spool (record_attempt (bb_sequences batch) (exn_text e) (exn_uncertain e))) (\<lambda>_.
        retry_later b e)
      else if isinstance e PermanentIlpError then
        bindP (reset_backoff b) (\<lambda>_.
        if exn_status e = Some 400 \<and> length (bb_sequences batch) > 1 then
          bindP (on_spool (record_attempt (bb_sequences batch) (exn_text e) (exn_uncertain e))) (\<lambda>_.
          bindP (set_delivery_state RUNNING (Some (exn_text e)) None None) (\<lambda>_.
          returnP OutcomeSplit))
        else if exn_status e = Some 400 then bury_rejected b batch e
        else
          bindP (set_delivery_state BLOCKED (Some (exn_text e)) None None) (\<lambda>_.
          returnP OutcomeBlocked))
      else raiseP e)"

definition deliver_succeeded :: "backoff \<Rightarrow> built_batch \<Rightarrow> outcome worker_prog" where
  "deliver_succeeded b batch =
     bindP (on_spool (mark_delivered (bb_sequences batch))) (\<lambda>_.
     bindP (reset_backoff b) (\<lambda>_.
     bindP resume_after_storage_block (\<lambda>_.
     bindP (ask_env wall_time_ns) (\<lambda>ts.
     bindP (modifyP (\<lambda>w. w\<lparr>delivered_events := delivered_events w + int (length (bb_sequences batch)),
         uncertain_delivered_events := uncertain_delivered_events w + int (length (bb_uncertain batch)),
         last_success_ns := Some ts\<rparr>)) (\<lambda>_.
     bindP (set_delivery_state RUNNING None None None) (\<lambda>_.
     returnP OutcomeSuccess))))))"

text \<open>\<open>_deliver_once\<close> after the call of \<open>send_batch\<close>, which returned or raised \<open>answer\<close>.\<close>

definition deliver_finish :: "backoff \<Rightarrow> built_batch \<Rightarrow> unit res \<Rightarrow> outcome worker_prog" where
  "deliver_finish b batch answer =
     (case answer of
        Inl e \<Rightarrow> deliver_failed b batch e
      | Inr _ \<Rightarrow> deliver_succeeded b batch)"

subsection \<open>The delivery loop\<close>

datatype delivery_next = NextPass | NextWait rat | NextEnsure | NextSend built_batch | NextReturn

definition after_outcome :: "outcome \<Rightarrow> unit worker_prog" where
  "after_outcome out =
     bindP spool_stats_now (\<lambda>st.
     bindP (case out of
         OutcomeRetry delay \<Rightarrow> bindP (ask_env monotonic) (\<lambda>t. modifyP (\<lambda>w. w\<lparr>retry_at := Some (t + delay)\<rparr>))
       | OutcomeBlocked \<Rightarrow> modifyP (\<lambda>w. w\<lparr>d_blocked := True, retry_at := None\<rparr>)
       | _ \<Rightarrow> modifyP (\<lambda>w. w\<lparr>retry_at := None\<rparr>)) (\<lambda>_.
     bindP (modifyP (\<lambda>w. w\<lparr>isolate_next := (out = OutcomeSplit)\<rparr>)) (\<lambda>_.
     if out = OutcomeSuccess \<or> out = OutcomeDeadLetter then
       (if pending_rows st \<noteq> 0 then
          bindP (ask_env monotonic) (\<lambda>t.
          modifyP (\<lambda>w. w\<lparr>pending_since := Some (t - flush_interval_seconds (settings w))\<rparr>))
        else modifyP (\<lambda>w. w\<lparr>pending_since := None\<rparr>))
     else returnP ())))"

text \<open>The \<open>try\<close> around \<open>_deliver_once\<close>, for either half of it.\<close>

definition deliver_attempt :: "(built_batch + outcome) worker_prog \<Rightarrow> delivery_next worker_prog" where
  "deliver_attempt m =
     bindP (catchP (bindP m (\<lambda>x. returnP (Some x))) (\<lambda>e.
       if isinstance e SpoolStorageError then
         bindP (block_on_storage (storage_block_reason e) (exn_text e)) (\<lambda>_.
         bindP (ask_env monotonic) (\<lambda>t.
         bindP (next_retry_delay LoopBackoff) (\<lambda>delay.
         bindP (modifyP (\<lambda>w. w\<lparr>retry_at := Some (t + delay)\<rparr>)) (\<lambda>_. returnP None))))
       else raiseP e)) (\<lambda>res.
     case res of
       None \<Rightarrow> returnP NextPass
     | Some (Inl batch) \<Rightarrow> returnP (NextSend batch)
     | Some (Inr out) \<Rightarrow> bindP (after_outcome out) (\<lambda>_. returnP NextPass))"

definition flush_due :: "worker \<Rightarrow> rat \<Rightarrow> spool_stats \<Rightarrow> bool" where
  "flush_due w t st \<longleftrightarrow>
     pending_rows st \<ge> delivery_batch_rows (settings w) \<or>
     pending_bytes st \<ge> delivery_batch_bytes (settings w) \<or>
     (case pending_since w of None \<Rightarrow> False | Some since \<Rightarrow> t - since \<ge> flush_interval_seconds (settings w))"

definition delivery_due :: "worker \<Rightarrow> rat \<Rightarrow> spool_stats \<Rightarrow> bool" where
  "delivery_due w t st \<longleftrightarrow>
     pending_rows st > 0 \<and> \<not> d_blocked w \<and>
     (case retry_at w of None \<Rightarrow> True | Some r \<Rightarrow> t \<ge> r) \<and>
     (flush_due w t st \<or> (pending_rows st > 0 \<and> ingress w = [] \<and> held_unpersisted w = 0))"

definition wait_delay :: "worker \<Rightarrow> rat \<Rightarrow> rat \<Rightarrow> rat" where
  "wait_delay w t t' =
     (let flush = flush_interval_seconds (settings w);
          wait_until = [t + flush] @
            (case pending_since w of None \<Rightarrow> []
             | Some since \<Rightarrow> if since + flush > t then [since + flush] else []) @
            (case retry_at w of None \<Rightarrow> [] | Some r \<Rightarrow> if r > t then [r] else [])
      in max 0 (min_list wait_until - t'))"

text \<open>The loop body after the schema gate, to the next \<open>await\<close> or the end of the pass.\<close>

definition deliver_rest :: "delivery_next worker_prog" where
  "deliver_rest =
     bindP (ask_env monotonic) (\<lambda>t.
     bindP spool_stats_now (\<lambda>st.
     bindP (modifyP (\<lambda>w. w\<lparr>pending_since :=
         (if pending_rows st = 0 then None
          else case pending_since w of None \<Rightarrow> Some t | Some since \<Rightarrow> Some since)\<rparr>)) (\<lambda>_.
     bindP (getP (\<lambda>w. (delivery_due w t st, isolate_next w))) (\<lambda>(due, isolate).
       if due then deliver_attempt (deliver_begin isolate LoopBackoff)
       else
         bindP (ask_env monotonic) (\<lambda>t'.
         bindP (getP (\<lambda>w. wait_delay w t t')) (\<lambda>delay.
         bindP (modifyP (\<lambda>w. w\<lparr>wake_deliver := False\<rparr>)) (\<lambda>_.
         returnP (NextWait delay))))))))"

definition deliver_pass :: "delivery_next worker_prog" where
  "deliver_pass =
     bindP (getP stop_async) (\<lambda>stopping.
       if stopping then returnP NextReturn
       else
         bindP (getP (\<lambda>w. (schema_ready w, has_schema w))) (\<lambda>(ready, with_schema).
           if ready then deliver_rest
           else if \<not> with_schema then bindP (modifyP (\<lambda>w. w\<lparr>schema_ready := True\<rparr>)) (\<lambda>_. deliver_rest)
           else returnP NextEnsure))"

text \<open>\<open>_ensure_schema\<close> after the call of \<open>ensure\<close>; \<open>None\<close> is its \<open>True\<close>.\<close>

definition ensure_finish :: "unit res \<Rightarrow> rat option worker_prog" where
  "ensure_finish answer =
     (case answer of
        Inl e \<Rightarrow>
          if isinstance e SchemaMismatchError \<or> isinstance e PermanentIlpError then
            bindP (set_delivery_state BLOCKED (Some (exn_text e)) None None) (\<lambda>_.
            bindP (modifyP (\<lambda>w. w\<lparr>wake_deliver := False\<rparr>)) (\<lambda>_.
            getP (\<lambda>w. Some (retry_max_seconds (settings w)))))
          else if isinstance e RetryableIlpError then
            bindP (next_retry_delay LoopBackoff) (\<lambda>delay.
            bindP count_retry (\<lambda>_.
            bindP (set_delivery_state RETRY_WAIT (Some (exn_text e)) (Some delay) None) (\<lambda>_.
            bindP (modifyP (\<lambda>w. w\<lparr>wake_deliver := False\<rparr>)) (\<lambda>_.
            returnP (Some delay)))))
          else raiseP e
      | Inr _ \<Rightarrow>
          bindP (reset_backoff LoopBackoff) (\<lambda>_.
          bindP (set_delivery_state RUNNING None None None) (\<lambda>_.
          returnP None)))"

definition after_ensure :: "unit res \<Rightarrow> delivery_next worker_prog" where
  "after_ensure answer =
     bindP (ensure_finish answer) (\<lambda>res.
     case res of
       Some delay \<Rightarrow> returnP (NextWait delay)
     | None \<Rightarrow> bindP (modifyP (\<lambda>w. w\<lparr>schema_ready := True\<rparr>)) (\<lambda>_. deliver_rest))"

definition after_send :: "built_batch \<Rightarrow> unit res \<Rightarrow> delivery_next worker_prog" where
  "after_send batch answer =
     deliver_attempt (bindP (deliver_finish LoopBackoff batch answer) (\<lambda>out. returnP (Inr out)))"

text \<open>Where the coroutine stands after running \<open>m\<close>.\<close>

definition delivery_run :: "delivery_next worker_prog \<Rightarrow> worker \<Rightarrow> worker" where
  "delivery_run m w =
     (case m w of
        (Inl e, w') \<Rightarrow> w'\<lparr>delivery_task := DeliverRaised e\<rparr>
      | (Inr NextReturn, w') \<Rightarrow> w'\<lparr>delivery_task := DeliverReturned\<rparr>
      | (Inr NextEnsure, w') \<Rightarrow> w'\<lparr>delivery_task := DeliverEnsuring\<rparr>
      | (Inr (NextSend batch), w') \<Rightarrow> w'\<lparr>delivery_task := DeliverSending batch\<rparr>
      | (Inr _, w') \<Rightarrow> w'\<lparr>delivery_task := DeliverLooping\<rparr>)"

definition delivery_step :: "worker \<Rightarrow> worker" where
  "delivery_step w =
     (case delivery_task w of
        DeliverLooping \<Rightarrow> delivery_run deliver_pass w
      | DeliverEnsured answer \<Rightarrow> delivery_run (after_ensure answer) w
      | DeliverSent batch answer \<Rightarrow> delivery_run (after_send batch answer) w
      | _ \<Rightarrow> w)"

subsection \<open>The executor thread\<close>

definition run_ensure :: "worker \<Rightarrow> unit res \<times> worker" where
  "run_ensure w = (case ensure_table (table w) (schema_manager w) of (r, sm) \<Rightarrow> (r, w\<lparr>schema_manager := sm\<rparr>))"

definition run_send :: "built_batch \<Rightarrow> worker \<Rightarrow> unit res \<times> worker" where
  "run_send batch w = (case send_batch (bb_payload batch) (transport w) of (r, t) \<Rightarrow> (r, w\<lparr>transport := t\<rparr>))"

definition executor_delivery :: "worker \<Rightarrow> worker" where
  "executor_delivery w =
     (case delivery_task w of
        DeliverEnsuring \<Rightarrow> (case run_ensure w of (r, w') \<Rightarrow> w'\<lparr>delivery_task := DeliverEnsured r\<rparr>)
      | DeliverSending batch \<Rightarrow> (case run_send batch w of (r, w') \<Rightarrow> w'\<lparr>delivery_task := DeliverSent batch r\<rparr>)
      | _ \<Rightarrow> w)"

definition executor_main :: "worker \<Rightarrow> worker" where
  "executor_main w =
     (case main_task w of
        MainFlushEnsuring \<Rightarrow> (case run_ensure w of (r, w') \<Rightarrow> w'\<lparr>main_task := MainFlushEnsured r\<rparr>)
      | MainFlushSending batch \<Rightarrow> (case run_send batch w of (r, w') \<Rightarrow> w'\<lparr>main_task := MainFlushSent batch r\<rparr>)
      | _ \<Rightarrow> w)"

subsection \<open>The main coroutine\<close>

definition task_exited :: exn where
  "task_exited = mk_exn WorkerError (lit ''worker task exited before stop was requested'')"

text \<open>\<open>_async_main\<close> when its first \<open>asyncio.wait\<close> ends; it sleeps on while nothing has happened.\<close>

definition main_observe :: "worker \<Rightarrow> worker" where
  "main_observe w =
     (if stop_async w then w\<lparr>w_state := STOPPING, accepting := False, main_task := MainAwaitPersist\<rparr>
      else case persist_task w of
          PersistRaised e \<Rightarrow> w\<lparr>main_task := MainEnded (Some e)\<rparr>
        | PersistReturned \<Rightarrow> (case delivery_task w of
              DeliverRaised e \<Rightarrow> w\<lparr>main_task := MainEnded (Some e)\<rparr>
            | _ \<Rightarrow> w\<lparr>main_task := MainEnded (Some task_exited)\<rparr>)
        | PersistLooping \<Rightarrow> (case delivery_task w of
              DeliverRaised e \<Rightarrow> w\<lparr>main_task := MainEnded (Some e)\<rparr>
            | DeliverReturned \<Rightarrow> w\<lparr>main_task := MainEnded (Some task_exited)\<rparr>
            | _ \<Rightarrow> w))"

definition main_run :: "main_task worker_prog \<Rightarrow> worker \<Rightarrow> worker" where
  "main_run m w =
     (case m w of
        (Inl e, w') \<Rightarrow> w'\<lparr>main_task := MainEnded (Some e)\<rparr>
      | (Inr mt, w') \<Rightarrow> w'\<lparr>main_task := mt\<rparr>)"

definition flush_begin :: "main_task worker_prog" where
  "flush_begin =
     bindP (reset_backoff FlushBackoff) (\<lambda>_.
     bindP (deliver_begin False FlushBackoff) (\<lambda>res.
     returnP (case res of Inl batch \<Rightarrow> MainFlushSending batch | Inr _ \<Rightarrow> MainCancelling)))"

definition flush_check :: "main_task worker_prog" where
  "flush_check =
     bindP (getP (flush_on_shutdown \<circ> settings)) (\<lambda>flush.
       if flush then
         bindP (on_spool current_stats) (\<lambda>st.
         bindP (getP has_schema) (\<lambda>with_schema.
           if pending_rows st = 0 then returnP MainCancelling
           else if with_schema then returnP MainFlushEnsuring
           else flush_begin))
       else returnP MainCancelling)"

definition flush_checked :: "unit res \<Rightarrow> main_task worker_prog" where
  "flush_checked answer =
     (case answer of
        Inl e \<Rightarrow> if isinstance e IlpTransportError \<or> isinstance e SchemaError then returnP MainCancelling
               else raiseP e
      | Inr _ \<Rightarrow> flush_begin)"

definition flush_sent :: "built_batch \<Rightarrow> unit res \<Rightarrow> main_task worker_prog" where
  "flush_sent batch answer =
     bindP (deliver_finish FlushBackoff batch answer) (\<lambda>_. returnP MainCancelling)"

text \<open>Cancelling a task that has ended does nothing; awaiting it raises what it raised.\<close>

definition main_cancel :: "worker \<Rightarrow> worker" where
  "main_cancel w =
     (case delivery_task w of
        DeliverRaised e \<Rightarrow> w\<lparr>main_task := MainEnded (Some e)\<rparr>
      | DeliverReturned \<Rightarrow> w\<lparr>main_task := MainEnded None\<rparr>
      | _ \<Rightarrow> w\<lparr>delivery_task := DeliverCancelled, main_task := MainEnded None\<rparr>)"

definition main_step :: "worker \<Rightarrow> worker" where
  "main_step w =
     (case main_task w of
        MainWaiting \<Rightarrow> main_observe w
      | MainAwaitPersist \<Rightarrow>
          (case persist_task w of
             PersistRaised e \<Rightarrow> w\<lparr>main_task := MainEnded (Some e)\<rparr>
           | PersistReturned \<Rightarrow> main_run flush_check w
           | PersistLooping \<Rightarrow> w)
      | MainFlushEnsured answer \<Rightarrow> main_run (flush_checked answer) w
      | MainFlushSent batch answer \<Rightarrow> main_run (flush_sent batch answer) w
      | MainCancelling \<Rightarrow> main_cancel w
      | MainEnded failed \<Rightarrow> run_finally failed w
      | _ \<Rightarrow> w)"

end
