(* ===== verification/Frames.thy ===== *)
theory Frames
  imports QdbPrelude
begin

section \<open>What a program leaves alone\<close>

text \<open>
  \<open>keeps f m\<close>: whatever \<open>m\<close> does, a value or an exception, the part \<open>f\<close> of the state is as before.
  \<open>moves R m\<close>: the states before and after are related by \<open>R\<close>. Both follow the structure of a
  program, so that one \<open>intro\<close> settles a whole method.
\<close>

definition moves :: "('s \<Rightarrow> 's \<Rightarrow> bool) \<Rightarrow> ('s, 'a) prog \<Rightarrow> bool" where
  "moves R m \<longleftrightarrow> (\<forall>s. R s (snd (m s)))"

definition keeps :: "('s \<Rightarrow> 'f) \<Rightarrow> ('s, 'a) prog \<Rightarrow> bool" where
  "keeps f m \<longleftrightarrow> (\<forall>s. f (snd (m s)) = f s)"

named_theorems keeps_intros \<open>rules for keeps\<close>

lemma keepsD: "keeps f m \<Longrightarrow> m s = (r, s') \<Longrightarrow> f s' = f s"
  unfolding keeps_def by (metis snd_conv)

lemma keeps_snd: "keeps f m \<Longrightarrow> f (snd (m s)) = f s"
  by (simp add: keeps_def)

lemma keeps_return [keeps_intros]: "keeps f (returnP x)"
  by (simp add: keeps_def)

lemma keeps_raise [keeps_intros]: "keeps f (raiseP e)"
  by (simp add: keeps_def)

lemma keeps_get [keeps_intros]: "keeps f (getP g)"
  by (simp add: keeps_def)

lemma keeps_modify [keeps_intros]: "(\<And>s. f (g s) = f s) \<Longrightarrow> keeps f (modifyP g)"
  by (simp add: keeps_def)

lemma keeps_bind [keeps_intros]:
  "keeps f m \<Longrightarrow> (\<And>x. keeps f (k x)) \<Longrightarrow> keeps f (bindP m k)"
  unfolding keeps_def bindP_def by (auto split: prod.splits sum.splits) (metis snd_conv)+

lemma keeps_catch [keeps_intros]:
  "keeps f m \<Longrightarrow> (\<And>e. keeps f (h e)) \<Longrightarrow> keeps f (catchP m h)"
  unfolding keeps_def catchP_def by (auto split: prod.splits sum.splits) (metis snd_conv)+

lemma keeps_for [keeps_intros]: "(\<And>x. keeps f (g x)) \<Longrightarrow> keeps f (forP g xs)"
  by (induction xs) (auto intro: keeps_intros)

lemma keeps_when [keeps_intros]: "keeps f m \<Longrightarrow> keeps f (whenP b m)"
  by (simp add: whenP_def keeps_return)

lemma keeps_if [keeps_intros]: "keeps f m \<Longrightarrow> keeps f m' \<Longrightarrow> keeps f (if b then m else m')"
  by simp

lemma keeps_option [keeps_intros]:
  "keeps f m \<Longrightarrow> (\<And>x. keeps f (k x)) \<Longrightarrow> keeps f (case a of None \<Rightarrow> m | Some x \<Rightarrow> k x)"
  by (cases a) auto

lemma keeps_sum [keeps_intros]:
  "(\<And>x. keeps f (h x)) \<Longrightarrow> (\<And>x. keeps f (k x)) \<Longrightarrow> keeps f (case a of Inl x \<Rightarrow> h x | Inr x \<Rightarrow> k x)"
  by (cases a) auto

lemma keeps_prod [keeps_intros]: "(\<And>x y. keeps f (k x y)) \<Longrightarrow> keeps f (case a of (x, y) \<Rightarrow> k x y)"
  by (cases a) auto

lemma moves_if:
  "(b \<Longrightarrow> moves R m) \<Longrightarrow> (\<not> b \<Longrightarrow> moves R m') \<Longrightarrow> moves R (if b then m else m')"
  by simp

lemma moves_option:
  "moves R m \<Longrightarrow> (\<And>x. moves R (k x)) \<Longrightarrow> moves R (case a of None \<Rightarrow> m | Some x \<Rightarrow> k x)"
  by (cases a) auto

lemma moves_sum:
  "(\<And>x. moves R (h x)) \<Longrightarrow> (\<And>x. moves R (k x)) \<Longrightarrow> moves R (case a of Inl x \<Rightarrow> h x | Inr x \<Rightarrow> k x)"
  by (cases a) auto

lemma moves_prod: "(\<And>x y. moves R (k x y)) \<Longrightarrow> moves R (case a of (x, y) \<Rightarrow> k x y)"
  by (cases a) auto

text \<open>The same for a reflexive and transitive relation.\<close>

locale journey =
  fixes R :: "'s \<Rightarrow> 's \<Rightarrow> bool"
  assumes R_refl: "R s s"
    and R_trans: "R s t \<Longrightarrow> R t u \<Longrightarrow> R s u"
begin

lemma moves_return: "moves R (returnP x)"
  by (simp add: moves_def R_refl)

lemma moves_raise: "moves R (raiseP e)"
  by (simp add: moves_def R_refl)

lemma moves_get: "moves R (getP g)"
  by (simp add: moves_def R_refl)

lemma moves_modify: "(\<And>s. R s (g s)) \<Longrightarrow> moves R (modifyP g)"
  by (simp add: moves_def)

lemma moves_bind:
  assumes "moves R m" and "\<And>x. moves R (k x)"
  shows "moves R (bindP m k)"
  unfolding moves_def
proof
  fix s
  obtain r t where m: "m s = (r, t)" by (cases "m s")
  then have "R s t" using assms(1) unfolding moves_def by (metis snd_conv)
  then show "R s (snd (bindP m k s))"
    using m assms(2) R_trans by (cases r) (auto simp: bindP_def moves_def)
qed

lemma moves_catch:
  assumes "moves R m" and "\<And>e. moves R (h e)"
  shows "moves R (catchP m h)"
  unfolding moves_def
proof
  fix s
  obtain r t where m: "m s = (r, t)" by (cases "m s")
  then have "R s t" using assms(1) unfolding moves_def by (metis snd_conv)
  then show "R s (snd (catchP m h s))"
    using m assms(2) R_trans by (cases r) (auto simp: catchP_def moves_def)
qed

lemma moves_when: "moves R m \<Longrightarrow> moves R (whenP b m)"
  by (simp add: whenP_def moves_return)

lemma moves_for: "(\<And>x. moves R (g x)) \<Longrightarrow> moves R (forP g xs)"
  by (induction xs) (auto intro: moves_bind moves_return)

lemmas moves_intros = moves_return moves_raise moves_get moves_bind moves_catch
  moves_when moves_if moves_option moves_sum moves_prod moves_for

end

end
