(* ===== verification/EventStore.thy ===== *)
theory EventStore
  imports SpoolClaims Frames
begin

section \<open>The interface between the worker and its spool\<close>

text \<open>
  What \<open>SpoolHandle\<close> of worker.py promises the worker, as laws: every writing call is one atomic
  step of the abstract queue or changes nothing. The worker's proofs use the lemmas of the locale;
  \<open>SQLiteSpool\<close> provides it at the end of the theory.
\<close>

definition queue_ok :: "queue \<Rightarrow> bool" where
  "queue_ok q \<longleftrightarrow> distinct (map p_sequence (q_pending q)) \<and> distinct (map p_event_id (q_pending q)) \<and>
     (\<forall>r \<in> set (q_pending q). p_sequence r \<le> q_next q) \<and> distinct (map d_id (q_dead q)) \<and>
     distinct (map d_event_id (q_dead q)) \<and> (\<forall>r \<in> set (q_dead q). d_id r \<le> q_dead_next q)"

text \<open>The queue has the event, with its content: pending or as a dead letter.\<close>

definition row_holds :: "new_spool_event \<Rightarrow> pending_row \<Rightarrow> bool" where
  "row_holds ev r \<longleftrightarrow> p_event_id r = ne_event_id ev \<and> p_payload r = ne_payload ev \<and>
     p_created_ns r = ne_created_ns ev"

definition dead_holds :: "new_spool_event \<Rightarrow> dead_row \<Rightarrow> bool" where
  "dead_holds ev r \<longleftrightarrow> d_event_id r = ne_event_id ev \<and> d_payload r = ne_payload ev \<and>
     d_created_ns r = ne_created_ns ev"

definition holds :: "queue \<Rightarrow> new_spool_event \<Rightarrow> bool" where
  "holds q ev \<longleftrightarrow> (\<exists>r \<in> set (q_pending q). row_holds ev r) \<or> (\<exists>r \<in> set (q_dead q). dead_holds ev r)"

lemma find_SomeD: "find P xs = Some x \<Longrightarrow> x \<in> set xs \<and> P x"
  by (induction xs) (auto split: if_splits)

lemma holds_if_stored:
  assumes "q_stored q (ne_event_id ev) = Some (ne_payload ev, ne_created_ns ev)"
  shows "holds q ev"
proof (cases "find (\<lambda>r. p_event_id r = ne_event_id ev) (q_pending q)")
  case None
  then obtain r where "find (\<lambda>r. d_event_id r = ne_event_id ev) (q_dead q) = Some r"
      "d_payload r = ne_payload ev" "d_created_ns r = ne_created_ns ev"
    using assms by (auto simp: q_stored_def)
  then show ?thesis using find_SomeD by (fastforce simp: holds_def dead_holds_def)
next
  case (Some r)
  then have "r \<in> set (q_pending q)" "row_holds ev r"
    using assms find_SomeD [OF Some] by (simp_all add: q_stored_def row_holds_def)
  then show ?thesis by (auto simp: holds_def)
qed

definition grows :: "queue \<Rightarrow> queue \<Rightarrow> bool" where
  "grows q q' \<longleftrightarrow> q_dead q' = q_dead q \<and> q_next q \<le> q_next q' \<and>
     (\<exists>new. q_pending q' = q_pending q @ new \<and> (\<forall>r \<in> set new. q_next q < p_sequence r))"

lemma grows_refl [simp]: "grows q q"
  by (simp add: grows_def)

lemma grows_trans:
  assumes "grows q1 q2" and "grows q2 q3"
  shows "grows q1 q3"
proof -
  obtain a where a: "q_pending q2 = q_pending q1 @ a" "\<forall>r \<in> set a. q_next q1 < p_sequence r"
    using assms(1) by (auto simp: grows_def)
  obtain b where b: "q_pending q3 = q_pending q2 @ b" "\<forall>r \<in> set b. q_next q2 < p_sequence r"
    using assms(2) by (auto simp: grows_def)
  have "q_pending q3 = q_pending q1 @ (a @ b) \<and> (\<forall>r \<in> set (a @ b). q_next q1 < p_sequence r)"
    using a b assms(1) by (auto simp: grows_def)
  then show ?thesis using assms unfolding grows_def by fastforce
qed

lemma grows_holds: "grows q q' \<Longrightarrow> holds q ev \<Longrightarrow> holds q' ev"
  by (auto simp: grows_def holds_def)

lemma numbered_after: "r \<in> set (numbered n evs) \<Longrightarrow> n < p_sequence r"
proof (induction evs arbitrary: n)
  case (Cons ev evs)
  show ?case
  proof (cases "r \<in> set (numbered (n + 1) evs)")
    case True
    then show ?thesis using Cons.IH [of "n + 1"] by simp
  next
    case False
    then show ?thesis using Cons.prems by (simp add: new_pending_row_def)
  qed
qed simp

lemma spec_enqueue_grows: "spec_enqueue evs L q = Inr (n, q') \<Longrightarrow> grows q q'"
  using enqueue_Inr [of evs L q n q'] by (auto simp: grows_def numbered_after)

text \<open>One row taken from the pending rows to the dead letters.\<close>

definition buried :: "int \<Rightarrow> nat \<Rightarrow> queue \<Rightarrow> queue \<Rightarrow> bool" where
  "buried seq n q q' \<longleftrightarrow>
     (\<exists>r d. r \<in> set (q_pending q) \<and> p_sequence r = seq \<and>
        d_event_id d = p_event_id r \<and> d_payload d = p_payload r \<and> d_created_ns d = p_created_ns r \<and>
        q_pending q' = filter (\<lambda>x. p_sequence x \<noteq> seq) (q_pending q) \<and>
        n \<le> length (q_dead q) \<and> q_dead q' = drop n (q_dead q) @ [d] \<and> q_next q' = q_next q \<and>
        d_id d = q_dead_next q + 1)"

lemma spec_bury_one:
  assumes "spec_move_to_dead_letter [seq] err ns unc L q = Inr ((m, n), q')"
  shows "m = 1 \<and> buried seq n q q'"
proof -
  let ?r = "the (find (\<lambda>r. p_sequence r = seq) (q_pending q))"
  have found: "first_missing [seq] (p_sequence ` set (q_pending q)) = None"
    and mv: "spec_move_rows err ns unc L [?r] q = Inr (n, q')" and m: "m = 1"
    using assms by (auto simp: spec_move_to_dead_letter_def bindR_eq_Inr split: option.splits)
  then have "seq \<in> p_sequence ` set (q_pending q)" by (simp add: first_missing_def split: if_splits)
  then obtain x where "find (\<lambda>r. p_sequence r = seq) (q_pending q) = Some x"
    by (cases "find (\<lambda>r. p_sequence r = seq) (q_pending q)") (auto simp: find_None_iff)
  then have r: "?r \<in> set (q_pending q)" "p_sequence ?r = seq" using find_SomeD by fastforce+
  obtain kept where kept: "room_for L (blob_bytes (p_payload ?r)) (q_dead q) = Some kept"
      and n: "n = length (q_dead q) - length kept"
      and q': "q' = q\<lparr>q_pending := filter (\<lambda>x. p_sequence x \<noteq> p_sequence ?r) (q_pending q),
         q_dead := kept @ [(dead_row_of err ns unc (spool_record_of ?r))\<lparr>d_id := q_dead_next q + 1\<rparr>],
         q_dead_next := q_dead_next q + 1\<rparr>"
    using mv by (auto simp: Let_def bindR_eq_Inr split: option.splits if_splits)
  obtain k where "k \<le> length (q_dead q)" "kept = drop k (q_dead q)"
    using room_for_Some [OF kept] by blast
  then have "kept = drop n (q_dead q)" "n \<le> length (q_dead q)" using n by auto
  then show ?thesis using r m unfolding buried_def q'
    by (intro conjI exI [of _ ?r]
        exI [of _ "(dead_row_of err ns unc (spool_record_of ?r))\<lparr>d_id := q_dead_next q + 1\<rparr>"])
      (simp_all add: dead_row_of_def spool_record_of_def)
qed

lemma holds_buried:
  assumes "buried seq n q q'" and "distinct (map p_sequence (q_pending q))" and "holds q ev"
  shows "holds q' ev \<or> (\<exists>d \<in> set (take n (q_dead q)). dead_holds ev d)"
proof -
  obtain r d where b: "r \<in> set (q_pending q)" "p_sequence r = seq"
      "d_event_id d = p_event_id r" "d_payload d = p_payload r" "d_created_ns d = p_created_ns r"
      "q_pending q' = filter (\<lambda>x. p_sequence x \<noteq> seq) (q_pending q)"
      "q_dead q' = drop n (q_dead q) @ [d]"
    using assms(1) unfolding buried_def by blast
  from assms(3) consider (pending) x where "x \<in> set (q_pending q)" "row_holds ev x"
    | (dead) x where "x \<in> set (q_dead q)" "dead_holds ev x"
    by (auto simp: holds_def)
  then show ?thesis
  proof cases
    case pending
    show ?thesis
    proof (cases "p_sequence x = seq")
      case True
      then have "x = r" using pending b assms(2) by (auto simp: distinct_map dest: inj_onD)
      then have "dead_holds ev d" using pending b by (simp add: row_holds_def dead_holds_def)
      then show ?thesis using b by (auto simp: holds_def)
    next
      case False
      then show ?thesis using pending b by (auto simp: holds_def)
    qed
  next
    case dead
    then have "x \<in> set (take n (q_dead q)) \<or> x \<in> set (drop n (q_dead q))"
      by (metis append_take_drop_id Un_iff set_append)
    then show ?thesis using dead b by (auto simp: holds_def)
  qed
qed

definition touched :: "int list \<Rightarrow> ustr \<Rightarrow> bool \<Rightarrow> queue \<Rightarrow> queue \<Rightarrow> bool" where
  "touched seqs err unc q q' \<longleftrightarrow>
     q' = q\<lparr>q_pending := map (\<lambda>r. if p_sequence r \<in> set seqs then touch_row err unc r else r) (q_pending q)\<rparr>"

lemma holds_touched:
  assumes "touched seqs err unc q q'" and "holds q ev"
  shows "holds q' ev"
proof -
  let ?t = "\<lambda>r. if p_sequence r \<in> set seqs then touch_row err unc r else r"
  have same: "row_holds ev (?t r) = row_holds ev r" for r by (simp add: row_holds_def)
  have q': "q_pending q' = map ?t (q_pending q)" "q_dead q' = q_dead q"
    using assms(1) by (simp_all add: touched_def)
  have "(\<exists>r \<in> set (q_pending q'). row_holds ev r) = (\<exists>r \<in> set (q_pending q). row_holds ev r)"
    unfolding q' set_map bex_simps same ..
  then show ?thesis using assms(2) q'(2) unfolding holds_def by presburger
qed

definition removed :: "int list \<Rightarrow> queue \<Rightarrow> queue \<Rightarrow> bool" where
  "removed seqs q q' \<longleftrightarrow> set seqs \<subseteq> p_sequence ` set (q_pending q) \<and>
     q' = q\<lparr>q_pending := filter (\<lambda>r. p_sequence r \<notin> set seqs) (q_pending q)\<rparr>"

lemma spec_mark_removed:
  "spec_mark_delivered seqs L q = Inr (n, q') \<Longrightarrow> n = length seqs \<and> removed seqs q q'"
  by (auto simp: spec_mark_delivered_def bindR_eq_Inr removed_def first_missing_def find_None_iff
      split: option.splits)

lemma spec_attempt_touched:
  "spec_record_attempt seqs err unc L q = Inr (n, q') \<Longrightarrow> touched seqs err unc q q'"
  by (auto simp: spec_record_attempt_def bindR_eq_Inr touched_def split: option.splits)

lemma holds_removed:
  assumes "removed seqs q q'" and "holds q ev"
  shows "holds q' ev \<or> (\<exists>r \<in> set (q_pending q). p_sequence r \<in> set seqs \<and> row_holds ev r)"
  using assms by (auto simp: removed_def holds_def)

subsection \<open>The laws\<close>

definition atomic_on ::
    "('s \<Rightarrow> bool) \<Rightarrow> ('s \<Rightarrow> queue) \<Rightarrow> ('s \<Rightarrow> limits) \<Rightarrow> ('s, 'a) prog \<Rightarrow>
     (limits \<Rightarrow> queue \<Rightarrow> exn + ('a \<times> queue)) \<Rightarrow> bool" where
  "atomic_on ok view caps m spec \<longleftrightarrow> (\<forall>s r s'. ok s \<longrightarrow> m s = (r, s') \<longrightarrow> ok s' \<and> caps s' = caps s \<and>
     (case r of Inl _ \<Rightarrow> view s' = view s | Inr x \<Rightarrow> spec (caps s) (view s) = Inr (x, view s')))"

locale event_store =
  fixes ok :: "'s \<Rightarrow> bool" and view :: "'s \<Rightarrow> queue" and caps :: "'s \<Rightarrow> limits"
    and put :: "new_spool_event list \<Rightarrow> ('s, nat) prog"
    and drop_rows :: "int list \<Rightarrow> ('s, nat) prog"
    and note_attempt :: "int list \<Rightarrow> ustr \<Rightarrow> bool \<Rightarrow> ('s, nat) prog"
    and bury :: "int list \<Rightarrow> ustr \<Rightarrow> int \<Rightarrow> bool \<Rightarrow> ('s, nat \<times> nat) prog"
  assumes view_ok: "ok s \<Longrightarrow> queue_ok (view s)"
    and put_law: "atomic_on ok view caps (put evs) (spec_enqueue evs)"
    and drop_law: "atomic_on ok view caps (drop_rows seqs) (spec_mark_delivered seqs)"
    and attempt_law: "atomic_on ok view caps (note_attempt seqs err unc) (spec_record_attempt seqs err unc)"
    and bury_law: "atomic_on ok view caps (bury seqs err ns unc) (spec_move_to_dead_letter seqs err ns unc)"
begin

lemma put_grows:
  assumes "ok s" and "put evs s = (r, s')"
  shows "ok s' \<and> grows (view s) (view s') \<and> (\<forall>n. r = Inr n \<longrightarrow> (\<forall>ev \<in> set evs. holds (view s') ev))"
  using put_law [of evs] assms spec_enqueue_grows spec_enqueue_stores holds_if_stored
  by (cases r) (fastforce simp: atomic_on_def)+

lemma put_refused: "ok s \<Longrightarrow> put evs s = (Inl e, s') \<Longrightarrow> ok s' \<and> view s' = view s"
  using put_law [of evs] by (fastforce simp: atomic_on_def)

lemma drop_removes:
  assumes "ok s" and "drop_rows seqs s = (r, s')"
  shows "ok s' \<and> (case r of Inl _ \<Rightarrow> view s' = view s | Inr n \<Rightarrow> n = length seqs \<and> removed seqs (view s) (view s'))"
  using drop_law [of seqs] assms spec_mark_removed by (cases r) (fastforce simp: atomic_on_def)+

lemma attempt_touches:
  assumes "ok s" and "note_attempt seqs err unc s = (r, s')"
  shows "ok s' \<and> (case r of Inl _ \<Rightarrow> view s' = view s | Inr n \<Rightarrow> touched seqs err unc (view s) (view s'))"
  using attempt_law [of seqs err unc] assms spec_attempt_touched by (cases r) (fastforce simp: atomic_on_def)+

lemma bury_one:
  assumes "ok s" and "bury [seq] err ns unc s = (r, s')"
  shows "ok s' \<and> (case r of Inl _ \<Rightarrow> view s' = view s
    | Inr (m, n) \<Rightarrow> m = 1 \<and> buried seq n (view s) (view s'))"
  using bury_law [of "[seq]" err ns unc] assms spec_bury_one
  by (cases r) (fastforce simp: atomic_on_def split: prod.splits)+

text \<open>A row that was answered for twice is refused the second time, and nothing changes.\<close>

lemma drop_twice:
  assumes "ok s" and "drop_rows seqs s = (Inr n, s1)" and "seqs \<noteq> []"
  shows "\<exists>e s2. drop_rows seqs s1 = (Inl e, s2) \<and> view s2 = view s1 \<and> ok s2"
proof -
  have s1: "ok s1" "removed seqs (view s) (view s1)" using drop_removes [OF assms(1,2)] by simp_all
  obtain r s2 where d: "drop_rows seqs s1 = (r, s2)" by (cases "drop_rows seqs s1")
  note again = drop_removes [OF s1(1) d]
  show ?thesis
  proof (cases r)
    case (Inl e)
    then show ?thesis using d again by auto
  next
    case (Inr k)
    then have "set seqs \<subseteq> p_sequence ` set (q_pending (view s1))" using again by (simp add: removed_def)
    moreover have "set seqs \<inter> p_sequence ` set (q_pending (view s1)) = {}"
      using s1(2) by (auto simp: removed_def)
    ultimately show ?thesis using assms(3) by (cases seqs) auto
  qed
qed

end

subsection \<open>The spool provides the interface\<close>

lemma atomic_is_atomic_on: "atomic m spec \<Longrightarrow> atomic_on spool_ok stored limits m spec"
  unfolding atomic_on_def
proof (intro allI impI)
  fix s r s' assume a: "atomic m spec" "spool_ok s" "m s = (r, s')"
  show "spool_ok s' \<and> limits s' = limits s \<and>
     (case r of Inl _ \<Rightarrow> stored s' = stored s | Inr x \<Rightarrow> spec (limits s) (stored s) = Inr (x, stored s'))"
    using atomicD [OF a] by (cases r) (auto simp: same_store_def stored_def)
qed

lemma spool_queue_ok: "spool_ok s \<Longrightarrow> queue_ok (stored s)"
  by (auto simp: spool_ok_def tables_ok_def schema_ok_def queue_ok_def stored_def strict_sorted_iff)

interpretation spool_store: event_store spool_ok stored limits enqueue_many mark_delivered record_attempt
  move_to_dead_letter
  by unfold_locales
    (auto intro: spool_queue_ok atomic_is_atomic_on atomic_enqueue atomic_mark_delivered
      atomic_record_attempt atomic_move)

lemma spool_read:
  assumes "read_only m" and "spool_ok s" and "m s = (r, s')"
  shows "spool_ok s' \<and> stored s' = stored s"
  using assms unfolding read_only_def same_store_def stored_def by (metis snd_conv)

lemma spool_read_snd: "read_only m \<Longrightarrow> spool_ok s \<Longrightarrow> spool_ok (snd (m s)) \<and> stored (snd (m s)) = stored s"
  using spool_read [of m s "fst (m s)" "snd (m s)"] by simp

end
