(* ===== verification/WorkerFrames.thy ===== *)
theory WorkerFrames
  imports WorkerDelivery EventStore
begin

section \<open>What the worker's methods leave alone\<close>

text \<open>
  Three facts about every method of the two coroutines, each proved once along the structure of its
  program: which fields it does not touch (\<open>keeps\<close>), that it keeps the bookkeeping of the snapshot
  consistent (\<open>tidy\<close>), and, for the methods that only read the spool, that the stored events are
  the same afterwards.
\<close>

interpretation preserved: journey "\<lambda>s s'. P s \<longrightarrow> P s'" for P :: "'s \<Rightarrow> bool"
  by unfold_locales auto

abbreviation preserves :: "('s \<Rightarrow> bool) \<Rightarrow> ('s, 'a) prog \<Rightarrow> bool" where
  "preserves P m \<equiv> moves (\<lambda>s s'. P s \<longrightarrow> P s') m"

lemma preservesD: "preserves P m \<Longrightarrow> P s \<Longrightarrow> P (snd (m s))"
  by (simp add: moves_def)

subsection \<open>Fields\<close>

text \<open>Configuration, the two HTTP clients and the control flags: no coroutine method changes them,
  only the steps that start, stop and resume the coroutines.\<close>

definition control :: "worker \<Rightarrow> _" where
  "control w = ((table w, settings w, filesystem_guard w, has_schema w, env w),
     (transport w, schema_manager w, stop_requested w, stop_async w, shutdown_deadline w),
     (main_task w, persist_task w, delivery_task w, accepting w, failure w))"

text \<open>The path of an event from \<open>submit\<close> to the spool.\<close>

definition intake :: "worker \<Rightarrow> _" where
  "intake w = (ingress w, unfinished_tasks w, held w, held_unpersisted w, ingress_high_watermark w,
     submitted_events w, persisted_events w)"

definition outer :: "worker \<Rightarrow> _" where
  "outer w = (control w, intake w, schema_ready w)"

lemmas outer_defs = outer_def control_def intake_def

named_theorems keeps_outer

lemma outer_on_spool [keeps_outer]: "keeps outer (on_spool m)"
  by (simp add: keeps_def on_spool_app outer_defs)

lemma outer_ask_env [keeps_outer]: "keeps outer (ask_env f)"
  by (simp add: keeps_def outer_defs)

lemma outer_liftW [keeps_outer]: "keeps outer (liftW r)"
  by (simp add: keeps_def)

lemma outer_set_stats [keeps_outer]: "keeps outer (set_spool_stats st)"
  unfolding set_spool_stats_def by (intro keeps_intros) (simp add: outer_defs)

lemma outer_set_state [keeps_outer]: "keeps outer (set_delivery_state st err delay reason)"
  unfolding set_delivery_state_def by (intro keeps_intros keeps_outer) (simp_all add: outer_defs)

lemma outer_count_move [keeps_outer]: "keeps outer (count_dead_letter_move m n)"
  unfolding count_dead_letter_move_def by (intro keeps_intros) (simp add: outer_defs)

lemma outer_next_delay [keeps_outer]: "keeps outer (next_retry_delay b)"
  unfolding next_retry_delay_def by (intro keeps_intros keeps_outer) (simp add: outer_defs)

lemma outer_reset_backoff [keeps_outer]: "keeps outer (reset_backoff b)"
  unfolding reset_backoff_def by (intro keeps_intros) (simp add: outer_defs)

lemma outer_count_retry [keeps_outer]: "keeps outer count_retry"
  unfolding count_retry_def by (intro keeps_intros) (simp add: outer_defs)

lemma outer_stats_now [keeps_outer]: "keeps outer spool_stats_now"
  unfolding spool_stats_now_def by (intro keeps_intros keeps_outer)

lemma outer_block [keeps_outer]: "keeps outer (block_on_storage reason err)"
  unfolding block_on_storage_def by (intro keeps_intros keeps_outer) (simp add: outer_defs)

lemma outer_resume [keeps_outer]: "keeps outer resume_after_storage_block"
  unfolding resume_after_storage_block_def
  by (intro keeps_intros keeps_outer) (simp add: outer_defs)

lemma outer_check_storage [keeps_outer]: "keeps outer check_storage"
  unfolding check_storage_def by (intro keeps_intros keeps_outer) (simp add: outer_defs)

lemma outer_reclaim_call [keeps_outer]: "keeps outer (reclaim_call m)"
  unfolding reclaim_call_def by (intro keeps_intros keeps_outer)

lemma outer_reclaim [keeps_outer]: "keeps outer reclaim_spool"
  unfolding reclaim_spool_def by (intro keeps_intros keeps_outer) (simp_all add: outer_defs)

lemma outer_try_enqueue [keeps_outer]: "keeps outer (try_enqueue evs)"
  unfolding try_enqueue_def by (intro keeps_intros keeps_outer)

lemma outer_bury_undecodable [keeps_outer]: "keeps outer (bury_undecodable r e)"
  unfolding bury_undecodable_def by (intro keeps_intros keeps_outer)

lemma keeps_scan [keeps_intros]:
  "(\<And>b. keeps f (k b)) \<Longrightarrow> (\<And>r e. keeps f (h r e)) \<Longrightarrow>
     keeps f (case a of Built b \<Rightarrow> k b | Undecodable r e \<Rightarrow> h r e)"
  by (cases a) auto

lemma outer_build_batch [keeps_outer]: "keeps outer (build_batch isolate)"
  unfolding build_batch_def by (intro keeps_intros keeps_outer)

lemma outer_deliver_begin [keeps_outer]: "keeps outer (deliver_begin isolate b)"
  unfolding deliver_begin_def by (intro keeps_intros keeps_outer)

lemma outer_retry_later [keeps_outer]: "keeps outer (retry_later b e)"
  unfolding retry_later_def by (intro keeps_intros keeps_outer)

lemma outer_bury_rejected [keeps_outer]: "keeps outer (bury_rejected b batch e)"
  unfolding bury_rejected_def by (intro keeps_intros keeps_outer)

lemma outer_deliver_failed [keeps_outer]: "keeps outer (deliver_failed b batch e)"
  unfolding deliver_failed_def by (intro keeps_intros keeps_outer)

lemma outer_deliver_succeeded [keeps_outer]: "keeps outer (deliver_succeeded b batch)"
  unfolding deliver_succeeded_def by (intro keeps_intros keeps_outer) (simp add: outer_defs)

lemma outer_deliver_finish [keeps_outer]: "keeps outer (deliver_finish b batch answer)"
  unfolding deliver_finish_def by (intro keeps_intros keeps_outer)

lemma keeps_outcome [keeps_intros]:
  assumes "\<And>d. keeps f (on_retry d)" "keeps f on_blocked" "keeps f on_dead" "keeps f on_split" "keeps f on_success"
  shows "keeps f (case out of OutcomeRetry d \<Rightarrow> on_retry d | OutcomeBlocked \<Rightarrow> on_blocked
    | OutcomeDeadLetter \<Rightarrow> on_dead | OutcomeSplit \<Rightarrow> on_split | OutcomeSuccess \<Rightarrow> on_success)"
  using assms by (cases out) auto

lemma outer_after_outcome [keeps_outer]: "keeps outer (after_outcome out)"
  unfolding after_outcome_def by (intro keeps_intros keeps_outer) (simp_all add: outer_defs)

lemma outer_deliver_attempt [keeps_outer]: "keeps outer m \<Longrightarrow> keeps outer (deliver_attempt m)"
  unfolding deliver_attempt_def by (intro keeps_intros keeps_outer) (simp_all add: outer_defs)

lemma outer_deliver_rest [keeps_outer]: "keeps outer deliver_rest"
  unfolding deliver_rest_def by (intro keeps_intros keeps_outer) (simp_all add: outer_defs)

lemma keeps_part: "keeps f m \<Longrightarrow> (\<And>x. g x = h (f x)) \<Longrightarrow> keeps g m"
  by (simp add: keeps_def)

text \<open>All but \<open>schema_ready\<close>, for the two methods that open the schema gate.\<close>

lemma ungated_of_outer: "keeps outer m \<Longrightarrow> keeps (\<lambda>w. (control w, intake w)) m"
  by (rule keeps_part [where h = "\<lambda>(c, i, r). (c, i)"]) (auto simp: outer_def)

lemma ungated_deliver_pass: "keeps (\<lambda>w. (control w, intake w)) deliver_pass"
  unfolding deliver_pass_def
  by (intro keeps_intros ungated_of_outer [OF outer_deliver_rest]) (simp_all add: outer_defs)

lemma outer_ensure_finish [keeps_outer]: "keeps outer (ensure_finish answer)"
  unfolding ensure_finish_def by (intro keeps_intros keeps_outer) (simp_all add: outer_defs)

lemma ungated_after_ensure: "keeps (\<lambda>w. (control w, intake w)) (after_ensure answer)"
  unfolding after_ensure_def
  by (intro keeps_intros ungated_of_outer [OF outer_deliver_rest] ungated_of_outer [OF outer_ensure_finish])
    (simp_all add: outer_defs)

lemma outer_after_send [keeps_outer]: "keeps outer (after_send batch answer)"
  unfolding after_send_def by (intro keeps_intros keeps_outer)

lemma outer_flush [keeps_outer]:
  "keeps outer flush_begin" "keeps outer flush_check" "keeps outer (flush_checked answer)"
  "keeps outer (flush_sent batch answer)"
  unfolding flush_begin_def flush_check_def flush_checked_def flush_sent_def
  by (intro keeps_intros keeps_outer)+

text \<open>The persist coroutine changes the intake, and nothing of the control.\<close>

lemma control_of_outer: "keeps outer m \<Longrightarrow> keeps control m"
  by (rule keeps_part [where h = fst]) (auto simp: outer_def)

lemma control_intake:
  "keeps control task_done" "keeps control drain_ingress" "keeps control (set_held n)"
  unfolding task_done_def drain_ingress_def set_held_def
  by (intro keeps_intros; simp add: control_def)+

lemma control_persist_held: "keeps control persist_held"
  unfolding persist_held_def
  by (intro keeps_intros control_intake control_of_outer [OF outer_check_storage]
      control_of_outer [OF outer_reclaim] control_of_outer [OF outer_block]
      control_of_outer [OF outer_try_enqueue] control_of_outer [OF outer_stats_now]
      control_of_outer [OF outer_resume]) (simp add: control_def)

lemma control_persist_pass: "keeps control persist_pass"
  unfolding persist_pass_def
  by (intro keeps_intros control_intake control_persist_held control_of_outer [OF outer_stats_now]
      control_of_outer [OF outer_ask_env]) (simp_all add: control_def)

subsection \<open>Bookkeeping\<close>

definition tidy :: "worker \<Rightarrow> bool" where
  "tidy w \<longleftrightarrow>
     storage_blocks w - storage_recoveries w = (if storage_episode w = None then 0 else 1) \<and>
     0 \<le> storage_recoveries w \<and> storage_blocks w \<le> storage_block_attempts w \<and>
     length (last_errors w) \<le> 10 \<and>
     (block_reason w \<noteq> None \<longrightarrow> w_state w \<in> {BLOCKED, STOPPING, STOPPED, FAILED}) \<and>
     (in_loop w \<longrightarrow> w_state w \<noteq> NEW \<and> w_state w \<noteq> STARTING \<and> w_state w \<noteq> STOPPED) \<and>
     (settings_post_init (settings w) = Inr () \<longrightarrow>
       (\<forall>b. retry_initial_seconds (settings w) \<le> backoff_base w b \<and>
            backoff_base w b \<le> retry_max_seconds (settings w)))"

lemma tidy_fields:
  assumes "storage_blocks w' = storage_blocks w" "storage_recoveries w' = storage_recoveries w"
    "storage_episode w' = storage_episode w" "storage_block_attempts w' = storage_block_attempts w"
    "last_errors w' = last_errors w" "block_reason w' = block_reason w" "w_state w' = w_state w"
    "settings w' = settings w" "backoff_base w' = backoff_base w" "main_task w' = main_task w"
  shows "tidy w \<longrightarrow> tidy w'"
  using assms by (simp add: tidy_def in_loop_def)

named_theorems tidy_intros

lemmas tidy_basic =
  preserved.moves_return [where P = tidy] preserved.moves_raise [where P = tidy]
  preserved.moves_get [where P = tidy] preserved.moves_modify [where P = tidy]
  preserved.moves_bind [where P = tidy] preserved.moves_catch [where P = tidy]
  preserved.moves_when [where P = tidy] preserved.moves_for [where P = tidy]
  moves_if moves_option moves_sum moves_prod

lemma tidy_on_spool [tidy_intros]: "preserves tidy (on_spool m)"
  by (simp add: moves_def on_spool_app tidy_fields)

lemma tidy_ask_env [tidy_intros]: "preserves tidy (ask_env f)"
  by (simp add: moves_def tidy_fields)

lemma tidy_liftW [tidy_intros]: "preserves tidy (liftW r)"
  by (simp add: moves_def)

lemma append_error_length: "length rs \<le> 10 \<Longrightarrow> length (append_error r rs) \<le> 10"
  by (simp add: append_error_def)

lemma tidy_set_state:
  assumes "st \<in> {RUNNING, BLOCKED, RETRY_WAIT}"
  shows "preserves tidy (set_delivery_state st err delay reason)"
  unfolding set_delivery_state_def
  by (intro tidy_basic tidy_intros)
    (use assms in \<open>auto simp: tidy_def in_loop_def append_error_length split: if_splits\<close>)

lemmas tidy_set_states [tidy_intros] =
  tidy_set_state [of RUNNING, simplified] tidy_set_state [of BLOCKED, simplified]
  tidy_set_state [of RETRY_WAIT, simplified]

lemma settings_valid:
  assumes "settings_post_init s = Inr ()"
  shows "0 < retry_initial_seconds s" "retry_initial_seconds s \<le> retry_max_seconds s"
    "1 \<le> retry_multiplier s" "0 \<le> retry_jitter_ratio s" "retry_jitter_ratio s \<le> 1"
    "0 < ingress_queue_capacity s" "0 < persist_batch_rows s" "0 < delivery_batch_rows s"
    "0 < flush_interval_seconds s"
  using assms
  by (auto simp: settings_post_init_def bindR_eq_Inr value_error_def positive_integer_def not_less split: if_splits)

lemma next_delay_base:
  assumes "settings_post_init s = Inr ()" and "next_delay s base u = Inr (delay, base')"
    and "retry_initial_seconds s \<le> base" "base \<le> retry_max_seconds s"
  shows "retry_initial_seconds s \<le> base'" "base' \<le> retry_max_seconds s"
proof -
  note v = settings_valid [OF assms(1)]
  have b: "base' = min (retry_max_seconds s) (base * retry_multiplier s)"
    using assms(2) by (auto simp: next_delay_def value_error_def Let_def split: if_splits)
  show "base' \<le> retry_max_seconds s" by (simp add: b)
  have "base * 1 \<le> base * retry_multiplier s" using v assms(3) by (intro mult_left_mono) auto
  then have "retry_initial_seconds s \<le> base * retry_multiplier s"
    using order_trans [OF assms(3)] by simp
  then show "retry_initial_seconds s \<le> base'" using v(2) by (simp add: b)
qed

lemma tidy_next_delay [tidy_intros]: "preserves tidy (next_retry_delay b)"
  unfolding moves_def
proof (intro allI impI)
  fix w assume t: "tidy w"
  let ?r = "next_delay (settings w) (backoff_base w b) (random_source (env w) (now w))"
  show "tidy (snd (next_retry_delay b w))"
  proof (cases ?r)
    case (Inl e)
    then show ?thesis using t by (auto simp: next_retry_delay_def bindP_def tidy_def in_loop_def)
  next
    case (Inr p)
    then obtain delay base where r: "?r = Inr (delay, base)" by (cases p) simp
    then have "snd (next_retry_delay b w) =
        w\<lparr>now := Suc (now w), backoff_base := (backoff_base w)(b := base)\<rparr>"
      by (simp add: next_retry_delay_def bindP_def)
    then show ?thesis using t next_delay_base [OF _ r] by (auto simp: tidy_def in_loop_def)
  qed
qed

lemma tidy_reset_backoff [tidy_intros]: "preserves tidy (reset_backoff b)"
  unfolding reset_backoff_def
  by (intro tidy_basic) (auto simp: tidy_def in_loop_def settings_valid)

lemma tidy_counts [tidy_intros]:
  "preserves tidy count_retry" "preserves tidy (count_dead_letter_move m n)"
  "preserves tidy (set_spool_stats st)" "preserves tidy (set_held n)"
  unfolding count_retry_def count_dead_letter_move_def set_spool_stats_def set_held_def
  by (intro tidy_basic tidy_fields; simp)+

lemma tidy_stats_now [tidy_intros]: "preserves tidy spool_stats_now"
  unfolding spool_stats_now_def by (intro tidy_basic tidy_intros)

lemma tidy_block [tidy_intros]: "preserves tidy (block_on_storage reason err)"
  unfolding block_on_storage_def by (intro tidy_basic tidy_intros) (auto simp: tidy_def in_loop_def)

lemma tidy_resume [tidy_intros]: "preserves tidy resume_after_storage_block"
  unfolding resume_after_storage_block_def
  by (intro tidy_basic tidy_intros) (auto simp: tidy_def in_loop_def)

lemma tidy_check_storage [tidy_intros]: "preserves tidy check_storage"
  unfolding check_storage_def by (intro tidy_basic tidy_intros tidy_fields) simp_all

lemma tidy_reclaim_call [tidy_intros]: "preserves tidy (reclaim_call m)"
  unfolding reclaim_call_def by (intro tidy_basic tidy_intros)

lemma tidy_reclaim [tidy_intros]: "preserves tidy reclaim_spool"
  unfolding reclaim_spool_def by (intro tidy_basic tidy_intros tidy_fields) simp_all

lemma tidy_try_enqueue [tidy_intros]: "preserves tidy (try_enqueue evs)"
  unfolding try_enqueue_def by (intro tidy_basic tidy_intros)

lemma tidy_task_done [tidy_intros]: "preserves tidy task_done"
  unfolding task_done_def by (intro tidy_basic tidy_fields) simp_all

lemma tidy_drain [tidy_intros]: "preserves tidy drain_ingress"
  unfolding drain_ingress_def by (intro tidy_basic tidy_intros tidy_fields) simp_all

lemma tidy_persist_held [tidy_intros]: "preserves tidy persist_held"
  unfolding persist_held_def by (intro tidy_basic tidy_intros tidy_fields) simp_all

lemma tidy_persist_pass [tidy_intros]: "preserves tidy persist_pass"
  unfolding persist_pass_def by (intro tidy_basic tidy_intros tidy_fields) simp_all

lemma tidy_bury_undecodable [tidy_intros]: "preserves tidy (bury_undecodable r e)"
  unfolding bury_undecodable_def by (intro tidy_basic tidy_intros)

lemma tidy_scan [tidy_intros]:
  "(\<And>b. preserves tidy (k b)) \<Longrightarrow> (\<And>r e. preserves tidy (h r e)) \<Longrightarrow>
     preserves tidy (case a of Built b \<Rightarrow> k b | Undecodable r e \<Rightarrow> h r e)"
  by (cases a) auto

lemma tidy_build_batch [tidy_intros]: "preserves tidy (build_batch isolate)"
  unfolding build_batch_def by (intro tidy_basic tidy_intros)

lemma tidy_deliver_begin [tidy_intros]: "preserves tidy (deliver_begin isolate b)"
  unfolding deliver_begin_def by (intro tidy_basic tidy_intros)

lemma tidy_retry_later [tidy_intros]: "preserves tidy (retry_later b e)"
  unfolding retry_later_def by (intro tidy_basic tidy_intros)

lemma tidy_bury_rejected [tidy_intros]: "preserves tidy (bury_rejected b batch e)"
  unfolding bury_rejected_def by (intro tidy_basic tidy_intros)

lemma tidy_deliver_failed [tidy_intros]: "preserves tidy (deliver_failed b batch e)"
  unfolding deliver_failed_def by (intro tidy_basic tidy_intros)

lemma tidy_deliver_succeeded [tidy_intros]: "preserves tidy (deliver_succeeded b batch)"
  unfolding deliver_succeeded_def by (intro tidy_basic tidy_intros tidy_fields) simp_all

lemma tidy_deliver_finish [tidy_intros]: "preserves tidy (deliver_finish b batch answer)"
  unfolding deliver_finish_def by (intro tidy_basic tidy_intros)

lemma moves_outcome:
  assumes "\<And>d. moves R (on_retry d)" "moves R on_blocked" "moves R on_dead" "moves R on_split" "moves R on_success"
  shows "moves R (case out of OutcomeRetry d \<Rightarrow> on_retry d | OutcomeBlocked \<Rightarrow> on_blocked
    | OutcomeDeadLetter \<Rightarrow> on_dead | OutcomeSplit \<Rightarrow> on_split | OutcomeSuccess \<Rightarrow> on_success)"
  using assms by (cases out) auto

lemma tidy_after_outcome [tidy_intros]: "preserves tidy (after_outcome out)"
  unfolding after_outcome_def
  by (intro tidy_basic tidy_intros tidy_fields moves_outcome) simp_all

lemma tidy_deliver_attempt [tidy_intros]: "preserves tidy m \<Longrightarrow> preserves tidy (deliver_attempt m)"
  unfolding deliver_attempt_def by (intro tidy_basic tidy_intros tidy_fields) simp_all

lemma tidy_deliver_rest [tidy_intros]: "preserves tidy deliver_rest"
  unfolding deliver_rest_def by (intro tidy_basic tidy_intros tidy_fields) simp_all

lemma tidy_deliver_pass [tidy_intros]: "preserves tidy deliver_pass"
  unfolding deliver_pass_def by (intro tidy_basic tidy_intros tidy_fields) simp_all

lemma tidy_ensure_finish [tidy_intros]: "preserves tidy (ensure_finish answer)"
  unfolding ensure_finish_def by (intro tidy_basic tidy_intros tidy_fields) simp_all

lemma tidy_after_ensure [tidy_intros]: "preserves tidy (after_ensure answer)"
  unfolding after_ensure_def by (intro tidy_basic tidy_intros tidy_fields) simp_all

lemma tidy_after_send [tidy_intros]: "preserves tidy (after_send batch answer)"
  unfolding after_send_def by (intro tidy_basic tidy_intros)

lemma tidy_flush [tidy_intros]:
  "preserves tidy flush_begin" "preserves tidy flush_check" "preserves tidy (flush_checked answer)"
  "preserves tidy (flush_sent batch answer)"
  unfolding flush_begin_def flush_check_def flush_checked_def flush_sent_def
  by (intro tidy_basic tidy_intros)+

subsection \<open>Methods that only read the spool\<close>

definition store_kept :: "worker \<Rightarrow> worker \<Rightarrow> bool" where
  "store_kept w w' \<longleftrightarrow> (spool_ok (spool w) \<longrightarrow> spool_ok (spool w') \<and> stored (spool w') = stored (spool w))"

interpretation kept: journey store_kept
  by unfold_locales (auto simp: store_kept_def)

lemma kept_same_spool: "spool w' = spool w \<Longrightarrow> store_kept w w'"
  by (simp add: store_kept_def)

named_theorems kept_rules

lemmas kept_basic = kept.moves_intros kept.moves_modify [OF kept_same_spool]

lemma kept_on_spool: "read_only m \<Longrightarrow> moves store_kept (on_spool m)"
  using spool_read_snd [of m] by (simp add: moves_def store_kept_def on_spool_app)

lemma kept_reads [kept_rules]:
  "moves store_kept (on_spool current_stats)" "moves store_kept (on_spool (peek_batch n k))"
  "moves store_kept (on_spool (reclaim n))" "moves store_kept (on_spool compact)"
  by (intro kept_on_spool read_stats read_peek_batch read_reclaim read_compact)+

lemma kept_ask_env [kept_rules]: "moves store_kept (ask_env f)"
  by (simp add: moves_def store_kept_def)

lemma kept_small [kept_rules]:
  "moves store_kept (set_delivery_state st err delay reason)" "moves store_kept (next_retry_delay b)"
  "moves store_kept (reset_backoff b)" "moves store_kept count_retry" "moves store_kept spool_stats_now"
  "moves store_kept (count_dead_letter_move m n)" "moves store_kept check_storage"
  unfolding set_delivery_state_def next_retry_delay_def reset_backoff_def count_retry_def
    spool_stats_now_def set_spool_stats_def count_dead_letter_move_def check_storage_def
  by (intro kept_basic kept_rules; simp)+

lemma kept_storage [kept_rules]:
  "moves store_kept (block_on_storage reason err)" "moves store_kept resume_after_storage_block"
  unfolding block_on_storage_def resume_after_storage_block_def
  by (intro kept_basic kept_rules; simp)+

lemma kept_reclaim_call: "read_only m \<Longrightarrow> moves store_kept (reclaim_call m)"
  unfolding reclaim_call_def by (intro kept_basic kept_on_spool)

lemma kept_reclaim [kept_rules]: "moves store_kept reclaim_spool"
  unfolding reclaim_spool_def
  by (intro kept_basic kept_rules kept_reclaim_call read_reclaim read_compact) simp_all

lemma kept_outcomes [kept_rules]:
  "moves store_kept (retry_later b e)" "moves store_kept (after_outcome out)"
  unfolding retry_later_def after_outcome_def
  by (intro kept_basic kept_rules moves_outcome; simp)+

lemma kept_ensure [kept_rules]: "moves store_kept (ensure_finish answer)"
  unfolding ensure_finish_def by (intro kept_basic kept_rules) simp_all

end
