(* ===== verification/WorkerStore.thy ===== *)
theory WorkerStore
  imports WorkerFrames
begin

section \<open>What the coroutines do to the stored events\<close>

text \<open>
  Between two \<open>await\<close>s a coroutine writes the spool at most once. \<open>store_step A\<close> says what such a
  stretch may do to the queue: no event is lost but those evicted from the dead letters and those in
  pending rows with a sequence in \<open>A\<close>, and no row appears under an old sequence.
\<close>

definition evicted_by :: "queue \<Rightarrow> queue \<Rightarrow> dead_row list" where
  "evicted_by q q' = filter (\<lambda>d. d \<notin> set (q_dead q')) (q_dead q)"

definition rows_from :: "queue \<Rightarrow> queue \<Rightarrow> bool" where
  "rows_from q q' \<longleftrightarrow> q_next q \<le> q_next q' \<and>
     (\<forall>r' \<in> set (q_pending q'). q_next q < p_sequence r' \<or>
        (\<exists>r \<in> set (q_pending q). p_sequence r = p_sequence r' \<and> p_payload r = p_payload r'))"

definition keeps_events :: "int set \<Rightarrow> queue \<Rightarrow> queue \<Rightarrow> bool" where
  "keeps_events A q q' \<longleftrightarrow> (\<forall>ev. holds q ev \<longrightarrow> holds q' ev \<or>
     (\<exists>d \<in> set (evicted_by q q'). dead_holds ev d) \<or>
     (\<exists>r \<in> set (q_pending q). p_sequence r \<in> A \<and> row_holds ev r))"

definition store_step :: "int set \<Rightarrow> worker \<Rightarrow> worker \<Rightarrow> bool" where
  "store_step A w w' \<longleftrightarrow> (spool_ok (spool w) \<longrightarrow> spool_ok (spool w') \<and>
     rows_from (stored (spool w)) (stored (spool w')) \<and>
     keeps_events A (stored (spool w)) (stored (spool w')))"

lemma rows_from_refl [simp]: "rows_from q q"
  by (auto simp: rows_from_def)

lemma keeps_events_refl [simp]: "keeps_events A q q"
  by (simp add: keeps_events_def)

lemma step_kept_left: "store_kept w w1 \<Longrightarrow> store_step A w1 w2 \<Longrightarrow> store_step A w w2"
  by (auto simp: store_kept_def store_step_def)

lemma step_kept_right: "store_step A w w1 \<Longrightarrow> store_kept w1 w2 \<Longrightarrow> store_step A w w2"
  by (auto simp: store_kept_def store_step_def)

lemma kept_is_step: "store_kept w w' \<Longrightarrow> store_step A w w'"
  by (auto simp: store_kept_def store_step_def)

lemma step_kept: "moves store_kept m \<Longrightarrow> moves (store_step A) m"
  by (simp add: moves_def kept_is_step)

lemma step_before:
  assumes "moves store_kept m" and "\<And>x. moves (store_step A) (k x)"
  shows "moves (store_step A) (bindP m k)"
  unfolding moves_def
proof
  fix w
  obtain r w1 where m: "m w = (r, w1)" by (cases "m w")
  then have "store_kept w w1" using assms(1) unfolding moves_def by (metis snd_conv)
  then show "store_step A w (snd (bindP m k w))"
    using m assms(2) kept_is_step step_kept_left by (cases r) (auto simp: bindP_def moves_def)
qed

lemma step_after:
  assumes "moves (store_step A) m" and "\<And>x. moves store_kept (k x)"
  shows "moves (store_step A) (bindP m k)"
  unfolding moves_def
proof
  fix w
  obtain r w1 where m: "m w = (r, w1)" by (cases "m w")
  then have "store_step A w w1" using assms(1) unfolding moves_def by (metis snd_conv)
  then show "store_step A w (snd (bindP m k w))"
    using m assms(2) step_kept_right by (cases r) (auto simp: bindP_def moves_def)
qed

lemma step_catch:
  assumes "moves (store_step A) m" and "\<And>e. moves store_kept (h e)"
  shows "moves (store_step A) (catchP m h)"
  unfolding moves_def
proof
  fix w
  obtain r w1 where m: "m w = (r, w1)" by (cases "m w")
  then have "store_step A w w1" using assms(1) unfolding moves_def by (metis snd_conv)
  then show "store_step A w (snd (catchP m h w))"
    using m assms(2) step_kept_right by (cases r) (auto simp: catchP_def moves_def)
qed

subsection \<open>The four writes\<close>

lemma step_of_queues:
  assumes "\<And>s. spool_ok s \<Longrightarrow> spool_ok (snd (m s)) \<and> rows_from (stored s) (stored (snd (m s))) \<and>
      keeps_events A (stored s) (stored (snd (m s)))"
  shows "moves (store_step A) (on_spool m)"
  using assms by (simp add: moves_def store_step_def on_spool_app)

lemma grows_step: "grows q q' \<Longrightarrow> rows_from q q' \<and> keeps_events A q q'"
  using grows_holds [of q q'] by (auto simp: grows_def rows_from_def keeps_events_def)

lemma step_enqueue: "moves (store_step A) (on_spool (enqueue_many evs))"
proof (rule step_of_queues)
  fix s assume s: "spool_ok s"
  show "spool_ok (snd (enqueue_many evs s)) \<and> rows_from (stored s) (stored (snd (enqueue_many evs s))) \<and>
      keeps_events A (stored s) (stored (snd (enqueue_many evs s)))"
    using spool_store.put_grows [OF s, of evs "fst (enqueue_many evs s)" "snd (enqueue_many evs s)"]
      grows_step by auto
qed

lemma removed_step:
  assumes "removed seqs q q'"
  shows "rows_from q q' \<and> keeps_events (set seqs) q q'"
  using assms holds_removed [OF assms] by (auto simp: removed_def rows_from_def keeps_events_def)

lemma step_mark: "moves (store_step (set seqs)) (on_spool (mark_delivered seqs))"
proof (rule step_of_queues)
  fix s assume s: "spool_ok s"
  obtain r s' where m: "mark_delivered seqs s = (r, s')" by (cases "mark_delivered seqs s")
  show "spool_ok (snd (mark_delivered seqs s)) \<and> rows_from (stored s) (stored (snd (mark_delivered seqs s))) \<and>
      keeps_events (set seqs) (stored s) (stored (snd (mark_delivered seqs s)))"
    using spool_store.drop_removes [OF s m] removed_step m by (cases r) auto
qed

lemma touched_step:
  assumes "touched seqs err unc q q'"
  shows "rows_from q q' \<and> keeps_events A q q'"
proof -
  have "rows_from q q'" using assms by (auto simp: touched_def rows_from_def)
  then show ?thesis using holds_touched [OF assms] by (simp add: keeps_events_def)
qed

lemma step_attempt: "moves (store_step A) (on_spool (record_attempt seqs err unc))"
proof (rule step_of_queues)
  fix s assume s: "spool_ok s"
  obtain r s' where m: "record_attempt seqs err unc s = (r, s')" by (cases "record_attempt seqs err unc s")
  show "spool_ok (snd (record_attempt seqs err unc s)) \<and>
      rows_from (stored s) (stored (snd (record_attempt seqs err unc s))) \<and>
      keeps_events A (stored s) (stored (snd (record_attempt seqs err unc s)))"
    using spool_store.attempt_touches [OF s m] touched_step m by (cases r) auto
qed

text \<open>The dead letters that left are exactly the evicted ones.\<close>

lemma buried_evicts:
  assumes "buried seq n q q'" and "queue_ok q"
  shows "evicted_by q q' = take n (q_dead q)"
proof -
  obtain d where q': "q_dead q' = drop n (q_dead q) @ [d]" and d: "d_id d = q_dead_next q + 1"
    using assms(1) unfolding buried_def by blast
  have fresh: "d \<notin> set (q_dead q)" using assms(2) d by (auto simp: queue_ok_def)
  have "distinct (q_dead q)" using assms(2) by (auto simp: queue_ok_def distinct_map)
  then have "set (take n (q_dead q)) \<inter> set (drop n (q_dead q)) = {}" by (metis set_take_disj_set_drop_if_distinct le_refl)
  moreover have "filter P (q_dead q) = filter P (take n (q_dead q)) @ filter P (drop n (q_dead q))" for P
    by (metis append_take_drop_id filter_append)
  ultimately show ?thesis
    using fresh unfolding evicted_by_def q'
    by (auto simp: filter_id_conv filter_empty_conv dest: in_set_takeD)
qed

lemma buried_step:
  assumes "buried seq n q q'" and "queue_ok q"
  shows "rows_from q q' \<and> keeps_events A q q'"
proof -
  have "rows_from q q'" using assms(1) by (auto simp: buried_def rows_from_def)
  moreover have "keeps_events A q q'"
    using holds_buried [OF assms(1)] buried_evicts [OF assms] assms(2)
    by (auto simp: keeps_events_def queue_ok_def)
  ultimately show ?thesis ..
qed

lemma bury_nothing: "spec_move_to_dead_letter [] err ns unc L q = Inr (x, q') \<Longrightarrow> q' = q"
  by (auto simp: spec_move_to_dead_letter_def bindR_eq_Inr split: option.splits)

lemma step_bury:
  assumes "length seqs \<le> 1"
  shows "moves (store_step A) (on_spool (move_to_dead_letter seqs err ns unc))"
proof (rule step_of_queues)
  fix s assume s: "spool_ok s"
  let ?m = "move_to_dead_letter seqs err ns unc"
  obtain r s' where m: "?m s = (r, s')" by (cases "?m s")
  note law = spool_store.bury_law [of seqs err ns unc, unfolded atomic_on_def, rule_format, OF s m]
  have ok: "spool_ok s'" "\<And>e. r = Inl e \<Longrightarrow> stored s' = stored s"
      "\<And>x. r = Inr x \<Longrightarrow> spec_move_to_dead_letter seqs err ns unc (limits s) (stored s) = Inr (x, stored s')"
    using law by simp_all
  show "spool_ok (snd (?m s)) \<and> rows_from (stored s) (stored (snd (?m s))) \<and>
      keeps_events A (stored s) (stored (snd (?m s)))"
  proof (cases r)
    case (Inl e)
    then show ?thesis using ok m by simp
  next
    case (Inr x)
    show ?thesis
    proof (cases seqs)
      case Nil
      then have "stored s' = stored s" using ok(3) [OF Inr] bury_nothing by blast
      then show ?thesis using ok(1) m by simp
    next
      case (Cons seq rest)
      then have seq: "seqs = [seq]" using assms by simp
      obtain k n where x: "x = (k, n)" by (cases x)
      have "buried seq n (stored s) (stored s')"
        using spool_store.bury_one [OF s m [unfolded seq]] Inr x by simp
      then show ?thesis using ok(1) m buried_step spool_queue_ok [OF s] by simp
    qed
  qed
qed

subsection \<open>The coroutines\<close>

named_theorems step_rules

lemma step_try_enqueue [step_rules]: "moves (store_step A) (try_enqueue evs)"
  unfolding try_enqueue_def
  by (intro step_catch step_after step_enqueue kept_basic)

lemma kept_intake [kept_rules]:
  "moves store_kept task_done" "moves store_kept drain_ingress" "moves store_kept (set_held n)"
  unfolding task_done_def drain_ingress_def set_held_def by (intro kept_basic kept_rules; simp)+

lemma kept_second_check [kept_rules]:
  "moves store_kept (if b then bindP reclaim_spool (\<lambda>moved. if moved then check_storage else returnP st)
     else returnP st)"
  by (intro kept_basic kept_rules)

lemma step_persist_held [step_rules]: "moves (store_step A) persist_held"
  unfolding persist_held_def
  by (intro step_after [OF step_try_enqueue] step_before [OF kept.moves_get] step_before [OF kept_second_check]
      step_before [OF kept_small(7)] moves_if step_kept kept_basic kept_rules; simp)

lemma step_persist_pass [step_rules]: "moves (store_step A) persist_pass"
  unfolding persist_pass_def
  apply (intro step_before [OF kept_intake(2)] step_before [OF kept.moves_get])
  apply (rule step_after)
   apply (intro moves_if step_after [OF step_persist_held] kept.moves_return step_kept)
  apply (intro kept_basic kept_rules; simp)
  done

lemma step_bury_undecodable [step_rules]: "moves (store_step A) (bury_undecodable r e)"
  unfolding bury_undecodable_def
  apply (rule step_before [OF kept_ask_env])
  apply (rule step_after)
   apply (intro step_catch step_after step_bury kept_basic; simp)
  apply (intro kept_basic kept_rules)
  done

lemma moves_scan:
  "(\<And>b. moves R (k b)) \<Longrightarrow> (\<And>r e. moves R (h r e)) \<Longrightarrow>
     moves R (case a of Built b \<Rightarrow> k b | Undecodable r e \<Rightarrow> h r e)"
  by (cases a) auto

lemma step_build_batch [step_rules]: "moves (store_step A) (build_batch isolate)"
  unfolding build_batch_def
  apply (intro step_before [OF kept.moves_get] step_before [OF kept_reads(2)])
  apply (intro moves_if step_before [OF kept.moves_get] moves_sum moves_scan step_bury_undecodable)
    apply (intro step_kept kept_basic)+
  done

lemma step_deliver_begin [step_rules]: "moves (store_step A) (deliver_begin isolate b)"
  unfolding deliver_begin_def
  by (intro step_after step_build_batch kept_basic kept_rules)

lemma step_bury_rejected [step_rules]:
  assumes "length (bb_sequences batch) \<le> 1"
  shows "moves (store_step A) (bury_rejected b batch e)"
  unfolding bury_rejected_def
  apply (rule step_before [OF kept_ask_env])
  apply (rule step_after)
   apply (intro step_catch step_after step_bury kept_basic assms)
  apply (intro kept_basic kept_rules)
  done

lemma step_deliver_failed [step_rules]: "moves (store_step A) (deliver_failed b batch e)"
  unfolding deliver_failed_def
  apply (intro moves_if step_bury_rejected)
       apply (intro step_kept kept_basic kept_rules)
      apply (intro step_after step_attempt kept_basic kept_rules)
     apply (rule step_before [OF kept_small(3)], intro moves_if)
       apply (intro step_after step_attempt kept_basic kept_rules)
      apply (rule step_bury_rejected, simp)
     apply (intro step_kept kept_basic kept_rules)+
  done

lemma step_deliver_succeeded [step_rules]:
  "moves (store_step (set (bb_sequences batch))) (deliver_succeeded b batch)"
  unfolding deliver_succeeded_def
  by (rule step_after [OF step_mark]) (intro kept_basic kept_rules; simp)

definition cleared :: "built_batch \<Rightarrow> unit res \<Rightarrow> int set" where
  "cleared batch answer = (case answer of Inl _ \<Rightarrow> {} | Inr _ \<Rightarrow> set (bb_sequences batch))"

lemma step_deliver_finish [step_rules]:
  "moves (store_step (cleared batch answer)) (deliver_finish b batch answer)"
  unfolding deliver_finish_def cleared_def
  by (cases answer) (simp_all add: step_deliver_failed step_deliver_succeeded)

lemma step_deliver_attempt [step_rules]:
  assumes "moves (store_step A) m"
  shows "moves (store_step A) (deliver_attempt m)"
  unfolding deliver_attempt_def
  apply (rule step_after)
   apply (rule step_catch)
    apply (intro step_after assms kept_basic)
   apply (intro kept_basic kept_rules; simp)
  apply (intro kept_basic kept_rules)
  done

lemma step_deliver_rest [step_rules]: "moves (store_step A) deliver_rest"
  unfolding deliver_rest_def
  apply (intro step_before moves_if moves_prod step_rules kept_basic kept_rules; simp?)
  apply (intro step_kept kept_basic kept_rules)
  done

lemma step_deliver_pass [step_rules]: "moves (store_step A) deliver_pass"
  unfolding deliver_pass_def
  by (intro step_before moves_if moves_prod step_deliver_rest kept_basic step_kept [OF kept.moves_return]; simp?)

lemma step_after_ensure [step_rules]: "moves (store_step A) (after_ensure answer)"
  unfolding after_ensure_def
  by (intro step_before moves_option step_deliver_rest kept_basic kept_rules step_kept [OF kept.moves_return]; simp?)

lemma step_after_send [step_rules]:
  "moves (store_step (cleared batch answer)) (after_send batch answer)"
  unfolding after_send_def
  by (intro step_deliver_attempt step_after step_deliver_finish kept_basic)

lemma step_flush_begin [step_rules]: "moves (store_step A) flush_begin"
  unfolding flush_begin_def by (intro step_before step_after step_deliver_begin kept_basic kept_rules)

lemma step_flush_check [step_rules]: "moves (store_step A) flush_check"
  unfolding flush_check_def
  by (intro step_before moves_if step_flush_begin kept_basic kept_rules step_kept [OF kept.moves_return])

lemma step_flush_checked [step_rules]: "moves (store_step A) (flush_checked answer)"
  unfolding flush_checked_def
  by (intro moves_sum moves_if step_flush_begin step_kept [OF kept.moves_return] step_kept [OF kept.moves_raise])

lemma step_flush_sent [step_rules]:
  "moves (store_step (cleared batch answer)) (flush_sent batch answer)"
  unfolding flush_sent_def by (intro step_after step_deliver_finish kept_basic)

end
