(* ===== verification/WorkerBatch.thy ===== *)
theory WorkerBatch
  imports WorkerStore
begin

section \<open>The batch a delivery sends\<close>

text \<open>\<open>_build_batch\<close> seen from the queue: which rows it takes and what it makes of them.\<close>

text \<open>The first \<open>k\<close> rows, encoded one after the other.\<close>

definition encodes_rows :: "ustr \<Rightarrow> pending_row list \<Rightarrow> built_batch \<Rightarrow> bool" where
  "encodes_rows tab rows b \<longleftrightarrow>
     (\<exists>encs. map (\<lambda>r. encode_record tab (p_payload r)) rows = map Inr encs \<and> bb_payload b = concat encs) \<and>
     bb_sequences b = map p_sequence rows \<and>
     bb_uncertain b = map p_sequence (filter (\<lambda>r. p_uncertain r \<noteq> 0) rows)"

lemma spool_record_of_sel [simp]:
  "sr_payload (spool_record_of r) = p_payload r" "sr_sequence (spool_record_of r) = p_sequence r"
  "sr_uncertain (spool_record_of r) \<longleftrightarrow> p_uncertain r \<noteq> 0"
  by (simp_all add: spool_record_of_def)

lemma encode_record_line:
  "encode_record tab payload = Inr enc \<Longrightarrow> enc \<noteq> [] \<and> last enc = byte 10"
  by (auto simp: encode_record_def bindR_eq_Inr dest: row_ends_with_newline)

definition next_row_out :: "ustr \<Rightarrow> int \<Rightarrow> built_batch \<Rightarrow> pending_row list \<Rightarrow> bool" where
  "next_row_out tab limit_bytes b rest \<longleftrightarrow>
     (case rest of [] \<Rightarrow> True
      | r # _ \<Rightarrow> (case encode_record tab (p_payload r) of
            Inl e \<Rightarrow> isinstance e EventEnvelopeError \<or> isinstance e IlpEncodingError
          | Inr enc \<Rightarrow> int (length (bb_payload b)) + int (length enc) > limit_bytes))"

lemma scan_records_steps:
  assumes "encodes_rows tab before b" and "b = empty_batch \<longleftrightarrow> before = []"
    and "before \<noteq> [] \<Longrightarrow> bb_payload b \<noteq> []"
    and "before \<noteq> [] \<Longrightarrow> int (length (bb_payload b)) \<le> lim_bytes"
    and "scan_records tab lim_bytes b (map spool_record_of rows) = Inr res"
  shows "case res of
      Built b' \<Rightarrow> \<exists>k \<le> length rows. encodes_rows tab (before @ take k rows) b' \<and>
        (before @ take k rows \<noteq> [] \<longrightarrow> bb_payload b' \<noteq> [] \<and> int (length (bb_payload b')) \<le> lim_bytes) \<and>
        (rows \<noteq> [] \<longrightarrow> before @ take k rows \<noteq> []) \<and> next_row_out tab lim_bytes b' (drop k rows)
    | Undecodable r e \<Rightarrow> before = [] \<and> (\<exists>row rest. rows = row # rest \<and> r = spool_record_of row \<and>
        encode_record tab (p_payload row) = Inl e)"
  using assms
proof (induction rows arbitrary: before b)
  case Nil
  then show ?case by (auto simp: next_row_out_def)
next
  case (Cons r rows)
  note sc = Cons.prems(5)
  show ?case
  proof (cases "encode_record tab (p_payload r)")
    case (Inl e)
    then show ?thesis
    proof (cases "bb_payload b \<noteq> []")
      case True
      then have "res = Built b" "isinstance e EventEnvelopeError \<or> isinstance e IlpEncodingError"
        using sc Inl by (auto split: if_splits)
      moreover have "before \<noteq> []" using True Cons.prems(2) by (auto simp: empty_batch_def)
      ultimately show ?thesis
        using Cons.prems Inl True by (auto intro!: exI [of _ 0] simp: next_row_out_def)
    next
      case False
      then have "before = []" using Cons.prems(3) by blast
      then show ?thesis using sc Inl False by (auto split: if_splits)
    qed
  next
    case (Inr enc)
    note line = encode_record_line [OF Inr]
    show ?thesis
    proof (cases "int (length (bb_payload b)) + int (length enc) > lim_bytes")
      case True
      then have res: "res = Built b" "bb_payload b \<noteq> []" using sc Inr by (auto split: if_splits)
      moreover have "before \<noteq> []" using res Cons.prems(2) by (auto simp: empty_batch_def)
      ultimately show ?thesis
        using Cons.prems Inr True by (auto intro!: exI [of _ 0] simp: next_row_out_def)
    next
      case False
      let ?b = "\<lparr>bb_payload = bb_payload b @ enc, bb_sequences = bb_sequences b @ [p_sequence r],
             bb_uncertain = bb_uncertain b @ (if p_uncertain r \<noteq> 0 then [p_sequence r] else [])\<rparr>"
      obtain encs where encs: "map (\<lambda>r. encode_record tab (p_payload r)) before = map Inr encs"
          "bb_payload b = concat encs"
        using Cons.prems(1) by (auto simp: encodes_rows_def)
      then have "map (\<lambda>r. encode_record tab (p_payload r)) (before @ [r]) = map Inr (encs @ [enc]) \<and>
          bb_payload ?b = concat (encs @ [enc])"
        using Inr by simp
      then have e: "encodes_rows tab (before @ [r]) ?b"
        using Cons.prems(1) unfolding encodes_rows_def by (intro conjI exI [of _ "encs @ [enc]"]) simp_all
      have "case res of
          Built b' \<Rightarrow> \<exists>k \<le> length rows. encodes_rows tab ((before @ [r]) @ take k rows) b' \<and>
            ((before @ [r]) @ take k rows \<noteq> [] \<longrightarrow> bb_payload b' \<noteq> [] \<and> int (length (bb_payload b')) \<le> lim_bytes) \<and>
            (rows \<noteq> [] \<longrightarrow> (before @ [r]) @ take k rows \<noteq> []) \<and> next_row_out tab lim_bytes b' (drop k rows)
        | Undecodable r' e \<Rightarrow> before @ [r] = [] \<and> (\<exists>row rest. rows = row # rest \<and> r' = spool_record_of row \<and>
            encode_record tab (p_payload row) = Inl e)"
        by (rule Cons.IH [OF e]) (use False sc Inr line in \<open>auto simp: empty_batch_def\<close>)
      then show ?thesis
      proof (cases res)
        case (Built b')
        then obtain k where k: "k \<le> length rows" "encodes_rows tab ((before @ [r]) @ take k rows) b'"
            "bb_payload b' \<noteq> []" "int (length (bb_payload b')) \<le> lim_bytes"
            "next_row_out tab lim_bytes b' (drop k rows)"
          using \<open>case res of Built _ \<Rightarrow> _ | Undecodable _ _ \<Rightarrow> _\<close> by auto
        then show ?thesis using Built by (auto intro!: exI [of _ "Suc k"])
      qed simp
    qed
  qed
qed

text \<open>From the empty batch.\<close>

lemma scan_records_prefix:
  assumes "scan_records tab lim_bytes empty_batch (map spool_record_of rows) = Inr res" and "rows \<noteq> []"
  shows "case res of
      Built b' \<Rightarrow> \<exists>k. 0 < k \<and> k \<le> length rows \<and> encodes_rows tab (take k rows) b' \<and> bb_payload b' \<noteq> [] \<and>
        int (length (bb_payload b')) \<le> lim_bytes \<and> next_row_out tab lim_bytes b' (drop k rows)
    | Undecodable r e \<Rightarrow> \<exists>row rest. rows = row # rest \<and> r = spool_record_of row \<and>
        encode_record tab (p_payload row) = Inl e"
proof -
  have e: "encodes_rows tab [] empty_batch" by (simp add: encodes_rows_def empty_batch_def)
  have "case res of
      Built b' \<Rightarrow> \<exists>k \<le> length rows. encodes_rows tab (take k rows) b' \<and>
        (take k rows \<noteq> [] \<longrightarrow> bb_payload b' \<noteq> [] \<and> int (length (bb_payload b')) \<le> lim_bytes) \<and>
        (rows \<noteq> [] \<longrightarrow> take k rows \<noteq> []) \<and> next_row_out tab lim_bytes b' (drop k rows)
    | Undecodable r e \<Rightarrow> (\<exists>row rest. rows = row # rest \<and> r = spool_record_of row \<and>
        encode_record tab (p_payload row) = Inl e)"
    using scan_records_steps [OF e _ _ _ assms(1)] by (cases res) simp_all
  note found = this
  show ?thesis
  proof (cases res)
    case (Built b')
    then obtain k where "k \<le> length rows" "encodes_rows tab (take k rows) b'" "take k rows \<noteq> []"
        "bb_payload b' \<noteq> []" "int (length (bb_payload b')) \<le> lim_bytes"
        "next_row_out tab lim_bytes b' (drop k rows)"
      using found assms(2) by auto
    then show ?thesis using Built by (auto intro!: exI [of _ k])
  next
    case (Undecodable r e)
    then show ?thesis using found by simp
  qed
qed

subsection \<open>Peeking from a connection without an open transaction\<close>

lemma peek_from_idle:
  assumes "spool_ok s" and "\<not> in_transaction s" and "peek_batch n b s = (Inr recs, s')"
  shows "spec_peek_batch n b (limits s) (stored s) = Inr (recs, stored s)"
proof -
  have op: "opened s"
    using assms(3)
    by (auto simp: peek_batch_def bindP_def liftR_def plain_errors_def catchP_def require_open_def
        split: sum.splits prod.splits if_splits)
  let ?d = "durable s"
  have idle: "idle (limits s) (faults s) ?d s" "tables_ok ?d"
    using assms(1,2) op by (simp_all add: spool_ok_def idle_def)
  have "fulfilled (spec_peek_batch n b) (limits s) (faults s) ?d recs s'"
    by (rule triple_InrD [where P = "idle (limits s) (faults s) ?d" and m = "peek_batch n b" and
          E = "refused (spec_peek_batch n b) (limits s) (faults s) ?d", OF _ idle(1) assms(3)])
      (use peek_batch_refines idle(2) in \<open>simp add: refines_def\<close>)
  then obtain q' where "spec_peek_batch n b (limits s) (queue_of ?d) = Inr (recs, q')"
    by (auto simp: fulfilled_def)
  moreover from this have "q' = queue_of ?d" by (auto simp: spec_peek_batch_def bindR_eq_Inr)
  ultimately show ?thesis by (simp add: stored_def)
qed

lemma peek_rows:
  assumes "spool_ok s" and "\<not> in_transaction s" and "peek_batch n b s = (Inr recs, s')"
  shows "\<exists>k. recs = map spool_record_of (take k (q_pending (stored s))) \<and> int k \<le> n"
proof -
  let ?rows = "take (nat n) (q_pending (stored s))"
  have "take_batch b 0 ?rows [] = Inr recs" and n: "0 < n"
    using peek_from_idle [OF assms]
    by (auto simp: spec_peek_batch_def bindR_eq_Inr positive_integer_def split: if_splits)
  then obtain k where k: "k \<le> length ?rows" "recs = map spool_record_of (take k ?rows)"
    using take_batch_Inr [of b 0 ?rows "[]" recs] unfolding append.append_Nil by blast
  then have "take k ?rows = take k (q_pending (stored s))" by (simp add: min_absorb1)
  then show ?thesis using k n by (intro exI [of _ k]) auto
qed

subsection \<open>What \<open>_deliver_once\<close> hands over\<close>

definition oldest_batch :: "ustr \<Rightarrow> int \<Rightarrow> int \<Rightarrow> queue \<Rightarrow> built_batch \<Rightarrow> bool" where
  "oldest_batch tab max_rows max_bytes q b \<longleftrightarrow>
     (\<exists>k. 0 < k \<and> k \<le> length (q_pending q) \<and> int k \<le> max_rows \<and> encodes_rows tab (take k (q_pending q)) b) \<and>
     bb_payload b \<noteq> [] \<and> int (length (bb_payload b)) \<le> max_bytes"

lemma build_batch_oldest:
  assumes ok: "spool_ok (spool w)" and idle: "\<not> in_transaction (spool w)"
    and b: "build_batch isolate w = (Inr (Some batch), w')" and ne: "bb_sequences batch \<noteq> []"
  shows "oldest_batch (table w) (if isolate then 1 else delivery_batch_rows (settings w))
      (delivery_batch_bytes (settings w)) (stored (spool w)) batch \<and> store_kept w w'"
proof -
  let ?n = "if isolate then 1 else delivery_batch_rows (settings w)"
  obtain r s1 where peek: "peek_batch ?n MAX_SQLITE_BATCH_BYTES (spool w) = (r, s1)"
    by (cases "peek_batch ?n MAX_SQLITE_BATCH_BYTES (spool w)")
  let ?w1 = "w\<lparr>spool := s1\<rparr>"
  have kept1: "store_kept w ?w1"
    using spool_read [OF read_peek_batch ok peek] by (simp add: store_kept_def)
  show ?thesis
  proof (cases r)
    case (Inl e)
    then show ?thesis using b peek by (simp add: build_batch_def bindP_def on_spool_app)
  next
    case (Inr recs)
    obtain k where k: "recs = map spool_record_of (take k (q_pending (stored (spool w))))" "int k \<le> ?n"
      using peek_rows [OF ok idle peek [unfolded Inr]] by blast
    let ?rows = "take k (q_pending (stored (spool w)))"
    have recs: "recs \<noteq> []" using b peek Inr by (auto simp: build_batch_def bindP_def on_spool_app)
    then have rows: "?rows \<noteq> []" using k(1) by auto
    have tail: "(case scan_records (table w) (delivery_batch_bytes (settings w)) empty_batch recs of
         Inl e \<Rightarrow> raiseP e | Inr (Built b) \<Rightarrow> returnP (Some b) | Inr (Undecodable r e) \<Rightarrow> bury_undecodable r e) ?w1
         = (Inr (Some batch), w')"
      using b peek Inr recs by (simp add: build_batch_def bindP_def on_spool_app)
    obtain res where res: "scan_records (table w) (delivery_batch_bytes (settings w)) empty_batch recs = Inr res"
      using tail by (cases "scan_records (table w) (delivery_batch_bytes (settings w)) empty_batch recs") auto
    note pre = scan_records_prefix [OF res [unfolded k(1)] rows]
    show ?thesis
    proof (cases res)
      case (Built b')
      then have w': "b' = batch" "w' = ?w1" using tail res by simp_all
      from pre Built w'(1) obtain j where "0 < j" "j \<le> length ?rows"
          "encodes_rows (table w) (take j ?rows) batch" "bb_payload batch \<noteq> []"
          "int (length (bb_payload batch)) \<le> delivery_batch_bytes (settings w)"
        by auto
      moreover from this(2) have "take j ?rows = take j (q_pending (stored (spool w)))" "j \<le> k"
        "j \<le> length (q_pending (stored (spool w)))"
        by (auto simp: min_absorb1)
      ultimately show ?thesis
        using kept1 w'(2) k(2) unfolding oldest_batch_def by (auto intro!: exI [of _ j])
    next
      case (Undecodable r e)
      then have "batch = empty_batch"
        using tail res by (auto simp: bury_undecodable_def bindP_def split: prod.splits sum.splits)
      then show ?thesis using ne by (simp add: empty_batch_def)
    qed
  qed
qed

lemma deliver_begin_oldest:
  assumes "spool_ok (spool w)" and "\<not> in_transaction (spool w)"
    and "deliver_begin isolate b w = (Inr (Inl batch), w')"
  shows "oldest_batch (table w) (if isolate then 1 else delivery_batch_rows (settings w))
      (delivery_batch_bytes (settings w)) (stored (spool w)) batch \<and> store_kept w w'"
proof -
  obtain r w1 where m: "build_batch isolate w = (r, w1)" by (cases "build_batch isolate w")
  then obtain bt where "r = Inr (Some bt)" "bb_sequences bt \<noteq> []" "bt = batch" "w1 = w'"
    using assms(3) unfolding deliver_begin_def bindP_def
    by (cases r) (auto split: option.splits if_splits prod.splits sum.splits)
  then show ?thesis using build_batch_oldest [OF assms(1,2)] m by blast
qed

end
