(* ===== verification/WorkerSystem.thy ===== *)
theory WorkerSystem
  imports WorkerBatch
begin

section \<open>The running worker: every interleaving of its threads and coroutines\<close>

text \<open>
  A run of the worker is a sequence of actions: calls from other threads (\<open>start\<close>, \<open>submit\<close>,
  \<open>stop\<close>), and stretches of the three coroutines and of the executor thread, each from one \<open>await\<close>
  to the next, in any order the code allows. Waits may end at any time, since each has a timeout.
  Cutting the run at more places than the code can only add behaviours, so an invariant of this
  system is one of the program.
\<close>

datatype action =
    Start rat
  | StartFinish bool
  | Submit envelope
  | Stop rat
  | Open limits rat "transport res" "schema_manager res"
  | PersistPass
  | DeliveryPass
  | DeliveryCall
  | MainPass
  | MainCall

text \<open>When an action can happen. The transport of the factory is a new object.\<close>

fun enabled :: "action \<Rightarrow> worker \<Rightarrow> bool" where
  "enabled (Start t) w = True"
| "enabled (StartFinish ready) w =
     (main_task w \<noteq> MainNotStarted \<and> (ready \<longrightarrow> in_loop w \<or> main_task w = MainExited))"
| "enabled (Submit ev) w = True"
| "enabled (Stop t) w = True"
| "enabled (Open L busy tr sm) w =
     (main_task w = MainOpening \<and> (case tr of Inl _ \<Rightarrow> True | Inr t \<Rightarrow> requests t = []))"
| "enabled PersistPass w = (in_loop w \<and> persist_task w = PersistLooping)"
| "enabled DeliveryPass w = in_loop w"
| "enabled DeliveryCall w = in_loop w"
| "enabled MainPass w = (case main_task w of MainEnded _ \<Rightarrow> True | _ \<Rightarrow> in_loop w)"
| "enabled MainCall w = in_loop w"

fun run_action :: "action \<Rightarrow> worker \<Rightarrow> worker" where
  "run_action (Start t) w = snd (start_thread t w)"
| "run_action (StartFinish ready) w = snd (start_finish ready w)"
| "run_action (Submit ev) w = snd (submit ev w)"
| "run_action (Stop t) w = snd (stop_request t w)"
| "run_action (Open L busy tr sm) w = run_step L busy tr sm w"
| "run_action PersistPass w = persist_step w"
| "run_action DeliveryPass w = delivery_step w"
| "run_action DeliveryCall w = executor_delivery w"
| "run_action MainPass w = main_step w"
| "run_action MainCall w = executor_main w"

text \<open>
  What an observer notes down beside the worker: the events \<open>submit\<close> said yes to, in order; the
  dead letters that left the store; whether \<open>ensure\<close> ever returned.
\<close>

record history =
  h_accepted :: "new_spool_event list"
  h_evicted :: "dead_row list"
  h_ensured :: bool

fun submitted_now :: "action \<Rightarrow> worker \<Rightarrow> new_spool_event list" where
  "submitted_now (Submit ev) w =
     (case (fst (submit ev w), to_spool_event ev) of (Inr True, Inr x) \<Rightarrow> [x] | _ \<Rightarrow> [])"
| "submitted_now _ w = []"

definition ensured_now :: "worker \<Rightarrow> bool" where
  "ensured_now w \<longleftrightarrow> delivery_task w = DeliverEnsured (Inr ()) \<or> main_task w = MainFlushEnsured (Inr ())"

definition note_down :: "action \<Rightarrow> worker \<Rightarrow> history \<Rightarrow> history" where
  "note_down a w h =
     \<lparr>h_accepted = h_accepted h @ submitted_now a w,
      h_evicted = h_evicted h @ evicted_by (stored (spool w)) (stored (spool (run_action a w))),
      h_ensured = (h_ensured h \<or> ensured_now (run_action a w))\<rparr>"

text \<open>
  Reachable states, from a new object with valid settings over any file the schema admits. SQLite's
  faults strike anywhere, with one exception: ROLLBACK itself takes effect, so that no action
  leaves a transaction open.
\<close>

definition fresh_file :: "spool \<Rightarrow> bool" where
  "fresh_file s \<longleftrightarrow> quiet (faults s) (durable s) s \<and> \<not> in_transaction s \<and> schema_ok (durable s)"

definition new_history :: history where
  "new_history = \<lparr>h_accepted = [], h_evicted = [], h_ensured = False\<rparr>"

inductive worker_reached :: "worker \<Rightarrow> history \<Rightarrow> bool" where
  new_worker: "make_worker tab st with_schema file tr sm environment = Inr w \<Longrightarrow>
     settings_post_init st = Inr () \<Longrightarrow> fresh_file file \<Longrightarrow> requests tr = [] \<Longrightarrow>
     worker_reached w new_history"
| acted: "worker_reached w h \<Longrightarrow> enabled a w \<Longrightarrow> \<not> in_transaction (spool (run_action a w)) \<Longrightarrow>
     worker_reached (run_action a w) (note_down a w h)"

inductive_cases worker_reached_cases: "worker_reached w h"

lemma note_down_sel [simp]:
  "h_accepted (note_down a w h) = h_accepted h @ submitted_now a w"
  "h_evicted (note_down a w h) = h_evicted h @ evicted_by (stored (spool w)) (stored (spool (run_action a w)))"
  "h_ensured (note_down a w h) \<longleftrightarrow> h_ensured h \<or> ensured_now (run_action a w)"
  by (simp_all add: note_down_def)

subsection \<open>The invariant rule\<close>

locale worker_invariant =
  fixes I :: "worker \<Rightarrow> history \<Rightarrow> bool"
  assumes at_start: "make_worker tab st with_schema file tr sm environment = Inr w \<Longrightarrow>
      settings_post_init st = Inr () \<Longrightarrow> fresh_file file \<Longrightarrow> requests tr = [] \<Longrightarrow> I w new_history"
    and by_action: "worker_reached w h \<Longrightarrow> I w h \<Longrightarrow> enabled a w \<Longrightarrow>
      \<not> in_transaction (spool (run_action a w)) \<Longrightarrow> I (run_action a w) (note_down a w h)"
begin

lemma holds_always: "worker_reached w h \<Longrightarrow> I w h"
  by (induction rule: worker_reached.induct) (auto intro: at_start by_action)

end

subsection \<open>What the actions are made of\<close>

text \<open>The stretches of the delivery coroutine and of the flush, as programs.\<close>

lemma delivery_run_fields:
  assumes "m w = (r, w')"
  shows "\<exists>t. delivery_run m w = w'\<lparr>delivery_task := t\<rparr> \<and>
    (\<forall>b. t = DeliverSending b \<longrightarrow> r = Inr (NextSend b)) \<and> (\<forall>b a. t \<noteq> DeliverSent b a) \<and> (\<forall>a. t \<noteq> DeliverEnsured a)"
  using assms by (cases r) (auto simp: delivery_run_def split: delivery_next.splits)

lemma main_run_fields:
  assumes "m w = (r, w')"
  shows "main_run m w = w'\<lparr>main_task := (case r of Inl e \<Rightarrow> MainEnded (Some e) | Inr t \<Rightarrow> t)\<rparr>"
  using assms by (cases r) (simp_all add: main_run_def)

lemma keeps_control_intake:
  assumes "keeps (\<lambda>w. (control w, intake w)) m" and "m w = (r, w')"
  shows "control w' = control w" "intake w' = intake w"
  using keepsD [OF assms] by simp_all

text \<open>Sending: the request log grows, and success means a 2xx answer to a request with this body.\<close>

definition confirmed :: "exchange \<Rightarrow> bool" where
  "confirmed answer \<longleftrightarrow> (case answer of Response st _ \<Rightarrow> 200 \<le> st \<and> st < 300 | NetworkFailure _ \<Rightarrow> False)"

definition posted :: "transport \<Rightarrow> bytes \<Rightarrow> bool" where
  "posted t body \<longleftrightarrow> (\<exists>i < length (requests t). rq_post (requests t ! i) \<and>
     rq_body (requests t ! i) = body \<and> confirmed (net t i))"

definition log_extends :: "transport \<Rightarrow> transport \<Rightarrow> bool" where
  "log_extends t t' \<longleftrightarrow> net t' = net t \<and> (\<exists>more. requests t' = requests t @ more)"

lemma log_extends_refl [simp]: "log_extends t t"
  by (simp add: log_extends_def)

lemma posted_extends: "log_extends t t' \<Longrightarrow> posted t body \<Longrightarrow> posted t' body"
  by (auto simp: log_extends_def posted_def nth_append intro: exI trans_less_add1)

lemma send_batch_logs:
  assumes "send_batch payload t = (r, t')"
  shows "log_extends t t' \<and> (r = Inr () \<longrightarrow> posted t' payload)"
proof (cases "payload \<noteq> [] \<and> last payload = 10")
  case True
  let ?answer = "net t (length (requests t))"
  let ?t' = "(after_request t True WRITE_PATH payload)
      \<lparr>connection := (if keeps_connection ?answer then Some (used_connection t) else None)\<rparr>"
  obtain r' where s: "send_batch payload t = (r', ?t')"
      "case send_failure ?answer of None \<Rightarrow> r' = Inr ()
       | Some (c, retryable, uncertain, st) \<Rightarrow> \<exists>e. r' = Inl e \<and> exn_class e = c \<and> exn_retryable e = retryable \<and>
          exn_uncertain e = uncertain \<and> exn_status e = st"
    using send_batch_eq [of payload t] True by blast
  have t': "t' = ?t'" and r: "r = r'" using assms s(1) by simp_all
  have ext: "log_extends t t'" by (simp add: t' log_extends_def after_request_def)
  have "posted t' payload" if "r = Inr ()"
  proof -
    have "send_failure ?answer = None" using s(2) that r by (auto split: option.splits prod.splits)
    then have "confirmed ?answer"
      by (auto simp: send_failure_def confirmed_def split: exchange.splits if_splits)
    then show ?thesis
      by (auto simp: t' posted_def after_request_def intro!: exI [of _ "length (requests t)"])
  qed
  then show ?thesis using ext by simp
next
  case False
  then show ?thesis using assms by (auto simp: send_batch_def split: if_splits)
qed

end
