(* ===== verification/WorkerFlow.thy ===== *)
theory WorkerFlow
  imports WorkerSystem
begin

section \<open>From submit to the spool\<close>

text \<open>
  How an accepted event travels: from the ingress queue to the held list, and from there to the spool, where
  an insertion either hands over everything held or changes nothing.
\<close>

subsection \<open>One pass of the persist loop\<close>

lemma drain_eq:
  "drain n hs q = (hs @ take (n - length hs) q, drop (n - length hs) q)"
proof (induction n hs q rule: drain.induct)
  case (1 n hs q)
  show ?case
  proof (cases "length hs < n")
    case True
    then obtain m where m: "n - length hs = Suc m" by (metis Suc_diff_Suc)
    then have "n - length (hs @ [x]) = m" for x by simp
    then show ?thesis using 1 True m by (cases q) (simp_all add: drain.simps [of n hs])
  next
    case False
    then show ?thesis by (simp add: drain.simps [of n hs])
  qed
qed

lemma task_done_all:
  "int (length xs) \<le> unfinished_tasks w \<Longrightarrow>
     forP (\<lambda>_. task_done) xs w = (Inr (), w\<lparr>unfinished_tasks := unfinished_tasks w - int (length xs)\<rparr>)"
proof (induction xs arbitrary: w)
  case (Cons x xs)
  then show ?case by (simp add: task_done_def bindP_def algebra_simps)
qed simp

lemma try_enqueue_stores:
  assumes "try_enqueue evs w = (Inr None, w')" and "spool_ok (spool w)" and "ev \<in> set evs"
  shows "holds (stored (spool w')) ev"
proof -
  obtain r s' where e: "enqueue_many evs (spool w) = (r, s')" by (cases "enqueue_many evs (spool w)")
  then obtain n where "r = Inr n" "w' = w\<lparr>spool := s'\<rparr>"
    using assms(1) by (cases r) (auto simp: try_enqueue_def catchP_def bindP_def on_spool_app split: if_splits)
  then show ?thesis using spool_store.put_grows [OF assms(2) e] assms(3) by simp
qed

text \<open>What \<open>_persist_held\<close> can do to the intake: nothing, or hand everything held to the spool.\<close>

definition handed_over :: "new_spool_event list \<Rightarrow> worker \<Rightarrow> worker \<Rightarrow> bool" where
  "handed_over evs w w' \<longleftrightarrow>
     intake w' = (ingress w, unfinished_tasks w - int (length evs), [], 0, ingress_high_watermark w,
       submitted_events w, persisted_events w + int (length evs)) \<and>
     (spool_ok (spool w) \<longrightarrow> (\<forall>ev \<in> set evs. holds (stored (spool w')) ev))"

definition persists :: "new_spool_event list \<Rightarrow> worker \<Rightarrow> worker \<Rightarrow> bool" where
  "persists evs w w' \<longleftrightarrow> (held w = evs \<and> int (length evs) \<le> unfinished_tasks w \<longrightarrow>
     intake w' = intake w \<or> handed_over evs w w')"

lemma persists_before:
  assumes "keeps intake m" and "moves store_kept m" and "\<And>x. moves (persists evs) (k x)"
  shows "moves (persists evs) (bindP m k)"
  unfolding moves_def
proof
  fix w
  obtain r w1 where m: "m w = (r, w1)" by (cases "m w")
  have i: "intake w1 = intake w" using keepsD [OF assms(1) m] .
  have s: "store_kept w w1" using assms(2) m unfolding moves_def by (metis snd_conv)
  show "persists evs w (snd (bindP m k w))"
  proof (cases r)
    case (Inl e)
    then show ?thesis using m i by (simp add: bindP_def persists_def)
  next
    case (Inr x)
    have "persists evs w1 (snd (k x w1))" using assms(3) by (simp add: moves_def)
    then show ?thesis using m Inr i s
      by (auto simp: bindP_def persists_def handed_over_def intake_def store_kept_def)
  qed
qed

lemma persists_keep: "keeps intake m \<Longrightarrow> moves (persists evs) m"
  by (simp add: keeps_def moves_def persists_def)

lemma intake_of_outer: "keeps outer m \<Longrightarrow> keeps intake m"
  by (rule keeps_part [where h = "\<lambda>(c, i, r). i"]) (auto simp: outer_def)

lemma persist_tail:
  assumes "int (length evs) \<le> unfinished_tasks w"
  shows "\<exists>r w'. bindP (forP (\<lambda>_. task_done) evs) (\<lambda>_.
      bindP (modifyP (\<lambda>w. w\<lparr>persisted_events := persisted_events w + int (length evs), held := []\<rparr>)) (\<lambda>_.
      bindP (set_held 0) (\<lambda>_. bindP spool_stats_now (\<lambda>_. bindP resume_after_storage_block (\<lambda>_. returnP True))))) w
      = (r, w') \<and> store_kept w w' \<and>
    intake w' = (ingress w, unfinished_tasks w - int (length evs), [], 0, ingress_high_watermark w,
       submitted_events w, persisted_events w + int (length evs))"
proof -
  let ?w1 = "w\<lparr>unfinished_tasks := unfinished_tasks w - int (length evs),
      persisted_events := persisted_events w + int (length evs), held := [], held_unpersisted := 0\<rparr>"
  let ?last = "bindP spool_stats_now (\<lambda>_. bindP resume_after_storage_block (\<lambda>_. returnP True))"
  obtain r w' where e: "?last ?w1 = (r, w')" by (cases "?last ?w1")
  have "keeps intake ?last"
    by (intro intake_of_outer keeps_intros keeps_outer)
  from keepsD [OF this e] have "intake w' = intake ?w1" .
  moreover have "moves store_kept ?last" by (intro kept_basic kept_rules)
  then have "store_kept ?w1 w'" using e unfolding moves_def by (metis snd_conv)
  then have "store_kept w w'" by (simp add: store_kept_def)
  ultimately show ?thesis
    using e by (simp add: bindP_def [of "forP _ _"] task_done_all [OF assms] bindP_def [of "modifyP _"]
        bindP_def [of "set_held _"] set_held_def intake_def)
qed

lemma persist_enqueue:
  "moves (persists evs) (bindP (try_enqueue evs) (\<lambda>res.
     case res of
       Some (reason, err) \<Rightarrow> bindP (block_on_storage reason err) (\<lambda>_. returnP False)
     | None \<Rightarrow>
         bindP (forP (\<lambda>_. task_done) evs) (\<lambda>_.
         bindP (modifyP (\<lambda>w. w\<lparr>persisted_events := persisted_events w + int (length evs), held := []\<rparr>)) (\<lambda>_.
         bindP (set_held 0) (\<lambda>_. bindP spool_stats_now (\<lambda>_. bindP resume_after_storage_block (\<lambda>_. returnP True)))))))"
  (is "moves _ (bindP _ ?k)")
  unfolding moves_def
proof
  fix w
  obtain r w1 where m: "try_enqueue evs w = (r, w1)" by (cases "try_enqueue evs w")
  have i: "intake w1 = intake w" using keepsD [OF intake_of_outer [OF outer_try_enqueue] m] .
  show "persists evs w (snd (bindP (try_enqueue evs) ?k w))"
  proof (cases "r = Inr None")
    case False
    have "keeps intake (bindP (block_on_storage reason err) (\<lambda>_. returnP False))" for reason err
      by (intro intake_of_outer keeps_intros keeps_outer)
    then have "intake (snd (bindP (try_enqueue evs) ?k w)) = intake w"
      using m i False by (auto simp: bindP_def [of "try_enqueue _"] keeps_snd split: sum.splits option.splits)
    then show ?thesis by (simp add: persists_def)
  next
    case True
    show ?thesis
      unfolding persists_def
    proof
      assume h: "held w = evs \<and> int (length evs) \<le> unfinished_tasks w"
      then have "int (length evs) \<le> unfinished_tasks w1" using i by (simp add: intake_def)
      from persist_tail [OF this] obtain r' w' where
          e: "snd (bindP (try_enqueue evs) ?k w) = w'" "store_kept w1 w'"
          "intake w' = (ingress w1, unfinished_tasks w1 - int (length evs), [], 0, ingress_high_watermark w1,
             submitted_events w1, persisted_events w1 + int (length evs))"
        using m True by (auto simp: bindP_def [of "try_enqueue _"])
      have "holds (stored (spool w')) ev" if "spool_ok (spool w)" "ev \<in> set evs" for ev
      proof -
        have "store_step {} w w1" using step_try_enqueue m unfolding moves_def by (metis snd_conv)
        then have "spool_ok (spool w1)" using that(1) by (simp add: store_step_def)
        then show ?thesis using try_enqueue_stores [OF m [unfolded True] that] e(2) by (simp add: store_kept_def)
      qed
      then have "handed_over evs w w'" using e(3) i by (simp add: handed_over_def intake_def)
      then show "intake (snd (bindP (try_enqueue evs) ?k w)) = intake w \<or>
          handed_over evs w (snd (bindP (try_enqueue evs) ?k w))" using e(1) by simp
    qed
  qed
qed

lemma persist_held_persists: "persists (held w) w (snd (persist_held w))"
proof -
  let ?body = "\<lambda>evs. bindP check_storage (\<lambda>first_status.
         bindP (if status_blocked first_status then
             bindP reclaim_spool (\<lambda>moved. if moved then check_storage else returnP first_status)
           else returnP first_status) (\<lambda>st.
           if status_blocked st then
             bindP (block_on_storage BlockDiskSpace (storage_status_text st)) (\<lambda>_. returnP False)
           else
             bindP (try_enqueue evs) (\<lambda>res.
             case res of
               Some (reason, err) \<Rightarrow> bindP (block_on_storage reason err) (\<lambda>_. returnP False)
             | None \<Rightarrow>
                 bindP (forP (\<lambda>_. task_done) evs) (\<lambda>_.
                 bindP (modifyP (\<lambda>w. w\<lparr>persisted_events := persisted_events w + int (length evs), held := []\<rparr>)) (\<lambda>_.
                 bindP (set_held 0) (\<lambda>_.
                 bindP spool_stats_now (\<lambda>_.
                 bindP resume_after_storage_block (\<lambda>_. returnP True))))))))"
  have "moves (persists evs) (?body evs)" for evs
    by (intro persist_enqueue persists_before kept_second_check moves_if)
      (intro kept_rules persists_keep intake_of_outer keeps_if keeps_bind keeps_return keeps_outer)+
  moreover have "persist_held w = (if held w = [] then (Inr True, w) else ?body (held w) w)"
    by (simp add: persist_held_def bindP_def [of "getP _"])
  ultimately show ?thesis by (simp add: moves_def persists_def)
qed

lemma drain_ingress_eq:
  "drain_ingress w = (Inr (), w\<lparr>held := fst (drain (nat (persist_batch_rows (settings w))) (held w) (ingress w)),
     ingress := snd (drain (nat (persist_batch_rows (settings w))) (held w) (ingress w)),
     held_unpersisted := length (fst (drain (nat (persist_batch_rows (settings w))) (held w) (ingress w)))\<rparr>)"
  by (simp add: drain_ingress_def bindP_def set_held_def split_beta)

text \<open>The pass: drain, hand over or not, and return only when stopping with nothing left.\<close>

definition persist_end :: "persist_pause worker_prog" where
  "persist_end =
     bindP spool_stats_now (\<lambda>_.
     bindP (modifyP (\<lambda>w. w\<lparr>wake_deliver := True\<rparr>)) (\<lambda>_.
     bindP (getP stop_async) (\<lambda>stopping.
       if stopping then
         bindP (getP (\<lambda>w. (length (held w) + length (ingress w), shutdown_deadline w))) (\<lambda>(left, deadline).
           if left = 0 then returnP PersistDone
           else (case deadline of
               None \<Rightarrow> returnP (PersistSleep SHUTDOWN_RETRY_SECONDS)
             | Some d \<Rightarrow>
                 bindP (ask_env monotonic) (\<lambda>t.
                   if t \<ge> d then
                     raiseP (mk_exn WorkerShutdownError (lit ''shutdown left '' @ nat_str left @
                       lit '' accepted events unpersisted''))
                   else
                     bindP (ask_env monotonic) (\<lambda>t'.
                       returnP (PersistSleep (min SHUTDOWN_RETRY_SECONDS (max 0 (d - t'))))))))
       else
         bindP (modifyP (\<lambda>w. w\<lparr>wake_persist := False\<rparr>)) (\<lambda>_.
         bindP (getP (persist_idle_poll_seconds \<circ> settings)) (\<lambda>poll.
         returnP (PersistWait poll))))))"

lemma persist_pass_split:
  "persist_pass w = bindP drain_ingress (\<lambda>_. bindP persist_held (\<lambda>_. persist_end)) w"
proof -
  let ?w = "snd (drain_ingress w)"
  have "bindP (getP held) (\<lambda>evs. bindP (if evs \<noteq> [] then bindP persist_held (\<lambda>_. returnP ()) else returnP ()) (\<lambda>_. persist_end)) ?w
      = bindP persist_held (\<lambda>_. persist_end) ?w"
    by (cases "held ?w = []"; cases "persist_held ?w"; cases "fst (persist_held ?w)")
      (simp_all add: bindP_def persist_held_def)
  then show ?thesis
    unfolding persist_pass_def persist_end_def [symmetric]
    by (simp add: bindP_def [of drain_ingress] drain_ingress_eq)
qed

lemma persist_end_keeps: "keeps outer persist_end" "moves store_kept persist_end"
  unfolding persist_end_def
  by (intro keeps_intros keeps_outer; simp add: outer_defs)
    (intro kept_basic kept_rules; simp)

lemma persist_end_done:
  assumes "persist_end w = (Inr PersistDone, w')"
  shows "stop_async w \<and> held w' = [] \<and> ingress w' = []"
proof -
  obtain r w1 where m: "spool_stats_now w = (r, w1)" by (cases "spool_stats_now w")
  have o: "outer w1 = outer w" using keepsD [OF outer_stats_now m] .
  have "outer w' = outer w" using keepsD [OF persist_end_keeps(1) assms] .
  then show ?thesis
    using assms m o unfolding persist_end_def
    by (cases r) (auto simp: bindP_def outer_defs split: if_splits option.splits)
qed

lemma persist_pass_intake:
  assumes "persist_pass w = (r, w')" and "unfinished_tasks w = int (length (held w) + length (ingress w))"
    and "drain (nat (persist_batch_rows (settings w))) (held w) (ingress w) = (hs, q)"
  shows "(intake w' = (q, unfinished_tasks w, hs, length hs, ingress_high_watermark w, submitted_events w, persisted_events w) \<or>
      intake w' = (q, unfinished_tasks w - int (length hs), [], 0, ingress_high_watermark w, submitted_events w,
         persisted_events w + int (length hs)) \<and>
      (spool_ok (spool w) \<longrightarrow> (\<forall>ev \<in> set hs. holds (stored (spool w')) ev))) \<and>
    (r = Inr PersistDone \<longrightarrow> stop_async w \<and> held w' = [] \<and> ingress w' = [])"
proof -
  let ?w1 = "w\<lparr>held := hs, ingress := q, held_unpersisted := length hs\<rparr>"
  obtain r2 w2 where h: "persist_held ?w1 = (r2, w2)" by (cases "persist_held ?w1")
  have p: "bindP persist_held (\<lambda>_. persist_end) ?w1 = (r, w')"
    using assms(1,3) by (simp add: persist_pass_split bindP_def [of drain_ingress] drain_ingress_eq)
  have len: "length hs + length q = length (held w) + length (ingress w)"
    using assms(3) by (auto simp: drain_eq)
  have per: "intake w2 = intake ?w1 \<or> handed_over hs ?w1 w2"
    using persist_held_persists [of ?w1] h assms(2) len by (simp add: persists_def)
  have ctl: "control w2 = control w"
    using keepsD [OF control_persist_held h] by (simp add: control_def)
  show ?thesis
  proof (cases r2)
    case (Inl e)
    then have "r = Inl e" "w' = w2" using p h by (simp_all add: bindP_def)
    then show ?thesis using per by (auto simp: handed_over_def intake_def)
  next
    case (Inr b)
    then have e: "persist_end w2 = (r, w')" using p h by (simp add: bindP_def)
    have i: "intake w' = intake w2" using keepsD [OF intake_of_outer [OF persist_end_keeps(1)] e] .
    have k: "store_kept w2 w'" using persist_end_keeps(2) e unfolding moves_def by (metis snd_conv)
    have "spool_ok (spool w2)" if "spool_ok (spool w)"
    proof -
      have "store_step {} ?w1 w2" using step_persist_held h unfolding moves_def by (metis snd_conv)
      then show ?thesis using that by (simp add: store_step_def)
    qed
    then have "(intake w' = intake ?w1) \<or> intake w' = intake w2 \<and> handed_over hs ?w1 w2 \<and>
        (spool_ok (spool w) \<longrightarrow> (\<forall>ev \<in> set hs. holds (stored (spool w')) ev))"
      using per i k by (auto simp: handed_over_def store_kept_def)
    moreover have "stop_async w \<and> held w' = [] \<and> ingress w' = []" if "r = Inr PersistDone"
      using persist_end_done [of w2 w'] e that ctl by (simp add: control_def)
    ultimately show ?thesis by (auto simp: handed_over_def intake_def)
  qed
qed

end
