(* ===== verification/WorkerSteps.thy ===== *)
theory WorkerSteps
  imports WorkerFlow
begin

section \<open>One action at a time\<close>

text \<open>What each action does to the fields the invariants speak about, read off its program.\<close>

subsection \<open>Reading never opens a transaction\<close>

abbreviation no_open :: "spool \<Rightarrow> bool" where
  "no_open s \<equiv> \<not> in_transaction s"

lemma no_open_stats: "preserves no_open current_stats"
proof -
  have e: "preserves no_open (execute select_stats)"
    by (auto simp: moves_def execute_def after_fault_def split: option.splits sum.splits)
  have r: "preserves no_open require_open" by (simp add: moves_def require_open_def)
  show ?thesis
    unfolding current_stats_def plain_errors_eq stats_of_row_def
    by (intro preserved.moves_intros moves_if moves_option e r)
qed

lemma spool_stats_no_open:
  assumes "spool_stats_now w = (r, w')" and "\<not> in_transaction (spool w)"
  shows "\<not> in_transaction (spool w')"
proof -
  have "spool w' = snd (current_stats (spool w))"
    using assms(1) by (auto simp: spool_stats_now_def bindP_def on_spool_app set_spool_stats_def split: sum.splits)
  then show ?thesis using preservesD [OF no_open_stats assms(2)] by simp
qed

subsection \<open>The delivery coroutine\<close>

text \<open>A batch is handed to the executor only as the oldest rows, and after the schema gate.\<close>

definition fresh_batch :: "worker \<Rightarrow> built_batch \<Rightarrow> bool" where
  "fresh_batch w batch \<longleftrightarrow> (\<exists>n. oldest_batch (table w) n (delivery_batch_bytes (settings w)) (stored (spool w)) batch \<and>
     n \<in> {1, delivery_batch_rows (settings w)})"

lemma fresh_batch_kept:
  assumes "store_kept w w'" and "outer w' = outer w" and "spool_ok (spool w)" and "fresh_batch w batch"
  shows "fresh_batch w' batch"
  using assms by (simp add: fresh_batch_def store_kept_def outer_defs)

lemma begin_fresh:
  assumes "spool_ok (spool w)" and "\<not> in_transaction (spool w)" and "deliver_begin isolate b w = (Inr (Inl batch), w')"
  shows "fresh_batch w' batch \<and> store_kept w w'"
proof -
  note o = deliver_begin_oldest [OF assms]
  have "fresh_batch w batch" unfolding fresh_batch_def using o by (intro exI) auto
  then show ?thesis
    using fresh_batch_kept [OF _ keepsD [OF outer_deliver_begin assms(3)] assms(1)] o by blast
qed

lemma attempt_send:
  assumes "deliver_attempt m w = (Inr (NextSend batch), w')"
  shows "m w = (Inr (Inl batch), w')"
  using assms
  by (cases "m w"; cases "fst (m w)")
    (auto simp: deliver_attempt_def bindP_def catchP_def split: if_splits sum.splits option.splits prod.splits)

lemma rest_send:
  assumes "spool_ok (spool w)" and "\<not> in_transaction (spool w)" and "deliver_rest w = (Inr (NextSend batch), w')"
  shows "fresh_batch w' batch"
proof -
  let ?w0 = "w\<lparr>now := Suc (now w)\<rparr>"
  obtain r w1 where st: "spool_stats_now ?w0 = (r, w1)" by (cases "spool_stats_now ?w0")
  obtain st' where r: "r = Inr st'" using assms(3) st by (cases r) (auto simp: deliver_rest_def bindP_def)
  let ?w2 = "w1\<lparr>pending_since := (if pending_rows st' = 0 then None
      else case pending_since w1 of None \<Rightarrow> Some (monotonic (env w) (now w)) | Some since \<Rightarrow> Some since)\<rparr>"
  have "store_kept ?w0 w1" using kept_small(5) st unfolding moves_def by (metis snd_conv)
  then have ok: "spool_ok (spool ?w2)" "\<not> in_transaction (spool ?w2)"
    using assms(1,2) spool_stats_no_open [OF st] by (simp_all add: store_kept_def)
  have "\<exists>isolate. deliver_attempt (deliver_begin isolate LoopBackoff) ?w2 = (Inr (NextSend batch), w')"
    using assms(3) st r by (auto simp: deliver_rest_def bindP_def split: if_splits)
  then show ?thesis using attempt_send begin_fresh [OF ok] by blast
qed

lemma pass_send:
  assumes "spool_ok (spool w)" and "\<not> in_transaction (spool w)" and "deliver_pass w = (Inr (NextSend batch), w')"
  shows "fresh_batch w' batch"
proof (cases "schema_ready w")
  case True
  then show ?thesis using assms rest_send by (auto simp: deliver_pass_def bindP_def split: if_splits)
next
  case False
  let ?w = "w\<lparr>schema_ready := True\<rparr>"
  have "deliver_rest ?w = (Inr (NextSend batch), w')"
    using False assms(3) by (auto simp: deliver_pass_def bindP_def split: if_splits)
  then show ?thesis using rest_send [of ?w] assms by simp
qed

lemma ensure_send:
  assumes "spool_ok (spool w)" and "\<not> in_transaction (spool w)" and "after_ensure answer w = (Inr (NextSend batch), w')"
  shows "fresh_batch w' batch \<and> answer = Inr ()"
proof -
  obtain r w1 where e: "ensure_finish answer w = (r, w1)" by (cases "ensure_finish answer w")
  have r: "r = Inr None" and w': "deliver_rest (w1\<lparr>schema_ready := True\<rparr>) = (Inr (NextSend batch), w')"
    using assms(3) e by (cases r; auto simp: after_ensure_def bindP_def split: option.splits)+
  have a: "answer = Inr ()"
  proof (cases answer)
    case (Inl x)
    then show ?thesis using e r
      by (auto simp: ensure_finish_def bindP_def getP_def split: if_splits prod.splits sum.splits)
  qed simp
  then have "spool w1 = spool w"
    using e by (auto simp: ensure_finish_def bindP_def reset_backoff_def set_delivery_state_def)
  then show ?thesis using rest_send [OF _ _ w'] assms(1,2) a by simp
qed

lemma sent_no_send: "after_send batch answer w \<noteq> (Inr (NextSend b), w')"
proof
  assume "after_send batch answer w = (Inr (NextSend b), w')"
  then have "bindP (deliver_finish LoopBackoff batch answer) (\<lambda>out. returnP (Inr out)) w = (Inr (Inl b), w')"
    unfolding after_send_def by (rule attempt_send)
  then show False by (simp add: bindP_def split: prod.splits sum.splits)
qed

text \<open>The whole delivery action.\<close>

definition delivery_clears :: "worker \<Rightarrow> int set" where
  "delivery_clears w = (case delivery_task w of DeliverSent batch answer \<Rightarrow> cleared batch answer | _ \<Rightarrow> {})"

lemma delivery_run_facts:
  assumes "keeps (\<lambda>w. (control w, intake w)) m" and "moves (store_step A) m" and "preserves tidy m"
    and "w' = delivery_run m w"
  shows "\<exists>t. control w' = control (w\<lparr>delivery_task := t\<rparr>) \<and> intake w' = intake w \<and> store_step A w w' \<and>
    (tidy w \<longrightarrow> tidy w') \<and> (\<forall>b. t = DeliverSending b \<longrightarrow> (\<exists>w1. m w = (Inr (NextSend b), w1) \<and>
      w' = w1\<lparr>delivery_task := t\<rparr>)) \<and> (\<forall>b a. t \<noteq> DeliverSent b a) \<and> (\<forall>a. t \<noteq> DeliverEnsured a) \<and>
      (\<exists>w1. snd (m w) = w1 \<and> schema_ready w' = schema_ready w1)"
proof -
  obtain r w1 where m: "m w = (r, w1)" by (cases "m w")
  obtain t where t: "w' = w1\<lparr>delivery_task := t\<rparr>" "\<forall>b. t = DeliverSending b \<longrightarrow> r = Inr (NextSend b)"
      "\<forall>b a. t \<noteq> DeliverSent b a" "\<forall>a. t \<noteq> DeliverEnsured a"
    using delivery_run_fields [of m w r w1] m assms(4) by blast
  have ci: "control w1 = control w" "intake w1 = intake w" using keeps_control_intake [OF assms(1) m] .
  have "store_step A w w1" using assms(2) m unfolding moves_def by (metis snd_conv)
  moreover have "tidy w \<longrightarrow> tidy w1" using assms(3) m unfolding moves_def by (metis snd_conv)
  ultimately show ?thesis
  proof (intro exI [of _ t] conjI)
    show "control w' = control (w\<lparr>delivery_task := t\<rparr>)" using ci(1) by (simp add: t(1) control_def)
    show "intake w' = intake w" using ci(2) by (simp add: t(1) intake_def)
    show "store_step A w w'" using \<open>store_step A w w1\<close> by (simp add: t(1) store_step_def)
    have "tidy w1 \<longrightarrow> tidy w'" by (rule tidy_fields) (simp_all add: t(1))
    then show "tidy w \<longrightarrow> tidy w'" using \<open>tidy w \<longrightarrow> tidy w1\<close> by blast
    show "\<forall>b. t = DeliverSending b \<longrightarrow> (\<exists>w1. m w = (Inr (NextSend b), w1) \<and> w' = w1\<lparr>delivery_task := t\<rparr>)"
      using t(1,2) m by blast
    show "\<exists>w1. snd (m w) = w1 \<and> schema_ready w' = schema_ready w1" using m t(1) by simp
  qed (use t(3,4) in blast)+
qed

lemma pass_gate:
  assumes "deliver_pass w = (r, w')"
  shows "(schema_ready w' \<longrightarrow> schema_ready w \<or> \<not> has_schema w) \<and>
    (\<forall>b. r = Inr (NextSend b) \<longrightarrow> schema_ready w')"
proof -
  have rest: "deliver_rest w1 = (r, w') \<Longrightarrow> schema_ready w' = schema_ready w1" for w1
    using keepsD [OF outer_deliver_rest] by (auto simp: outer_def)
  consider "schema_ready w" "deliver_rest w = (r, w')" | "\<not> has_schema w" "deliver_rest (w\<lparr>schema_ready := True\<rparr>) = (r, w')"
    | "w' = w" "\<forall>b. r \<noteq> Inr (NextSend b)"
    using assms by (auto simp: deliver_pass_def bindP_def split: if_splits)
  then show ?thesis
  proof cases
    case 1
    then show ?thesis using rest [OF 1(2)] by simp
  next
    case 2
    then show ?thesis using rest [OF 2(2)] by simp
  qed simp
qed

lemma ensure_gate:
  assumes "after_ensure answer w = (r, w')"
  shows "(schema_ready w' \<longrightarrow> schema_ready w \<or> answer = Inr ()) \<and>
    (\<forall>b. r = Inr (NextSend b) \<longrightarrow> schema_ready w')"
proof -
  have rest: "deliver_rest w1 = (r, w') \<Longrightarrow> schema_ready w' = schema_ready w1" for w1
    using keepsD [OF outer_deliver_rest] by (auto simp: outer_def)
  obtain r1 w1 where e: "ensure_finish answer w = (r1, w1)" by (cases "ensure_finish answer w")
  have o: "schema_ready w1 = schema_ready w" using keepsD [OF outer_ensure_finish e] by (simp add: outer_def)
  have none: "answer = Inr ()" if "r1 = Inr None"
  proof (cases answer)
    case (Inl x)
    then show ?thesis using e that
      by (auto simp: ensure_finish_def bindP_def getP_def split: if_splits prod.splits sum.splits)
  qed simp
  show ?thesis
  proof (cases r1)
    case (Inl x)
    then show ?thesis using assms e o by (auto simp: after_ensure_def bindP_def)
  next
    case (Inr d)
    then show ?thesis
      using assms e o none rest [of "w1\<lparr>schema_ready := True\<rparr>"]
      by (cases d) (auto simp: after_ensure_def bindP_def)
  qed
qed

definition delivery_effect :: "worker \<Rightarrow> worker \<Rightarrow> bool" where
  "delivery_effect w w' \<longleftrightarrow> w' = w \<or>
     (\<exists>t. control w' = control (w\<lparr>delivery_task := t\<rparr>) \<and> intake w' = intake w \<and>
        store_step (delivery_clears w) w w' \<and> (tidy w \<longrightarrow> tidy w') \<and>
        (\<forall>b a. t \<noteq> DeliverSent b a) \<and> (\<forall>a. t \<noteq> DeliverEnsured a) \<and>
        (schema_ready w' \<longrightarrow> schema_ready w \<or> \<not> has_schema w \<or> delivery_task w = DeliverEnsured (Inr ())) \<and>
        (\<forall>b. t = DeliverSending b \<longrightarrow> schema_ready w' \<and>
          (spool_ok (spool w) \<and> \<not> in_transaction (spool w) \<longrightarrow> fresh_batch w' b)))"

lemma delivery_effectI:
  assumes "keeps (\<lambda>w. (control w, intake w)) m" and "moves (store_step (delivery_clears w)) m"
    and "preserves tidy m" and "delivery_step w = delivery_run m w"
    and "\<And>b w1. spool_ok (spool w) \<Longrightarrow> \<not> in_transaction (spool w) \<Longrightarrow> m w = (Inr (NextSend b), w1) \<Longrightarrow> fresh_batch w1 b"
    and "\<And>r w1. m w = (r, w1) \<Longrightarrow>
      (schema_ready w1 \<longrightarrow> schema_ready w \<or> \<not> has_schema w \<or> delivery_task w = DeliverEnsured (Inr ())) \<and>
      (\<forall>b. r = Inr (NextSend b) \<longrightarrow> schema_ready w1)"
  shows "delivery_effect w (delivery_step w)"
proof -
  obtain t where t: "control (delivery_step w) = control (w\<lparr>delivery_task := t\<rparr>)"
      "intake (delivery_step w) = intake w" "store_step (delivery_clears w) w (delivery_step w)"
      "tidy w \<longrightarrow> tidy (delivery_step w)"
      "\<forall>b. t = DeliverSending b \<longrightarrow> (\<exists>w1. m w = (Inr (NextSend b), w1) \<and> delivery_step w = w1\<lparr>delivery_task := t\<rparr>)"
      "\<forall>b a. t \<noteq> DeliverSent b a" "\<forall>a. t \<noteq> DeliverEnsured a"
      "schema_ready (delivery_step w) = schema_ready (snd (m w))"
    using delivery_run_facts [OF assms(1-4)] by blast
  have ready: "schema_ready (delivery_step w) \<longrightarrow>
      schema_ready w \<or> \<not> has_schema w \<or> delivery_task w = DeliverEnsured (Inr ())"
    using assms(6) [of "fst (m w)" "snd (m w)"] t(8) by simp
  have send: "schema_ready (delivery_step w) \<and>
      (spool_ok (spool w) \<and> \<not> in_transaction (spool w) \<longrightarrow> fresh_batch (delivery_step w) b)"
    if sending: "t = DeliverSending b" for b
  proof -
    obtain w1 where w1: "m w = (Inr (NextSend b), w1)" "delivery_step w = w1\<lparr>delivery_task := t\<rparr>"
      using t(5) sending by blast
    have "schema_ready w1" using assms(6) [OF w1(1)] by simp
    moreover have "fresh_batch (delivery_step w) b" if "spool_ok (spool w)" "\<not> in_transaction (spool w)"
      using assms(5) [OF that w1(1)] by (simp add: w1(2) fresh_batch_def)
    ultimately show ?thesis by (simp add: w1(2))
  qed
  show ?thesis
    unfolding delivery_effect_def using t(1-4,6,7) ready send by blast
qed

lemma delivery_step_effect: "delivery_effect w (delivery_step w)"
proof (cases "delivery_task w")
  case DeliverLooping
  show ?thesis
    by (rule delivery_effectI [OF ungated_deliver_pass step_deliver_pass tidy_deliver_pass])
      (use DeliverLooping pass_send pass_gate in \<open>auto simp: delivery_step_def\<close>)
next
  case (DeliverEnsured answer)
  show ?thesis
    by (rule delivery_effectI [OF ungated_after_ensure step_after_ensure tidy_after_ensure])
      (use DeliverEnsured ensure_send ensure_gate [of answer w] in \<open>auto simp: delivery_step_def\<close>)
next
  case (DeliverSent batch answer)
  have gate: "schema_ready w1 = schema_ready w" if "after_send batch answer w = (r, w1)" for r w1
    using keepsD [OF outer_after_send that] by (simp add: outer_def)
  have "moves (store_step (delivery_clears w)) (after_send batch answer)"
    using step_after_send DeliverSent by (simp add: delivery_clears_def)
  then show ?thesis
    by (rule delivery_effectI [OF ungated_of_outer [OF outer_after_send] _ tidy_after_send])
      (use DeliverSent gate sent_no_send in \<open>auto simp: delivery_step_def\<close>)
qed (simp_all add: delivery_effect_def delivery_step_def)

subsection \<open>The main coroutine\<close>

definition main_clears :: "worker \<Rightarrow> int set" where
  "main_clears w = (case main_task w of MainFlushSent batch answer \<Rightarrow> cleared batch answer | _ \<Rightarrow> {})"

lemma flush_send:
  assumes "flush_begin w = (Inr (MainFlushSending batch), w')" and "spool_ok (spool w)" "\<not> in_transaction (spool w)"
  shows "fresh_batch w' batch"
proof -
  let ?w = "w\<lparr>backoff_base := (backoff_base w)(FlushBackoff := retry_initial_seconds (settings w))\<rparr>"
  have "deliver_begin False FlushBackoff ?w = (Inr (Inl batch), w')"
    using assms(1)
    by (cases "deliver_begin False FlushBackoff ?w"; cases "fst (deliver_begin False FlushBackoff ?w)")
      (auto simp: flush_begin_def bindP_def reset_backoff_def split: sum.splits)
  then show ?thesis using begin_fresh [of ?w] assms(2,3) by auto
qed

lemma flush_begin_next: "flush_begin w = (Inr t, w') \<Longrightarrow> t = MainCancelling \<or> (\<exists>b. t = MainFlushSending b)"
  by (auto simp: flush_begin_def bindP_def split: prod.splits sum.splits)

text \<open>Where the flush can stand after one of its programs.\<close>

definition flush_next :: "main_task worker_prog \<Rightarrow> worker \<Rightarrow> bool" where
  "flush_next m w \<longleftrightarrow> (\<forall>t w'. m w = (Inr t, w') \<longrightarrow>
     t = MainCancelling \<or> t = MainFlushEnsuring \<or>
     (\<exists>b. t = MainFlushSending b \<and> (\<not> has_schema w \<or> main_task w = MainFlushEnsured (Inr ())) \<and>
        (spool_ok (spool w) \<and> \<not> in_transaction (spool w) \<longrightarrow> fresh_batch w' b)))"

lemma flush_check_next: "flush_next flush_check w"
  unfolding flush_next_def
proof (intro allI impI)
  fix t w' assume f: "flush_check w = (Inr t, w')"
  show "t = MainCancelling \<or> t = MainFlushEnsuring \<or>
     (\<exists>b. t = MainFlushSending b \<and> (\<not> has_schema w \<or> main_task w = MainFlushEnsured (Inr ())) \<and>
        (spool_ok (spool w) \<and> \<not> in_transaction (spool w) \<longrightarrow> fresh_batch w' b))"
  proof (cases "flush_on_shutdown (settings w)")
    case False
    then show ?thesis using f by (simp add: flush_check_def bindP_def)
  next
    case True
    let ?w1 = "w\<lparr>spool := snd (current_stats (spool w))\<rparr>"
    from f True consider "t = MainCancelling \<or> t = MainFlushEnsuring"
      | "\<not> has_schema w" "flush_begin ?w1 = (Inr t, w')"
      by (cases "fst (current_stats (spool w))")
        (auto simp: flush_check_def bindP_def on_spool_app split: if_splits sum.splits)
    then show ?thesis
    proof cases
      case 1
      then show ?thesis by blast
    next
      case 2
      have "spool_ok (spool ?w1) \<and> \<not> in_transaction (spool ?w1)"
        if "spool_ok (spool w)" "\<not> in_transaction (spool w)"
        using spool_read_snd [OF read_stats that(1)] preservesD [OF no_open_stats that(2)] by simp
      then show ?thesis using 2 flush_begin_next [OF 2(2)] flush_send [of ?w1 _ w'] by auto
    qed
  qed
qed

lemma flush_checked_next:
  assumes "main_task w = MainFlushEnsured answer"
  shows "flush_next (flush_checked answer) w"
  using flush_begin_next [of w] flush_send [of w] assms
  by (cases answer) (fastforce simp: flush_next_def flush_checked_def split: if_splits)+

lemma flush_sent_next: "flush_next (flush_sent batch answer) w"
  by (auto simp: flush_next_def flush_sent_def bindP_def split: prod.splits sum.splits)

definition flush_effect :: "worker \<Rightarrow> worker \<Rightarrow> bool" where
  "flush_effect w w' \<longleftrightarrow>
     (\<exists>t. outer w' = outer (w\<lparr>main_task := t\<rparr>) \<and> store_step (main_clears w) w w' \<and>
        (tidy w \<longrightarrow> tidy w' \<and> w_state w' \<notin> {NEW, STARTING, STOPPED}) \<and>
        (t = MainCancelling \<or> t = MainFlushEnsuring \<or> (\<exists>e. t = MainEnded (Some e)) \<or>
         (\<exists>b. t = MainFlushSending b \<and> (\<not> has_schema w \<or> main_task w = MainFlushEnsured (Inr ())) \<and>
            (spool_ok (spool w) \<and> \<not> in_transaction (spool w) \<longrightarrow> fresh_batch w' b))))"

lemma flush_effectI:
  assumes "keeps outer m" and "moves (store_step (main_clears w)) m" and "preserves tidy m"
    and "flush_next m w" and "in_loop w" and "main_step w = main_run m w"
  shows "flush_effect w (main_step w)"
proof -
  obtain r w1 where m: "m w = (r, w1)" by (cases "m w")
  define t where "t = (case r of Inl e \<Rightarrow> MainEnded (Some e) | Inr t \<Rightarrow> t)"
  have w': "main_step w = w1\<lparr>main_task := t\<rparr>" using main_run_fields [of m w r w1] m assms(6) by (simp add: t_def)
  have o: "outer w1 = outer w" using keepsD [OF assms(1) m] .
  then have l: "in_loop w1" using assms(5) by (simp add: outer_defs in_loop_def)
  have k: "tidy w \<longrightarrow> tidy w1" using assms(3) m unfolding moves_def by (metis snd_conv)
  show ?thesis
    unfolding flush_effect_def
  proof (intro exI [of _ t] conjI)
    show "outer (main_step w) = outer (w\<lparr>main_task := t\<rparr>)" using o by (simp add: w' outer_defs)
    have "store_step (main_clears w) w w1" using assms(2) m unfolding moves_def by (metis snd_conv)
    then show "store_step (main_clears w) w (main_step w)" by (simp add: w' store_step_def)
    have "tidy w1 \<longrightarrow> tidy (main_step w) \<and> w_state (main_step w) \<notin> {NEW, STARTING, STOPPED}"
      using l unfolding w' tidy_def by auto
    then show "tidy w \<longrightarrow> tidy (main_step w) \<and> w_state (main_step w) \<notin> {NEW, STARTING, STOPPED}"
      using k by blast
    show "t = MainCancelling \<or> t = MainFlushEnsuring \<or> (\<exists>e. t = MainEnded (Some e)) \<or>
         (\<exists>b. t = MainFlushSending b \<and> (\<not> has_schema w \<or> main_task w = MainFlushEnsured (Inr ())) \<and>
            (spool_ok (spool w) \<and> \<not> in_transaction (spool w) \<longrightarrow> fresh_batch (main_step w) b))"
    proof (cases r)
      case (Inl e)
      then show ?thesis by (simp add: t_def)
    next
      case (Inr u)
      then have "t = u" by (simp add: t_def)
      then show ?thesis
        using assms(4) m Inr unfolding flush_next_def by (fastforce simp: w' fresh_batch_def)
    qed
  qed
qed

text \<open>Every way the main coroutine can go on.\<close>

lemma main_step_cases:
  obtains (idle) "main_step w = w"
  | (stopping) "main_task w = MainWaiting" "stop_async w"
      "main_step w = w\<lparr>w_state := STOPPING, accepting := False, main_task := MainAwaitPersist\<rparr>"
  | (failed) e where "in_loop w" "main_step w = w\<lparr>main_task := MainEnded (Some e)\<rparr>"
  | (flush) "in_loop w" "flush_effect w (main_step w)"
      "(main_task w = MainAwaitPersist \<and> persist_task w = PersistReturned) \<or>
       (\<exists>a. main_task w = MainFlushEnsured a) \<or> (\<exists>b a. main_task w = MainFlushSent b a)"
  | (cancelled) d where "main_task w = MainCancelling" "d = delivery_task w \<or> d = DeliverCancelled"
      "main_step w = w\<lparr>delivery_task := d, main_task := MainEnded None\<rparr>"
  | (finishing) f where "main_task w = MainEnded f" "main_step w = run_finally f w"
proof (cases "main_task w")
  case MainWaiting
  show ?thesis
  proof (cases "stop_async w")
    case True
    then show ?thesis using stopping MainWaiting by (simp add: main_step_def main_observe_def)
  next
    case False
    then have "main_step w = w \<or> (\<exists>e. main_step w = w\<lparr>main_task := MainEnded (Some e)\<rparr>)"
      using MainWaiting
      by (simp add: main_step_def main_observe_def split: persist_task.split delivery_task.split) blast
    moreover have "in_loop w" using MainWaiting by (simp add: in_loop_def)
    ultimately show ?thesis using idle failed by blast
  qed
next
  case MainAwaitPersist
  show ?thesis
  proof (cases "persist_task w")
    case PersistReturned
    have "flush_effect w (main_step w)"
      by (rule flush_effectI [OF outer_flush(2) step_flush_check tidy_flush(2) flush_check_next])
        (simp_all add: in_loop_def main_step_def MainAwaitPersist PersistReturned)
    then show ?thesis using flush MainAwaitPersist PersistReturned by (simp add: in_loop_def)
  next
    case PersistLooping
    then show ?thesis using idle MainAwaitPersist by (simp add: main_step_def)
  next
    case (PersistRaised e)
    then show ?thesis using failed [of e] MainAwaitPersist by (simp add: main_step_def in_loop_def)
  qed
next
  case (MainFlushEnsured a)
  have "flush_effect w (main_step w)"
    by (rule flush_effectI [OF outer_flush(3) step_flush_checked tidy_flush(3) flush_checked_next [OF MainFlushEnsured]])
      (simp_all add: in_loop_def main_step_def MainFlushEnsured)
  then show ?thesis using flush MainFlushEnsured by (simp add: in_loop_def)
next
  case (MainFlushSent b a)
  have "moves (store_step (main_clears w)) (flush_sent b a)"
    using step_flush_sent MainFlushSent by (simp add: main_clears_def)
  then have "flush_effect w (main_step w)"
    by (rule flush_effectI [OF outer_flush(4) _ tidy_flush(4) flush_sent_next])
      (simp_all add: in_loop_def main_step_def MainFlushSent)
  then show ?thesis using flush MainFlushSent by (simp add: in_loop_def)
next
  case MainCancelling
  then have m: "main_step w = main_cancel w" "in_loop w" by (simp_all add: main_step_def in_loop_def)
  have "(\<exists>e. delivery_task w = DeliverRaised e) \<or> delivery_task w = DeliverReturned \<or>
      main_cancel w = w\<lparr>delivery_task := DeliverCancelled, main_task := MainEnded None\<rparr>"
    by (simp add: main_cancel_def split: delivery_task.split)
  then consider e where "delivery_task w = DeliverRaised e" | "delivery_task w = DeliverReturned"
    | "main_cancel w = w\<lparr>delivery_task := DeliverCancelled, main_task := MainEnded None\<rparr>"
    by blast
  then show ?thesis
  proof cases
    case 1
    then show ?thesis using failed [of e] m by (simp add: main_cancel_def)
  next
    case 2
    then show ?thesis using cancelled [of DeliverReturned] m MainCancelling by (simp add: main_cancel_def)
  next
    case 3
    then show ?thesis using cancelled [of DeliverCancelled] m MainCancelling by simp
  qed
next
  case (MainEnded f)
  then show ?thesis using finishing by (simp add: main_step_def)
next
  case MainNotStarted
  show ?thesis by (rule idle) (simp add: main_step_def MainNotStarted)
next
  case MainOpening
  show ?thesis by (rule idle) (simp add: main_step_def MainOpening)
next
  case MainFlushEnsuring
  show ?thesis by (rule idle) (simp add: main_step_def MainFlushEnsuring)
next
  case (MainFlushSending b)
  show ?thesis by (rule idle) (simp add: main_step_def MainFlushSending)
next
  case MainExited
  show ?thesis by (rule idle) (simp add: main_step_def MainExited)
qed

subsection \<open>The persist coroutine\<close>

lemma ready_of_outer: "keeps outer m \<Longrightarrow> keeps schema_ready m"
  by (rule keeps_part [where h = "\<lambda>(c, i, r). r"]) (auto simp: outer_def)

lemma ready_intake:
  "keeps schema_ready task_done" "keeps schema_ready drain_ingress" "keeps schema_ready (set_held n)"
  unfolding task_done_def drain_ingress_def set_held_def by (intro keeps_intros; simp)+

lemma ready_persist_held: "keeps schema_ready persist_held"
  unfolding persist_held_def
  by (intro keeps_intros ready_intake ready_of_outer [OF outer_check_storage]
      ready_of_outer [OF outer_reclaim] ready_of_outer [OF outer_block]
      ready_of_outer [OF outer_try_enqueue] ready_of_outer [OF outer_stats_now]
      ready_of_outer [OF outer_resume]) simp

lemma ready_persist_pass: "keeps schema_ready persist_pass"
  unfolding persist_pass_def
  by (intro keeps_intros ready_intake ready_persist_held ready_of_outer [OF outer_stats_now]
      ready_of_outer [OF outer_ask_env]) simp_all

definition persist_effect :: "worker \<Rightarrow> worker \<Rightarrow> bool" where
  "persist_effect w w' \<longleftrightarrow>
     (\<exists>t hs q. drain (nat (persist_batch_rows (settings w))) (held w) (ingress w) = (hs, q) \<and>
        control w' = control (w\<lparr>persist_task := t\<rparr>) \<and> schema_ready w' = schema_ready w \<and>
        store_step {} w w' \<and> (tidy w \<longrightarrow> tidy w') \<and>
        (intake w' = (q, unfinished_tasks w, hs, length hs, ingress_high_watermark w, submitted_events w,
            persisted_events w) \<or>
         intake w' = (q, unfinished_tasks w - int (length hs), [], 0, ingress_high_watermark w, submitted_events w,
            persisted_events w + int (length hs)) \<and>
         (spool_ok (spool w) \<longrightarrow> (\<forall>ev \<in> set hs. holds (stored (spool w')) ev))) \<and>
        (t = PersistReturned \<longrightarrow> persist_task w = PersistReturned \<or>
           stop_async w \<and> held w' = [] \<and> ingress w' = []))"

lemma persist_step_effect:
  assumes "unfinished_tasks w = int (length (held w) + length (ingress w))"
  shows "persist_effect w (persist_step w)"
proof -
  obtain r w1 where m: "persist_pass w = (r, w1)" by (cases "persist_pass w")
  define t where "t = (case r of Inl e \<Rightarrow> PersistRaised e | Inr PersistDone \<Rightarrow> PersistReturned | _ \<Rightarrow> persist_task w)"
  have c: "control w1 = control w" using keepsD [OF control_persist_pass m] .
  then have "persist_task w1 = persist_task w" by (simp add: control_def)
  then have w': "persist_step w = w1\<lparr>persist_task := t\<rparr>"
    using m by (auto simp: persist_step_def t_def split: sum.splits persist_pause.splits)
  obtain hs q where d: "drain (nat (persist_batch_rows (settings w))) (held w) (ingress w) = (hs, q)" by fastforce
  note i = persist_pass_intake [OF m assms d]
  have s: "store_step {} w w1" using step_persist_pass m unfolding moves_def by (metis snd_conv)
  have k: "tidy w \<longrightarrow> tidy w1" using tidy_persist_pass m unfolding moves_def by (metis snd_conv)
  have f: "intake (persist_step w) = intake w1" "spool (persist_step w) = spool w1"
    by (simp_all add: w' intake_def)
  show ?thesis
    unfolding persist_effect_def
  proof (rule exI [of _ t], rule exI [of _ hs], rule exI [of _ q], intro conjI d)
    show "control (persist_step w) = control (w\<lparr>persist_task := t\<rparr>)" using c by (simp add: w' control_def)
    show "schema_ready (persist_step w) = schema_ready w" using keepsD [OF ready_persist_pass m] by (simp add: w')
    show "store_step {} w (persist_step w)" using s by (simp add: store_step_def f)
    have "tidy w1 \<longrightarrow> tidy (persist_step w)" by (rule tidy_fields) (simp_all add: w')
    then show "tidy w \<longrightarrow> tidy (persist_step w)" using k by blast
    show "intake (persist_step w) = (q, unfinished_tasks w, hs, length hs, ingress_high_watermark w,
          submitted_events w, persisted_events w) \<or>
      intake (persist_step w) = (q, unfinished_tasks w - int (length hs), [], 0, ingress_high_watermark w,
          submitted_events w, persisted_events w + int (length hs)) \<and>
      (spool_ok (spool w) \<longrightarrow> (\<forall>ev \<in> set hs. holds (stored (spool (persist_step w))) ev))"
      using i unfolding f by blast
    show "t = PersistReturned \<longrightarrow> persist_task w = PersistReturned \<or>
        stop_async w \<and> held (persist_step w) = [] \<and> ingress (persist_step w) = []"
      using i by (cases r) (auto simp: t_def w' split: persist_pause.splits)
  qed
qed

end
