(* ===== verification/WorkerCalls.thy ===== *)
theory WorkerCalls
  imports WorkerSteps
begin

section \<open>The other actions, one equation or effect each\<close>

text \<open>
  The effect of the calls of other threads and of the remaining actions, one lemma each, in the form the
  invariants use.
\<close>

subsection \<open>Calls from other threads\<close>

lemma start_thread_effect:
  "snd (start_thread t w) = w \<or>
   (w_state w = NEW \<and> snd (start_thread t w) = w\<lparr>w_state := STARTING, main_task := MainOpening\<rparr>)"
  by (auto simp: start_thread_def bindP_def positive_seconds_def value_error_def split: sum.splits)

lemma start_finish_effect:
  "snd (start_finish ready w) = w \<or>
   (\<exists>err. snd (start_finish ready w) = w\<lparr>accepting := False, last_error := err, stop_requested := True,
      stop_async := (in_loop w \<or> stop_async w)\<rparr>)"
  by (cases "in_loop w")
    (auto simp: start_finish_def bindP_def signal_loop_def in_loop_def split: prod.splits)

lemma stop_request_effect:
  "snd (stop_request t w) = w \<or> snd (stop_request t w) = w\<lparr>accepting := False\<rparr> \<or>
   (w_state w = NEW \<and> snd (stop_request t w) = w\<lparr>accepting := False, w_state := STOPPED\<rparr>) \<or>
   (w_state w \<noteq> NEW \<and> thread_alive w \<and> (\<exists>n d. snd (stop_request t w) = w\<lparr>accepting := False, now := n,
      w_state := STOPPING, shutdown_deadline := d, stop_requested := True,
      stop_async := (in_loop w \<or> stop_async w)\<rparr>))"
proof (cases "t \<le> 0")
  case True
  then show ?thesis by (simp add: stop_request_def bindP_def positive_seconds_def value_error_def)
next
  case False
  let ?d = "Some (monotonic (env w) (now w) + t)"
  show ?thesis
  proof (cases "w_state w = NEW")
    case True
    then show ?thesis using False by (simp add: stop_request_def bindP_def positive_seconds_def)
  next
    case nn: False
    show ?thesis
    proof (cases "thread_alive w")
      case True
      have "snd (stop_request t w) = w\<lparr>accepting := False, now := Suc (now w), w_state := STOPPING,
          shutdown_deadline := ?d, stop_requested := True, stop_async := (in_loop w \<or> stop_async w)\<rparr>"
        using False nn True
        by (cases "in_loop w")
          (simp_all add: stop_request_def bindP_def positive_seconds_def signal_loop_def in_loop_def thread_alive_def)
      then show ?thesis using nn True by blast
    next
      case dead: False
      then show ?thesis
        using False nn by (simp add: stop_request_def bindP_def positive_seconds_def thread_alive_def)
    qed
  qed
qed

text \<open>\<open>submit\<close> takes the event, or counts why it does not.\<close>

definition took :: "new_spool_event \<Rightarrow> worker \<Rightarrow> bool \<Rightarrow> worker" where
  "took ev w wake = w\<lparr>ingress := ingress w @ [ev], unfinished_tasks := unfinished_tasks w + 1,
     submitted_events := submitted_events w + 1,
     ingress_high_watermark := max (ingress_high_watermark w) (length (ingress w @ [ev])),
     wake_persist := wake\<rparr>"

lemma submit_effect:
  "(submitted_now (Submit x) w = [] \<and>
     (\<exists>o1 o2 err. snd (submit x w) = w\<lparr>overflowed_events := o1, oversized_events := o2, last_error := err\<rparr>)) \<or>
   (\<exists>ev. submitted_now (Submit x) w = [ev] \<and> accepting w \<and> to_spool_event x = Inr ev \<and>
     (0 < ingress_queue_capacity (settings w) \<longrightarrow>
        int (length (ingress w)) < ingress_queue_capacity (settings w)) \<and>
     snd (submit x w) = took ev w (in_loop w \<or> wake_persist w))"
proof (cases "to_spool_event x")
  case (Inl e)
  then have "snd (submit x w) = w" "submitted_now (Submit x) w = []" by (simp_all add: submit_def bindP_def)
  then show ?thesis by (intro disjI1 conjI exI [of _ "overflowed_events w"] exI [of _ "oversized_events w"]
    exI [of _ "last_error w"]) simp_all
next
  case (Inr ev)
  consider (big) "int (length (ne_payload ev)) > max_serialized_event_bytes (settings w)"
    | (closed) "\<not> int (length (ne_payload ev)) > max_serialized_event_bytes (settings w)" "\<not> accepting w"
    | (refuse) "\<not> int (length (ne_payload ev)) > max_serialized_event_bytes (settings w)" "accepting w"
        "put_nowait (ingress_queue_capacity (settings w)) ev (ingress w) = None"
    | (takes) "\<not> int (length (ne_payload ev)) > max_serialized_event_bytes (settings w)" "accepting w"
        "put_nowait (ingress_queue_capacity (settings w)) ev (ingress w) = Some (ingress w @ [ev])"
    by (cases "put_nowait (ingress_queue_capacity (settings w)) ev (ingress w)")
      (auto simp: put_nowait_def split: if_splits)
  then show ?thesis
  proof cases
    case big
    then show ?thesis using Inr
      by (intro disjI1 conjI exI [of _ "overflowed_events w"] exI [of _ "oversized_events w + 1"] exI)
        (simp_all add: submit_def bindP_def)
  next
    case closed
    then show ?thesis using Inr
      by (intro disjI1 conjI exI [of _ "overflowed_events w"] exI [of _ "oversized_events w"]
        exI [of _ "last_error w"]) (simp_all add: submit_def bindP_def)
  next
    case refuse
    then show ?thesis using Inr
      by (intro disjI1 conjI exI [of _ "overflowed_events w + 1"] exI [of _ "oversized_events w"] exI)
        (simp_all add: submit_def bindP_def)
  next
    case takes
    have "snd (submit x w) = took ev w (in_loop w \<or> wake_persist w)" "submitted_now (Submit x) w = [ev]"
      using takes Inr
      by (cases "in_loop w"; simp add: submit_def bindP_def signal_loop_def took_def in_loop_def)+
    moreover have "0 < ingress_queue_capacity (settings w) \<longrightarrow>
        int (length (ingress w)) < ingress_queue_capacity (settings w)"
      using takes(3) by (auto simp: put_nowait_def split: if_splits)
    ultimately show ?thesis using takes Inr by blast
  qed
qed

subsection \<open>The executor\<close>

lemma executor_delivery_effect:
  "executor_delivery w = w \<or>
   (\<exists>sm r. delivery_task w = DeliverEnsuring \<and>
      executor_delivery w = w\<lparr>schema_manager := sm, delivery_task := DeliverEnsured r\<rparr>) \<or>
   (\<exists>b t r. delivery_task w = DeliverSending b \<and> log_extends (transport w) t \<and>
      (r = Inr () \<longrightarrow> posted t (bb_payload b)) \<and>
      executor_delivery w = w\<lparr>transport := t, delivery_task := DeliverSent b r\<rparr>)"
proof (cases "delivery_task w")
  case DeliverEnsuring
  then show ?thesis
    by (cases "ensure_table (table w) (schema_manager w)") (auto simp: executor_delivery_def run_ensure_def)
next
  case (DeliverSending b)
  obtain r t where s: "send_batch (bb_payload b) (transport w) = (r, t)"
    by (cases "send_batch (bb_payload b) (transport w)")
  then have "executor_delivery w = w\<lparr>transport := t, delivery_task := DeliverSent b r\<rparr>"
    using DeliverSending by (simp add: executor_delivery_def run_send_def)
  then show ?thesis using DeliverSending send_batch_logs [OF s] by blast
qed (simp_all add: executor_delivery_def)

lemma executor_main_effect:
  "executor_main w = w \<or>
   (\<exists>sm r. main_task w = MainFlushEnsuring \<and>
      executor_main w = w\<lparr>schema_manager := sm, main_task := MainFlushEnsured r\<rparr>) \<or>
   (\<exists>b t r. main_task w = MainFlushSending b \<and> log_extends (transport w) t \<and>
      (r = Inr () \<longrightarrow> posted t (bb_payload b)) \<and>
      executor_main w = w\<lparr>transport := t, main_task := MainFlushSent b r\<rparr>)"
proof (cases "main_task w")
  case MainFlushEnsuring
  then show ?thesis
    by (cases "ensure_table (table w) (schema_manager w)") (auto simp: executor_main_def run_ensure_def)
next
  case (MainFlushSending b)
  obtain r t where s: "send_batch (bb_payload b) (transport w) = (r, t)"
    by (cases "send_batch (bb_payload b) (transport w)")
  then have "executor_main w = w\<lparr>transport := t, main_task := MainFlushSent b r\<rparr>"
    using MainFlushSending by (simp add: executor_main_def run_send_def)
  then show ?thesis using MainFlushSending send_batch_logs [OF s] by blast
qed (simp_all add: executor_main_def)

subsection \<open>The thread's beginning and end\<close>

text \<open>Opening ends in the error, with nothing but the objects changed, or in the running loop.\<close>

definition reopened :: "worker \<Rightarrow> spool \<Rightarrow> transport \<Rightarrow> schema_manager \<Rightarrow> spool_stats \<Rightarrow> worker" where
  "reopened w s t sm st = w\<lparr>spool := s, transport := t, schema_manager := sm, known_stats := st\<rparr>"

lemma spool_stats_now_eq:
  "spool_stats_now w = (case current_stats (spool w) of
      (Inl e, s) \<Rightarrow> (Inl e, w\<lparr>spool := s\<rparr>) | (Inr st, s) \<Rightarrow> (Inr st, w\<lparr>spool := s, known_stats := st\<rparr>))"
  by (simp add: spool_stats_now_def bindP_def on_spool_def set_spool_stats_def split: prod.splits sum.splits)

definition started :: "worker \<Rightarrow> worker" where
  "started w = w\<lparr>w_state := (if stop_requested w then STOPPING else RUNNING), accepting := \<not> stop_requested w,
     stop_async := stop_requested w, main_task := MainWaiting\<rparr>"

definition open_tail :: "schema_manager res \<Rightarrow> unit worker_prog" where
  "open_tail sm =
     bindP (getP has_schema) (\<lambda>with_schema.
     bindP (if with_schema then bindP (liftW sm) (\<lambda>s. modifyP (\<lambda>w. w\<lparr>schema_manager := s\<rparr>))
            else returnP ()) (\<lambda>_.
     bindP spool_stats_now (\<lambda>_.
     bindP (modifyP (\<lambda>w. w\<lparr>w_state := (if stop_requested w then STOPPING else RUNNING),
         accepting := \<not> stop_requested w\<rparr>)) (\<lambda>_.
     modifyP (\<lambda>w. w\<lparr>stop_async := stop_requested w, main_task := MainWaiting\<rparr>)))))"

lemma open_tail_effect:
  "(\<exists>s sm st e. open_tail sm0 w = (Inl e, reopened w s (transport w) sm st)) \<or>
   (\<exists>sm st. open_tail sm0 w = (Inr (), started (reopened w (snd (current_stats (spool w))) (transport w) sm st)))"
proof -
  obtain r s where st: "current_stats (spool w) = (r, s)" by (cases "current_stats (spool w)")
  show ?thesis
  proof (cases "has_schema w")
    case False
    show ?thesis
    proof (cases r)
      case (Inl e)
      then have "open_tail sm0 w = (Inl e, reopened w s (transport w) (schema_manager w) (known_stats w))"
        using False st by (simp add: open_tail_def bindP_def spool_stats_now_eq reopened_def)
      then show ?thesis by blast
    next
      case (Inr x)
      then have "open_tail sm0 w = (Inr (), started (reopened w s (transport w) (schema_manager w) x))"
        using False st by (simp add: open_tail_def bindP_def spool_stats_now_eq reopened_def started_def)
      then show ?thesis using st by auto
    qed
  next
    case True
    show ?thesis
    proof (cases sm0)
      case (Inl e)
      then have "open_tail sm0 w = (Inl e, reopened w (spool w) (transport w) (schema_manager w) (known_stats w))"
        using True by (simp add: open_tail_def bindP_def reopened_def)
      then show ?thesis by blast
    next
      case sm: (Inr sm)
      show ?thesis
      proof (cases r)
        case (Inl e)
        then have "open_tail sm0 w = (Inl e, reopened w s (transport w) sm (known_stats w))"
          using True st sm by (simp add: open_tail_def bindP_def spool_stats_now_eq reopened_def)
        then show ?thesis by blast
      next
        case (Inr x)
        then have "open_tail sm0 w = (Inr (), started (reopened w s (transport w) sm x))"
          using True st sm by (simp add: open_tail_def bindP_def spool_stats_now_eq reopened_def started_def)
        then show ?thesis using st by auto
      qed
    qed
  qed
qed

lemma run_step_effect:
  assumes "case tr of Inl _ \<Rightarrow> True | Inr t \<Rightarrow> requests t = []"
  shows "(\<exists>s t sm st e. (t = transport w \<or> requests t = []) \<and>
      run_step L busy tr sm0 w = (reopened w s t sm st)\<lparr>main_task := MainEnded (Some e)\<rparr>) \<or>
    (\<exists>s1 t sm st. open_spool L busy (spool w) = (Inr (), s1) \<and> requests t = [] \<and>
      run_step L busy tr sm0 w = started (reopened w (snd (current_stats s1)) t sm st))"
proof -
  obtain r s1 where o: "open_spool L busy (spool w) = (r, s1)" by (cases "open_spool L busy (spool w)")
  have run: "run_open L busy tr sm0 w = bindP (on_spool (open_spool L busy)) (\<lambda>_. bindP (liftW tr) (\<lambda>t.
      bindP (modifyP (\<lambda>w. w\<lparr>transport := t\<rparr>)) (\<lambda>_. open_tail sm0))) w"
    by (simp add: run_open_def open_tail_def)
  show ?thesis
  proof (cases r)
    case (Inl e)
    then have "run_step L busy tr sm0 w =
        (reopened w s1 (transport w) (schema_manager w) (known_stats w))\<lparr>main_task := MainEnded (Some e)\<rparr>"
      using o by (simp add: run_step_def run bindP_def on_spool_def reopened_def)
    then show ?thesis by blast
  next
    case opened: (Inr u)
    show ?thesis
    proof (cases tr)
      case (Inl e)
      then have "run_step L busy tr sm0 w =
          (reopened w s1 (transport w) (schema_manager w) (known_stats w))\<lparr>main_task := MainEnded (Some e)\<rparr>"
        using o opened Inl unfolding run_step_def run by (simp add: bindP_def on_spool_def reopened_def)
      then show ?thesis by blast
    next
      case (Inr t)
      let ?w = "w\<lparr>spool := s1, transport := t\<rparr>"
      have r0: "run_open L busy tr sm0 w = open_tail sm0 ?w"
        using o opened Inr unfolding run by (simp add: bindP_def [of "on_spool _"] bindP_def [of "liftW _"]
            bindP_def [of "modifyP _"] on_spool_def)
      have t: "requests t = []" using assms Inr by simp
      from open_tail_effect [of sm0 ?w] show ?thesis
      proof
        assume "\<exists>s sm st e. open_tail sm0 ?w = (Inl e, reopened ?w s (transport ?w) sm st)"
        then obtain s sm st e where "open_tail sm0 ?w = (Inl e, reopened ?w s (transport ?w) sm st)" by blast
        then have "run_step L busy tr sm0 w = (reopened w s t sm st)\<lparr>main_task := MainEnded (Some e)\<rparr>"
          by (simp add: run_step_def r0 reopened_def)
        then show ?thesis using t by blast
      next
        assume "\<exists>sm st. open_tail sm0 ?w =
          (Inr (), started (reopened ?w (snd (current_stats (spool ?w))) (transport ?w) sm st))"
        then obtain sm st where "open_tail sm0 ?w =
            (Inr (), started (reopened ?w (snd (current_stats (spool ?w))) (transport ?w) sm st))" by blast
        then have "run_step L busy tr sm0 w = started (reopened w (snd (current_stats s1)) t sm st)"
          by (simp add: run_step_def r0 reopened_def)
        moreover have "open_spool L busy (spool w) = (Inr (), s1)" using o opened by simp
        ultimately show ?thesis using t by blast
      qed
    qed
  qed
qed

text \<open>The end: everything is closed, and the state says whether it went well.\<close>

lemma close_resources_eq:
  "\<exists>err. close_resources w = (Inr err, w\<lparr>transport := (transport w)\<lparr>connection := None\<rparr>,
     spool := snd (close_spool (spool w)), schema_manager := snd (close_schema (schema_manager w))\<rparr>)"
  by (cases "close_spool (spool w)"; cases "fst (close_spool (spool w))")
    (auto simp: close_resources_def bindP_def catchP_def on_spool_app close_transport_def)

lemma run_finally_effect:
  obtains t sm y err s where "requests t = requests (transport w)" "net t = net (transport w)"
    "s = FAILED \<or> s = STOPPED \<and> failed = None"
    "run_finally failed w = w\<lparr>transport := t, schema_manager := sm, failure := y, w_state := s,
       accepting := False, last_error := err, spool := snd (close_spool (spool w)), main_task := MainExited\<rparr>"
proof -
  let ?t = "(transport w)\<lparr>connection := None\<rparr>" and ?sm = "snd (close_schema (schema_manager w))"
  show ?thesis
  proof (cases failed)
    case (Some e)
    obtain err where "close_resources (run_failed e w) = (Inr err, (run_failed e w)\<lparr>transport := ?t,
        spool := snd (close_spool (spool w)), schema_manager := ?sm\<rparr>)"
      using close_resources_eq [of "run_failed e w"] by (auto simp: run_failed_def)
    then have "run_finally failed w = w\<lparr>transport := ?t, schema_manager := ?sm, failure := Some e,
        w_state := FAILED, accepting := False, last_error := Some (exn_text e),
        spool := snd (close_spool (spool w)), main_task := MainExited\<rparr>"
      using Some by (simp add: run_finally_def Let_def run_failed_def split: option.split)
    then show ?thesis by (intro that [of ?t FAILED "Some (exn_text e)" "Some e" ?sm]) simp_all
  next
    case None
    obtain err where c: "close_resources w = (Inr err, w\<lparr>transport := ?t,
        spool := snd (close_spool (spool w)), schema_manager := ?sm\<rparr>)"
      using close_resources_eq [of w] by blast
    show ?thesis
    proof (cases err)
      case (Some e)
      then have "run_finally failed w = w\<lparr>transport := ?t, schema_manager := ?sm, failure := Some e,
          w_state := FAILED, accepting := False, last_error := Some (exn_text e),
          spool := snd (close_spool (spool w)), main_task := MainExited\<rparr>"
        using c None by (simp add: run_finally_def Let_def)
      then show ?thesis by (intro that [of ?t FAILED "Some (exn_text e)" "Some e" ?sm]) simp_all
    next
      case err: None
      then have "run_finally failed w = w\<lparr>transport := ?t, schema_manager := ?sm, failure := failure w,
          w_state := STOPPED, accepting := False, last_error := last_error w,
          spool := snd (close_spool (spool w)), main_task := MainExited\<rparr>"
        using c None by (simp add: run_finally_def Let_def)
      then show ?thesis using None by (intro that [of ?t STOPPED "last_error w" "failure w" ?sm]) simp_all
    qed
  qed
qed

subsection \<open>What no action but two touches\<close>

definition fixed :: "worker \<Rightarrow> _" where
  "fixed w = (table w, settings w, filesystem_guard w, has_schema w, env w)"

definition intakes :: "action \<Rightarrow> bool" where
  "intakes a \<longleftrightarrow> (case a of Submit _ \<Rightarrow> True | PersistPass \<Rightarrow> True | _ \<Rightarrow> False)"

lemma delivery_step_parts:
  "\<exists>t. control (delivery_step w) = control (w\<lparr>delivery_task := t\<rparr>) \<and> intake (delivery_step w) = intake w"
proof (cases "delivery_step w = w")
  case True
  then show ?thesis by (intro exI [of _ "delivery_task w"]) (simp add: control_def)
next
  case False
  then show ?thesis using delivery_step_effect [of w] unfolding delivery_effect_def by blast
qed

lemma main_step_parts:
  "fixed (main_step w) = fixed w \<and> intake (main_step w) = intake w"
proof (cases rule: main_step_cases [of w])
  case flush
  then obtain t where "outer (main_step w) = outer (w\<lparr>main_task := t\<rparr>)" unfolding flush_effect_def by blast
  then show ?thesis by (simp add: outer_defs fixed_def)
next
  case (finishing f)
  then show ?thesis by (cases rule: run_finally_effect [of w f]) (simp_all add: fixed_def intake_def)
qed (simp_all add: fixed_def intake_def)

lemma action_parts:
  assumes "\<not> intakes a" and "enabled a w"
  shows "fixed (run_action a w) = fixed w \<and> intake (run_action a w) = intake w \<and> submitted_now a w = []"
proof (cases a)
  case (Start t)
  then show ?thesis using start_thread_effect [of t w] by (auto simp: fixed_def intake_def)
next
  case (StartFinish ready)
  then show ?thesis using start_finish_effect [of ready w] by (auto simp: fixed_def intake_def)
next
  case (Stop t)
  then show ?thesis using stop_request_effect [of t w] by (auto simp: fixed_def intake_def)
next
  case (Open L busy tr sm)
  then show ?thesis
    using run_step_effect [of tr w L busy sm] assms(2)
    by (auto simp: fixed_def intake_def reopened_def started_def)
next
  case DeliveryPass
  then show ?thesis using delivery_step_parts [of w] by (auto simp: fixed_def control_def)
next
  case DeliveryCall
  then show ?thesis using executor_delivery_effect [of w] by (auto simp: fixed_def intake_def)
next
  case MainPass
  then show ?thesis using main_step_parts by simp
next
  case MainCall
  then show ?thesis using executor_main_effect [of w] by (auto simp: fixed_def intake_def)
qed (use assms(1) in \<open>simp_all add: intakes_def\<close>)

lemma submit_fixed: "fixed (snd (submit x w)) = fixed w"
  using submit_effect [of x w] by (auto simp: fixed_def took_def)

lemma persist_fixed:
  assumes "unfinished_tasks w = int (length (held w) + length (ingress w))"
  shows "fixed (persist_step w) = fixed w"
  using persist_step_effect [OF assms] unfolding persist_effect_def by (auto simp: fixed_def control_def)

end
