(* ===== verification/WorkerInv.thy ===== *)
theory WorkerInv
  imports WorkerCalls
begin

section \<open>Invariants of the running worker\<close>

text \<open>
  The bookkeeping invariant (submitted = persisted + held + queued) and the order of the coroutines' ends,
  each proved for every action and then, by the locale of WorkerSystem, for every reachable state.
\<close>

subsection \<open>Every accepted event is accounted for\<close>

definition flow :: "worker \<Rightarrow> history \<Rightarrow> bool" where
  "flow w h \<longleftrightarrow> settings_post_init (settings w) = Inr () \<and>
     unfinished_tasks w = int (length (held w) + length (ingress w)) \<and>
     held_unpersisted w = length (held w) \<and> submitted_events w = int (length (h_accepted h)) \<and>
     0 \<le> persisted_events w \<and> persisted_events w \<le> submitted_events w \<and>
     drop (nat (persisted_events w)) (h_accepted h) = held w @ ingress w \<and>
     int (length (ingress w)) \<le> int (ingress_high_watermark w) \<and>
     int (ingress_high_watermark w) \<le> ingress_queue_capacity (settings w) \<and>
     int (length (held w)) \<le> persist_batch_rows (settings w)"

lemma make_worker_fields:
  assumes "make_worker tab st with_schema file tr sm environment = Inr w"
  shows "settings w = st" "spool w = file" "transport w = tr" "has_schema w = with_schema"
    "schema_ready w \<longleftrightarrow> \<not> with_schema" "w_state w = NEW" "main_task w = MainNotStarted"
    "persist_task w = PersistLooping" "delivery_task w = DeliverLooping" "accepting w = False"
    "stop_async w = False" "stop_requested w = False" "block_reason w = None"
    "intake w = ([], 0, [], 0, 0, 0, 0)"
    "storage_blocks w = 0" "storage_recoveries w = 0" "storage_episode w = None" "storage_block_attempts w = 0"
    "last_errors w = []" "backoff_base w = (\<lambda>_. retry_initial_seconds st)" "table w = tab"
  using assms by (auto simp: make_worker_def bindR_eq_Inr value_error_def intake_def split: if_splits)

lemma flow_same:
  assumes "flow w h" and "fixed w' = fixed w" and "intake w' = intake w" and "h_accepted h' = h_accepted h"
  shows "flow w' h'"
  using assms by (simp add: flow_def fixed_def intake_def)

lemma flow_submit:
  assumes "flow w h"
  shows "flow (run_action (Submit x) w) (note_down (Submit x) w h)"
  using submit_effect [of x w]
proof
  assume "submitted_now (Submit x) w = [] \<and>
     (\<exists>o1 o2 err. snd (submit x w) = w\<lparr>overflowed_events := o1, oversized_events := o2, last_error := err\<rparr>)"
  then show ?thesis by (intro flow_same [OF assms]) (auto simp: fixed_def intake_def)
next
  assume "\<exists>ev. submitted_now (Submit x) w = [ev] \<and> accepting w \<and> to_spool_event x = Inr ev \<and>
     (0 < ingress_queue_capacity (settings w) \<longrightarrow>
        int (length (ingress w)) < ingress_queue_capacity (settings w)) \<and>
     snd (submit x w) = took ev w (in_loop w \<or> wake_persist w)"
  then obtain ev where ev: "submitted_now (Submit x) w = [ev]"
      "0 < ingress_queue_capacity (settings w) \<longrightarrow>
        int (length (ingress w)) < ingress_queue_capacity (settings w)"
      "snd (submit x w) = took ev w (in_loop w \<or> wake_persist w)"
    by blast
  have "settings_post_init (settings w) = Inr ()" using assms by (simp add: flow_def)
  then show ?thesis
    using assms ev settings_valid(6) [of "settings w"]
    by (auto simp: flow_def took_def simp del: submitted_now.simps)
qed

lemma flow_persist:
  assumes "flow w h" and "h_accepted h' = h_accepted h"
  shows "flow (persist_step w) h'"
proof -
  have u: "unfinished_tasks w = int (length (held w) + length (ingress w))"
    and d: "drop (nat (persisted_events w)) (h_accepted h) = held w @ ingress w"
    and rows: "int (length (held w)) \<le> persist_batch_rows (settings w)"
    using assms(1) by (simp_all add: flow_def)
  let ?w = "persist_step w"
  obtain hs q where dr: "drain (nat (persist_batch_rows (settings w))) (held w) (ingress w) = (hs, q)"
    and i: "intake ?w = (q, unfinished_tasks w, hs, length hs, ingress_high_watermark w, submitted_events w,
         persisted_events w) \<or>
      intake ?w = (q, unfinished_tasks w - int (length hs), [], 0, ingress_high_watermark w, submitted_events w,
         persisted_events w + int (length hs))"
    using persist_step_effect [OF u] unfolding persist_effect_def by blast
  have f: "settings ?w = settings w" using persist_fixed [OF u] by (simp add: fixed_def)
  have hq: "hs @ q = held w @ ingress w" "length q \<le> length (ingress w)"
      "int (length hs) \<le> persist_batch_rows (settings w)"
    using dr rows by (auto simp: drain_eq)
  have len: "length hs + length q = length (held w) + length (ingress w)"
    using arg_cong [OF hq(1), of length] by simp
  have "0 \<le> persisted_events w" using assms(1) by (simp add: flow_def)
  moreover have "drop (length hs) (drop (nat (persisted_events w)) (h_accepted h)) = q"
    using d hq(1) by (metis append_eq_conv_conj)
  ultimately have moved: "drop (nat (persisted_events w + int (length hs))) (h_accepted h) = q"
    by (simp add: nat_add_distrib add.commute)
  have sub: "submitted_events w = int (length (h_accepted h))" using assms(1) by (simp add: flow_def)
  from i show ?thesis
  proof
    assume "intake ?w = (q, unfinished_tasks w, hs, length hs, ingress_high_watermark w, submitted_events w,
         persisted_events w)"
    then show ?thesis using assms f hq len d by (auto simp: flow_def intake_def)
  next
    assume i: "intake ?w = (q, unfinished_tasks w - int (length hs), [], 0, ingress_high_watermark w,
         submitted_events w, persisted_events w + int (length hs))"
    have "length (h_accepted h) - nat (persisted_events w) = length hs + length q"
      using arg_cong [OF d, of length] len by simp
    then have "persisted_events w + int (length hs) \<le> submitted_events w"
      using sub assms(1) by (auto simp: flow_def)
    then show ?thesis using assms f hq len i moved by (auto simp: flow_def intake_def)
  qed
qed

lemma flow_starts:
  assumes "make_worker tab st with_schema file tr sm environment = Inr w" and "settings_post_init st = Inr ()"
  shows "flow w new_history"
proof -
  note m = make_worker_fields [OF assms(1)]
  show ?thesis
    using m(14) settings_valid(6,7) [OF assms(2)] assms(2)
    by (simp add: flow_def new_history_def m(1) intake_def)
qed

interpretation flow_always: worker_invariant flow
proof unfold_locales
  fix w h a assume w: "flow w h" "enabled a w"
  show "flow (run_action a w) (note_down a w h)"
  proof (cases "intakes a")
    case False
    then show ?thesis using action_parts [OF False w(2)] by (intro flow_same [OF w(1)]) simp_all
  next
    case True
    then consider x where "a = Submit x" | "a = PersistPass" by (auto simp: intakes_def split: action.splits)
    then show ?thesis
    proof cases
      case 1
      then show ?thesis using flow_submit [OF w(1)] by simp
    next
      case 2
      then show ?thesis using flow_persist [OF w(1)] by simp
    qed
  qed
qed (rule flow_starts)

subsection \<open>The life cycle\<close>

definition before_loop :: "worker \<Rightarrow> bool" where
  "before_loop w \<longleftrightarrow> main_task w = MainNotStarted \<or> main_task w = MainOpening"

text \<open>The main coroutine is past \<open>await persist_task\<close>.\<close>

definition past_persist :: "worker \<Rightarrow> bool" where
  "past_persist w \<longleftrightarrow> (case main_task w of
      MainFlushEnsuring \<Rightarrow> True | MainFlushEnsured _ \<Rightarrow> True | MainFlushSending _ \<Rightarrow> True
    | MainFlushSent _ _ \<Rightarrow> True | MainCancelling \<Rightarrow> True | MainEnded None \<Rightarrow> True | _ \<Rightarrow> False)"

definition untouched :: "worker \<Rightarrow> history \<Rightarrow> bool" where
  "untouched w h \<longleftrightarrow> persist_task w = PersistLooping \<and> delivery_task w = DeliverLooping \<and>
     block_reason w = None \<and> held w = [] \<and> ingress w = [] \<and> h_accepted h = [] \<and>
     requests (transport w) = [] \<and> (has_schema w \<longrightarrow> \<not> schema_ready w)"

definition orderly :: "worker \<Rightarrow> history \<Rightarrow> bool" where
  "orderly w h \<longleftrightarrow> tidy w \<and> settings_post_init (settings w) = Inr () \<and>
     (accepting w \<longrightarrow> \<not> stop_requested w \<and> \<not> stop_async w \<and> \<not> before_loop w \<and> main_task w \<noteq> MainExited) \<and>
     (stop_async w \<longrightarrow> stop_requested w) \<and>
     (persist_task w = PersistReturned \<longrightarrow> stop_async w \<and> held w = [] \<and> ingress w = []) \<and>
     (past_persist w \<longrightarrow> persist_task w = PersistReturned) \<and>
     (main_task w = MainAwaitPersist \<longrightarrow> stop_async w) \<and>
     (before_loop w \<longrightarrow> untouched w h) \<and>
     (w_state w = NEW \<longrightarrow> main_task w = MainNotStarted) \<and>
     (w_state w = STOPPED \<longrightarrow> main_task w = MainNotStarted \<or>
        main_task w = MainExited \<and> persist_task w = PersistReturned)"

lemma in_loop_before: "in_loop w \<Longrightarrow> \<not> before_loop w \<and> main_task w \<noteq> MainExited"
  by (auto simp: in_loop_def before_loop_def)

lemma past_persist_loop: "past_persist w \<Longrightarrow> in_loop w \<or> main_task w = MainEnded None"
  by (auto simp: past_persist_def in_loop_def split: main_task.splits option.splits)

text \<open>Parts of the state that a step leaves alone when it goes through \<open>control\<close>.\<close>

lemma control_fields:
  assumes "control w' = control w"
  shows "main_task w' = main_task w" "persist_task w' = persist_task w" "delivery_task w' = delivery_task w"
    "accepting w' = accepting w" "stop_requested w' = stop_requested w" "stop_async w' = stop_async w"
    "settings w' = settings w" "table w' = table w" "has_schema w' = has_schema w" "transport w' = transport w"
  using assms by (simp_all add: control_def)

lemma control_phase:
  assumes "main_task w' = main_task w"
  shows "before_loop w' = before_loop w" "past_persist w' = past_persist w" "in_loop w' = in_loop w"
  using assms by (simp_all add: before_loop_def past_persist_def in_loop_def)

lemma orderly_coroutine:
  assumes "orderly w h" and "in_loop w" and "tidy w'" and "settings w' = settings w"
    and "main_task w' = main_task w" "accepting w' = accepting w" "stop_requested w' = stop_requested w"
    "stop_async w' = stop_async w"
    and "persist_task w' = PersistReturned \<Longrightarrow> stop_async w \<and> held w' = [] \<and> ingress w' = []"
    and "persist_task w = PersistReturned \<Longrightarrow> persist_task w' = PersistReturned"
  shows "orderly w' h'"
proof -
  note p = control_phase [OF assms(5)]
  have l: "\<not> before_loop w" "main_task w \<noteq> MainExited" using in_loop_before [OF assms(2)] by simp_all
  have st: "w_state w' \<noteq> NEW" "w_state w' \<noteq> STOPPED"
    using assms(2,3) p(3) by (simp_all add: tidy_def)
  show ?thesis
    using assms(1) l st unfolding orderly_def p assms(4-8) using assms(3,9,10) by blast
qed

lemma orderly_delivery:
  assumes "orderly w h" and "in_loop w"
  shows "orderly (delivery_step w) h'"
proof (cases "delivery_step w = w")
  case True
  show ?thesis unfolding True
    by (rule orderly_coroutine [OF assms]) (use assms in \<open>simp_all add: orderly_def\<close>)
next
  case False
  then obtain t where t: "control (delivery_step w) = control (w\<lparr>delivery_task := t\<rparr>)"
      "intake (delivery_step w) = intake w" "tidy w \<longrightarrow> tidy (delivery_step w)"
    using delivery_step_effect [of w] unfolding delivery_effect_def by blast
  note c = control_fields [OF t(1), simplified]
  have "held (delivery_step w) = held w" "ingress (delivery_step w) = ingress w"
    using t(2) by (simp_all add: intake_def)
  then show ?thesis
    by (intro orderly_coroutine [OF assms]) (use assms t(3) c in \<open>simp_all add: orderly_def\<close>)
qed

lemma orderly_persist:
  assumes "orderly w h" and "in_loop w" and "persist_task w = PersistLooping"
    and "unfinished_tasks w = int (length (held w) + length (ingress w))"
  shows "orderly (persist_step w) h'"
proof -
  obtain t where t: "control (persist_step w) = control (w\<lparr>persist_task := t\<rparr>)"
      "tidy w \<longrightarrow> tidy (persist_step w)"
      "t = PersistReturned \<longrightarrow> persist_task w = PersistReturned \<or>
         stop_async w \<and> held (persist_step w) = [] \<and> ingress (persist_step w) = []"
    using persist_step_effect [OF assms(4)] unfolding persist_effect_def by blast
  note c = control_fields [OF t(1), simplified]
  show ?thesis
    by (rule orderly_coroutine [OF assms(1,2)]) (use assms(1,3) t(2,3) c in \<open>simp_all add: orderly_def\<close>)
qed

text \<open>The calls.\<close>

lemma orderly_fields:
  assumes "orderly w h" and "tidy w \<longrightarrow> tidy w'" and "fixed w' = fixed w" and "h_accepted h' = h_accepted h"
    and "main_task w' = main_task w" "persist_task w' = persist_task w" "delivery_task w' = delivery_task w"
    "stop_async w' = stop_async w" "stop_requested w' = stop_requested w" "block_reason w' = block_reason w"
    "transport w' = transport w" "schema_ready w' = schema_ready w" "w_state w' = w_state w"
    "held w' = held w" "ingress w' = ingress w"
    and "accepting w' \<longrightarrow> accepting w"
  shows "orderly w' h'"
  using assms(1-4,16) unfolding orderly_def untouched_def control_phase [OF assms(5)] assms(4-15)
  by (simp add: fixed_def)

lemma orderly_submit:
  assumes "orderly w h"
  shows "orderly (run_action (Submit x) w) (note_down (Submit x) w h)"
  using submit_effect [of x w]
proof
  assume "submitted_now (Submit x) w = [] \<and>
     (\<exists>o1 o2 err. snd (submit x w) = w\<lparr>overflowed_events := o1, oversized_events := o2, last_error := err\<rparr>)"
  then obtain o1 o2 err where s: "submitted_now (Submit x) w = []"
      "run_action (Submit x) w = w\<lparr>overflowed_events := o1, oversized_events := o2, last_error := err\<rparr>" by auto
  have "tidy w \<longrightarrow> tidy (run_action (Submit x) w)" by (rule tidy_fields) (simp_all only: s, simp_all)
  then show ?thesis using s by (intro orderly_fields [OF assms]) (simp_all add: fixed_def)
next
  assume "\<exists>ev. submitted_now (Submit x) w = [ev] \<and> accepting w \<and> to_spool_event x = Inr ev \<and>
     (0 < ingress_queue_capacity (settings w) \<longrightarrow>
        int (length (ingress w)) < ingress_queue_capacity (settings w)) \<and>
     snd (submit x w) = took ev w (in_loop w \<or> wake_persist w)"
  then obtain ev where ev: "accepting w" "run_action (Submit x) w = took ev w (in_loop w \<or> wake_persist w)"
    by auto
  have "tidy w \<longrightarrow> tidy (took ev w b)" for b by (rule tidy_fields) (simp_all add: took_def)
  then show ?thesis
    using assms ev(1) unfolding ev(2) orderly_def
    by (auto simp: took_def before_loop_def past_persist_def)
qed

lemma orderly_start: "orderly w h \<Longrightarrow> orderly (run_action (Start t) w) (note_down (Start t) w h)"
proof -
  assume o: "orderly w h"
  consider "snd (start_thread t w) = w"
    | "w_state w = NEW" "snd (start_thread t w) = w\<lparr>w_state := STARTING, main_task := MainOpening\<rparr>"
    using start_thread_effect [of t w] by blast
  then show ?thesis
  proof cases
    case 1
    then show ?thesis using o by (intro orderly_fields [OF o]) simp_all
  next
    case 2
    have "main_task w = MainNotStarted" using o 2(1) by (simp add: orderly_def)
    then show ?thesis using o 2 unfolding orderly_def
      by (auto simp: before_loop_def untouched_def past_persist_def tidy_def in_loop_def)
  qed
qed

lemma orderly_start_finish:
  "orderly w h \<Longrightarrow> orderly (run_action (StartFinish r) w) (note_down (StartFinish r) w h)"
proof -
  assume o: "orderly w h"
  consider "snd (start_finish r w) = w"
    | err where "snd (start_finish r w) = w\<lparr>accepting := False, last_error := err, stop_requested := True,
      stop_async := (in_loop w \<or> stop_async w)\<rparr>"
    using start_finish_effect [of r w] by blast
  then show ?thesis
  proof cases
    case 1
    then show ?thesis by (intro orderly_fields [OF o]) simp_all
  next
    case (2 err)
    have "tidy w \<longrightarrow> tidy (snd (start_finish r w))" by (rule tidy_fields) (simp_all add: 2)
    then show ?thesis using o unfolding orderly_def
      by (auto simp: 2 before_loop_def untouched_def past_persist_def)
  qed
qed

lemma orderly_stop: "orderly w h \<Longrightarrow> orderly (run_action (Stop t) w) (note_down (Stop t) w h)"
proof -
  assume o: "orderly w h"
  consider "snd (stop_request t w) = w" | "snd (stop_request t w) = w\<lparr>accepting := False\<rparr>"
    | "w_state w = NEW" "snd (stop_request t w) = w\<lparr>accepting := False, w_state := STOPPED\<rparr>"
    | n d where "w_state w \<noteq> NEW" "thread_alive w" "snd (stop_request t w) = w\<lparr>accepting := False, now := n,
      w_state := STOPPING, shutdown_deadline := d, stop_requested := True,
      stop_async := (in_loop w \<or> stop_async w)\<rparr>"
    using stop_request_effect [of t w] by blast
  then show ?thesis
  proof cases
    case 1
    then show ?thesis by (intro orderly_fields [OF o]) simp_all
  next
    case 2
    have "tidy w \<longrightarrow> tidy (snd (stop_request t w))" by (rule tidy_fields) (simp_all add: 2)
    then show ?thesis by (intro orderly_fields [OF o]) (simp_all add: 2 fixed_def)
  next
    case 3
    have "main_task w = MainNotStarted" using o 3(1) by (simp add: orderly_def)
    then show ?thesis using o 3 unfolding orderly_def
      by (auto simp: before_loop_def untouched_def past_persist_def tidy_def in_loop_def)
  next
    case (4 n d)
    have "tidy w \<longrightarrow> tidy (snd (stop_request t w))" by (simp add: 4 tidy_def in_loop_def)
    then show ?thesis using o unfolding orderly_def
      by (auto simp: 4 before_loop_def untouched_def past_persist_def)
  qed
qed

lemma orderly_open:
  assumes "orderly w h" and "enabled (Open L busy tr sm0) w"
  shows "orderly (run_action (Open L busy tr sm0) w) (note_down (Open L busy tr sm0) w h)"
proof -
  have u: "untouched w h" and m: "main_task w = MainOpening"
    using assms by (auto simp: orderly_def before_loop_def)
  have "case tr of Inl _ \<Rightarrow> True | Inr t \<Rightarrow> requests t = []" using assms(2) by simp
  from run_step_effect [OF this, of w L busy sm0] consider
      s t sm st e where "run_step L busy tr sm0 w = (reopened w s t sm st)\<lparr>main_task := MainEnded (Some e)\<rparr>"
    | s t sm st where "run_step L busy tr sm0 w = started (reopened w s t sm st)"
    by blast
  then show ?thesis
  proof cases
    case 1
    then show ?thesis using assms(1) u m unfolding orderly_def
      by (auto simp: reopened_def before_loop_def past_persist_def tidy_def in_loop_def untouched_def)
  next
    case 2
    then show ?thesis using assms(1) u m unfolding orderly_def
      by (auto simp: started_def reopened_def before_loop_def past_persist_def tidy_def in_loop_def untouched_def)
  qed
qed

lemma orderly_executor_delivery:
  assumes "orderly w h" and "in_loop w"
  shows "orderly (run_action DeliveryCall w) (note_down DeliveryCall w h)"
proof -
  consider "executor_delivery w = w" | sm r where "executor_delivery w = w\<lparr>schema_manager := sm, delivery_task := r\<rparr>"
    | t r where "executor_delivery w = w\<lparr>transport := t, delivery_task := r\<rparr>"
    using executor_delivery_effect [of w] by blast
  then have "\<exists>sm t d. executor_delivery w = w\<lparr>schema_manager := sm, transport := t, delivery_task := d\<rparr>"
  proof cases
    case 1
    then show ?thesis
      by (intro exI [of _ "schema_manager w"] exI [of _ "transport w"] exI [of _ "delivery_task w"]) simp
  next
    case (2 sm r)
    then show ?thesis by (intro exI [of _ sm] exI [of _ "transport w"] exI [of _ r]) simp
  next
    case (3 t r)
    then show ?thesis by (intro exI [of _ "schema_manager w"] exI [of _ t] exI [of _ r]) simp
  qed
  then obtain sm t d where e: "executor_delivery w = w\<lparr>schema_manager := sm, transport := t, delivery_task := d\<rparr>"
    by blast
  have "tidy w \<longrightarrow> tidy (executor_delivery w)" by (rule tidy_fields) (simp_all add: e)
  then show ?thesis
    by (intro orderly_coroutine [OF assms]) (use assms in \<open>simp_all add: orderly_def e\<close>)
qed

lemma orderly_executor_main:
  assumes "orderly w h" and "in_loop w"
  shows "orderly (run_action MainCall w) (note_down MainCall w h)"
proof -
  have l: "\<not> before_loop w" using in_loop_before assms(2) by blast
  consider "executor_main w = w"
    | sm r where "main_task w = MainFlushEnsuring" "executor_main w = w\<lparr>schema_manager := sm, main_task := MainFlushEnsured r\<rparr>"
    | b t r where "main_task w = MainFlushSending b" "executor_main w = w\<lparr>transport := t, main_task := MainFlushSent b r\<rparr>"
    using executor_main_effect [of w] by blast
  then show ?thesis
  proof cases
    case 1
    then show ?thesis by (intro orderly_fields [OF assms(1)]) simp_all
  next
    case 2
    then show ?thesis using assms l unfolding orderly_def
      by (auto simp: before_loop_def past_persist_def tidy_def in_loop_def)
  next
    case 3
    then show ?thesis using assms l unfolding orderly_def
      by (auto simp: before_loop_def past_persist_def tidy_def in_loop_def)
  qed
qed

lemma orderly_flush:
  assumes "orderly w h" and "in_loop w" and "flush_effect w w'" and "persist_task w = PersistReturned"
  shows "orderly w' h'"
proof -
  obtain t where t: "outer w' = outer (w\<lparr>main_task := t\<rparr>)" "tidy w \<longrightarrow> tidy w' \<and> w_state w' \<notin> {NEW, STARTING, STOPPED}"
      "t = MainCancelling \<or> t = MainFlushEnsuring \<or> (\<exists>e. t = MainEnded (Some e)) \<or> (\<exists>b. t = MainFlushSending b)"
    using assms(3) unfolding flush_effect_def by blast
  have f: "main_task w' = t" "persist_task w' = PersistReturned" "accepting w' = accepting w" "stop_async w' = stop_async w"
      "stop_requested w' = stop_requested w" "settings w' = settings w" "held w' = held w" "ingress w' = ingress w"
    using t(1) assms(4) by (simp_all add: outer_defs)
  have "\<not> before_loop w'" "main_task w' \<noteq> MainExited" "main_task w' \<noteq> MainAwaitPersist"
    using t(3) by (auto simp: before_loop_def f)
  moreover have "tidy w" using assms(1) by (simp add: orderly_def)
  ultimately show ?thesis
    using assms(1,4) t(2) unfolding orderly_def f by auto
qed

lemma orderly_main:
  assumes "orderly w h"
  shows "orderly (run_action MainPass w) (note_down MainPass w h)"
proof (cases rule: main_step_cases [of w])
  case idle
  then show ?thesis by (intro orderly_fields [OF assms]) simp_all
next
  case stopping
  then show ?thesis using assms unfolding orderly_def
    by (auto simp: before_loop_def past_persist_def tidy_def in_loop_def)
next
  case (failed e)
  then show ?thesis using assms unfolding orderly_def
    by (auto simp: before_loop_def past_persist_def tidy_def in_loop_def)
next
  case flush
  then have "persist_task w = PersistReturned"
    using assms by (auto simp: orderly_def past_persist_def)
  then show ?thesis using orderly_flush [OF assms] flush(1,2) by simp
next
  case (cancelled d)
  then show ?thesis using assms unfolding orderly_def
    by (auto simp: before_loop_def past_persist_def tidy_def in_loop_def)
next
  case (finishing f)
  obtain t sm y err s where s0: "s = FAILED \<or> s = STOPPED \<and> f = None" and
      e: "main_step w = w\<lparr>transport := t, schema_manager := sm, failure := y, w_state := s,
       accepting := False, last_error := err, spool := snd (close_spool (spool w)), main_task := MainExited\<rparr>"
    unfolding finishing(2) by (rule run_finally_effect [of w f])
  have s: "s = FAILED \<or> s = STOPPED" "s = STOPPED \<longrightarrow> f = None" using s0 by auto
  have "tidy w" using assms by (simp add: orderly_def)
  then have "tidy (main_step w)"
    using s(1) by (elim disjE) (simp_all add: e tidy_def in_loop_def)
  moreover have "s = STOPPED \<longrightarrow> persist_task w = PersistReturned"
    using s(2) assms finishing(1) by (auto simp: orderly_def past_persist_def)
  ultimately show ?thesis
    using assms s(1) unfolding orderly_def
    by (elim disjE) (simp_all add: e before_loop_def past_persist_def)
qed

lemma orderly_starts:
  assumes "make_worker tab st with_schema file tr sm environment = Inr w" and "settings_post_init st = Inr ()"
    and "requests tr = []"
  shows "orderly w new_history"
proof -
  note m = make_worker_fields [OF assms(1)]
  have "tidy w" using settings_valid(2) [OF assms(2)] by (simp add: tidy_def m in_loop_def)
  then show ?thesis
    using assms(2,3) m(14)
    by (simp add: orderly_def untouched_def before_loop_def past_persist_def m(1-13) new_history_def intake_def)
qed

interpretation orderly_always: worker_invariant orderly
proof unfold_locales
  fix w h a assume w: "worker_reached w h" "orderly w h" "enabled a w"
  have u: "unfinished_tasks w = int (length (held w) + length (ingress w))"
    using flow_always.holds_always [OF w(1)] by (simp add: flow_def)
  show "orderly (run_action a w) (note_down a w h)"
  proof (cases a)
    case (Start t)
    then show ?thesis using orderly_start [OF w(2)] by simp
  next
    case (StartFinish ready)
    then show ?thesis using orderly_start_finish [OF w(2)] by simp
  next
    case (Submit x)
    then show ?thesis using orderly_submit [OF w(2)] by simp
  next
    case (Stop t)
    then show ?thesis using orderly_stop [OF w(2)] by simp
  next
    case (Open L busy tr sm0)
    then show ?thesis using orderly_open [OF w(2)] w(3) by simp
  next
    case PersistPass
    then show ?thesis using orderly_persist [OF w(2) _ _ u] w(3) by simp
  next
    case DeliveryPass
    then show ?thesis using orderly_delivery [OF w(2)] w(3) by simp
  next
    case DeliveryCall
    then show ?thesis using orderly_executor_delivery [OF w(2)] w(3) by simp
  next
    case MainPass
    then show ?thesis using orderly_main [OF w(2)] by simp
  next
    case MainCall
    then show ?thesis using orderly_executor_main [OF w(2)] w(3) by simp
  qed
qed (rule orderly_starts)

end
