(* ===== verification/WorkerSafety.thy ===== *)
theory WorkerSafety
  imports WorkerInv
begin

section \<open>No accepted event is lost, and nothing is sent before the table is there\<close>

text \<open>
  The two central invariants: where every accepted event is, and that no batch exists before the schema
  check returned. Each has one preservation lemma per action.
\<close>

subsection \<open>Batches in flight\<close>

text \<open>The body of the batch has a row for every pending event the batch will answer for.\<close>

definition batch_ok :: "ustr \<Rightarrow> queue \<Rightarrow> built_batch \<Rightarrow> bool" where
  "batch_ok tab q b \<longleftrightarrow>
     (\<exists>payloads encs. map (encode_record tab) payloads = map Inr encs \<and> bb_payload b = concat encs \<and>
        (\<forall>r \<in> set (q_pending q). p_sequence r \<in> set (bb_sequences b) \<longrightarrow> p_payload r \<in> set payloads)) \<and>
     (\<forall>s \<in> set (bb_sequences b). s \<le> q_next q)"

lemma oldest_batch_ok:
  assumes "oldest_batch tab n m q b" and "queue_ok q"
  shows "batch_ok tab q b"
proof -
  obtain k encs where k: "map (\<lambda>r. encode_record tab (p_payload r)) (take k (q_pending q)) = map Inr encs"
      "bb_payload b = concat encs" "bb_sequences b = map p_sequence (take k (q_pending q))"
    using assms(1) unfolding oldest_batch_def encodes_rows_def by blast
  have inj: "inj_on p_sequence (set (q_pending q))" using assms(2) by (simp add: queue_ok_def distinct_map)
  have "p_payload r \<in> set (map p_payload (take k (q_pending q)))"
    if r: "r \<in> set (q_pending q)" "p_sequence r \<in> set (bb_sequences b)" for r
  proof -
    obtain r' where "r' \<in> set (take k (q_pending q))" "p_sequence r' = p_sequence r" using r(2) k(3) by auto
    moreover from this have "r' = r" using inj r(1) by (auto dest: inj_onD in_set_takeD)
    ultimately show ?thesis by auto
  qed
  moreover have "\<forall>s \<in> set (bb_sequences b). s \<le> q_next q"
    using assms(2) k(3) by (auto simp: queue_ok_def dest: in_set_takeD)
  moreover have "map (encode_record tab) (map p_payload (take k (q_pending q))) = map Inr encs"
    using k(1) by (simp add: comp_def)
  ultimately show ?thesis unfolding batch_ok_def using k(2) by blast
qed

lemma batch_ok_later:
  assumes "batch_ok tab q b" and "rows_from q q'"
  shows "batch_ok tab q' b"
proof -
  obtain payloads encs where p: "map (encode_record tab) payloads = map Inr encs" "bb_payload b = concat encs"
      "\<forall>r \<in> set (q_pending q). p_sequence r \<in> set (bb_sequences b) \<longrightarrow> p_payload r \<in> set payloads"
      "\<forall>s \<in> set (bb_sequences b). s \<le> q_next q"
    using assms(1) by (auto simp: batch_ok_def)
  have "p_payload r \<in> set payloads" if "r \<in> set (q_pending q')" "p_sequence r \<in> set (bb_sequences b)" for r
    using that p(3,4) assms(2) unfolding rows_from_def by force
  moreover have "\<forall>s \<in> set (bb_sequences b). s \<le> q_next q'"
    using p(4) assms(2) unfolding rows_from_def by force
  ultimately show ?thesis unfolding batch_ok_def using p(1,2) by blast
qed

definition in_flight :: "worker \<Rightarrow> built_batch \<Rightarrow> bool" where
  "in_flight w b \<longleftrightarrow> delivery_task w = DeliverSending b \<or> (\<exists>a. delivery_task w = DeliverSent b a) \<or>
     main_task w = MainFlushSending b \<or> (\<exists>a. main_task w = MainFlushSent b a)"

text \<open>The server said yes to the event: a request whose body has the event's row was answered 2xx.\<close>

definition acknowledged :: "ustr \<Rightarrow> transport \<Rightarrow> new_spool_event \<Rightarrow> bool" where
  "acknowledged tab t ev \<longleftrightarrow> (\<exists>payloads encs. map (encode_record tab) payloads = map Inr encs \<and>
     posted t (concat encs) \<and> ne_payload ev \<in> set payloads)"

lemma acknowledged_extends: "log_extends t t' \<Longrightarrow> acknowledged tab t ev \<Longrightarrow> acknowledged tab t' ev"
  unfolding acknowledged_def using posted_extends by blast

lemma batch_acknowledges:
  assumes "batch_ok tab q b" and "posted t (bb_payload b)" and "r \<in> set (q_pending q)"
    and "p_sequence r \<in> set (bb_sequences b)" and "row_holds ev r"
  shows "acknowledged tab t ev"
  using assms unfolding batch_ok_def acknowledged_def row_holds_def by metis

subsection \<open>Safe events\<close>

definition safe_event :: "worker \<Rightarrow> history \<Rightarrow> new_spool_event \<Rightarrow> bool" where
  "safe_event w h ev \<longleftrightarrow> holds (stored (spool w)) ev \<or> (\<exists>d \<in> set (h_evicted h). dead_holds ev d) \<or>
     acknowledged (table w) (transport w) ev"

definition in_use :: "worker \<Rightarrow> history \<Rightarrow> bool" where
  "in_use w h \<longleftrightarrow> in_loop w \<or> accepting w \<or> h_accepted h \<noteq> [] \<or> (\<exists>b. in_flight w b)"

definition kept_events :: "worker \<Rightarrow> history \<Rightarrow> bool" where
  "kept_events w h \<longleftrightarrow> (before_loop w \<longrightarrow> fresh_file (spool w)) \<and>
     (in_use w h \<longrightarrow> spool_ok (spool w)) \<and>
     (\<forall>ev \<in> set (take (nat (persisted_events w)) (h_accepted h)). safe_event w h ev) \<and>
     (\<forall>b. in_flight w b \<longrightarrow> batch_ok (table w) (stored (spool w)) b) \<and>
     (\<forall>b. delivery_task w = DeliverSent b (Inr ()) \<or> main_task w = MainFlushSent b (Inr ()) \<longrightarrow>
        posted (transport w) (bb_payload b))"

lemma safe_step:
  assumes "store_step A w w'" and "spool_ok (spool w)" and "safe_event w h ev"
    and "table w' = table w" and "log_extends (transport w) (transport w')"
    and "h_evicted h' = h_evicted h @ evicted_by (stored (spool w)) (stored (spool w'))"
    and "\<And>r. r \<in> set (q_pending (stored (spool w))) \<Longrightarrow> p_sequence r \<in> A \<Longrightarrow> row_holds ev r \<Longrightarrow>
       acknowledged (table w) (transport w) ev"
  shows "safe_event w' h' ev"
proof -
  consider "holds (stored (spool w)) ev" | "\<exists>d \<in> set (h_evicted h). dead_holds ev d"
    | "acknowledged (table w) (transport w) ev"
    using assms(3) by (auto simp: safe_event_def)
  then show ?thesis
  proof cases
    case 1
    then have "holds (stored (spool w')) ev \<or> (\<exists>d \<in> set (evicted_by (stored (spool w)) (stored (spool w'))). dead_holds ev d) \<or>
       (\<exists>r \<in> set (q_pending (stored (spool w))). p_sequence r \<in> A \<and> row_holds ev r)"
      using assms(1,2) by (simp add: store_step_def keeps_events_def)
    then show ?thesis
    proof (elim disjE bexE conjE)
      fix r assume "r \<in> set (q_pending (stored (spool w)))" "p_sequence r \<in> A" "row_holds ev r"
      then have "acknowledged (table w) (transport w) ev" by (rule assms(7))
      then show ?thesis using acknowledged_extends [OF assms(5)] assms(4) by (simp add: safe_event_def)
    qed (auto simp: safe_event_def assms(6))
  next
    case 2
    then show ?thesis by (auto simp: safe_event_def assms(6))
  next
    case 3
    then show ?thesis using acknowledged_extends [OF assms(5)] assms(4) by (simp add: safe_event_def)
  qed
qed

lemma evicted_none [simp]: "evicted_by q q = []"
  by (simp add: evicted_by_def)

text \<open>The rows a coroutine deletes were acknowledged.\<close>

lemma clears_acknowledged:
  assumes "kept_events w h" and "r \<in> set (q_pending (stored (spool w)))"
    and "p_sequence r \<in> delivery_clears w \<union> main_clears w" and "row_holds ev r"
  shows "acknowledged (table w) (transport w) ev"
proof -
  obtain b where b: "delivery_task w = DeliverSent b (Inr ()) \<or> main_task w = MainFlushSent b (Inr ())"
      "p_sequence r \<in> set (bb_sequences b)"
    using assms(3)
    by (auto simp: delivery_clears_def main_clears_def cleared_def
        split: delivery_task.splits main_task.splits sum.splits)
  then have "in_flight w b" by (auto simp: in_flight_def)
  then have "batch_ok (table w) (stored (spool w)) b" "posted (transport w) (bb_payload b)"
    using assms(1) b(1) by (auto simp: kept_events_def)
  then show ?thesis using batch_acknowledges assms(2,4) b(2) by blast
qed

text \<open>One stretch of a coroutine.\<close>

lemma kept_events_step:
  assumes k: "kept_events w h" and u: "in_use w h" and l: "\<not> before_loop w'"
    and s: "store_step (delivery_clears w \<union> main_clears w) w w'" and t: "table w' = table w"
    and x: "log_extends (transport w) (transport w')"
    and e: "h_evicted h' = h_evicted h @ evicted_by (stored (spool w)) (stored (spool w'))"
    and new: "\<And>ev. ev \<in> set (take (nat (persisted_events w')) (h_accepted h')) \<Longrightarrow>
      ev \<in> set (take (nat (persisted_events w)) (h_accepted h)) \<or> holds (stored (spool w')) ev"
    and fl: "\<And>b. in_flight w' b \<Longrightarrow> in_flight w b \<or> fresh_batch w' b"
    and snt: "\<And>b. delivery_task w' = DeliverSent b (Inr ()) \<or> main_task w' = MainFlushSent b (Inr ()) \<Longrightarrow>
      posted (transport w') (bb_payload b) \<or> delivery_task w = DeliverSent b (Inr ()) \<or>
      main_task w = MainFlushSent b (Inr ())"
  shows "kept_events w' h'"
proof -
  have ok: "spool_ok (spool w)" using k u by (simp add: kept_events_def)
  then have ok': "spool_ok (spool w')" and rf: "rows_from (stored (spool w)) (stored (spool w'))"
    using s by (simp_all add: store_step_def)
  have "safe_event w' h' ev" if "ev \<in> set (take (nat (persisted_events w')) (h_accepted h'))" for ev
  proof (cases "ev \<in> set (take (nat (persisted_events w)) (h_accepted h))")
    case True
    then have "safe_event w h ev" using k by (simp add: kept_events_def)
    then show ?thesis by (rule safe_step [OF s ok _ t x e]) (rule clears_acknowledged [OF k])
  next
    case False
    then show ?thesis using new [OF that] by (simp add: safe_event_def)
  qed
  moreover have "batch_ok (table w') (stored (spool w')) b" if "in_flight w' b" for b
    using fl [OF that]
  proof
    assume "in_flight w b"
    then have "batch_ok (table w) (stored (spool w)) b" using k by (simp add: kept_events_def)
    then show ?thesis using batch_ok_later [OF _ rf] t by simp
  next
    assume "fresh_batch w' b"
    then show ?thesis
      using oldest_batch_ok spool_queue_ok [OF ok'] unfolding fresh_batch_def by blast
  qed
  moreover have "posted (transport w') (bb_payload b)"
    if "delivery_task w' = DeliverSent b (Inr ()) \<or> main_task w' = MainFlushSent b (Inr ())" for b
    using snt [OF that] k posted_extends [OF x] by (auto simp: kept_events_def)
  ultimately show ?thesis using l ok' by (simp add: kept_events_def)
qed

text \<open>A call or a step that leaves the spool and the batches alone.\<close>

lemma kept_events_aside:
  assumes k: "kept_events w h" and "before_loop w' \<longrightarrow> before_loop w" and "in_use w' h' \<longrightarrow> in_use w h"
    and "spool w' = spool w" "table w' = table w" "transport w' = transport w"
      "delivery_task w' = delivery_task w" "persisted_events w' = persisted_events w"
    and "\<And>b. in_flight w' b \<Longrightarrow> in_flight w b"
    and "\<And>b. main_task w' = MainFlushSent b (Inr ()) \<Longrightarrow> main_task w = MainFlushSent b (Inr ())"
    and "h_evicted h' = h_evicted h @ evicted_by (stored (spool w)) (stored (spool w'))"
    and "take (nat (persisted_events w)) (h_accepted h') = take (nat (persisted_events w)) (h_accepted h)"
  shows "kept_events w' h'"
proof -
  have "safe_event w' h' ev = safe_event w h ev" for ev
    using assms(11) by (simp add: safe_event_def assms(4-6))
  then show ?thesis
    using k assms(2,3,9,10) unfolding kept_events_def assms(4-8,12) by blast
qed

subsection \<open>No open transaction between actions\<close>

interpretation idle_always: worker_invariant "\<lambda>w h. \<not> in_transaction (spool w)"
  by unfold_locales (auto simp: make_worker_fields(2) fresh_file_def)

subsection \<open>Every action keeps the events\<close>

lemma kept_delivery:
  assumes "kept_events w h" and "in_loop w" and "\<not> in_transaction (spool w)"
  shows "kept_events (delivery_step w) (note_down DeliveryPass w h)"
proof (cases "delivery_step w = w")
  case True
  then show ?thesis by (intro kept_events_aside [OF assms(1)]) (simp_all add: in_use_def)
next
  case False
  then obtain t where t: "control (delivery_step w) = control (w\<lparr>delivery_task := t\<rparr>)"
      "intake (delivery_step w) = intake w" "store_step (delivery_clears w) w (delivery_step w)"
      "\<forall>b a. t \<noteq> DeliverSent b a"
      "\<forall>b. t = DeliverSending b \<longrightarrow> spool_ok (spool w) \<and> \<not> in_transaction (spool w) \<longrightarrow> fresh_batch (delivery_step w) b"
    using delivery_step_effect [of w] unfolding delivery_effect_def by blast
  note c = control_fields [OF t(1), simplified]
  have u: "in_use w h" using assms(2) by (simp add: in_use_def)
  then have ok: "spool_ok (spool w)" using assms(1) by (simp add: kept_events_def)
  show ?thesis
  proof (rule kept_events_step [OF assms(1) u])
    show "\<not> before_loop (delivery_step w)"
      using in_loop_before [OF assms(2)] c(1) by (simp add: before_loop_def)
    show "store_step (delivery_clears w \<union> main_clears w) w (delivery_step w)"
      using t(3) by (auto simp: store_step_def keeps_events_def)
    show "in_flight w b \<or> fresh_batch (delivery_step w) b" if "in_flight (delivery_step w) b" for b
      using that t(4,5) ok assms(3) by (auto simp: in_flight_def c)
    show "posted (transport (delivery_step w)) (bb_payload b) \<or> delivery_task w = DeliverSent b (Inr ()) \<or>
        main_task w = MainFlushSent b (Inr ())"
      if "delivery_task (delivery_step w) = DeliverSent b (Inr ()) \<or> main_task (delivery_step w) = MainFlushSent b (Inr ())" for b
      using that t(4) by (auto simp: c)
  qed (use t(2) in \<open>simp_all add: c intake_def\<close>)
qed

lemma kept_persist:
  assumes "kept_events w h" and "in_loop w" and f: "flow w h"
  shows "kept_events (persist_step w) (note_down PersistPass w h)"
proof -
  let ?w = "persist_step w"
  have q: "unfinished_tasks w = int (length (held w) + length (ingress w))" "0 \<le> persisted_events w"
      "drop (nat (persisted_events w)) (h_accepted h) = held w @ ingress w"
    using f by (simp_all add: flow_def)
  obtain t hs qs where d: "drain (nat (persist_batch_rows (settings w))) (held w) (ingress w) = (hs, qs)"
    and t: "control ?w = control (w\<lparr>persist_task := t\<rparr>)" "store_step {} w ?w"
    and i: "intake ?w = (qs, unfinished_tasks w, hs, length hs, ingress_high_watermark w, submitted_events w,
            persisted_events w) \<or>
         intake ?w = (qs, unfinished_tasks w - int (length hs), [], 0, ingress_high_watermark w, submitted_events w,
            persisted_events w + int (length hs)) \<and>
         (spool_ok (spool w) \<longrightarrow> (\<forall>ev \<in> set hs. holds (stored (spool ?w)) ev))"
    using persist_step_effect [OF q(1)] unfolding persist_effect_def by blast
  note c = control_fields [OF t(1), simplified]
  have u: "in_use w h" using assms(2) by (simp add: in_use_def)
  then have ok: "spool_ok (spool w)" using assms(1) by (simp add: kept_events_def)
  have hq: "hs @ qs = held w @ ingress w" using d by (auto simp: drain_eq)
  show ?thesis
  proof (rule kept_events_step [OF assms(1) u])
    show "\<not> before_loop ?w" using in_loop_before [OF assms(2)] c(1) by (simp add: before_loop_def)
    show "store_step (delivery_clears w \<union> main_clears w) w ?w"
      using t(2) by (auto simp: store_step_def keeps_events_def)
    show "in_flight w b \<or> fresh_batch ?w b" if "in_flight ?w b" for b
      using that by (auto simp: in_flight_def c)
    show "ev \<in> set (take (nat (persisted_events w)) (h_accepted h)) \<or> holds (stored (spool ?w)) ev"
      if ev: "ev \<in> set (take (nat (persisted_events ?w)) (h_accepted (note_down PersistPass w h)))" for ev
      using i
    proof
      assume "intake ?w = (qs, unfinished_tasks w, hs, length hs, ingress_high_watermark w, submitted_events w,
            persisted_events w)"
      then show ?thesis using ev by (simp add: intake_def)
    next
      assume i: "intake ?w = (qs, unfinished_tasks w - int (length hs), [], 0, ingress_high_watermark w,
            submitted_events w, persisted_events w + int (length hs)) \<and>
         (spool_ok (spool w) \<longrightarrow> (\<forall>ev \<in> set hs. holds (stored (spool ?w)) ev))"
      then have p: "persisted_events ?w = persisted_events w + int (length hs)" by (simp add: intake_def)
      have "take (nat (persisted_events ?w)) (h_accepted h) =
          take (nat (persisted_events w)) (h_accepted h) @ take (length hs) (drop (nat (persisted_events w)) (h_accepted h))"
        using q(2) by (simp add: p nat_add_distrib take_add)
      moreover have "take (length hs) (drop (nat (persisted_events w)) (h_accepted h)) = hs"
        using q(3) hq by (metis append_eq_conv_conj)
      ultimately show ?thesis using ev i ok by auto
    qed
    show "posted (transport ?w) (bb_payload b) \<or> delivery_task w = DeliverSent b (Inr ()) \<or>
        main_task w = MainFlushSent b (Inr ())"
      if "delivery_task ?w = DeliverSent b (Inr ()) \<or> main_task ?w = MainFlushSent b (Inr ())" for b
      using that by (auto simp: c)
  qed (simp_all add: c)
qed

lemma kept_flush:
  assumes "kept_events w h" and "in_loop w" and "flush_effect w (main_step w)" and "\<not> in_transaction (spool w)"
  shows "kept_events (main_step w) (note_down MainPass w h)"
proof -
  let ?w = "main_step w"
  obtain t where t: "outer ?w = outer (w\<lparr>main_task := t\<rparr>)" "store_step (main_clears w) w ?w"
      "t = MainCancelling \<or> t = MainFlushEnsuring \<or> (\<exists>e. t = MainEnded (Some e)) \<or>
         (\<exists>b. t = MainFlushSending b \<and> (spool_ok (spool w) \<and> \<not> in_transaction (spool w) \<longrightarrow> fresh_batch ?w b))"
    using assms(3) unfolding flush_effect_def by blast
  have c: "main_task ?w = t" "delivery_task ?w = delivery_task w" "table ?w = table w" "transport ?w = transport w"
      "persisted_events ?w = persisted_events w"
    using t(1) by (simp_all add: outer_defs)
  have u: "in_use w h" using assms(2) by (simp add: in_use_def)
  then have ok: "spool_ok (spool w)" using assms(1) by (simp add: kept_events_def)
  show ?thesis
  proof (rule kept_events_step [OF assms(1) u])
    show "\<not> before_loop ?w" using t(3) by (auto simp: before_loop_def c)
    show "store_step (delivery_clears w \<union> main_clears w) w ?w"
      using t(2) by (auto simp: store_step_def keeps_events_def)
    show "in_flight w b \<or> fresh_batch ?w b" if "in_flight ?w b" for b
      using that t(3) ok assms(4) by (auto simp: in_flight_def c)
    show "posted (transport ?w) (bb_payload b) \<or> delivery_task w = DeliverSent b (Inr ()) \<or>
        main_task w = MainFlushSent b (Inr ())"
      if "delivery_task ?w = DeliverSent b (Inr ()) \<or> main_task ?w = MainFlushSent b (Inr ())" for b
      using that t(3) by (auto simp: c)
  qed (simp_all add: c)
qed

lemma kept_close:
  assumes "kept_events w h" and "main_task w = MainEnded f"
  shows "kept_events (run_finally f w) (note_down MainPass w h)"
proof -
  let ?w = "run_finally f w"
  obtain t sm y err s where t: "requests t = requests (transport w)" "net t = net (transport w)"
    and w: "?w = w\<lparr>transport := t, schema_manager := sm, failure := y, w_state := s, accepting := False,
       last_error := err, spool := snd (close_spool (spool w)), main_task := MainExited\<rparr>"
    by (rule run_finally_effect [of w f])
  have p: "posted t b = posted (transport w) b" for b by (simp add: posted_def t)
  have fl: "in_flight ?w b \<Longrightarrow> in_flight w b" for b by (auto simp: in_flight_def w)
  have run: "run_action MainPass w = ?w" using assms(2) by (simp add: main_step_def)
  show ?thesis
  proof (cases "spool_ok (spool w)")
    case True
    then have c: "spool_ok (spool ?w)" "stored (spool ?w) = stored (spool w)"
      using close_store [of "spool w"] by (simp_all add: w same_store_def stored_def)
    have "safe_event ?w (note_down MainPass w h) ev = safe_event w h ev" for ev
      using c(2) by (simp add: safe_event_def run del: run_action.simps) (simp add: w acknowledged_def p)
    then show ?thesis
      using assms(1) c fl by (auto simp: kept_events_def run before_loop_def w p simp del: run_action.simps)
  next
    case False
    then have "\<not> in_use w h" using assms(1) by (auto simp: kept_events_def)
    then have "h_accepted h = []" "\<not> in_use ?w (note_down MainPass w h)" "\<And>b. \<not> in_flight ?w b"
      using fl by (auto simp: in_use_def w in_loop_def)
    then show ?thesis by (auto simp: kept_events_def before_loop_def w in_flight_def)
  qed
qed

lemma kept_main:
  assumes "kept_events w h" and "\<not> in_transaction (spool w)"
  shows "kept_events (run_action MainPass w) (note_down MainPass w h)"
proof (cases rule: main_step_cases [of w])
  case flush
  then show ?thesis using kept_flush [OF assms(1) _ _ assms(2)] by simp
next
  case (finishing f)
  then show ?thesis using kept_close [OF assms(1)] by simp
next
  case idle
  then show ?thesis by (intro kept_events_aside [OF assms(1)]) (simp_all add: in_use_def)
next
  case stopping
  then show ?thesis
    by (intro kept_events_aside [OF assms(1)])
      (auto simp: in_use_def in_loop_def before_loop_def in_flight_def)
next
  case (failed e)
  then show ?thesis
    by (intro kept_events_aside [OF assms(1)])
      (auto simp: in_use_def in_loop_def before_loop_def in_flight_def)
next
  case (cancelled d)
  have "kept_events (w\<lparr>delivery_task := d, main_task := MainEnded None\<rparr>) (note_down MainPass w h)"
  proof (rule kept_events_step [OF assms(1)])
    show "in_use w h" using cancelled(1) by (simp add: in_use_def in_loop_def)
    then have "spool_ok (spool w)" using assms(1) by (simp add: kept_events_def)
    then show "store_step (delivery_clears w \<union> main_clears w) w (w\<lparr>delivery_task := d, main_task := MainEnded None\<rparr>)"
      by (simp add: store_step_def)
  next
    fix b assume "in_flight (w\<lparr>delivery_task := d, main_task := MainEnded None\<rparr>) b"
    then show "in_flight w b \<or> fresh_batch (w\<lparr>delivery_task := d, main_task := MainEnded None\<rparr>) b"
      using cancelled(2) by (elim disjE) (simp_all add: in_flight_def, blast)
  qed (use cancelled in \<open>auto simp: before_loop_def\<close>)
  then show ?thesis using cancelled(3) by simp
qed

lemma kept_open:
  assumes "kept_events w h" and "orderly w h" and en: "enabled (Open L busy tr sm0) w"
  shows "kept_events (run_action (Open L busy tr sm0) w) (note_down (Open L busy tr sm0) w h)"
proof -
  let ?a = "Open L busy tr sm0"
  have m: "main_task w = MainOpening" using en by simp
  then have b: "before_loop w" by (simp add: before_loop_def)
  have u: "h_accepted h = []" "delivery_task w = DeliverLooping" "\<not> accepting w" and f: "fresh_file (spool w)"
    using assms(1,2) b by (auto simp: orderly_def untouched_def kept_events_def)
  have "case tr of Inl _ \<Rightarrow> True | Inr t \<Rightarrow> requests t = []" using en by simp
  from run_step_effect [OF this, of w L busy sm0] consider
      s t sm st e where "run_action ?a w = (reopened w s t sm st)\<lparr>main_task := MainEnded (Some e)\<rparr>"
    | s1 t sm st where "open_spool L busy (spool w) = (Inr (), s1)"
        "run_action ?a w = started (reopened w (snd (current_stats s1)) t sm st)"
    by auto
  then show ?thesis
  proof cases
    case 1
    then show ?thesis using u
      by (simp add: kept_events_def before_loop_def in_use_def in_flight_def in_loop_def reopened_def del: run_action.simps)
  next
    case 2
    have "schema_ok (durable (spool w))" using f by (simp add: fresh_file_def)
    moreover have "\<not> overlap (durable (spool w)) \<and> idle L (faults (spool w)) (reconciled (durable (spool w))) s1"
      using opened_ok [OF _ _ _ 2(1), of "faults (spool w)" "durable (spool w)"] f by (simp add: fresh_file_def)
    ultimately have "spool_ok s1" using reconciled_ok by (simp add: spool_ok_def idle_def)
    then have "spool_ok (snd (current_stats s1))" using spool_read_snd [OF read_stats] by blast
    then show ?thesis using u 2(2)
      by (simp add: kept_events_def before_loop_def in_flight_def reopened_def started_def del: run_action.simps)
  qed
qed

lemma kept_executor_delivery:
  assumes "kept_events w h" and "in_loop w"
  shows "kept_events (run_action DeliveryCall w) (note_down DeliveryCall w h)"
proof -
  have u: "in_use w h" and l: "\<not> before_loop w" using assms(2) in_loop_before by (auto simp: in_use_def)
  consider "executor_delivery w = w"
    | sm r where "delivery_task w = DeliverEnsuring"
        "executor_delivery w = w\<lparr>schema_manager := sm, delivery_task := DeliverEnsured r\<rparr>"
    | b t r where "delivery_task w = DeliverSending b" "log_extends (transport w) t" "r = Inr () \<longrightarrow> posted t (bb_payload b)"
        "executor_delivery w = w\<lparr>transport := t, delivery_task := DeliverSent b r\<rparr>"
    using executor_delivery_effect [of w] by blast
  then show ?thesis
  proof cases
    case 1
    then show ?thesis by (intro kept_events_aside [OF assms(1)]) (simp_all add: in_use_def)
  next
    case 2
    then show ?thesis using l
      by (intro kept_events_step [OF assms(1) u])
        (auto simp: store_step_def before_loop_def in_flight_def)
  next
    case 3
    then show ?thesis using l
      by (intro kept_events_step [OF assms(1) u])
        (auto simp: store_step_def before_loop_def in_flight_def)
  qed
qed

lemma kept_executor_main:
  assumes "kept_events w h" and "in_loop w"
  shows "kept_events (run_action MainCall w) (note_down MainCall w h)"
proof -
  have u: "in_use w h" and l: "\<not> before_loop w" using assms(2) in_loop_before by (auto simp: in_use_def)
  consider "executor_main w = w"
    | sm r where "main_task w = MainFlushEnsuring"
        "executor_main w = w\<lparr>schema_manager := sm, main_task := MainFlushEnsured r\<rparr>"
    | b t r where "main_task w = MainFlushSending b" "log_extends (transport w) t" "r = Inr () \<longrightarrow> posted t (bb_payload b)"
        "executor_main w = w\<lparr>transport := t, main_task := MainFlushSent b r\<rparr>"
    using executor_main_effect [of w] by blast
  then show ?thesis
  proof cases
    case 1
    then show ?thesis by (intro kept_events_aside [OF assms(1)]) (simp_all add: in_use_def)
  next
    case 2
    then show ?thesis
      by (intro kept_events_step [OF assms(1) u])
        (auto simp: store_step_def before_loop_def in_flight_def)
  next
    case 3
    then show ?thesis
      by (intro kept_events_step [OF assms(1) u])
        (auto simp: store_step_def before_loop_def in_flight_def)
  qed
qed

lemma kept_start: "kept_events w h \<Longrightarrow> orderly w h \<Longrightarrow>
    kept_events (run_action (Start t) w) (note_down (Start t) w h)"
proof -
  assume k: "kept_events w h" and o: "orderly w h"
  consider "snd (start_thread t w) = w"
    | "w_state w = NEW" "snd (start_thread t w) = w\<lparr>w_state := STARTING, main_task := MainOpening\<rparr>"
    using start_thread_effect [of t w] by blast
  then show ?thesis
  proof cases
    case 1
    then show ?thesis by (intro kept_events_aside [OF k]) (simp_all add: in_use_def)
  next
    case 2
    then have "main_task w = MainNotStarted" using o by (simp add: orderly_def)
    then show ?thesis using 2
      by (intro kept_events_aside [OF k]) (auto simp: in_use_def in_loop_def before_loop_def in_flight_def)
  qed
qed

lemma kept_same_tasks:
  assumes "kept_events w h" and "main_task w' = main_task w" "delivery_task w' = delivery_task w"
    "spool w' = spool w" "table w' = table w" "transport w' = transport w" "persisted_events w' = persisted_events w"
    and "accepting w' \<longrightarrow> accepting w" and "h_accepted h' = h_accepted h"
    and "h_evicted h' = h_evicted h @ evicted_by (stored (spool w)) (stored (spool w'))"
  shows "kept_events w' h'"
  using assms(2-)
  by (intro kept_events_aside [OF assms(1)]) (auto simp: in_use_def in_loop_def before_loop_def in_flight_def)

lemma kept_calls:
  assumes "kept_events w h"
  shows "kept_events (run_action (StartFinish r) w) (note_down (StartFinish r) w h)"
    and "kept_events (run_action (Stop t) w) (note_down (Stop t) w h)"
  using start_finish_effect [of r w] stop_request_effect [of t w]
  by (intro kept_same_tasks [OF assms]; auto)+

lemma kept_submit:
  assumes "kept_events w h" and "flow w h"
  shows "kept_events (run_action (Submit x) w) (note_down (Submit x) w h)"
proof -
  let ?w = "run_action (Submit x) w"
  have p: "nat (persisted_events w) \<le> length (h_accepted h)" using assms(2) by (auto simp: flow_def)
  have f: "main_task ?w = main_task w" "delivery_task ?w = delivery_task w" "spool ?w = spool w"
      "table ?w = table w" "transport ?w = transport w" "persisted_events ?w = persisted_events w"
      "accepting ?w = accepting w" "submitted_now (Submit x) w \<noteq> [] \<longrightarrow> accepting w"
    using submit_effect [of x w] by (auto simp: took_def simp del: submitted_now.simps)
  show ?thesis
    by (intro kept_events_aside [OF assms(1)])
      (use f p in \<open>auto simp: in_use_def in_loop_def before_loop_def in_flight_def
         simp del: submitted_now.simps run_action.simps\<close>)
qed

interpretation kept_always: worker_invariant kept_events
proof unfold_locales
  fix w h a assume w: "worker_reached w h" "kept_events w h" "enabled a w"
  note o = orderly_always.holds_always [OF w(1)]
    and f = flow_always.holds_always [OF w(1)]
    and i = idle_always.holds_always [OF w(1)]
  show "kept_events (run_action a w) (note_down a w h)"
  proof (cases a)
    case (Start t)
    then show ?thesis using kept_start [OF w(2) o] by simp
  next
    case (StartFinish r)
    then show ?thesis using kept_calls [OF w(2)] by simp
  next
    case (Submit x)
    then show ?thesis using kept_submit [OF w(2) f] by simp
  next
    case (Stop t)
    then show ?thesis using kept_calls [OF w(2)] by simp
  next
    case (Open L busy tr sm0)
    then show ?thesis using kept_open [OF w(2) o] w(3) by simp
  next
    case PersistPass
    then show ?thesis using kept_persist [OF w(2) _ f] w(3) by simp
  next
    case DeliveryPass
    then show ?thesis using kept_delivery [OF w(2) _ i] w(3) by simp
  next
    case DeliveryCall
    then show ?thesis using kept_executor_delivery [OF w(2)] w(3) by simp
  next
    case MainPass
    then show ?thesis using kept_main [OF w(2) i] by simp
  next
    case MainCall
    then show ?thesis using kept_executor_main [OF w(2)] w(3) by simp
  qed
next
  fix tab st with_schema f tr sm environment w
  assume m: "make_worker tab st with_schema f tr sm environment = Inr w" and "fresh_file f"
  then show "kept_events w new_history"
    using make_worker_fields(14) [OF m]
    by (simp add: kept_events_def make_worker_fields [OF m] in_use_def in_loop_def in_flight_def new_history_def intake_def)
qed

subsection \<open>The schema gate\<close>

definition gated :: "worker \<Rightarrow> history \<Rightarrow> bool" where
  "gated w h \<longleftrightarrow> (ensured_now w \<longrightarrow> h_ensured h) \<and>
     (has_schema w \<and> \<not> h_ensured h \<longrightarrow>
        \<not> schema_ready w \<and> requests (transport w) = [] \<and> (\<forall>b. \<not> in_flight w b))"

lemma gated_step:
  assumes "gated w h" and "has_schema w' = has_schema w"
    and "h_ensured h' \<longleftrightarrow> h_ensured h \<or> ensured_now w'"
    and "has_schema w \<Longrightarrow> \<not> h_ensured h \<Longrightarrow> \<not> ensured_now w \<Longrightarrow> \<not> schema_ready w \<Longrightarrow>
      requests (transport w) = [] \<Longrightarrow> (\<And>b. \<not> in_flight w b) \<Longrightarrow>
      \<not> schema_ready w' \<and> requests (transport w') = [] \<and> (\<forall>b. \<not> in_flight w' b)"
  shows "gated w' h'"
  using assms unfolding gated_def by blast

lemma gated_main: "gated w h \<Longrightarrow> gated (run_action MainPass w) (note_down MainPass w h)"
proof -
  assume g: "gated w h"
  have p: "has_schema (main_step w) = has_schema w" using main_step_parts [of w] by (simp add: fixed_def)
  have "\<not> schema_ready (main_step w) \<and> requests (transport (main_step w)) = [] \<and> (\<forall>b. \<not> in_flight (main_step w) b)"
    if a: "has_schema w" "\<not> ensured_now w" "\<not> schema_ready w" "requests (transport w) = []" "\<And>b. \<not> in_flight w b"
  proof (cases rule: main_step_cases [of w])
    case flush
    then obtain t where t: "outer (main_step w) = outer (w\<lparr>main_task := t\<rparr>)"
        "t = MainCancelling \<or> t = MainFlushEnsuring \<or> (\<exists>e. t = MainEnded (Some e)) \<or>
         (\<exists>b. t = MainFlushSending b \<and> (\<not> has_schema w \<or> main_task w = MainFlushEnsured (Inr ())))"
      unfolding flush_effect_def by blast
    have "schema_ready (main_step w) = schema_ready w" "transport (main_step w) = transport w"
        "main_task (main_step w) = t" "delivery_task (main_step w) = delivery_task w"
      using t(1) by (simp_all add: outer_defs)
    then show ?thesis using a t(2) by (auto simp: in_flight_def ensured_now_def)
  next
    case (finishing f)
    obtain t sm y err s where t: "requests t = requests (transport w)"
      and w: "run_finally f w = w\<lparr>transport := t, schema_manager := sm, failure := y, w_state := s, accepting := False,
         last_error := err, spool := snd (close_spool (spool w)), main_task := MainExited\<rparr>"
      by (rule run_finally_effect [of w f])
    show ?thesis using a t unfolding finishing(2) w by (simp add: in_flight_def)
  next
    case (cancelled d)
    show ?thesis using a cancelled(2) unfolding cancelled(3) by (elim disjE) (simp_all add: in_flight_def)
  qed (use a in \<open>simp_all add: in_flight_def\<close>)
  then show ?thesis by (intro gated_step [OF g]) (simp_all add: p)
qed

lemma gated_aside:
  assumes "gated w h" and "fixed w' = fixed w" and "h_ensured h' \<longleftrightarrow> h_ensured h \<or> ensured_now w'"
    and "schema_ready w' = schema_ready w" "transport w' = transport w"
    "delivery_task w' = delivery_task w" "main_task w' = main_task w"
  shows "gated w' h'"
  using assms(2-) by (intro gated_step [OF assms(1)]) (simp_all add: fixed_def in_flight_def)

lemma gated_delivery: "gated w h \<Longrightarrow> gated (run_action DeliveryPass w) (note_down DeliveryPass w h)"
proof (cases "delivery_step w = w")
  case True
  assume g: "gated w h"
  show ?thesis using True by (intro gated_aside [OF g]) simp_all
next
  case False
  assume g: "gated w h"
  obtain t where t: "control (delivery_step w) = control (w\<lparr>delivery_task := t\<rparr>)" "\<forall>b a. t \<noteq> DeliverSent b a"
      "schema_ready (delivery_step w) \<longrightarrow> schema_ready w \<or> \<not> has_schema w \<or> delivery_task w = DeliverEnsured (Inr ())"
      "\<forall>b. t = DeliverSending b \<longrightarrow> schema_ready (delivery_step w)"
    using delivery_step_effect [of w] False unfolding delivery_effect_def by blast
  note c = control_fields [OF t(1), simplified]
  show ?thesis
    by (intro gated_step [OF g]) (use t(2-4) in \<open>auto simp: c in_flight_def ensured_now_def\<close>)
qed

lemma gated_executor_delivery:
  assumes "gated w h" and en: "in_loop w"
  shows "gated (run_action DeliveryCall w) (note_down DeliveryCall w h)"
proof (rule gated_step [OF assms(1)])
  assume a: "\<not> schema_ready w" "requests (transport w) = []" and fl: "\<And>b. \<not> in_flight w b"
  have "delivery_task w \<noteq> DeliverSending b" for b using fl [of b] by (simp add: in_flight_def)
  then consider "executor_delivery w = w"
    | sm r where "executor_delivery w = w\<lparr>schema_manager := sm, delivery_task := DeliverEnsured r\<rparr>"
    using executor_delivery_effect [of w] by blast
  then show "\<not> schema_ready (run_action DeliveryCall w) \<and> requests (transport (run_action DeliveryCall w)) = [] \<and>
      (\<forall>b. \<not> in_flight (run_action DeliveryCall w) b)"
  proof cases
    case 1
    then show ?thesis using a fl by simp
  next
    case 2
    then show ?thesis using a fl by (simp add: in_flight_def)
  qed
next
  show "has_schema (run_action DeliveryCall w) = has_schema w"
    using action_parts [of DeliveryCall w] en by (simp add: intakes_def fixed_def)
qed simp

lemma gated_executor_main:
  assumes "gated w h" and en: "in_loop w"
  shows "gated (run_action MainCall w) (note_down MainCall w h)"
proof (rule gated_step [OF assms(1)])
  assume a: "\<not> schema_ready w" "requests (transport w) = []" and fl: "\<And>b. \<not> in_flight w b"
  have "main_task w \<noteq> MainFlushSending b" for b using fl [of b] by (simp add: in_flight_def)
  then consider "executor_main w = w"
    | sm r where "executor_main w = w\<lparr>schema_manager := sm, main_task := MainFlushEnsured r\<rparr>"
    using executor_main_effect [of w] by blast
  then show "\<not> schema_ready (run_action MainCall w) \<and> requests (transport (run_action MainCall w)) = [] \<and>
      (\<forall>b. \<not> in_flight (run_action MainCall w) b)"
  proof cases
    case 1
    then show ?thesis using a fl by simp
  next
    case 2
    then show ?thesis using a fl by (simp add: in_flight_def)
  qed
next
  show "has_schema (run_action MainCall w) = has_schema w"
    using action_parts [of MainCall w] en by (simp add: intakes_def fixed_def)
qed simp

interpretation gated_always: worker_invariant gated
proof unfold_locales
  fix w h a assume w: "worker_reached w h" "gated w h" "enabled a w"
  note o = orderly_always.holds_always [OF w(1)] and f = flow_always.holds_always [OF w(1)]
  have u: "unfinished_tasks w = int (length (held w) + length (ingress w))" using f by (simp add: flow_def)
  show "gated (run_action a w) (note_down a w h)"
  proof (cases a)
    case (Start t)
    have "main_task w = MainNotStarted" if "w_state w = NEW" using o that by (simp add: orderly_def)
    then show ?thesis using Start start_thread_effect [of t w]
      by (intro gated_step [OF w(2)]) (auto simp: in_flight_def)
  next
    case (StartFinish r)
    then show ?thesis using start_finish_effect [of r w] by (intro gated_step [OF w(2)]) (auto simp: in_flight_def)
  next
    case (Submit x)
    then show ?thesis using submit_effect [of x w]
      by (intro gated_step [OF w(2)]) (auto simp: in_flight_def took_def)
  next
    case (Stop t)
    then show ?thesis using stop_request_effect [of t w] by (intro gated_step [OF w(2)]) (auto simp: in_flight_def)
  next
    case (Open L busy tr sm0)
    have "case tr of Inl _ \<Rightarrow> True | Inr t \<Rightarrow> requests t = []" using w(3) Open by simp
    moreover have "untouched w h" using o w(3) Open by (simp add: orderly_def before_loop_def)
    ultimately show ?thesis using Open run_step_effect [of tr w L busy sm0]
      by (intro gated_step [OF w(2)]) (auto simp: in_flight_def untouched_def reopened_def started_def)
  next
    case PersistPass
    obtain t where t: "control (persist_step w) = control (w\<lparr>persist_task := t\<rparr>)"
        "schema_ready (persist_step w) = schema_ready w"
      using persist_step_effect [OF u] unfolding persist_effect_def by blast
    note c = control_fields [OF t(1), simplified]
    show ?thesis using PersistPass
      by (intro gated_aside [OF w(2)]) (use persist_fixed [OF u] in \<open>simp_all add: c t(2)\<close>)
  next
    case DeliveryPass
    then show ?thesis using gated_delivery [OF w(2)] by simp
  next
    case DeliveryCall
    then show ?thesis using gated_executor_delivery [OF w(2)] w(3) by simp
  next
    case MainPass
    then show ?thesis using gated_main [OF w(2)] by simp
  next
    case MainCall
    then show ?thesis using gated_executor_main [OF w(2)] w(3) by simp
  qed
next
  fix tab st with_schema f tr sm environment w
  assume m: "make_worker tab st with_schema f tr sm environment = Inr w" and "requests tr = []"
  then show "gated w new_history"
    by (simp add: gated_def make_worker_fields [OF m] in_flight_def ensured_now_def)
qed

end
