(* ===== verification/WorkerRun.thy ===== *)
theory WorkerRun
  imports WorkerSafety
begin

section \<open>A run of the worker, evaluated\<close>

text \<open>
  A list of actions run one after the other from a new worker, with the conditions of
  \<open>worker_reached\<close> checked on the way: the source of reachable states for the witnesses.
\<close>

fun run_all :: "action list \<Rightarrow> worker \<Rightarrow> history \<Rightarrow> (worker \<times> history) option" where
  "run_all [] w h = Some (w, h)"
| "run_all (a # rest) w h =
     (let w' = run_action a w
      in if enabled a w \<and> \<not> in_transaction (spool w')
         then run_all rest w' \<lparr>h_accepted = h_accepted h @ submitted_now a w,
           h_evicted = h_evicted h @ evicted_by (stored (spool w)) (stored (spool w')),
           h_ensured = (h_ensured h \<or> ensured_now w')\<rparr>
         else None)"

lemma run_all_reached:
  "run_all acts w h = Some (w', h') \<Longrightarrow> worker_reached w h \<Longrightarrow> worker_reached w' h'"
proof (induction acts arbitrary: w h)
  case (Cons a acts)
  then show ?case
    using acted [of w h a] by (auto simp: Let_def note_down_def split: if_splits simp del: run_action.simps)
qed simp

definition small_envelope :: envelope where
  "small_envelope =
     \<lparr>event_id = lit ''e'', entity_id = lit ''s.k'', state = lit ''1'',
      attributes_json = lit ''{}'', ingested_at_ns = 3, last_changed_ns = 1,
      last_updated_ns = 2, context_id = None\<rparr>"

definition sample_settings :: "bool \<Rightarrow> worker_settings" where
  "sample_settings flush = \<lparr>ingress_queue_capacity = 2, max_serialized_event_bytes = 1000, persist_batch_rows = 2,
     delivery_batch_rows = 2, delivery_batch_bytes = 1000, flush_interval_seconds = 1,
     persist_idle_poll_seconds = 1, retry_initial_seconds = 1, retry_max_seconds = 4, retry_multiplier = 2,
     retry_jitter_ratio = 0, flush_on_shutdown = flush, setting_min_free_bytes = 0, setting_min_free_ratio = 0\<rparr>"

definition sample_env :: worker_env where
  "sample_env = \<lparr>monotonic = (\<lambda>n. of_nat n), wall_time_ns = (\<lambda>n. int n), random_source = (\<lambda>_. 0),
     disk_usage = (\<lambda>_. Inr \<lparr>usage_total = 1000, usage_free = 500\<rparr>)\<rparr>"

definition wide_limits :: limits where
  "wide_limits = \<lparr>max_pending_rows = 3, max_pending_bytes = 5000, max_event_bytes = 1000,
     max_dead_letter_rows = 2, max_dead_letter_bytes = 2000\<rparr>"

definition sample_transport :: transport where
  "sample_transport = \<lparr>connection = None, connections_made = 0, requests = [],
     net = (\<lambda>_. Response 204 []), headers = []\<rparr>"

definition sample_manager :: schema_manager where
  "sample_manager = \<lparr>sm_transport = sample_transport, retention_days = 0, ttl_rejected = False\<rparr>"

definition sample_worker :: "bool \<Rightarrow> bool \<Rightarrow> worker res" where
  "sample_worker with_schema flush =
     make_worker sample_table (sample_settings flush) with_schema new_file sample_transport sample_manager sample_env"

definition sample_run :: "bool \<Rightarrow> bool \<Rightarrow> action list \<Rightarrow> (worker \<times> history) option" where
  "sample_run with_schema flush acts =
     (case sample_worker with_schema flush of Inr w \<Rightarrow> run_all acts w new_history | Inl _ \<Rightarrow> None)"

lemma sample_run_reached:
  assumes "sample_run with_schema flush acts = Some (w, h)"
  shows "worker_reached w h"
proof -
  obtain w0 where w0: "sample_worker with_schema flush = Inr w0" "run_all acts w0 new_history = Some (w, h)"
    using assms by (auto simp: sample_run_def split: sum.splits)
  have "fresh_file new_file" using new_file_quiet by (simp add: fresh_file_def new_file_def no_faults_def)
  moreover have "settings_post_init (sample_settings True) = Inr () \<and> settings_post_init (sample_settings False) = Inr ()"
    by code_simp
  then have "settings_post_init (sample_settings flush) = Inr ()" by (cases flush) simp_all
  moreover have "requests sample_transport = []" by (simp add: sample_transport_def)
  ultimately have "worker_reached w0 new_history"
    using new_worker [OF w0(1) [unfolded sample_worker_def]] by blast
  then show ?thesis using run_all_reached w0(2) by blast
qed

definition start_actions :: "action list" where
  "start_actions = [Start 1, Open wide_limits 1 (Inr sample_transport) (Inr sample_manager),
     Submit small_envelope, PersistPass]"

text \<open>One event is submitted and persisted, and the worker stops.\<close>

definition stop_actions :: "action list" where
  "stop_actions = start_actions @ [Stop 9, PersistPass, MainPass, MainPass, MainPass, MainPass]"

lemma sample_stopped:
  "case sample_run True False stop_actions of None \<Rightarrow> False
   | Some (w, h) \<Rightarrow> length (h_accepted h) = 1 \<and> persisted_events w = 1 \<and> w_state w = STOPPED \<and> has_schema w \<and>
       \<not> h_ensured h"
  by code_simp

lemma sample_final:
  obtains w h ev where "worker_reached w h" "h_accepted h = [ev]" "persisted_events w = 1" "w_state w = STOPPED"
    "has_schema w" "\<not> h_ensured h"
proof -
  obtain w h where r: "sample_run True False stop_actions = Some (w, h)" "length (h_accepted h) = 1"
      "persisted_events w = 1" "w_state w = STOPPED" "has_schema w" "\<not> h_ensured h"
    using sample_stopped by (auto split: option.splits)
  then obtain ev where "h_accepted h = [ev]" by (cases "h_accepted h") auto
  then show ?thesis using that r sample_run_reached by blast
qed

text \<open>A batch can be taken from the event persisted.\<close>

lemma sample_batch:
  "case sample_run False False start_actions of None \<Rightarrow> False
   | Some (w, h) \<Rightarrow> in_loop w \<and> (case deliver_begin False LoopBackoff w of (Inr (Inl b), _) \<Rightarrow> True | _ \<Rightarrow> False)"
  by code_simp

end
