(* ===== verification/WorkerClaims.thy ===== *)
theory WorkerClaims
  imports WorkerRun
begin

section \<open>What the writer service guarantees\<close>

text \<open>
  The properties of the whole writer service, read off the invariants of WorkerInv and WorkerSafety; the
  witnesses take their states from the evaluated run of WorkerRun.
\<close>

text \<open>
  C1: No accepted event is lost. In every reachable state of the worker, whatever the order of the
  calls, the coroutines, the answers of the server and the faults of SQLite, an event for which
  \<open>submit\<close> returned True is in memory (held or queued), in the spool with its content (pending or
  dead letter), or left it in one of two ways only: evicted as the oldest dead letter, or
  acknowledged, that is, a request whose body has the event's row was answered 2xx.
\<close>

theorem no_accepted_event_is_lost:
  assumes "worker_reached w h" and "ev \<in> set (h_accepted h)"
  shows "ev \<in> set (held w) \<union> set (ingress w) \<or> holds (stored (spool w)) ev \<or>
    (\<exists>d \<in> set (h_evicted h). dead_holds ev d) \<or> acknowledged (table w) (transport w) ev"
proof -
  have f: "drop (nat (persisted_events w)) (h_accepted h) = held w @ ingress w"
    using flow_always.holds_always [OF assms(1)] by (simp add: flow_def)
  have "ev \<in> set (take (nat (persisted_events w)) (h_accepted h)) \<or> ev \<in> set (held w @ ingress w)"
    using assms(2) unfolding f [symmetric] by (metis Un_iff append_take_drop_id set_append)
  then show ?thesis
    using kept_always.holds_always [OF assms(1)] by (auto simp: kept_events_def safe_event_def)
qed

theorem no_accepted_event_is_lost_witness:
  "\<exists>w h ev. worker_reached w h \<and> h_accepted h = [ev] \<and>
     (ev \<in> set (held w) \<union> set (ingress w) \<or> holds (stored (spool w)) ev \<or>
      (\<exists>d \<in> set (h_evicted h). dead_holds ev d) \<or> acknowledged (table w) (transport w) ev)"
proof (rule sample_final)
  fix w h ev assume "worker_reached w h" "h_accepted h = [ev]"
  then show ?thesis using no_accepted_event_is_lost [of w h ev] by (intro exI conjI) auto
qed

text \<open>
  C8: A stop that ends in the state \<open>stopped\<close> leaves nothing behind: the worker no longer accepts,
  queue and held list are empty, every accepted event was counted as persisted, and each of them is
  in the spool, was evicted from the dead letters, or was acknowledged by the server.
\<close>

theorem clean_stop_persists_everything:
  assumes "worker_reached w h" and "sn_state (snapshot w) = STOPPED"
  shows "\<not> sn_accepting (snapshot w) \<and> sn_ingress_queue_depth (snapshot w) = 0 \<and> held w = [] \<and>
    sn_persisted_events (snapshot w) = int (length (h_accepted h)) \<and>
    (\<forall>ev \<in> set (h_accepted h). holds (stored (spool w)) ev \<or>
       (\<exists>d \<in> set (h_evicted h). dead_holds ev d) \<or> acknowledged (table w) (transport w) ev)"
proof -
  note o = orderly_always.holds_always [OF assms(1)] and f = flow_always.holds_always [OF assms(1)]
    and k = kept_always.holds_always [OF assms(1)]
  have st: "w_state w = STOPPED" using assms(2) by (simp add: snapshot_def)
  then consider "main_task w = MainNotStarted" | "main_task w = MainExited" "persist_task w = PersistReturned"
    using o by (auto simp: orderly_def)
  then have e: "held w = [] \<and> ingress w = [] \<and> \<not> accepting w"
    using o by cases (auto simp: orderly_def before_loop_def untouched_def)
  then have p: "persisted_events w = int (length (h_accepted h))"
    using f by (auto simp: flow_def)
  then have "\<forall>ev \<in> set (h_accepted h). safe_event w h ev" using k by (simp add: kept_events_def)
  then show ?thesis using e p by (simp add: snapshot_def safe_event_def)
qed

theorem clean_stop_persists_everything_witness:
  "\<exists>w h ev. worker_reached w h \<and> h_accepted h = [ev] \<and> sn_persisted_events (snapshot w) = 1 \<and>
     (holds (stored (spool w)) ev \<or> (\<exists>d \<in> set (h_evicted h). dead_holds ev d) \<or>
      acknowledged (table w) (transport w) ev)"
proof (rule sample_final)
  fix w h ev assume "worker_reached w h" "h_accepted h = [ev]" "w_state w = STOPPED"
  then show ?thesis
    using clean_stop_persists_everything [of w h] by (intro exI [of _ w] exI [of _ h] exI [of _ ev]) (simp add: snapshot_def)
qed

text \<open>
  C25: The counters of the snapshot account for every accepted event, in order: submitted is the
  number of acceptances, submitted = persisted + held + queued, what is not persisted is exactly the
  tail of the accepted events in the order of acceptance, and the queue and the held list stay
  within the configured capacity and batch size.
\<close>

theorem snapshot_accounts_for_events:
  assumes "worker_reached w h"
  shows "let sn = snapshot w in
    sn_submitted_events sn = int (length (h_accepted h)) \<and>
    sn_submitted_events sn = sn_persisted_events sn + int (sn_held_unpersisted sn) + int (sn_ingress_queue_depth sn) \<and>
    held w @ ingress w = drop (nat (sn_persisted_events sn)) (h_accepted h) \<and>
    sn_ingress_queue_depth sn \<le> sn_ingress_high_watermark sn \<and>
    int (sn_ingress_high_watermark sn) \<le> ingress_queue_capacity (settings w) \<and>
    int (sn_held_unpersisted sn) \<le> persist_batch_rows (settings w)"
proof -
  have f: "flow w h" using flow_always.holds_always [OF assms] .
  then have "length (drop (nat (persisted_events w)) (h_accepted h)) = length (held w) + length (ingress w)"
    by (simp add: flow_def)
  then show ?thesis using f by (auto simp: flow_def snapshot_def Let_def)
qed

theorem snapshot_accounts_for_events_witness:
  "\<exists>w h. worker_reached w h \<and> sn_persisted_events (snapshot w) = 1 \<and> sn_submitted_events (snapshot w) = 1"
proof (rule sample_final)
  fix w h ev assume "worker_reached w h" "h_accepted h = [ev]" "persisted_events w = 1"
  then show ?thesis using snapshot_accounts_for_events [of w h]
    by (intro exI [of _ w] exI [of _ h]) (simp add: snapshot_def Let_def)
qed

text \<open>
  C4: Nothing is sent before the table is known to be right: with a schema manager configured, as
  long as no call of \<open>ensure\<close> has returned, the transport has not sent a single request, no batch
  is on its way, and the delivery loop's gate is shut.
\<close>

theorem no_request_before_schema:
  assumes "worker_reached w h" and "has_schema w" and "\<not> h_ensured h"
  shows "requests (transport w) = [] \<and> \<not> schema_ready w \<and> (\<forall>b. \<not> in_flight w b)"
  using gated_always.holds_always [OF assms(1)] assms(2,3) by (simp add: gated_def)

theorem no_request_before_schema_witness:
  "\<exists>w h ev. worker_reached w h \<and> h_accepted h = [ev] \<and> has_schema w \<and> requests (transport w) = []"
proof (rule sample_final)
  fix w h ev assume "worker_reached w h" "h_accepted h = [ev]" "has_schema w" "\<not> h_ensured h"
  then show ?thesis using no_request_before_schema [of w h] by (intro exI conjI) auto
qed

text \<open>
  C35: Storage pauses are counted once and closed once: pauses opened minus recoveries is 1 exactly
  while a pause is open, no more pauses than attempts; the list of last errors has at most ten
  entries; and a block reason is shown only by a worker that is blocked or on its way out.
\<close>

theorem storage_pauses_are_balanced:
  assumes "worker_reached w h"
  shows "storage_blocks w - storage_recoveries w = (if storage_episode w = None then 0 else 1) \<and>
    storage_blocks w \<le> storage_block_attempts w \<and> length (sn_last_errors (snapshot w)) \<le> 10 \<and>
    (sn_block_reason (snapshot w) \<noteq> None \<longrightarrow>
       sn_state (snapshot w) \<in> {BLOCKED, STOPPING, STOPPED, FAILED})"
  using orderly_always.holds_always [OF assms] by (auto simp: orderly_def tidy_def snapshot_def)

theorem storage_pauses_are_balanced_witness:
  "\<exists>w h ev. worker_reached w h \<and> h_accepted h = [ev] \<and> storage_blocks w \<le> storage_block_attempts w"
proof (rule sample_final)
  fix w h ev assume "worker_reached w h" "h_accepted h = [ev]"
  then show ?thesis using storage_pauses_are_balanced [of w h] by blast
qed

end
