(* ===== verification/DeliveryClaims.thy ===== *)
theory DeliveryClaims
  imports WorkerRun
begin

section \<open>What one delivery does\<close>

text \<open>
  The properties of the delivery coroutine: what a batch holds, what each class of answer leads to,
  the delays of the retries and of the sleep, and the double flush at shutdown.
\<close>

subsection \<open>Backoff\<close>

text \<open>The delays of consecutive failures: \<open>next_delay\<close> again and again, on the draws \<open>us\<close>.\<close>

fun delays :: "worker_settings \<Rightarrow> rat \<Rightarrow> rat list \<Rightarrow> rat list res" where
  "delays s base [] = Inr []"
| "delays s base (u # us) =
     bindR (next_delay s base u) (\<lambda>(d, base'). bindR (delays s base' us) (\<lambda>ds. Inr (d # ds)))"

definition jittered :: "worker_settings \<Rightarrow> rat \<Rightarrow> rat \<Rightarrow> rat" where
  "jittered s base u = min (retry_max_seconds s) (base * (1 + retry_jitter_ratio s * (2 * u - 1)))"

lemma jittered_bounds:
  assumes "settings_post_init s = Inr ()" and "0 \<le> u" "u \<le> 1" and "0 \<le> base"
  shows "0 \<le> jittered s base u" "jittered s base u \<le> retry_max_seconds s"
proof -
  note v = settings_valid [OF assms(1)]
  have "retry_jitter_ratio s * (- 1) \<le> retry_jitter_ratio s * (2 * u - 1)"
    using v(4) assms(2) by (intro mult_left_mono) auto
  then have "0 \<le> 1 + retry_jitter_ratio s * (2 * u - 1)" using v(5) by linarith
  then show "0 \<le> jittered s base u" using assms(4) v(1,2) by (simp add: jittered_def)
  show "jittered s base u \<le> retry_max_seconds s" by (simp add: jittered_def)
qed

lemma next_delay_eq:
  assumes "settings_post_init s = Inr ()" and "0 \<le> u" "u \<le> 1" and "0 \<le> base"
  shows "next_delay s base u =
    Inr (jittered s base u, min (retry_max_seconds s) (base * retry_multiplier s))"
  using jittered_bounds [OF assms] assms(2,3) by (simp add: next_delay_def jittered_def Let_def)

text \<open>Growing and capping at every step is growing by a power and capping once.\<close>

lemma capped_power:
  fixes m :: rat
  assumes "0 \<le> base" and "1 \<le> m" and "0 \<le> cap"
  shows "min cap (min cap (base * m) * m ^ n) = min cap (base * m ^ Suc n)"
proof (cases "base * m \<le> cap")
  case True
  then show ?thesis by (simp add: mult.assoc)
next
  case False
  have one: "1 \<le> m ^ n" using assms(2) by simp
  have "cap * 1 \<le> cap * m ^ n" using one assms(3) by (intro mult_left_mono) auto
  moreover have "cap * 1 \<le> (base * m) * m ^ n"
    using False one assms by (intro mult_mono) auto
  ultimately show ?thesis using False by (simp add: min_def mult.assoc)
qed

lemma delays_closed_form:
  assumes "settings_post_init s = Inr ()" and "\<forall>u \<in> set us. 0 \<le> u \<and> u \<le> 1" and "0 \<le> base" "base \<le> retry_max_seconds s"
  shows "delays s base us = Inr (map (\<lambda>i. jittered s (min (retry_max_seconds s) (base * retry_multiplier s ^ i)) (us ! i))
    [0 ..< length us])"
  using assms(2-)
proof (induction us arbitrary: base)
  case (Cons u us)
  note v = settings_valid [OF assms(1)]
  let ?m = "retry_multiplier s" and ?cap = "retry_max_seconds s"
  have b: "0 \<le> min ?cap (base * ?m)" "min ?cap (base * ?m) \<le> ?cap" using Cons.prems v by auto
  have "delays s (min ?cap (base * ?m)) us =
      Inr (map (\<lambda>i. jittered s (min ?cap (min ?cap (base * ?m) * ?m ^ i)) (us ! i)) [0 ..< length us])"
    using Cons.IH [OF _ b] Cons.prems(1) by simp
  also have "\<dots> = Inr (map (\<lambda>i. jittered s (min ?cap (base * ?m ^ Suc i)) ((u # us) ! Suc i)) [0 ..< length us])"
    using capped_power [OF Cons.prems(2) v(3), of ?cap] v(1,2) by simp
  finally have rest: "delays s (min ?cap (base * ?m)) us = \<dots>" .
  have "[0 ..< length (u # us)] = 0 # map Suc [0 ..< length us]" by (simp add: upt_conv_Cons map_Suc_upt del: upt_Suc)
  then show ?case
    using next_delay_eq [OF assms(1)] Cons.prems rest by (simp add: min_absorb2 comp_def del: upt_Suc)
qed simp

text \<open>
  C36: Backoff is exponential, capped and bounded: with valid settings and draws in [0, 1], the
  i-th delay after a reset is initial * multiplier^i capped at the maximum, scaled by the jitter of
  its draw and capped again; every delay lies between 0 and the maximum, so the loop never fails in
  \<open>next_delay\<close> and never waits longer than configured.
\<close>

theorem backoff_is_capped_exponential:
  assumes "settings_post_init s = Inr ()" and "\<forall>u \<in> set us. 0 \<le> u \<and> u \<le> 1"
  shows "\<exists>ds. delays s (retry_initial_seconds s) us = Inr ds \<and> length ds = length us \<and>
    (\<forall>i < length us. 0 \<le> ds ! i \<and> ds ! i \<le> retry_max_seconds s \<and>
       ds ! i = min (retry_max_seconds s) (min (retry_max_seconds s) (retry_initial_seconds s * retry_multiplier s ^ i) *
         (1 + retry_jitter_ratio s * (2 * us ! i - 1))))"
proof -
  note v = settings_valid [OF assms(1)]
  let ?b = "\<lambda>i. min (retry_max_seconds s) (retry_initial_seconds s * retry_multiplier s ^ i)"
  have "0 \<le> ?b i" for i using v by simp
  then have "0 \<le> jittered s (?b i) (us ! i) \<and> jittered s (?b i) (us ! i) \<le> retry_max_seconds s" if "i < length us" for i
    using jittered_bounds [OF assms(1)] assms(2) that by simp
  then show ?thesis
    using delays_closed_form [OF assms] v(1,2) by (simp add: jittered_def)
qed

theorem backoff_is_capped_exponential_witness:
  "\<exists>ds. delays (sample_settings True) 1 [0, 1, 0, 1] = Inr ds \<and> length ds = 4 \<and> ds ! 3 \<le> 4"
proof -
  have "settings_post_init (sample_settings True) = Inr ()" by code_simp
  from backoff_is_capped_exponential [OF this, of "[0, 1, 0, 1]"] show ?thesis
    by (auto simp: sample_settings_def)
qed

subsection \<open>How long the loop sleeps\<close>

lemma min_list_lower: "x \<in> set xs \<Longrightarrow> min_list xs \<le> (x :: rat)"
  by (cases "xs = []") (simp_all add: min_list_Min)

text \<open>
  The loop's sleep is bounded and punctual: computed from the times t and t' read in a pass
  (t before t'), it is never negative, never longer than the flush interval, and never carries the
  loop past the moment the oldest pending event falls due or the retry time comes, when these lie
  ahead of t.
\<close>

theorem sleep_is_bounded_and_punctual:
  assumes "t \<le> t'" and "0 < flush_interval_seconds (settings w)"
  shows "0 \<le> wait_delay w t t' \<and> wait_delay w t t' \<le> flush_interval_seconds (settings w) \<and>
    (\<forall>since. pending_since w = Some since \<and> since + flush_interval_seconds (settings w) > t \<longrightarrow>
       t' + wait_delay w t t' \<le> max t' (since + flush_interval_seconds (settings w))) \<and>
    (\<forall>r. retry_at w = Some r \<and> r > t \<longrightarrow> t' + wait_delay w t t' \<le> max t' r)"
proof -
  let ?f = "flush_interval_seconds (settings w)"
  define ends where "ends = [t + ?f] @
    (case pending_since w of None \<Rightarrow> [] | Some since \<Rightarrow> if since + ?f > t then [since + ?f] else []) @
    (case retry_at w of None \<Rightarrow> [] | Some r \<Rightarrow> if r > t then [r] else [])"
  have d: "wait_delay w t t' = max 0 (min_list ends - t')" by (simp add: wait_delay_def Let_def ends_def)
  have up: "wait_delay w t t' \<le> max 0 (x - t')" if "x \<in> set ends" for x
    using min_list_lower [OF that] by (auto simp: d max_def)
  have "wait_delay w t t' \<le> ?f" using up [of "t + ?f"] assms by (auto simp: ends_def)
  moreover have "t' + wait_delay w t t' \<le> max t' x" if "x \<in> set ends" for x
    using up [OF that] by (auto simp: max_def split: if_splits)
  then have "pending_since w = Some since \<and> since + ?f > t \<Longrightarrow> t' + wait_delay w t t' \<le> max t' (since + ?f)"
    "retry_at w = Some r \<and> r > t \<Longrightarrow> t' + wait_delay w t t' \<le> max t' r" for since r
    by (auto simp: ends_def)
  ultimately show ?thesis by (auto simp: d)
qed

subsection \<open>What the answer decides\<close>

definition delivered_ok :: "built_batch \<Rightarrow> worker \<Rightarrow> worker \<Rightarrow> bool" where
  "delivered_ok batch w w' \<longleftrightarrow> removed (bb_sequences batch) (stored (spool w)) (stored (spool w')) \<and>
     delivered_events w' = delivered_events w + int (length (bb_sequences batch)) \<and>
     uncertain_delivered_events w' = uncertain_delivered_events w + int (length (bb_uncertain batch)) \<and>
     last_error w' = None"

text \<open>Methods that touch the spool not at all.\<close>

lemma keeps_spool_ask: "keeps spool (ask_env f)"
  by (simp add: keeps_def)

lemma keeps_spool_small:
  "keeps spool (set_delivery_state st err delay reason)" "keeps spool (reset_backoff b)"
  "keeps spool resume_after_storage_block" "keeps spool (next_retry_delay b)" "keeps spool count_retry"
  "keeps spool (count_dead_letter_move m n)"
  unfolding set_delivery_state_def reset_backoff_def resume_after_storage_block_def next_retry_delay_def
    count_retry_def count_dead_letter_move_def
  by (intro keeps_intros keeps_spool_ask; simp add: keeps_def)+

lemma keeps_spool_retry: "keeps spool (retry_later b e)"
  unfolding retry_later_def by (intro keeps_intros keeps_spool_small)

lemma resume_result:
  "\<exists>w'. resume_after_storage_block w = (Inr (), w') \<and> spool w' = spool w \<and>
     delivered_events w' = delivered_events w \<and> uncertain_delivered_events w' = uncertain_delivered_events w"
  by (simp add: resume_after_storage_block_def bindP_def whenP_def set_delivery_state_def)

lemma deliver_finish_success:
  assumes "mark_delivered (bb_sequences batch) (spool w) = (Inr n, s1)"
  shows "\<exists>w'. deliver_finish b batch (Inr ()) w = (Inr OutcomeSuccess, w') \<and> spool w' = s1 \<and>
    delivered_events w' = delivered_events w + int (length (bb_sequences batch)) \<and>
    uncertain_delivered_events w' = uncertain_delivered_events w + int (length (bb_uncertain batch)) \<and>
    last_error w' = None"
proof -
  let ?w1 = "w\<lparr>spool := s1, backoff_base := (backoff_base w)(b := retry_initial_seconds (settings w))\<rparr>"
  obtain w2 where w2: "resume_after_storage_block ?w1 = (Inr (), w2)" "spool w2 = s1"
      "delivered_events w2 = delivered_events w" "uncertain_delivered_events w2 = uncertain_delivered_events w"
    using resume_result [of ?w1] by auto
  then show ?thesis
    using assms
    by (simp add: deliver_finish_def deliver_succeeded_def bindP_def on_spool_app reset_backoff_def set_delivery_state_def)
qed

lemma deliver_finish_refused:
  assumes "mark_delivered (bb_sequences batch) (spool w) = (Inl e, s1)"
  shows "deliver_finish b batch (Inr ()) w = (Inl e, w\<lparr>spool := s1\<rparr>)"
  using assms by (simp add: deliver_finish_def deliver_succeeded_def bindP_def on_spool_app)

text \<open>
  C7: A 2xx answer deletes exactly the batch: after \<open>send_batch\<close> returned, either the deletion
  commits (the rows of the batch and no others leave the pending rows, delivered and uncertain
  counters grow by the batch and its uncertain rows, the outcome is success), or the spool raises
  and the queue is as before.
\<close>

theorem acknowledgement_deletes_the_batch:
  assumes "spool_ok (spool w)" and "deliver_finish b batch (Inr ()) w = (r, w')"
  shows "case r of
      Inr out \<Rightarrow> out = OutcomeSuccess \<and> delivered_ok batch w w'
    | Inl e \<Rightarrow> stored (spool w') = stored (spool w) \<and> delivered_events w' = delivered_events w"
proof -
  obtain rm s1 where m: "mark_delivered (bb_sequences batch) (spool w) = (rm, s1)"
    by (cases "mark_delivered (bb_sequences batch) (spool w)")
  note law = spool_store.drop_removes [OF assms(1) m]
  show ?thesis
  proof (cases rm)
    case (Inl e)
    then show ?thesis using deliver_finish_refused [of batch w e s1 b] m assms(2) law by simp
  next
    case (Inr n)
    then show ?thesis
      using deliver_finish_success [of batch w n s1 b] m assms(2) law by (auto simp: delivered_ok_def)
  qed
qed

text \<open>A worker over a spool with one pending event, for the witnesses.\<close>

lemma one_pending:
  obtains w :: worker and d where "spool_ok (spool w)" "idle sample_limits no_faults d (spool w)" "tables_ok d"
    "queue_of d = \<lparr>q_pending = [new_pending_row 1 sample_event], q_next = 1, q_dead = [], q_dead_next = 0\<rparr>"
    "settings w = sample_settings True"
proof -
  obtain d s where s: "idle sample_limits no_faults d s" "tables_ok d"
      "queue_of d = \<lparr>q_pending = [new_pending_row 1 sample_event], q_next = 1, q_dead = [], q_dead_next = 0\<rparr>" "spool_ok s"
    using sample_enqueue by blast
  have "case sample_worker False True of Inr w \<Rightarrow> settings w = sample_settings True | Inl _ \<Rightarrow> False"
    by (simp add: sample_worker_def make_worker_def sample_table_def lit_def make_guard_def
        validate_free_space_settings_def sample_settings_def)
  then obtain w0 where "settings (w0 :: worker) = sample_settings True" by (auto split: sum.splits)
  then show ?thesis using s that [of "w0\<lparr>spool := s\<rparr>" d] by simp
qed

definition one_batch :: built_batch where
  "one_batch = \<lparr>bb_payload = [], bb_sequences = [1], bb_uncertain = []\<rparr>"

theorem acknowledgement_deletes_the_batch_witness:
  "\<exists>w w'. q_pending (stored (spool (w :: worker))) = [new_pending_row 1 sample_event] \<and>
     deliver_finish LoopBackoff one_batch (Inr ()) w = (Inr OutcomeSuccess, w') \<and>
     q_pending (stored (spool w')) = [] \<and> delivered_events w' = delivered_events w + 1"
proof (rule one_pending)
  fix w :: worker and d assume w: "spool_ok (spool w)" "idle sample_limits no_faults d (spool w)" "tables_ok d"
    "queue_of d = \<lparr>q_pending = [new_pending_row 1 sample_event], q_next = 1, q_dead = [], q_dead_next = 0\<rparr>"
  have q: "stored (spool w) = queue_of d" using w(2) by (simp add: stored_def idle_def)
  have "spec_mark_delivered [1] sample_limits (queue_of d) = Inr (1, \<lparr>q_pending = [], q_next = 1, q_dead = [], q_dead_next = 0\<rparr>)"
    unfolding w(4) by code_simp
  from run_spec [where spec = "spec_mark_delivered [1]", OF mark_delivered_refines w(2,3) this]
  obtain s1 where "mark_delivered [1] (spool w) = (Inr 1, s1)" by blast
  then obtain w' where f: "deliver_finish LoopBackoff one_batch (Inr ()) w = (Inr OutcomeSuccess, w')"
    using deliver_finish_success [of one_batch w 1 s1 LoopBackoff] by (auto simp: one_batch_def)
  show ?thesis
    using acknowledgement_deletes_the_batch [OF w(1) f] f q w(4)
    by (intro exI [of _ w] exI [of _ w'] conjI) (auto simp: delivered_ok_def removed_def one_batch_def)
qed

definition failure_effect :: "exn \<Rightarrow> built_batch \<Rightarrow> queue \<Rightarrow> queue \<Rightarrow> outcome \<Rightarrow> bool" where
  "failure_effect e batch q q' out \<longleftrightarrow>
     (if isinstance e AuthenticationIlpError then out = OutcomeBlocked \<and> q' = q
      else if isinstance e RetryableIlpError then
        (\<exists>delay. out = OutcomeRetry delay) \<and> touched (bb_sequences batch) (exn_text e) (exn_uncertain e) q q'
      else if exn_status e \<noteq> Some 400 then out = OutcomeBlocked \<and> q' = q
      else if length (bb_sequences batch) > 1 then
        out = OutcomeSplit \<and> touched (bb_sequences batch) (exn_text e) (exn_uncertain e) q q'
      else (\<exists>delay. out = OutcomeRetry delay) \<and> q' = q \<or>
        out = OutcomeDeadLetter \<and> (\<forall>seq. bb_sequences batch = [seq] \<longrightarrow> (\<exists>n. buried seq n q q')))"

lemma bind_reset:
  "bindP (reset_backoff b) k w = k () (w\<lparr>backoff_base := (backoff_base w)(b := retry_initial_seconds (settings w))\<rparr>)"
  by (simp add: bindP_def reset_backoff_def)

lemma deliver_failed_kinds:
  assumes ok: "spool_ok (spool w)" and f: "deliver_failed b batch e w = (Inr out, w')"
  shows "failure_effect e batch (stored (spool w)) (stored (spool w')) out"
proof -
  let ?q = "stored (spool w)"
  let ?note = "record_attempt (bb_sequences batch) (exn_text e) (exn_uncertain e)"
  obtain rn s1 where n: "?note (spool w) = (rn, s1)" by (cases "?note (spool w)")
  have noted: "rn = Inr x \<Longrightarrow> touched (bb_sequences batch) (exn_text e) (exn_uncertain e) ?q (stored s1)" for x
    using spool_store.attempt_touches [OF ok n] by simp
  consider (auth) "isinstance e AuthenticationIlpError"
    | (retry) "\<not> isinstance e AuthenticationIlpError" "isinstance e RetryableIlpError"
    | (perm) "\<not> isinstance e AuthenticationIlpError" "\<not> isinstance e RetryableIlpError" "isinstance e PermanentIlpError"
    using f by (auto simp: deliver_failed_def split: if_splits)
  then show ?thesis
  proof cases
    case auth
    then have "bindP (set_delivery_state BLOCKED (Some (exn_text e)) None (Some BlockAuth)) (\<lambda>_. returnP OutcomeBlocked) w = (Inr out, w')"
      using f by (simp add: deliver_failed_def)
    then show ?thesis
      using auth by (auto simp: bindP_def set_delivery_state_def failure_effect_def)
  next
    case retry
    then have "rn = Inr (the_rn)" "retry_later b e (w\<lparr>spool := s1\<rparr>) = (Inr out, w')" if "rn = Inr the_rn" for the_rn
      using f n that by (simp_all add: deliver_failed_def bindP_def [of "on_spool _"] on_spool_app)
    moreover obtain x where x: "rn = Inr x"
      using f n retry by (cases rn) (auto simp: deliver_failed_def bindP_def [of "on_spool _"] on_spool_app)
    ultimately have l: "retry_later b e (w\<lparr>spool := s1\<rparr>) = (Inr out, w')" by blast
    then have "spool w' = s1" using keepsD [OF keeps_spool_retry l] by simp
    moreover have "\<exists>delay. out = OutcomeRetry delay"
      using l by (auto simp: retry_later_def bindP_def split: prod.splits sum.splits)
    ultimately show ?thesis using retry noted [OF x] by (simp add: failure_effect_def)
  next
    case perm
    let ?w = "w\<lparr>backoff_base := (backoff_base w)(b := retry_initial_seconds (settings w))\<rparr>"
    consider (split) "exn_status e = Some 400" "length (bb_sequences batch) > 1"
      | (single) "exn_status e = Some 400" "\<not> length (bb_sequences batch) > 1" | (other) "exn_status e \<noteq> Some 400" by blast
    then show ?thesis
    proof cases
      case split
      have f': "bindP (on_spool ?note) (\<lambda>_. bindP (set_delivery_state RUNNING (Some (exn_text e)) None None)
          (\<lambda>_. returnP OutcomeSplit)) ?w = (Inr out, w')"
        using f perm split by (simp add: deliver_failed_def bind_reset)
      obtain x where x: "rn = Inr x" using f' n by (cases rn) (auto simp: bindP_def [of "on_spool _"] on_spool_app)
      then show ?thesis
        using f' n noted [OF x] perm split
        by (auto simp: bindP_def on_spool_app set_delivery_state_def failure_effect_def)
    next
      case other
      then have "bindP (set_delivery_state BLOCKED (Some (exn_text e)) None None) (\<lambda>_. returnP OutcomeBlocked) ?w = (Inr out, w')"
        using f perm by (simp add: deliver_failed_def bind_reset)
      then show ?thesis
        using perm other by (auto simp: bindP_def set_delivery_state_def failure_effect_def)
    next
      case single
      have f': "bury_rejected b batch e ?w = (Inr out, w')"
        using f perm single by (simp add: deliver_failed_def bind_reset)
      let ?bury = "move_to_dead_letter (bb_sequences batch) (exn_text e) (wall_time_ns (env w) (now w)) (exn_uncertain e)"
      let ?w1 = "?w\<lparr>now := Suc (now w)\<rparr>"
      obtain rm s2 where m: "?bury (spool w) = (rm, s2)" by (cases "?bury (spool w)")
      show ?thesis
      proof (cases rm)
        case (Inl x)
        have l: "retry_later b x (?w1\<lparr>spool := s2\<rparr>) = (Inr out, w')"
          using f' m Inl by (auto simp: bury_rejected_def bindP_def catchP_def on_spool_app split: if_splits)
        have "stored s2 = ?q"
          using spool_store.bury_law [of "bb_sequences batch" "exn_text e" "wall_time_ns (env w) (now w)" "exn_uncertain e",
              unfolded atomic_on_def, rule_format, OF ok m] Inl by simp
        moreover have "spool w' = s2" using keepsD [OF keeps_spool_retry l] by simp
        moreover have "\<exists>delay. out = OutcomeRetry delay"
          using l by (auto simp: retry_later_def bindP_def split: prod.splits sum.splits)
        ultimately show ?thesis using perm single by (simp add: failure_effect_def)
      next
        case (Inr p)
        obtain k n where p: "p = (k, n)" by (cases p)
        have "spool w' = s2" "out = OutcomeDeadLetter"
          using f' m Inr p
          by (auto simp: bury_rejected_def bindP_def catchP_def on_spool_app count_dead_letter_move_def set_delivery_state_def)
        moreover have "\<exists>n. buried seq n ?q (stored s2)" if "bb_sequences batch = [seq]" for seq
          using spool_store.bury_one [OF ok m [unfolded that]] Inr p by auto
        ultimately show ?thesis using perm single by (auto simp: failure_effect_def)
      qed
    qed
  qed
qed

text \<open>
  C6: A failed request loses nothing, whatever the error: no pending row is deleted; rejected
  credentials and other permanent answers block the loop with the queue untouched; a retryable error
  counts an attempt on the rows of the batch and asks to wait within the bounds of the backoff; HTTP
  400 splits a batch of several rows and moves a single row, with its content, to the dead letters,
  which may evict their oldest rows only.
\<close>

theorem failure_loses_nothing:
  assumes "spool_ok (spool w)" and "deliver_finish b batch (Inl e) w = (r, w')"
  shows "(\<forall>out. r = Inr out \<longrightarrow> failure_effect e batch (stored (spool w)) (stored (spool w')) out) \<and>
    (\<forall>ev. holds (stored (spool w)) ev \<longrightarrow> holds (stored (spool w')) ev \<or>
       (\<exists>d \<in> set (evicted_by (stored (spool w)) (stored (spool w'))). dead_holds ev d))"
proof -
  have d: "deliver_failed b batch e w = (r, w')" using assms(2) by (simp add: deliver_finish_def)
  have "store_step {} w (snd (deliver_failed b batch e w))"
    using step_deliver_failed [of "{}" b batch e] unfolding moves_def by blast
  then have "keeps_events {} (stored (spool w)) (stored (spool w'))" using assms(1) d by (simp add: store_step_def)
  then show ?thesis using deliver_failed_kinds [OF assms(1)] d by (auto simp: keeps_events_def)
qed

theorem failure_loses_nothing_witness:
  "\<exists>w w' out. q_pending (stored (spool (w :: worker))) = [new_pending_row 1 sample_event] \<and>
     deliver_finish LoopBackoff one_batch (Inl (ilp_exn AuthenticationIlpError [] False False (Some 401))) w = (Inr out, w') \<and>
     out = OutcomeBlocked \<and> q_pending (stored (spool w')) = [new_pending_row 1 sample_event]"
proof (rule one_pending)
  fix w :: worker and d assume w: "spool_ok (spool w)" "idle sample_limits no_faults d (spool w)"
    "queue_of d = \<lparr>q_pending = [new_pending_row 1 sample_event], q_next = 1, q_dead = [], q_dead_next = 0\<rparr>"
  let ?e = "ilp_exn AuthenticationIlpError [] False False (Some 401)"
  have q: "stored (spool w) = queue_of d" using w(2) by (simp add: stored_def idle_def)
  have a: "isinstance ?e AuthenticationIlpError" by (simp add: isinstance_def ilp_exn_def)
  then obtain out w' where f: "deliver_finish LoopBackoff one_batch (Inl ?e) w = (Inr out, w')"
    by (simp add: deliver_finish_def deliver_failed_def bindP_def set_delivery_state_def)
  show ?thesis
    using failure_loses_nothing [OF w(1) f] f q w(3) a
    by (intro exI [of _ w] exI [of _ w'] exI [of _ out] conjI) (auto simp: failure_effect_def)
qed

text \<open>
  C23: What is sent are the oldest events: in every reachable state, the batch \<open>_deliver_once\<close> hands
  to the transport holds the ILP rows of a non-empty prefix of the pending rows, in order, at most
  the configured number of rows (one, when a rejected batch is taken apart) and at most the
  configured number of bytes, with the sequences and uncertain marks of exactly these rows.
\<close>

theorem batch_is_oldest_prefix:
  assumes "worker_reached w h" and "in_loop w" and "deliver_begin isolate b w = (Inr (Inl batch), w')"
  shows "bb_payload batch \<noteq> [] \<and> int (length (bb_payload batch)) \<le> delivery_batch_bytes (settings w) \<and>
    (\<exists>k encs. 0 < k \<and> k \<le> length (q_pending (stored (spool w))) \<and>
       int k \<le> (if isolate then 1 else delivery_batch_rows (settings w)) \<and>
       (let rows = take k (q_pending (stored (spool w))) in
          map (\<lambda>r. encode_record (table w) (p_payload r)) rows = map Inr encs \<and>
          bb_payload batch = concat encs \<and> bb_sequences batch = map p_sequence rows \<and>
          bb_uncertain batch = map p_sequence (filter (\<lambda>r. p_uncertain r \<noteq> 0) rows)))"
proof -
  have "spool_ok (spool w)"
    using kept_always.holds_always [OF assms(1)] assms(2) by (simp add: kept_events_def in_use_def)
  from deliver_begin_oldest [OF this idle_always.holds_always [OF assms(1)] assms(3)]
  show ?thesis unfolding oldest_batch_def encodes_rows_def Let_def by blast
qed

theorem batch_is_oldest_prefix_witness:
  "\<exists>w h batch w'. worker_reached w h \<and> deliver_begin False LoopBackoff w = (Inr (Inl batch), w') \<and>
     bb_payload batch \<noteq> [] \<and> bb_sequences batch \<noteq> []"
proof -
  obtain w h where w: "sample_run False False start_actions = Some (w, h)" "in_loop w"
      "case deliver_begin False LoopBackoff w of (Inr (Inl b), _) \<Rightarrow> True | _ \<Rightarrow> False"
    using sample_batch by (auto split: option.splits)
  then obtain batch w' where b: "deliver_begin False LoopBackoff w = (Inr (Inl batch), w')"
    by (auto split: prod.splits sum.splits)
  have r: "worker_reached w h" using sample_run_reached w(1) .
  show ?thesis
    using batch_is_oldest_prefix [OF r w(2) b] r b
    by (intro exI [of _ w] exI [of _ h] exI [of _ batch] exI [of _ w'] conjI) (auto simp: Let_def)
qed

text \<open>
  C37: The flush at shutdown can destroy a clean stop: when the delivery coroutine has confirmed a
  batch that the flush sent as well, the flush's own confirmation raises although the server
  accepted both requests, so the main coroutine ends with an exception and the worker is FAILED.
\<close>

theorem flush_of_confirmed_batch_fails:
  assumes "spool_ok (spool w)" and "deliver_finish LoopBackoff batch (Inr ()) w = (Inr OutcomeSuccess, w1)"
    and "bb_sequences batch \<noteq> []" and "main_task w1 = MainFlushSent batch (Inr ())"
  shows "(\<exists>e. main_task (main_step w1) = MainEnded (Some e)) \<and>
    stored (spool (main_step w1)) = stored (spool w1) \<and> w_state (main_step (main_step w1)) = FAILED"
proof -
  obtain n where m: "mark_delivered (bb_sequences batch) (spool w) = (Inr n, spool w1)"
  proof (cases "mark_delivered (bb_sequences batch) (spool w)")
    case (Pair rm s1)
    then show ?thesis
      using that assms(2) deliver_finish_success [of batch w _ s1 LoopBackoff] deliver_finish_refused [of batch w _ s1]
      by (cases rm) auto
  qed
  obtain e s2 where again: "mark_delivered (bb_sequences batch) (spool w1) = (Inl e, s2)"
      "stored s2 = stored (spool w1)"
    using spool_store.drop_twice [OF assms(1) m assms(3)] by blast
  then have "flush_sent batch (Inr ()) w1 = (Inl e, w1\<lparr>spool := s2\<rparr>)"
    using deliver_finish_refused [OF again(1), of FlushBackoff] by (simp add: flush_sent_def bindP_def)
  then have s: "main_step w1 = w1\<lparr>spool := s2, main_task := MainEnded (Some e)\<rparr>"
    using assms(4) by (simp add: main_step_def main_run_def)
  let ?w = "w1\<lparr>spool := s2, main_task := MainEnded (Some e)\<rparr>"
  have "main_step ?w = run_finally (Some e) ?w" by (simp add: main_step_def)
  moreover have "w_state (run_finally (Some e) ?w) = FAILED"
    by (cases rule: run_finally_effect [of ?w "Some e"]) auto
  ultimately show ?thesis using s again(2) by simp
qed

theorem flush_of_confirmed_batch_fails_witness:
  "\<exists>w1 :: worker. w_state (main_step (main_step w1)) = FAILED \<and> last_error w1 = None"
proof (rule one_pending)
  fix w :: worker and d assume w: "spool_ok (spool w)" "idle sample_limits no_faults d (spool w)" "tables_ok d"
    "queue_of d = \<lparr>q_pending = [new_pending_row 1 sample_event], q_next = 1, q_dead = [], q_dead_next = 0\<rparr>"
  let ?w = "w\<lparr>main_task := MainFlushSent one_batch (Inr ())\<rparr>"
  have "spec_mark_delivered [1] sample_limits (queue_of d) = Inr (1, \<lparr>q_pending = [], q_next = 1, q_dead = [], q_dead_next = 0\<rparr>)"
    unfolding w(4) by code_simp
  from run_spec [where spec = "spec_mark_delivered [1]", OF mark_delivered_refines w(2,3) this]
  obtain s1 where "mark_delivered (bb_sequences one_batch) (spool ?w) = (Inr 1, s1)" by (auto simp: one_batch_def)
  from deliver_finish_success [OF this, of LoopBackoff]
  obtain w1 where f: "deliver_finish LoopBackoff one_batch (Inr ()) ?w = (Inr OutcomeSuccess, w1)" "last_error w1 = None"
    by auto
  have "outer w1 = outer ?w" using keepsD [OF outer_deliver_finish f(1)] .
  then have "main_task w1 = MainFlushSent one_batch (Inr ())" by (simp add: outer_defs)
  then show ?thesis
    using flush_of_confirmed_batch_fails [of ?w one_batch w1] f w(1)
    by (intro exI [of _ w1]) (simp add: one_batch_def)
qed

theorem sleep_is_bounded_and_punctual_witness:
  "\<exists>w :: worker. retry_at w = Some (1 / 2) \<and> 0 \<le> wait_delay w 0 (1 / 4) \<and> 1 / 4 + wait_delay w 0 (1 / 4) \<le> 1 / 2"
proof (rule one_pending)
  fix w :: worker assume s: "settings w = sample_settings True"
  let ?w = "w\<lparr>pending_since := None, retry_at := Some (1 / 2)\<rparr>"
  have "0 < flush_interval_seconds (settings ?w)" by (simp add: s sample_settings_def)
  from sleep_is_bounded_and_punctual [of 0 "1 / 4" ?w, OF _ this]
  have low: "0 \<le> wait_delay ?w 0 (1 / 4)"
    and "\<forall>r. retry_at ?w = Some r \<and> r > 0 \<longrightarrow> 1 / 4 + wait_delay ?w 0 (1 / 4) \<le> max (1 / 4) r" by simp_all
  from low spec [OF this(2), of "1 / 2"] show ?thesis by (intro exI [of _ ?w]) simp
qed

end
