(* ===== verification/Progress.thy ===== *)
theory Progress
  imports WorkerSafety
begin

section \<open>Delivery makes progress\<close>

text \<open>
  While the spool works, the server accepts and nothing new comes in, each round of the delivery
  coroutine (a pass, the executor's request, the pass after it) takes a non-empty prefix off the pending
  rows; so the backlog is delivered after at most as many rounds as there are rows.
\<close>

subsection \<open>A spool without faults\<close>

definition healthy :: "spool \<Rightarrow> bool" where
  "healthy s \<longleftrightarrow> idle (limits s) no_faults (durable s) s \<and> tables_ok (durable s)"

lemma healthy_runs:
  assumes "refines m spec" and "healthy s" and "spec (limits s) (stored s) = Inr (x, q')"
  shows "\<exists>s'. m s = (Inr x, s') \<and> healthy s' \<and> stored s' = q'"
proof -
  obtain d' s' where "m s = (Inr x, s')" "idle (limits s) no_faults d' s'" "tables_ok d'" "queue_of d' = q'"
    using run_spec [OF assms(1), of "limits s" "durable s" s x q'] assms(2,3)
    by (auto simp: healthy_def stored_def)
  then show ?thesis by (auto simp: healthy_def stored_def idle_def)
qed

lemma healthy_stats:
  assumes "healthy s"
  shows "\<exists>st s'. current_stats s = (Inr st, s') \<and> pending_rows st = int (length (q_pending (stored s))) \<and>
    healthy s' \<and> stored s' = stored s"
proof -
  obtain st where st: "spec_stats (limits s) (stored s) = Inr (st, stored s)"
    "pending_rows st = int (length (q_pending (stored s)))"
    by (simp add: spec_stats_def)
  from healthy_runs [where spec = spec_stats, OF stats_refines assms st(1)] st(2) show ?thesis by auto
qed

lemma healthy_peek:
  assumes "healthy s" and "0 < n" and "0 < mb" and "q_pending (stored s) \<noteq> []"
    and "\<forall>r \<in> set (q_pending (stored s)). blob_bytes (p_payload r) \<le> mb"
  shows "\<exists>k s'. peek_batch n mb s = (Inr (map spool_record_of (take k (q_pending (stored s)))), s') \<and> 0 < k \<and>
    healthy s' \<and> stored s' = stored s"
proof -
  let ?rows = "take (nat n) (q_pending (stored s))"
  have ne: "?rows \<noteq> []" using assms(2,4) by simp
  have fits: "\<forall>r \<in> set ?rows. blob_bytes (p_payload r) \<le> mb" using assms(5) set_take_subset by fast
  obtain recs where recs: "take_batch mb 0 ?rows [] = Inr recs"
    using take_batch_Inl [of mb 0 ?rows "[]"] fits by (cases "take_batch mb 0 ?rows []") auto
  obtain k where k: "k \<le> length ?rows" "recs = map spool_record_of (take k ?rows)" "0 < k"
    using take_batch_Inr [OF recs] ne unfolding append.append_Nil by blast
  have "take k ?rows = take k (q_pending (stored s))" using k(1) by (simp add: min_absorb1)
  moreover have "spec_peek_batch n mb (limits s) (stored s) = Inr (recs, stored s)"
    using assms(2,3) recs by (simp add: spec_peek_batch_def positive_integer_def)
  from healthy_runs [OF peek_batch_refines assms(1) this]
  obtain s' where "peek_batch n mb s = (Inr recs, s')" "healthy s'" "stored s' = stored s" by blast
  ultimately show ?thesis using k by auto
qed

lemma filter_beyond:
  assumes "distinct (map f xs)"
  shows "filter (\<lambda>x. f x \<notin> f ` set (take k xs)) xs = drop k xs"
proof -
  have d: "distinct (map f (take k xs @ drop k xs))" using assms by simp
  then have "f ` set (take k xs) \<inter> f ` set (drop k xs) = {}"
    unfolding map_append distinct_append by simp
  then have "filter (\<lambda>x. f x \<notin> f ` set (take k xs)) (take k xs @ drop k xs) = drop k xs"
    unfolding filter_append by (auto simp: filter_id_conv filter_empty_conv)
  then show ?thesis by simp
qed

lemma healthy_deliver:
  assumes "healthy s"
  shows "\<exists>n s'. mark_delivered (map p_sequence (take k (q_pending (stored s)))) s = (Inr n, s') \<and> healthy s' \<and>
    stored s' = (stored s)\<lparr>q_pending := drop k (q_pending (stored s))\<rparr>"
proof -
  let ?P = "q_pending (stored s)"
  let ?seqs = "map p_sequence (take k ?P)"
  have ok: "schema_ok (durable s)" using assms by (simp add: healthy_def tables_ok_def)
  have P: "?P = pending (durable s)" by (simp add: stored_def queue_of_def)
  have dist: "distinct (map p_sequence ?P)" using schema_distinct(1) [OF ok] P by simp
  have "\<forall>r \<in> set (take k ?P). 0 < p_sequence r"
    using ok set_take_subset [of k ?P] unfolding P by (auto simp: schema_ok_def pending_row_ok_def)
  moreover have "distinct ?seqs" using dist by (simp add: take_map [symmetric])
  ultimately have seq: "sequence_tuple ?seqs = Inr ()" unfolding sequence_tuple_Inr by auto
  have "set ?seqs \<subseteq> p_sequence ` set ?P" using set_take_subset [of k ?P] by auto
  then have "first_missing ?seqs (p_sequence ` set ?P) = None"
    by (auto simp: first_missing_def find_None_iff)
  then have "spec_mark_delivered ?seqs (limits s) (stored s) =
      Inr (length ?seqs, (stored s)\<lparr>q_pending := drop k ?P\<rparr>)"
    using seq filter_beyond [OF dist] by (simp add: spec_mark_delivered_def)
  from healthy_runs [OF mark_delivered_refines assms this] show ?thesis by blast
qed

subsection \<open>A worker that can deliver\<close>

definition fits_batch :: "worker \<Rightarrow> pending_row \<Rightarrow> bool" where
  "fits_batch w r \<longleftrightarrow> blob_bytes (p_payload r) \<le> MAX_SQLITE_BATCH_BYTES \<and>
     (\<exists>enc. encode_record (table w) (p_payload r) = Inr enc \<and> int (length enc) \<le> delivery_batch_bytes (settings w))"

text \<open>What a successful delivery does not touch.\<close>

abbreviation calm :: "worker \<Rightarrow> _" where
  "calm w \<equiv> (settings w, table w, ingress w, held_unpersisted w, d_blocked w, stop_async w, main_task w,
     schema_ready w \<or> \<not> has_schema w, net (transport w))"

definition may_send :: "worker \<Rightarrow> bool" where
  "may_send w \<longleftrightarrow> in_loop w \<and> delivery_task w = DeliverLooping \<and> \<not> stop_async w \<and>
     (schema_ready w \<or> \<not> has_schema w) \<and> \<not> d_blocked w \<and> retry_at w = None \<and> ingress w = [] \<and>
     held_unpersisted w = 0 \<and> 0 < delivery_batch_rows (settings w) \<and> healthy (spool w)"

definition can_deliver :: "worker \<Rightarrow> bool" where
  "can_deliver w \<longleftrightarrow> may_send w \<and> (\<forall>n. send_failure (net (transport w) n) = None) \<and>
     (\<forall>r \<in> set (q_pending (stored (spool w))). fits_batch w r)"

lemma scan_fits:
  assumes "\<forall>r \<in> set rows. fits_batch w r"
  shows "\<exists>b'. scan_records (table w) (delivery_batch_bytes (settings w)) b (map spool_record_of rows) = Inr (Built b')"
  using assms
proof (induction rows arbitrary: b)
  case (Cons r rows)
  then obtain enc where "encode_record (table w) (p_payload r) = Inr enc"
      "int (length enc) \<le> delivery_batch_bytes (settings w)" by (auto simp: fits_batch_def)
  then show ?case using Cons by auto
qed simp

lemma stats_step:
  assumes "healthy (spool w)"
  shows "\<exists>st s'. spool_stats_now w = (Inr st, w\<lparr>spool := s', known_stats := st\<rparr>) \<and>
    pending_rows st = int (length (q_pending (stored (spool w)))) \<and> healthy s' \<and> stored s' = stored (spool w)"
proof -
  obtain st s' where "current_stats (spool w) = (Inr st, s')"
      "pending_rows st = int (length (q_pending (stored (spool w))))" "healthy s'" "stored s' = stored (spool w)"
    using healthy_stats [OF assms] by blast
  then show ?thesis by (auto simp: spool_stats_now_def bindP_def on_spool_app set_spool_stats_def)
qed

lemma build_step:
  assumes "healthy (spool w)" and "0 < delivery_batch_rows (settings w)" and "q_pending (stored (spool w)) \<noteq> []"
    and "\<forall>r \<in> set (q_pending (stored (spool w))). fits_batch w r"
  shows "\<exists>b s' k. deliver_begin isolate LoopBackoff w = (Inr (Inl b), w\<lparr>spool := s'\<rparr>) \<and> healthy s' \<and>
    stored s' = stored (spool w) \<and> 0 < k \<and> k \<le> length (q_pending (stored (spool w))) \<and>
    bb_sequences b = map p_sequence (take k (q_pending (stored (spool w)))) \<and> bb_payload b \<noteq> [] \<and>
    last (bb_payload b) = byte 10"
proof -
  let ?P = "q_pending (stored (spool w))" and ?n = "if isolate then 1 else delivery_batch_rows (settings w)"
  have "\<forall>r \<in> set ?P. blob_bytes (p_payload r) \<le> MAX_SQLITE_BATCH_BYTES" using assms(4) by (simp add: fits_batch_def)
  moreover have "0 < ?n" "0 < MAX_SQLITE_BATCH_BYTES" using assms(2) by (simp_all add: MAX_SQLITE_BATCH_BYTES_def)
  ultimately obtain j s' where peek: "0 < j"
      "peek_batch ?n MAX_SQLITE_BATCH_BYTES (spool w) = (Inr (map spool_record_of (take j ?P)), s')"
      and s': "healthy s'" "stored s' = stored (spool w)"
    using healthy_peek [OF assms(1) _ _ assms(3)] by metis
  have rows: "take j ?P \<noteq> []" "\<forall>r \<in> set (take j ?P). fits_batch w r"
    using peek(1) assms(3,4) set_take_subset [of j ?P] by auto
  obtain b where b: "scan_records (table w) (delivery_batch_bytes (settings w)) empty_batch
      (map spool_record_of (take j ?P)) = Inr (Built b)"
    using scan_fits [OF rows(2)] by blast
  from scan_records_prefix [OF b rows(1)] obtain k where k: "0 < k" "k \<le> length (take j ?P)"
      "encodes_rows (table w) (take k (take j ?P)) b" "bb_payload b \<noteq> []" by auto
  then have rows_of: "take k (take j ?P) = take k ?P" "k \<le> length ?P" by (auto simp: min_absorb1)
  obtain encs where encs: "map (\<lambda>r. encode_record (table w) (p_payload r)) (take k ?P) = map Inr encs"
      "bb_payload b = concat encs" "bb_sequences b = map p_sequence (take k ?P)"
    using k(3) rows_of by (auto simp: encodes_rows_def)
  have "last (bb_payload b) = byte 10"
  proof -
    have e: "enc \<noteq> [] \<and> last enc = byte 10" if "enc \<in> set encs" for enc
    proof -
      have "Inr enc \<in> set (map (\<lambda>r. encode_record (table w) (p_payload r)) (take k ?P))"
        using that encs(1) by simp
      then have "\<exists>r :: pending_row. encode_record (table w) (p_payload r) = Inr enc" by (auto intro: sym)
      then show ?thesis using encode_record_line by blast
    qed
    obtain es enc where "encs = es @ [enc]" using encs(2) k(4) by (cases encs rule: rev_cases) auto
    then show ?thesis using e encs(2) by simp
  qed
  moreover have "bb_sequences b \<noteq> []" using encs(3) k(1) assms(3) by simp
  moreover have "map spool_record_of (take j ?P) \<noteq> []" using rows(1) by simp
  ultimately have "deliver_begin isolate LoopBackoff w = (Inr (Inl b), w\<lparr>spool := s'\<rparr>)"
    using peek(2) b by (simp add: deliver_begin_def build_batch_def bindP_def on_spool_app)
  then show ?thesis using s' k(1,4) rows_of(2) encs(3) \<open>last (bb_payload b) = byte 10\<close>
    by (intro exI [of _ b] exI [of _ s'] exI [of _ k]) simp
qed

subsection \<open>A round\<close>

lemma deliver_due:
  assumes "may_send w"
  obtains w0 where "delivery_step w = delivery_run deliver_rest w0" "calm w0 = calm w" "spool w0 = spool w"
    "transport w0 = transport w" "delivered_events w0 = delivered_events w" "retry_at w0 = None"
proof
  show "delivery_step w = delivery_run deliver_rest (if schema_ready w then w else w\<lparr>schema_ready := True\<rparr>)"
    using assms
    by (auto simp: may_send_def delivery_step_def deliver_pass_def bindP_def delivery_run_def)
qed (use assms in \<open>auto simp: may_send_def\<close>)

lemma pass_starts:
  assumes "may_send w" and "q_pending (stored (spool w)) \<noteq> []"
  obtains w2 where "delivery_step w = delivery_run (deliver_attempt (deliver_begin (isolate_next w2) LoopBackoff)) w2"
    "calm w2 = calm w" "healthy (spool w2)" "stored (spool w2) = stored (spool w)" "transport w2 = transport w"
    "delivered_events w2 = delivered_events w" "retry_at w2 = None"
proof -
  let ?P = "q_pending (stored (spool w))"
  note can = assms(1)[unfolded may_send_def]
  obtain w0 where w0: "delivery_step w = delivery_run deliver_rest w0" "calm w0 = calm w" "spool w0 = spool w"
      "transport w0 = transport w" "delivered_events w0 = delivered_events w" "retry_at w0 = None"
    using deliver_due [OF assms(1)] by blast
  let ?t = "monotonic (env w0) (now w0)" and ?w1 = "w0\<lparr>now := Suc (now w0)\<rparr>"
  have "healthy (spool ?w1)" using can w0(3) by simp
  from stats_step [OF this] obtain st s1 where
    st: "spool_stats_now ?w1 = (Inr st, ?w1\<lparr>spool := s1, known_stats := st\<rparr>)"
      "pending_rows st = int (length ?P)" "healthy s1" "stored s1 = stored (spool w)"
    by (auto simp: w0(3))
  define since where "since = (case pending_since w0 of None \<Rightarrow> Some ?t | Some t \<Rightarrow> Some t)"
  define w2 where "w2 = ?w1\<lparr>spool := s1, known_stats := st, pending_since := since\<rparr>"
  have w2: "calm w2 = calm w" "spool w2 = s1" "transport w2 = transport w" "delivered_events w2 = delivered_events w"
      "retry_at w2 = None"
    using w0 by (simp_all add: w2_def)
  have more: "pending_rows st \<noteq> 0" "pending_rows st > 0" using st(2) assms(2) by simp_all
  have due: "delivery_due w2 ?t st"
    using can more(2) w2 by (simp add: delivery_due_def)
  have "deliver_rest w0 = deliver_attempt (deliver_begin (isolate_next w2) LoopBackoff) w2"
    using st(1) more(1) due by (simp add: deliver_rest_def bindP_def since_def w2_def)
  then have "delivery_step w = delivery_run (deliver_attempt (deliver_begin (isolate_next w2) LoopBackoff)) w2"
    using w0(1) by (simp add: delivery_run_def)
  with that [of w2] w2 st(3,4) show ?thesis by simp
qed

lemma pass_sends:
  assumes "can_deliver w" and "q_pending (stored (spool w)) \<noteq> []"
  shows "\<exists>b k. delivery_task (delivery_step w) = DeliverSending b \<and> healthy (spool (delivery_step w)) \<and>
    stored (spool (delivery_step w)) = stored (spool w) \<and> calm (delivery_step w) = calm w \<and>
    transport (delivery_step w) = transport w \<and>
    delivered_events (delivery_step w) = delivered_events w \<and>
    0 < k \<and> k \<le> length (q_pending (stored (spool w))) \<and>
    bb_sequences b = map p_sequence (take k (q_pending (stored (spool w)))) \<and> bb_payload b \<noteq> [] \<and>
    last (bb_payload b) = byte 10"
proof -
  let ?P = "q_pending (stored (spool w))"
  note can = assms(1)[unfolded can_deliver_def may_send_def]
  have m: "may_send w" using assms(1) by (simp add: can_deliver_def)
  obtain w2 where w2: "delivery_step w = delivery_run (deliver_attempt (deliver_begin (isolate_next w2) LoopBackoff)) w2"
      "calm w2 = calm w" "healthy (spool w2)" "stored (spool w2) = stored (spool w)" "transport w2 = transport w"
      "delivered_events w2 = delivered_events w" "retry_at w2 = None"
    using pass_starts [OF m assms(2)] by blast
  have "0 < delivery_batch_rows (settings w2)" "q_pending (stored (spool w2)) \<noteq> []"
    "\<forall>r \<in> set (q_pending (stored (spool w2))). fits_batch w2 r"
    using can w2(2,4) assms(2) by (simp_all add: fits_batch_def)
  from build_step [OF w2(3) this, of "isolate_next w2"] obtain b s2 k where
    b: "deliver_begin (isolate_next w2) LoopBackoff w2 = (Inr (Inl b), w2\<lparr>spool := s2\<rparr>)"
      "healthy s2" "stored s2 = stored (spool w)" "0 < k" "k \<le> length ?P"
      "bb_sequences b = map p_sequence (take k ?P)" "bb_payload b \<noteq> []" "last (bb_payload b) = byte 10"
    by (auto simp: w2(4))
  then have "delivery_step w = (w2\<lparr>spool := s2\<rparr>)\<lparr>delivery_task := DeliverSending b\<rparr>"
    using w2(1) by (simp add: deliver_attempt_def bindP_def catchP_def delivery_run_def)
  then show ?thesis using b w2 by (intro exI [of _ b] exI [of _ k]) simp
qed

text \<open>With nothing pending a pass waits.\<close>

lemma pass_waits:
  assumes "may_send w" and "q_pending (stored (spool w)) = []"
  shows "delivery_task (delivery_step w) = DeliverLooping \<and> healthy (spool (delivery_step w)) \<and>
    stored (spool (delivery_step w)) = stored (spool w) \<and> calm (delivery_step w) = calm w \<and>
    retry_at (delivery_step w) = None \<and> delivered_events (delivery_step w) = delivered_events w"
proof -
  note can = assms(1)[unfolded may_send_def]
  obtain w0 where w0: "delivery_step w = delivery_run deliver_rest w0" "calm w0 = calm w" "spool w0 = spool w"
      "transport w0 = transport w" "delivered_events w0 = delivered_events w" "retry_at w0 = None"
    using deliver_due [OF assms(1)] by blast
  let ?t = "monotonic (env w0) (now w0)" and ?w1 = "w0\<lparr>now := Suc (now w0)\<rparr>"
  have "healthy (spool ?w1)" using can w0(3) by simp
  from stats_step [OF this] obtain st s1 where
    st: "spool_stats_now ?w1 = (Inr st, ?w1\<lparr>spool := s1, known_stats := st\<rparr>)"
      "pending_rows st = 0" "healthy s1" "stored s1 = stored (spool w)"
    using assms(2) by (auto simp: w0(3))
  define w2 where "w2 = ?w1\<lparr>spool := s1, known_stats := st, pending_since := None\<rparr>"
  have "\<not> delivery_due w2 ?t st" using st(2) by (simp add: delivery_due_def)
  then have "deliver_rest w0 = (Inr (NextWait (wait_delay (w2\<lparr>now := Suc (now w2)\<rparr>) ?t (monotonic (env w2) (now w2)))),
      w2\<lparr>now := Suc (now w2), wake_deliver := False\<rparr>)"
    using st(1,2) by (simp add: deliver_rest_def bindP_def w2_def)
  then have "delivery_step w = w2\<lparr>now := Suc (now w2), wake_deliver := False, delivery_task := DeliverLooping\<rparr>"
    using w0(1) by (simp add: delivery_run_def)
  then show ?thesis using w0 st(3,4) by (simp add: w2_def)
qed

text \<open>The confirmation of a batch of the oldest rows.\<close>

lemma finish_confirms:
  assumes "healthy (spool w)" and "bb_sequences b = map p_sequence (take k (q_pending (stored (spool w))))"
  shows "\<exists>w'. deliver_finish LoopBackoff b (Inr ()) w = (Inr OutcomeSuccess, w') \<and> calm w' = calm w \<and>
    healthy (spool w') \<and> stored (spool w') = (stored (spool w))\<lparr>q_pending := drop k (q_pending (stored (spool w)))\<rparr> \<and>
    delivered_events w' = delivered_events w + int (length (bb_sequences b))"
proof -
  obtain n s' where m: "mark_delivered (bb_sequences b) (spool w) = (Inr n, s')" "healthy s'"
      "stored s' = (stored (spool w))\<lparr>q_pending := drop k (q_pending (stored (spool w)))\<rparr>"
    using healthy_deliver [OF assms(1), of k] assms(2) by auto
  define w1 where "w1 = w\<lparr>spool := s', backoff_base := (backoff_base w)(LoopBackoff := retry_initial_seconds (settings w))\<rparr>"
  have "\<exists>w2. resume_after_storage_block w1 = (Inr (), w2) \<and> calm w2 = calm w1 \<and> spool w2 = spool w1 \<and>
      delivered_events w2 = delivered_events w1"
    by (simp add: resume_after_storage_block_def bindP_def whenP_def set_delivery_state_def)
  then obtain w2 where w2: "resume_after_storage_block w1 = (Inr (), w2)" "calm w2 = calm w1" "spool w2 = spool w1"
      "delivered_events w2 = delivered_events w1"
    by blast
  then show ?thesis
    using m
    by (simp add: deliver_finish_def deliver_succeeded_def bindP_def on_spool_app reset_backoff_def
        set_delivery_state_def w1_def)
qed

lemma pass_confirms:
  assumes "delivery_task w = DeliverSent b (Inr ())" and "healthy (spool w)"
    and "bb_sequences b = map p_sequence (take k (q_pending (stored (spool w))))"
  shows "delivery_task (delivery_step w) = DeliverLooping \<and> healthy (spool (delivery_step w)) \<and>
    stored (spool (delivery_step w)) = (stored (spool w))\<lparr>q_pending := drop k (q_pending (stored (spool w)))\<rparr> \<and>
    calm (delivery_step w) = calm w \<and> retry_at (delivery_step w) = None \<and>
    delivered_events (delivery_step w) = delivered_events w + int (length (bb_sequences b))"
proof -
  let ?q = "(stored (spool w))\<lparr>q_pending := drop k (q_pending (stored (spool w)))\<rparr>"
  obtain w1 where w1: "deliver_finish LoopBackoff b (Inr ()) w = (Inr OutcomeSuccess, w1)" "calm w1 = calm w"
      "healthy (spool w1)" "stored (spool w1) = ?q"
      "delivered_events w1 = delivered_events w + int (length (bb_sequences b))"
    using finish_confirms [OF assms(2,3)] by blast
  obtain st s2 where st: "spool_stats_now w1 = (Inr st, w1\<lparr>spool := s2, known_stats := st\<rparr>)"
      "healthy s2" "stored s2 = ?q"
    using stats_step [OF w1(3)] w1(4) by auto
  define w2 where "w2 = w1\<lparr>spool := s2, known_stats := st, retry_at := None, isolate_next := False\<rparr>"
  obtain since n where o: "after_outcome OutcomeSuccess w1 = (Inr (), w2\<lparr>pending_since := since, now := n\<rparr>)"
  proof (cases "pending_rows st = 0")
    case True
    then show ?thesis using that [where since = None and n = "now w2"] st(1) by (simp add: after_outcome_def bindP_def w2_def)
  next
    case False
    then show ?thesis
      using that [where since = "Some (monotonic (env w2) (now w2) - flush_interval_seconds (settings w2))" and n = "Suc (now w2)"] st(1)
      by (simp add: after_outcome_def bindP_def w2_def)
  qed
  have "after_send b (Inr ()) w = (Inr NextPass, w2\<lparr>pending_since := since, now := n\<rparr>)"
    using w1(1) o by (simp add: after_send_def deliver_attempt_def bindP_def catchP_def)
  then have "delivery_step w = w2\<lparr>pending_since := since, now := n, delivery_task := DeliverLooping\<rparr>"
    using assms(1) by (simp add: delivery_step_def delivery_run_def)
  then show ?thesis using w1(2,5) st(2,3) by (simp add: w2_def)
qed

subsection \<open>The backlog drains\<close>

definition round_actions :: "action list" where
  "round_actions = [DeliveryPass, DeliveryCall, DeliveryPass]"

lemma round_delivers:
  assumes "can_deliver w"
  shows "can_deliver (fold run_action round_actions w) \<and>
    (\<exists>k. (q_pending (stored (spool w)) \<noteq> [] \<longrightarrow> 0 < k) \<and>
      stored (spool (fold run_action round_actions w)) =
        (stored (spool w))\<lparr>q_pending := drop k (q_pending (stored (spool w)))\<rparr> \<and>
      k \<le> length (q_pending (stored (spool w))) \<and>
      delivered_events (fold run_action round_actions w) = delivered_events w + int k)"
proof (cases "q_pending (stored (spool w)) = []")
  case True
  have waits: "can_deliver (delivery_step v) \<and> stored (spool (delivery_step v)) = stored (spool v) \<and>
      executor_delivery (delivery_step v) = delivery_step v \<and> delivered_events (delivery_step v) = delivered_events v"
    if "can_deliver v" "q_pending (stored (spool v)) = []" for v
    using pass_waits [OF _ that(2)] that(1) unfolding can_deliver_def may_send_def executor_delivery_def
    by (auto simp: that(2) in_loop_def)
  from waits [OF assms True] waits [of "delivery_step w"] True
  show ?thesis by (intro conjI exI [of _ 0]) (auto simp: round_actions_def)
next
  case False
  let ?P = "q_pending (stored (spool w))"
  note can = assms[unfolded can_deliver_def may_send_def]
  obtain b k where b: "delivery_task (delivery_step w) = DeliverSending b" "healthy (spool (delivery_step w))"
      "stored (spool (delivery_step w)) = stored (spool w)" "calm (delivery_step w) = calm w"
      "delivered_events (delivery_step w) = delivered_events w" "0 < k" "k \<le> length ?P"
      "bb_sequences b = map p_sequence (take k ?P)" "bb_payload b \<noteq> []" "last (bb_payload b) = byte 10"
    using pass_sends [OF assms False] by blast
  define w1 where "w1 = delivery_step w"
  have accepts: "send_failure (net (transport w1) n) = None" for n using can b(4) by (simp add: w1_def)
  obtain t where t: "send_batch (bb_payload b) (transport w1) = (Inr (), t)" "net t = net (transport w1)"
    using send_batch_eq [OF b(9), of "transport w1"] b(10) accepts by (auto simp: byte_def after_request_def)
  define w2 where "w2 = executor_delivery w1"
  have w2: "w2 = w1\<lparr>transport := t, delivery_task := DeliverSent b (Inr ())\<rparr>"
    using b(1) t(1) by (simp add: w2_def executor_delivery_def run_send_def w1_def [symmetric])
  have sp: "spool w2 = spool w1" "stored (spool w2) = stored (spool w)" using w2 b(3) by (simp_all add: w1_def)
  from pass_confirms [of w2 b k] have c: "delivery_task (delivery_step w2) = DeliverLooping"
      "healthy (spool (delivery_step w2))"
      "stored (spool (delivery_step w2)) = (stored (spool w))\<lparr>q_pending := drop k ?P\<rparr>"
      "calm (delivery_step w2) = calm w2" "retry_at (delivery_step w2) = None"
      "delivered_events (delivery_step w2) = delivered_events w2 + int (length (bb_sequences b))"
    using sp b(2,8) w2 by (simp_all add: w1_def)
  have calm2: "calm w2 = calm w" using b(4) t(2) w2 by (simp add: w1_def)
  have final: "fold run_action round_actions w = delivery_step w2"
    by (simp add: round_actions_def w2_def w1_def)
  have "\<forall>r \<in> set (drop k ?P). fits_batch (delivery_step w2) r"
    using can c(4) calm2 set_drop_subset [of k ?P] by (auto simp: fits_batch_def)
  then have "can_deliver (delivery_step w2)"
    using can c calm2 unfolding can_deliver_def may_send_def by (simp add: in_loop_def)
  moreover have "delivered_events (delivery_step w2) = delivered_events w + int k"
    using c(6) b(5,7,8) w2 by (simp add: w1_def)
  ultimately show ?thesis using b(6,7) c(3) final by (intro conjI exI [of _ k]) simp_all
qed

subsection \<open>An event beyond the batch limit\<close>

lemma pass_refuses:
  assumes "may_send w" and "q_pending (stored (spool w)) = r # rs"
    and "\<forall>x \<in> set (r # rs). blob_bytes (p_payload x) \<le> MAX_SQLITE_BATCH_BYTES"
    and "encode_record (table w) (p_payload r) = Inr enc" and "delivery_batch_bytes (settings w) < int (length enc)"
  shows "\<exists>e. delivery_task (delivery_step w) = DeliverRaised e \<and> exn_class e = WorkerConfigurationError \<and>
    calm (delivery_step w) = calm w \<and> healthy (spool (delivery_step w)) \<and>
    stored (spool (delivery_step w)) = stored (spool w)"
proof -
  have ne: "q_pending (stored (spool w)) \<noteq> []" using assms(2) by simp
  obtain w2 where w2: "delivery_step w = delivery_run (deliver_attempt (deliver_begin (isolate_next w2) LoopBackoff)) w2"
      "calm w2 = calm w" "healthy (spool w2)" "stored (spool w2) = stored (spool w)"
    using pass_starts [OF assms(1) ne] by blast
  let ?n = "if isolate_next w2 then 1 else delivery_batch_rows (settings w2)"
  have "0 < ?n" "0 < MAX_SQLITE_BATCH_BYTES"
    using assms(1) w2(2) by (simp_all add: may_send_def MAX_SQLITE_BATCH_BYTES_def)
  moreover have "\<forall>x \<in> set (q_pending (stored (spool w2))). blob_bytes (p_payload x) \<le> MAX_SQLITE_BATCH_BYTES"
    using assms(2,3) w2(4) by simp
  ultimately obtain j s' where peek: "0 < j"
      "peek_batch ?n MAX_SQLITE_BATCH_BYTES (spool w2) = (Inr (map spool_record_of (take j (r # rs))), s')"
      and s': "healthy s'" "stored s' = stored (spool w)"
    using healthy_peek [OF w2(3), of ?n MAX_SQLITE_BATCH_BYTES] assms(2) w2(4) by auto
  obtain i where j: "j = Suc i" using peek(1) by (cases j) auto
  define e where "e = mk_exn WorkerConfigurationError (lit ''encoded event is '' @ int_str (int (length enc)) @
    lit '' bytes; delivery batch limit is '' @ int_str (delivery_batch_bytes (settings w)))"
  have "scan_records (table w2) (delivery_batch_bytes (settings w2)) empty_batch (map spool_record_of (take j (r # rs))) = Inl e"
    using assms(4,5) w2(2) by (simp add: j empty_batch_def e_def)
  then have "deliver_begin (isolate_next w2) LoopBackoff w2 = (Inl e, w2\<lparr>spool := s'\<rparr>)"
    using peek by (simp add: deliver_begin_def build_batch_def bindP_def on_spool_app j del: scan_records.simps)
  then have "delivery_step w = (w2\<lparr>spool := s'\<rparr>)\<lparr>delivery_task := DeliverRaised e\<rparr>"
    using w2(1) by (simp add: deliver_attempt_def bindP_def catchP_def delivery_run_def e_def)
  then show ?thesis using s' w2(2) by (intro exI [of _ e]) (simp add: e_def)
qed

lemma refused_ends_thread:
  assumes "may_send w" and "main_task w = MainWaiting" and "q_pending (stored (spool w)) = r # rs"
    and "\<forall>x \<in> set (r # rs). blob_bytes (p_payload x) \<le> MAX_SQLITE_BATCH_BYTES"
    and "encode_record (table w) (p_payload r) = Inr enc" and "delivery_batch_bytes (settings w) < int (length enc)"
  shows "w_state (fold run_action [DeliveryPass, MainPass, MainPass] w) = FAILED \<and>
    \<not> accepting (fold run_action [DeliveryPass, MainPass, MainPass] w) \<and>
    main_task (fold run_action [DeliveryPass, MainPass, MainPass] w) = MainExited \<and>
    stored (spool (fold run_action [DeliveryPass, MainPass, MainPass] w)) = stored (spool w)"
proof -
  obtain e where e: "delivery_task (delivery_step w) = DeliverRaised e" "calm (delivery_step w) = calm w"
      "healthy (spool (delivery_step w))" "stored (spool (delivery_step w)) = stored (spool w)"
    using pass_refuses [OF assms(1,3-6)] by blast
  define w1 where "w1 = delivery_step w"
  have "\<not> stop_async w1" "main_task w1 = MainWaiting" using e(2) assms(1,2) by (simp_all add: w1_def may_send_def)
  then obtain e' where e': "main_step w1 = w1\<lparr>main_task := MainEnded (Some e')\<rparr>"
    using e(1) by (cases "persist_task w1") (auto simp: main_step_def main_observe_def w1_def)
  define w2 where "w2 = w1\<lparr>main_task := MainEnded (Some e')\<rparr>"
  have last_step: "fold run_action [DeliveryPass, MainPass, MainPass] w = run_finally (Some e') w2"
    using e' by (simp add: w1_def [symmetric] w2_def main_step_def [of "_\<lparr>main_task := _\<rparr>"])
  obtain t sm y err s where "s = FAILED"
    "run_finally (Some e') w2 = w2\<lparr>transport := t, schema_manager := sm, failure := y, w_state := s,
       accepting := False, last_error := err, spool := snd (close_spool (spool w2)), main_task := MainExited\<rparr>"
    by (rule run_finally_effect [of w2 "Some e'"]) auto
  moreover have "stored (snd (close_spool (spool w2))) = stored (spool w)"
  proof -
    have "spool_ok (spool w2)" using e(3) by (simp add: w2_def w1_def healthy_def spool_ok_def idle_def)
    from close_store [OF this] show ?thesis
      using e(4) by (simp add: same_store_def stored_def w2_def w1_def)
  qed
  ultimately show ?thesis unfolding last_step by simp
qed

subsection \<open>A storage pause during an outage of the credentials\<close>

text \<open>
  The persist loop's pause overwrites the reason \<open>auth\<close> of a block that lasts, and its end shows RUNNING,
  while the delivery loop stays blocked until a restart: nothing is due, whatever the clock and the rows.
\<close>

theorem storage_pause_hides_rejected_credentials:
  assumes "d_blocked w" and "w_state w = BLOCKED" and "block_reason w = Some BlockAuth"
    and "reason \<in> set STORAGE_BLOCK_REASONS"
  shows "let w' = snd (resume_after_storage_block (snd (block_on_storage reason err w))) in
    w_state w' = RUNNING \<and> block_reason w' = None \<and> last_error w' = None \<and> d_blocked w' \<and>
    (\<forall>t st. \<not> delivery_due w' t st)"
  using assms
  by (simp add: block_on_storage_def resume_after_storage_block_def bindP_def whenP_def set_delivery_state_def
      delivery_due_def)

end
