(* ===== verification/ProgressClaims.thy ===== *)
theory ProgressClaims
  imports Progress WorkerRun
begin

section \<open>The backlog is delivered\<close>

text \<open>
  The rounds of Progress repeated, and a worker with one real event pending that they apply to.
\<close>

lemma rounds_deliver:
  assumes "can_deliver w"
  shows "can_deliver (((fold run_action round_actions) ^^ n) w) \<and>
    (\<exists>k. q_pending (stored (spool (((fold run_action round_actions) ^^ n) w))) = drop k (q_pending (stored (spool w))) \<and>
      min n (length (q_pending (stored (spool w)))) \<le> k \<and> k \<le> length (q_pending (stored (spool w))) \<and>
      q_dead (stored (spool (((fold run_action round_actions) ^^ n) w))) = q_dead (stored (spool w)) \<and>
      delivered_events (((fold run_action round_actions) ^^ n) w) = delivered_events w + int k)"
proof (induction n)
  case 0
  show ?case using assms by (intro conjI exI [of _ 0]) simp_all
next
  case (Suc n)
  let ?v = "((fold run_action round_actions) ^^ n) w" and ?P = "q_pending (stored (spool w))"
  from Suc obtain k where k: "can_deliver ?v" "q_pending (stored (spool ?v)) = drop k ?P" "min n (length ?P) \<le> k"
      "k \<le> length ?P" "q_dead (stored (spool ?v)) = q_dead (stored (spool w))"
      "delivered_events ?v = delivered_events w + int k" by blast
  from round_delivers [OF k(1)] obtain j where j: "can_deliver (fold run_action round_actions ?v)"
      "drop k ?P \<noteq> [] \<longrightarrow> 0 < j" "j \<le> length (drop k ?P)"
      "stored (spool (fold run_action round_actions ?v)) = (stored (spool ?v))\<lparr>q_pending := drop j (drop k ?P)\<rparr>"
      "delivered_events (fold run_action round_actions ?v) = delivered_events ?v + int j"
    unfolding k(2) by blast
  have "min (Suc n) (length ?P) \<le> j + k" using k(3,4) j(2) by (cases "drop k ?P = []") auto
  then show ?case
    using j k(4-6) by (intro conjI exI [of _ "j + k"]) (simp_all add: ac_simps)
qed


subsection \<open>A worker with one event pending\<close>

lemma small_payload:
  "case to_bytes small_envelope of
     Inl e \<Rightarrow> False
   | Inr p \<Rightarrow> p \<noteq> [] \<and> int (length p) \<le> 1000 \<and>
       (case encode_record sample_table p of Inl e \<Rightarrow> False | Inr enc \<Rightarrow> int (length enc) \<le> 1000)"
  by code_simp

lemma one_row_worker:
  fixes limit_bytes :: int
  obtains w :: worker and row enc where "may_send w" "main_task w = MainWaiting" "delivered_events w = 0"
    "q_pending (stored (spool w)) = [row]" "\<And>n. send_failure (net (transport w) n) = None"
    "blob_bytes (p_payload row) \<le> MAX_SQLITE_BATCH_BYTES"
    "encode_record (table w) (p_payload row) = Inr enc" "enc \<noteq> []" "int (length enc) \<le> 1000"
    "delivery_batch_bytes (settings w) = limit_bytes"
proof -
  obtain p enc where p: "p \<noteq> []" "int (length p) \<le> 1000" "encode_record sample_table p = Inr enc" "int (length enc) \<le> 1000"
    using small_payload by (auto split: sum.splits)
  have "case sample_worker False True of Inr w \<Rightarrow> table w = sample_table \<and> settings w = sample_settings True | Inl _ \<Rightarrow> False"
    by (simp add: sample_worker_def make_worker_def sample_table_def lit_def make_guard_def
        validate_free_space_settings_def sample_settings_def)
  then obtain w0 where w0: "table (w0 :: worker) = sample_table" "settings w0 = sample_settings True"
    by (auto split: sum.splits)
  let ?row = "new_pending_row 1 \<lparr>ne_event_id = [97], ne_payload = p, ne_created_ns = 5\<rparr>"
  let ?d = "empty_tables\<lparr>pending := [?row], pending_seq := 1,
     stats_row := Some \<lparr>pending_rows = 1, pending_bytes = int (length p), dead_letter_rows = 0, dead_letter_bytes = 0\<rparr>\<rparr>"
  let ?s = "new_file\<lparr>durable := ?d, working := ?d, opened := True\<rparr>"
  let ?w = "w0\<lparr>spool := ?s, main_task := MainWaiting, delivery_task := DeliverLooping, stop_async := False,
     schema_ready := True, d_blocked := False, retry_at := None, ingress := [], held_unpersisted := 0,
     delivered_events := 0, transport := sample_transport,
     settings := (sample_settings True)\<lparr>delivery_batch_bytes := limit_bytes\<rparr>\<rparr>"
  have "tables_ok ?d"
    using p(1) by (simp add: tables_ok_def schema_ok_def exact_stats_def overlap_def empty_tables_def
        pending_row_ok_def new_pending_row_def sql_length_def)
  then have s: "healthy ?s" by (simp add: healthy_def idle_def new_file_def)
  show ?thesis
  proof (rule that [of ?w ?row enc])
    show "may_send ?w" using s by (simp add: may_send_def in_loop_def sample_settings_def)
    show "q_pending (stored (spool ?w)) = [?row]" by (simp add: stored_def queue_of_def)
    show "send_failure (net (transport ?w) n) = None" for n by (simp add: sample_transport_def send_failure_def)
    show "encode_record (table ?w) (p_payload ?row) = Inr enc" using p(3) w0 by (simp add: new_pending_row_def)
    show "blob_bytes (p_payload ?row) \<le> MAX_SQLITE_BATCH_BYTES"
      using p(2) by (simp add: new_pending_row_def blob_bytes_def MAX_SQLITE_BATCH_BYTES_def)
    show "enc \<noteq> []" using encode_record_line [OF p(3)] by simp
  qed (use p(4) in simp_all)
qed


text \<open>
  C16: An event that is accepted but encodes beyond \<open>delivery_batch_bytes\<close> ends the writer: as soon as it
  is the oldest pending row, the next pass of the delivery loop raises \<open>WorkerConfigurationError\<close>, and the
  main coroutine, whatever the persist loop does, ends the thread in the state FAILED with the row
  still at the head of the spool, where the next start meets it again. Nothing relates the limit of
  \<open>submit\<close> (\<open>max_serialized_event_bytes\<close>) to this one.
\<close>

theorem oversized_event_ends_writer:
  assumes "may_send w" and "main_task w = MainWaiting" and "q_pending (stored (spool w)) = r # rs"
    and "\<forall>x \<in> set (r # rs). blob_bytes (p_payload x) \<le> MAX_SQLITE_BATCH_BYTES"
    and "encode_record (table w) (p_payload r) = Inr enc" and "delivery_batch_bytes (settings w) < int (length enc)"
  shows "let w' = fold run_action [DeliveryPass, MainPass, MainPass] w in
    w_state w' = FAILED \<and> \<not> accepting w' \<and> main_task w' = MainExited \<and> stored (spool w') = stored (spool w)"
  using refused_ends_thread [OF assms] by (simp add: Let_def)

theorem oversized_event_ends_writer_witness:
  "\<exists>w :: worker. length (q_pending (stored (spool w))) = 1 \<and>
     w_state (fold run_action [DeliveryPass, MainPass, MainPass] w) = FAILED"
proof (rule one_row_worker [of 0])
  fix w :: worker and row enc
  assume w: "may_send w" "main_task w = MainWaiting" "q_pending (stored (spool w)) = [row]"
    "blob_bytes (p_payload row) \<le> MAX_SQLITE_BATCH_BYTES"
    "encode_record (table w) (p_payload row) = Inr enc" "enc \<noteq> []" "delivery_batch_bytes (settings w) = 0"
  then have "\<forall>x \<in> set [row]. blob_bytes (p_payload x) \<le> MAX_SQLITE_BATCH_BYTES"
    "delivery_batch_bytes (settings w) < int (length enc)" by simp_all
  from oversized_event_ends_writer [OF w(1-3) this(1) w(5) this(2)] w(3) show ?thesis
    by (intro exI [of _ w]) (simp add: Let_def)
qed

end
