(* ===== verification/Options.thy ===== *)
theory Options
  imports WorkerPersist AttrFilter
begin

section \<open>Option values and the constants of const.py\<close>

text \<open>
  A stored option is whatever the options flow or an older version put into the entry, so its type
  is dynamic: \<open>pyval\<close>. The classes that take the values check them at run time, and the checks are
  part of the model. Keys are the literal keys of const.py; a dict keeps the order of its keys.
\<close>

datatype pyval =
    VNone
  | VBool bool
  | VInt int
  | VFloat rat
  | VStr ustr
  | VList "pyval list"
  | VDict "(string \<times> pyval) list"

type_synonym pydict = "(string \<times> pyval) list"

named_theorems conf \<open>the keys and default values of const.py\<close>

definition DOMAIN :: string where [conf]: "DOMAIN = ''hass_questdb_writer''"
definition CONF_HOST :: string where [conf]: "CONF_HOST = ''host''"
definition CONF_PORT :: string where [conf]: "CONF_PORT = ''port''"
definition CONF_TABLE :: string where [conf]: "CONF_TABLE = ''table''"
definition CONF_USE_TLS :: string where [conf]: "CONF_USE_TLS = ''use_tls''"
definition CONF_TLS_SELF_SIGNED :: string where [conf]: "CONF_TLS_SELF_SIGNED = ''tls_self_signed''"
definition CONF_USERNAME :: string where [conf]: "CONF_USERNAME = ''username''"
definition CONF_PASSWORD :: string where [conf]: "CONF_PASSWORD = ''password''"
definition CONF_SHOW_ADVANCED :: string where [conf]: "CONF_SHOW_ADVANCED = ''show_advanced''"
definition CONF_RETENTION_DAYS :: string where [conf]: "CONF_RETENTION_DAYS = ''retention_days''"
definition CONF_INCLUDE :: string where [conf]: "CONF_INCLUDE = ''include''"
definition CONF_EXCLUDE :: string where [conf]: "CONF_EXCLUDE = ''exclude''"
definition CONF_ATTRIBUTE_ALLOWLIST :: string where [conf]: "CONF_ATTRIBUTE_ALLOWLIST = ''attribute_allowlist''"
definition CONF_ATTRIBUTE_DENYLIST :: string where [conf]: "CONF_ATTRIBUTE_DENYLIST = ''attribute_denylist''"
definition CONF_INGRESS_QUEUE_CAPACITY :: string where [conf]: "CONF_INGRESS_QUEUE_CAPACITY = ''ingress_queue_capacity''"
definition CONF_MAX_SERIALIZED_EVENT_BYTES :: string where [conf]: "CONF_MAX_SERIALIZED_EVENT_BYTES = ''max_serialized_event_bytes''"
definition CONF_PERSIST_BATCH_ROWS :: string where [conf]: "CONF_PERSIST_BATCH_ROWS = ''persist_batch_rows''"
definition CONF_DELIVERY_BATCH_ROWS :: string where [conf]: "CONF_DELIVERY_BATCH_ROWS = ''delivery_batch_rows''"
definition CONF_DELIVERY_BATCH_BYTES :: string where [conf]: "CONF_DELIVERY_BATCH_BYTES = ''delivery_batch_bytes''"
definition CONF_FLUSH_INTERVAL_SECONDS :: string where [conf]: "CONF_FLUSH_INTERVAL_SECONDS = ''flush_interval_seconds''"
definition CONF_PERSIST_IDLE_POLL_SECONDS :: string where [conf]: "CONF_PERSIST_IDLE_POLL_SECONDS = ''persist_idle_poll_seconds''"
definition CONF_RETRY_INITIAL_SECONDS :: string where [conf]: "CONF_RETRY_INITIAL_SECONDS = ''retry_initial_seconds''"
definition CONF_RETRY_MAX_SECONDS :: string where [conf]: "CONF_RETRY_MAX_SECONDS = ''retry_max_seconds''"
definition CONF_RETRY_MULTIPLIER :: string where [conf]: "CONF_RETRY_MULTIPLIER = ''retry_multiplier''"
definition CONF_RETRY_JITTER_RATIO :: string where [conf]: "CONF_RETRY_JITTER_RATIO = ''retry_jitter_ratio''"
definition CONF_FLUSH_ON_SHUTDOWN :: string where [conf]: "CONF_FLUSH_ON_SHUTDOWN = ''flush_on_shutdown''"
definition CONF_MAX_PENDING_ROWS :: string where [conf]: "CONF_MAX_PENDING_ROWS = ''max_pending_rows''"
definition CONF_MAX_PENDING_BYTES :: string where [conf]: "CONF_MAX_PENDING_BYTES = ''max_pending_bytes''"
definition CONF_MAX_DEAD_LETTER_ROWS :: string where [conf]: "CONF_MAX_DEAD_LETTER_ROWS = ''max_dead_letter_rows''"
definition CONF_MAX_DEAD_LETTER_BYTES :: string where [conf]: "CONF_MAX_DEAD_LETTER_BYTES = ''max_dead_letter_bytes''"
definition CONF_SQLITE_BUSY_TIMEOUT_SECONDS :: string where [conf]: "CONF_SQLITE_BUSY_TIMEOUT_SECONDS = ''sqlite_busy_timeout_seconds''"
definition CONF_SPOOL_MIN_FREE_BYTES :: string where [conf]: "CONF_SPOOL_MIN_FREE_BYTES = ''spool_min_free_bytes''"
definition CONF_SPOOL_MIN_FREE_RATIO :: string where [conf]: "CONF_SPOOL_MIN_FREE_RATIO = ''spool_min_free_ratio''"
definition CONF_HTTP_TIMEOUT_SECONDS :: string where [conf]: "CONF_HTTP_TIMEOUT_SECONDS = ''http_timeout_seconds''"
definition CONF_START_TIMEOUT_SECONDS :: string where [conf]: "CONF_START_TIMEOUT_SECONDS = ''start_timeout_seconds''"
definition CONF_STOP_TIMEOUT_SECONDS :: string where [conf]: "CONF_STOP_TIMEOUT_SECONDS = ''stop_timeout_seconds''"
definition DEFAULT_PORT :: int where [conf]: "DEFAULT_PORT = 9000"
definition DEFAULT_TABLE :: string where [conf]: "DEFAULT_TABLE = ''hass''"
definition PROVISIONAL_INGRESS_QUEUE_CAPACITY :: pyval where [conf]: "PROVISIONAL_INGRESS_QUEUE_CAPACITY = VInt 1000"
definition PROVISIONAL_MAX_SERIALIZED_EVENT_BYTES :: pyval where [conf]: "PROVISIONAL_MAX_SERIALIZED_EVENT_BYTES = VInt (64 * 1024)"
definition PROVISIONAL_PERSIST_BATCH_ROWS :: pyval where [conf]: "PROVISIONAL_PERSIST_BATCH_ROWS = VInt 100"
definition PROVISIONAL_DELIVERY_BATCH_ROWS :: pyval where [conf]: "PROVISIONAL_DELIVERY_BATCH_ROWS = VInt 1000"
definition PROVISIONAL_DELIVERY_BATCH_BYTES :: pyval where [conf]: "PROVISIONAL_DELIVERY_BATCH_BYTES = VInt (512 * 1024)"
definition PROVISIONAL_FLUSH_INTERVAL_SECONDS :: pyval where [conf]: "PROVISIONAL_FLUSH_INTERVAL_SECONDS = VFloat 1"
definition PROVISIONAL_PERSIST_IDLE_POLL_SECONDS :: pyval where [conf]: "PROVISIONAL_PERSIST_IDLE_POLL_SECONDS = VFloat 1"
definition PROVISIONAL_RETRY_INITIAL_SECONDS :: pyval where [conf]: "PROVISIONAL_RETRY_INITIAL_SECONDS = VFloat 1"
definition PROVISIONAL_RETRY_MAX_SECONDS :: pyval where [conf]: "PROVISIONAL_RETRY_MAX_SECONDS = VFloat 60"
definition PROVISIONAL_RETRY_MULTIPLIER :: pyval where [conf]: "PROVISIONAL_RETRY_MULTIPLIER = VFloat 2"
definition PROVISIONAL_RETRY_JITTER_RATIO :: pyval where [conf]: "PROVISIONAL_RETRY_JITTER_RATIO = VFloat (1 / 5)"
definition PROVISIONAL_FLUSH_ON_SHUTDOWN :: pyval where [conf]: "PROVISIONAL_FLUSH_ON_SHUTDOWN = VBool False"
definition PROVISIONAL_MAX_PENDING_ROWS :: pyval where [conf]: "PROVISIONAL_MAX_PENDING_ROWS = VInt 100000"
definition PROVISIONAL_MAX_PENDING_BYTES :: pyval where [conf]: "PROVISIONAL_MAX_PENDING_BYTES = VInt (64 * 1024 * 1024)"
definition PROVISIONAL_MAX_DEAD_LETTER_ROWS :: pyval where [conf]: "PROVISIONAL_MAX_DEAD_LETTER_ROWS = VInt 1000"
definition PROVISIONAL_MAX_DEAD_LETTER_BYTES :: pyval where [conf]: "PROVISIONAL_MAX_DEAD_LETTER_BYTES = VInt (16 * 1024 * 1024)"
definition PROVISIONAL_SQLITE_BUSY_TIMEOUT_SECONDS :: pyval where [conf]: "PROVISIONAL_SQLITE_BUSY_TIMEOUT_SECONDS = VFloat 1"
definition PROVISIONAL_SPOOL_MIN_FREE_BYTES :: pyval where [conf]: "PROVISIONAL_SPOOL_MIN_FREE_BYTES = VInt (512 * 1024 * 1024)"
definition PROVISIONAL_SPOOL_MIN_FREE_RATIO :: pyval where [conf]: "PROVISIONAL_SPOOL_MIN_FREE_RATIO = VFloat (1 / 20)"
definition PROVISIONAL_HTTP_TIMEOUT_SECONDS :: pyval where [conf]: "PROVISIONAL_HTTP_TIMEOUT_SECONDS = VFloat 10"
definition PROVISIONAL_START_TIMEOUT_SECONDS :: pyval where [conf]: "PROVISIONAL_START_TIMEOUT_SECONDS = VFloat 10"
definition PROVISIONAL_STOP_TIMEOUT_SECONDS :: pyval where [conf]: "PROVISIONAL_STOP_TIMEOUT_SECONDS = VFloat 15"

text \<open>Keys of the entity filter of Home Assistant.\<close>

definition CONF_DOMAINS :: string where [conf]: "CONF_DOMAINS = ''domains''"
definition CONF_ENTITIES :: string where [conf]: "CONF_ENTITIES = ''entities''"
definition CONF_ENTITY_GLOBS :: string where [conf]: "CONF_ENTITY_GLOBS = ''entity_globs''"

subsection \<open>Dicts and dynamic values\<close>

text \<open>\<open>d.get(key, default)\<close>, \<open>bool(v)\<close>, and the number behind a value that compares like one.\<close>

definition dict_get :: "pydict \<Rightarrow> string \<Rightarrow> pyval \<Rightarrow> pyval" where
  "dict_get d key dflt = (case map_of d key of Some v \<Rightarrow> v | None \<Rightarrow> dflt)"

fun py_bool :: "pyval \<Rightarrow> bool" where
  "py_bool VNone = False"
| "py_bool (VBool b) = b"
| "py_bool (VInt i) = (i \<noteq> 0)"
| "py_bool (VFloat r) = (r \<noteq> 0)"
| "py_bool (VStr s) = (s \<noteq> [])"
| "py_bool (VList vs) = (vs \<noteq> [])"
| "py_bool (VDict d) = (d \<noteq> [])"

fun number_of :: "pyval \<Rightarrow> rat option" where
  "number_of (VBool b) = Some (if b then 1 else 0)"
| "number_of (VInt i) = Some (of_int i)"
| "number_of (VFloat r) = Some r"
| "number_of _ = None"

text \<open>\<open>{**d, **d'}\<close>: the keys of the left operand keep their places.\<close>

definition dict_set :: "pydict \<Rightarrow> string \<times> pyval \<Rightarrow> pydict" where
  "dict_set d kv = (if fst kv \<in> fst ` set d
     then map (\<lambda>(k, v). (k, if k = fst kv then snd kv else v)) d else d @ [kv])"

definition dict_merge :: "pydict \<Rightarrow> pydict \<Rightarrow> pydict" where
  "dict_merge d d' = foldl dict_set d d'"

lemma map_of_replace:
  "map_of (map (\<lambda>(k', v'). (k', if k' = k then v else v')) d) k'' =
     (if k'' = k then (if k \<in> fst ` set d then Some v else None) else map_of d k'')"
  by (induction d) (auto split: if_splits)

lemma map_of_dict_set: "map_of (dict_set d (k, v)) = (map_of d)(k \<mapsto> v)"
proof
  fix k'
  show "map_of (dict_set d (k, v)) k' = ((map_of d)(k \<mapsto> v)) k'"
  proof (cases "k \<in> fst ` set d")
    case True
    then show ?thesis by (simp add: dict_set_def map_of_replace)
  next
    case False
    then have "map_of d k = None" by (simp add: map_of_eq_None_iff)
    then show ?thesis using False by (auto simp: dict_set_def map_add_def split: option.splits)
  qed
qed

lemma map_of_dict_merge: "distinct (map fst d') \<Longrightarrow> map_of (dict_merge d d') = map_of d ++ map_of d'"
proof (induction d' arbitrary: d)
  case Nil
  then show ?case by (simp add: dict_merge_def)
next
  case (Cons kv d')
  obtain k v where kv: "kv = (k, v)" by fastforce
  have "dict_merge d (kv # d') = dict_merge (dict_set d kv) d'" by (simp add: dict_merge_def)
  moreover have "map_of d' k = None" using Cons.prems kv by (simp add: map_of_eq_None_iff)
  ultimately show ?case
    using Cons kv by (auto simp: map_of_dict_set fun_eq_iff map_add_def split: option.splits)
qed

lemma dict_get_merge:
  "distinct (map fst d') \<Longrightarrow> dict_get (dict_merge d d') k v = dict_get d' k (dict_get d k v)"
  by (simp add: dict_get_def map_of_dict_merge map_add_def split: option.splits)

end
