(* ===== verification/Config.thy ===== *)
theory Config
  imports Options
begin

section \<open>From entry data and options to a runtime configuration (runtime.py, __init__.py)\<close>

text \<open>
  The dataclasses of the configuration with the checks of their constructors, and the functions of
  __init__.py that fill them from the entry. The data of an entry has the types its form stores; the
  options are dynamic, so each \<open>isinstance\<close> of a constructor is a branch here.
\<close>

subsection \<open>Checks on dynamic values\<close>

definition positive_value :: "string \<Rightarrow> pyval \<Rightarrow> int res" where
  "positive_value name v =
     (case v of
        VInt i \<Rightarrow> if i \<le> 0 then value_error (name @ '' must be a positive integer'') else Inr i
      | _ \<Rightarrow> value_error (name @ '' must be a positive integer''))"

definition number_value :: "pyval \<Rightarrow> rat option" where
  "number_value v = (case v of VInt i \<Rightarrow> Some (of_int i) | VFloat r \<Rightarrow> Some r | _ \<Rightarrow> None)"

definition finite_value :: "string \<Rightarrow> pyval \<Rightarrow> rat res" where
  "finite_value name v =
     (case number_value v of Some r \<Rightarrow> Inr r | None \<Rightarrow> value_error (name @ '' must be finite''))"

definition positive_finite_value :: "string \<Rightarrow> pyval \<Rightarrow> rat res" where
  "positive_finite_value name v =
     (case number_value v of
        Some r \<Rightarrow> if r \<le> 0 then value_error (name @ '' must be positive and finite'') else Inr r
      | None \<Rightarrow> value_error (name @ '' must be positive and finite''))"

definition free_space_values :: "pyval \<Rightarrow> pyval \<Rightarrow> (int \<times> rat) res" where
  "free_space_values mfb mfr =
     (case mfb of
        VInt b \<Rightarrow>
          if b < 0 then value_error ''min_free_bytes must be a non-negative integer''
          else (case number_value mfr of
              Some r \<Rightarrow> if 0 \<le> r \<and> r < 1 then Inr (b, r)
                else value_error ''min_free_ratio must be finite and in [0, 1)''
            | None \<Rightarrow> value_error ''min_free_ratio must be finite and in [0, 1)'')
      | _ \<Rightarrow> value_error ''min_free_bytes must be a non-negative integer'')"

subsection \<open>WorkerSettings\<close>

text \<open>The arguments of \<open>WorkerSettings(...)\<close> and its \<open>__post_init__\<close>, in the order of its checks.\<close>

record settings_values =
  v_ingress_queue_capacity :: pyval
  v_max_serialized_event_bytes :: pyval
  v_persist_batch_rows :: pyval
  v_delivery_batch_rows :: pyval
  v_delivery_batch_bytes :: pyval
  v_flush_interval_seconds :: pyval
  v_persist_idle_poll_seconds :: pyval
  v_retry_initial_seconds :: pyval
  v_retry_max_seconds :: pyval
  v_retry_multiplier :: pyval
  v_retry_jitter_ratio :: pyval
  v_flush_on_shutdown :: pyval
  v_min_free_bytes :: pyval
  v_min_free_ratio :: pyval

definition make_settings :: "settings_values \<Rightarrow> worker_settings res" where
  "make_settings v =
     bindR (positive_value ''ingress_queue_capacity'' (v_ingress_queue_capacity v)) (\<lambda>capacity.
     bindR (positive_value ''max_serialized_event_bytes'' (v_max_serialized_event_bytes v)) (\<lambda>event_bytes.
     bindR (positive_value ''persist_batch_rows'' (v_persist_batch_rows v)) (\<lambda>persist_rows.
     bindR (positive_value ''delivery_batch_rows'' (v_delivery_batch_rows v)) (\<lambda>batch_rows.
     bindR (positive_value ''delivery_batch_bytes'' (v_delivery_batch_bytes v)) (\<lambda>batch_bytes.
     bindR (finite_value ''flush_interval_seconds'' (v_flush_interval_seconds v)) (\<lambda>flush.
     bindR (finite_value ''persist_idle_poll_seconds'' (v_persist_idle_poll_seconds v)) (\<lambda>poll.
     bindR (finite_value ''retry_initial_seconds'' (v_retry_initial_seconds v)) (\<lambda>initial.
     bindR (finite_value ''retry_max_seconds'' (v_retry_max_seconds v)) (\<lambda>most.
     bindR (finite_value ''retry_multiplier'' (v_retry_multiplier v)) (\<lambda>multiplier.
     bindR (finite_value ''retry_jitter_ratio'' (v_retry_jitter_ratio v)) (\<lambda>jitter.
     if flush \<le> 0 then value_error ''flush_interval_seconds must be positive''
     else if poll \<le> 0 then value_error ''persist_idle_poll_seconds must be positive''
     else bindR (free_space_values (v_min_free_bytes v) (v_min_free_ratio v)) (\<lambda>(mfb, mfr).
       if initial \<le> 0 then value_error ''retry_initial_seconds must be positive''
       else if most < initial then value_error ''retry_max_seconds must not be below retry_initial_seconds''
       else if multiplier < 1 then value_error ''retry_multiplier must be at least 1''
       else if \<not> (0 \<le> jitter \<and> jitter \<le> 1) then value_error ''retry_jitter_ratio must be between 0 and 1''
       else (case v_flush_on_shutdown v of
           VBool b \<Rightarrow> Inr \<lparr>ingress_queue_capacity = capacity, max_serialized_event_bytes = event_bytes,
             persist_batch_rows = persist_rows, delivery_batch_rows = batch_rows,
             delivery_batch_bytes = batch_bytes, flush_interval_seconds = flush,
             persist_idle_poll_seconds = poll, retry_initial_seconds = initial, retry_max_seconds = most,
             retry_multiplier = multiplier, retry_jitter_ratio = jitter, flush_on_shutdown = b,
             setting_min_free_bytes = mfb, setting_min_free_ratio = mfr\<rparr>
         | _ \<Rightarrow> value_error ''flush_on_shutdown must be a boolean'')))))))))))))"

text \<open>What the constructor accepts is what the worker's theories call valid settings.\<close>

lemma positive_value_Inr: "positive_value name v = Inr i \<longleftrightarrow> v = VInt i \<and> 0 < i"
  by (auto simp: positive_value_def value_error_def split: pyval.splits)

lemma finite_value_Inr: "finite_value name v = Inr r \<longleftrightarrow> number_value v = Some r"
  by (auto simp: finite_value_def value_error_def split: option.splits)

lemma free_space_values_Inr:
  "free_space_values mfb mfr = Inr (b, r) \<longleftrightarrow>
     mfb = VInt b \<and> 0 \<le> b \<and> number_value mfr = Some r \<and> 0 \<le> r \<and> r < 1"
  by (auto simp: free_space_values_def value_error_def split: pyval.splits option.splits if_splits)

lemma make_settings_valid:
  "make_settings v = Inr s \<Longrightarrow> settings_post_init s = Inr ()"
  unfolding make_settings_def
  by (cases "v_flush_on_shutdown v")
    (auto simp: bindR_eq_Inr positive_value_Inr finite_value_Inr free_space_values_Inr value_error_def
      settings_post_init_def validate_free_space_settings_def positive_integer_def split: if_splits)

subsection \<open>SpoolConfiguration\<close>

record spool_configuration =
  sc_path :: ustr
  sc_max_pending_rows :: pyval
  sc_max_pending_bytes :: pyval
  sc_max_event_bytes :: pyval
  sc_max_dead_letter_rows :: pyval
  sc_max_dead_letter_bytes :: pyval
  sc_busy_timeout_seconds :: pyval

text \<open>The checks of \<open>SQLiteSpool.__init__\<close> on the values of \<open>spool_factory\<close>, up to the connection.\<close>

definition spool_limits :: "spool_configuration \<Rightarrow> (limits \<times> rat) res" where
  "spool_limits c =
     bindR (positive_value ''max_pending_rows'' (sc_max_pending_rows c)) (\<lambda>pr.
     bindR (positive_value ''max_pending_bytes'' (sc_max_pending_bytes c)) (\<lambda>pb.
     bindR (positive_value ''max_event_bytes'' (sc_max_event_bytes c)) (\<lambda>eb.
     bindR (positive_value ''max_dead_letter_rows'' (sc_max_dead_letter_rows c)) (\<lambda>dr.
     bindR (positive_value ''max_dead_letter_bytes'' (sc_max_dead_letter_bytes c)) (\<lambda>db.
     if eb > pb then value_error ''max_event_bytes must not exceed max_pending_bytes''
     else if eb > db then value_error ''max_event_bytes must not exceed max_dead_letter_bytes''
     else bindR (positive_finite_value ''busy_timeout_seconds'' (sc_busy_timeout_seconds c)) (\<lambda>busy.
       Inr (\<lparr>max_pending_rows = pr, max_pending_bytes = pb, max_event_bytes = eb,
         max_dead_letter_rows = dr, max_dead_letter_bytes = db\<rparr>, busy)))))))"

lemma positive_finite_value_Inr: "positive_finite_value name v = Inr r \<longleftrightarrow> number_value v = Some r \<and> 0 < r"
  by (auto simp: positive_finite_value_def value_error_def split: option.splits)

lemma spool_limits_valid: "spool_limits c = Inr (L, busy) \<Longrightarrow> check_limits L = Inr () \<and> 0 < busy"
  by (auto simp: spool_limits_def bindR_eq_Inr positive_value_Inr positive_finite_value_Inr value_error_def
      check_limits_def positive_integer_def split: if_splits)

subsection \<open>Connections\<close>

text \<open>
  The data of an entry: the form stores strings, an integer, booleans, and for the credentials a
  string or \<open>None\<close>. Entries of older versions may lack a key, which reads like \<open>None\<close>.
\<close>

record entry_data =
  d_host :: ustr
  d_port :: int
  d_table :: ustr
  d_use_tls :: "bool option"
  d_tls_self_signed :: "bool option"
  d_username :: "ustr option"
  d_password :: "ustr option"

record connection_configuration =
  host :: ustr
  port :: int
  use_tls :: bool
  timeout_seconds :: pyval
  username :: "ustr option"
  password :: "ustr option"
  tls_self_signed :: bool

text \<open>\<open>x or None\<close> on a string or \<open>None\<close>\<close>

definition or_none :: "ustr option \<Rightarrow> ustr option" where
  "or_none v = (if v = Some [] then None else v)"

definition connection_configuration :: "entry_data \<Rightarrow> pydict \<Rightarrow> connection_configuration" where
  "connection_configuration d options =
     \<lparr>host = d_host d, port = d_port d, use_tls = (d_use_tls d = Some True),
      timeout_seconds = dict_get options CONF_HTTP_TIMEOUT_SECONDS PROVISIONAL_HTTP_TIMEOUT_SECONDS,
      username = or_none (d_username d), password = or_none (d_password d),
      tls_self_signed = (d_tls_self_signed d = Some True)\<rparr>"

text \<open>An \<open>SSLContext\<close> is known by whether there is one.\<close>

definition tls_context :: "connection_configuration \<Rightarrow> bool" where
  "tls_context c = tls_self_signed c"

text \<open>
  \<open>IlpHttpTransport(...)\<close>: a timeout that is no number makes the comparison \<open>timeout_seconds <= 0\<close>
  raise, after the checks of host and port.
\<close>

definition build_transport ::
    "connection_configuration \<Rightarrow> (nat \<Rightarrow> exchange) \<Rightarrow> transport res" where
  "build_transport c network =
     (case number_of (timeout_seconds c) of
        Some t \<Rightarrow> make_transport (host c) (port c) (use_tls c) t (username c) (password c) (tls_context c) network
      | None \<Rightarrow> bindR (make_transport (host c) (port c) False 1 None None False network) (\<lambda>_.
          Inl (mk_exn TypeError (lit ''unorderable types''))))"

definition make_schema_manager ::
    "connection_configuration \<Rightarrow> int \<Rightarrow> (nat \<Rightarrow> exchange) \<Rightarrow> schema_manager res" where
  "make_schema_manager c days network =
     bindR (build_transport c network) (\<lambda>t.
       Inr \<lparr>sm_transport = t, retention_days = days, ttl_rejected = False\<rparr>)"

lemma make_transport_fresh: "make_transport h p tls t u pw ctx network = Inr tr \<Longrightarrow> requests tr = []"
  by (auto simp: make_transport_def bindR_eq_Inr Let_def split: if_splits option.splits)

lemma build_transport_fresh: "build_transport c network = Inr tr \<Longrightarrow> requests tr = []"
  by (auto simp: build_transport_def bindR_eq_Inr dest: make_transport_fresh split: option.splits)

subsection \<open>RuntimeConfiguration\<close>

record runtime_configuration =
  rc_table :: ustr
  rc_spool :: spool_configuration
  rc_connection :: connection_configuration
  rc_worker :: worker_settings
  rc_start_timeout :: rat
  rc_stop_timeout :: rat
  tracked_entity_ids :: "ustr list option"
  entity_filter :: "(ustr \<Rightarrow> bool) option"
  rc_attribute_filter :: "attribute_filter option"
  rc_retention_days :: int

definition make_runtime_configuration ::
    "ustr \<Rightarrow> spool_configuration \<Rightarrow> connection_configuration \<Rightarrow> worker_settings \<Rightarrow> pyval \<Rightarrow> pyval \<Rightarrow>
     ustr list option \<Rightarrow> (ustr \<Rightarrow> bool) option \<Rightarrow> attribute_filter option \<Rightarrow> int \<Rightarrow> runtime_configuration res" where
  "make_runtime_configuration tab sc conn ws start stop tracked ef af days =
     (if tab = [] then value_error ''table must not be empty''
      else bindR (positive_finite_value ''start_timeout_seconds'' start) (\<lambda>start_t.
        bindR (positive_finite_value ''stop_timeout_seconds'' stop) (\<lambda>stop_t.
        if (case tracked of Some ids \<Rightarrow> ids = [] \<or> [] \<in> set ids | None \<Rightarrow> False) then
          value_error ''tracked_entity_ids must be None or non-empty entity IDs''
        else Inr \<lparr>rc_table = tab, rc_spool = sc, rc_connection = conn, rc_worker = ws,
          rc_start_timeout = start_t, rc_stop_timeout = stop_t, tracked_entity_ids = tracked,
          entity_filter = ef, rc_attribute_filter = af, rc_retention_days = days\<rparr>)))"

subsection \<open>Filters of the options\<close>

text \<open>
  \<open>convert\<close> is \<open>convert_include_exclude_filter\<close> of Home Assistant, from the two sides to the filter.
\<close>

definition filter_side_of :: "pydict \<Rightarrow> string \<Rightarrow> string \<times> pyval" where
  "filter_side_of options key =
     (let side = (case dict_get options key VNone of VDict d \<Rightarrow> d | _ \<Rightarrow> []) in
      (key, VDict (map (\<lambda>k. (k, dict_get side k (VList []))) [CONF_DOMAINS, CONF_ENTITY_GLOBS, CONF_ENTITIES])))"

definition entity_filter_of :: "(pydict \<Rightarrow> ustr \<Rightarrow> bool) \<Rightarrow> pydict \<Rightarrow> (ustr \<Rightarrow> bool) option" where
  "entity_filter_of convert options =
     (if CONF_INCLUDE \<notin> fst ` set options \<and> CONF_EXCLUDE \<notin> fst ` set options then None
      else Some (convert (map (filter_side_of options) [CONF_INCLUDE, CONF_EXCLUDE])))"

text \<open>\<open>tuple(...)\<close> of a stored list of strings; a string would give its characters.\<close>

fun string_of :: "pyval \<Rightarrow> ustr res" where
  "string_of (VStr s) = Inr s"
| "string_of _ = Inl (mk_exn TypeError (lit ''expected str''))"

fun strings_of :: "pyval \<Rightarrow> ustr list res" where
  "strings_of (VList vs) = mapR string_of vs"
| "strings_of (VStr s) = Inr (map (\<lambda>c. [c]) s)"
| "strings_of _ = Inl (mk_exn TypeError (lit ''object is not iterable''))"

definition attribute_filter_of :: "pydict \<Rightarrow> attribute_filter option res" where
  "attribute_filter_of options =
     bindR (strings_of (dict_get options CONF_ATTRIBUTE_ALLOWLIST (VList []))) (\<lambda>al.
     bindR (strings_of (dict_get options CONF_ATTRIBUTE_DENYLIST (VList []))) (\<lambda>de.
       Inr (if al = [] \<and> de = [] then None else Some \<lparr>allow = al, deny = de\<rparr>)))"

text \<open>\<open>int(v)\<close>, on texts in decimal ASCII digits with an optional sign.\<close>

definition int_of_text :: "ustr \<Rightarrow> int option" where
  "int_of_text s =
     (let t = py_strip s; digits = (if t \<noteq> [] \<and> hd t \<in> {43, 45} then tl t else t)
      in if digits \<noteq> [] \<and> list_all (\<lambda>c. 48 \<le> c \<and> c \<le> 57) digits
         then Some ((if hd t = 45 then -1 else 1) * int (nat_of_digits digits)) else None)"

fun py_int :: "pyval \<Rightarrow> int res" where
  "py_int (VInt i) = Inr i"
| "py_int (VBool b) = Inr (if b then 1 else 0)"
| "py_int (VFloat r) = Inr (if 0 \<le> r then \<lfloor>r\<rfloor> else \<lceil>r\<rceil>)"
| "py_int (VStr s) = (case int_of_text s of Some i \<Rightarrow> Inr i
     | None \<Rightarrow> value_error ''invalid literal for int()'')"
| "py_int _ = Inl (mk_exn TypeError (lit ''int() argument must be a string or a real number''))"

definition retention_days_of :: "pydict \<Rightarrow> int res" where
  "retention_days_of options =
     (let v = dict_get options CONF_RETENTION_DAYS (VInt 0) in py_int (if py_bool v then v else VInt 0))"

subsection \<open>\<open>_runtime_configuration\<close>\<close>

definition settings_values_of :: "pydict \<Rightarrow> settings_values" where
  "settings_values_of options =
     \<lparr>v_ingress_queue_capacity = dict_get options CONF_INGRESS_QUEUE_CAPACITY PROVISIONAL_INGRESS_QUEUE_CAPACITY,
      v_max_serialized_event_bytes =
        dict_get options CONF_MAX_SERIALIZED_EVENT_BYTES PROVISIONAL_MAX_SERIALIZED_EVENT_BYTES,
      v_persist_batch_rows = dict_get options CONF_PERSIST_BATCH_ROWS PROVISIONAL_PERSIST_BATCH_ROWS,
      v_delivery_batch_rows = dict_get options CONF_DELIVERY_BATCH_ROWS PROVISIONAL_DELIVERY_BATCH_ROWS,
      v_delivery_batch_bytes = dict_get options CONF_DELIVERY_BATCH_BYTES PROVISIONAL_DELIVERY_BATCH_BYTES,
      v_flush_interval_seconds = dict_get options CONF_FLUSH_INTERVAL_SECONDS PROVISIONAL_FLUSH_INTERVAL_SECONDS,
      v_persist_idle_poll_seconds =
        dict_get options CONF_PERSIST_IDLE_POLL_SECONDS PROVISIONAL_PERSIST_IDLE_POLL_SECONDS,
      v_retry_initial_seconds = dict_get options CONF_RETRY_INITIAL_SECONDS PROVISIONAL_RETRY_INITIAL_SECONDS,
      v_retry_max_seconds = dict_get options CONF_RETRY_MAX_SECONDS PROVISIONAL_RETRY_MAX_SECONDS,
      v_retry_multiplier = dict_get options CONF_RETRY_MULTIPLIER PROVISIONAL_RETRY_MULTIPLIER,
      v_retry_jitter_ratio = dict_get options CONF_RETRY_JITTER_RATIO PROVISIONAL_RETRY_JITTER_RATIO,
      v_flush_on_shutdown = dict_get options CONF_FLUSH_ON_SHUTDOWN PROVISIONAL_FLUSH_ON_SHUTDOWN,
      v_min_free_bytes = dict_get options CONF_SPOOL_MIN_FREE_BYTES PROVISIONAL_SPOOL_MIN_FREE_BYTES,
      v_min_free_ratio = dict_get options CONF_SPOOL_MIN_FREE_RATIO PROVISIONAL_SPOOL_MIN_FREE_RATIO\<rparr>"

definition spool_configuration_of :: "ustr \<Rightarrow> pydict \<Rightarrow> spool_configuration" where
  "spool_configuration_of path options =
     \<lparr>sc_path = path,
      sc_max_pending_rows = dict_get options CONF_MAX_PENDING_ROWS PROVISIONAL_MAX_PENDING_ROWS,
      sc_max_pending_bytes = dict_get options CONF_MAX_PENDING_BYTES PROVISIONAL_MAX_PENDING_BYTES,
      sc_max_event_bytes = dict_get options CONF_MAX_SERIALIZED_EVENT_BYTES PROVISIONAL_MAX_SERIALIZED_EVENT_BYTES,
      sc_max_dead_letter_rows = dict_get options CONF_MAX_DEAD_LETTER_ROWS PROVISIONAL_MAX_DEAD_LETTER_ROWS,
      sc_max_dead_letter_bytes = dict_get options CONF_MAX_DEAD_LETTER_BYTES PROVISIONAL_MAX_DEAD_LETTER_BYTES,
      sc_busy_timeout_seconds =
        dict_get options CONF_SQLITE_BUSY_TIMEOUT_SECONDS PROVISIONAL_SQLITE_BUSY_TIMEOUT_SECONDS\<rparr>"

text \<open>The path is \<open>hass.config.path(".storage", DOMAIN, f"{entry.entry_id}.db")\<close>.\<close>

definition runtime_configuration_of ::
    "(pydict \<Rightarrow> ustr \<Rightarrow> bool) \<Rightarrow> ustr \<Rightarrow> entry_data \<Rightarrow> pydict \<Rightarrow> runtime_configuration res" where
  "runtime_configuration_of convert path d options =
     bindR (make_settings (settings_values_of options)) (\<lambda>ws.
     bindR (attribute_filter_of options) (\<lambda>af.
     bindR (retention_days_of options) (\<lambda>days.
       make_runtime_configuration (d_table d) (spool_configuration_of path options)
         (connection_configuration d options) ws
         (dict_get options CONF_START_TIMEOUT_SECONDS PROVISIONAL_START_TIMEOUT_SECONDS)
         (dict_get options CONF_STOP_TIMEOUT_SECONDS PROVISIONAL_STOP_TIMEOUT_SECONDS)
         None (entity_filter_of convert options) af days)))"

text \<open>Every runtime configuration holds settings the worker accepts.\<close>

lemma make_runtime_configuration_fields:
  assumes "make_runtime_configuration tab sc conn ws start stop tracked ef af days = Inr c"
  shows "rc_table c = tab \<and> tab \<noteq> [] \<and> rc_spool c = sc \<and> rc_connection c = conn \<and> rc_worker c = ws \<and>
    0 < rc_start_timeout c \<and> 0 < rc_stop_timeout c"
  using assms
  by (auto simp: make_runtime_configuration_def value_error_def bindR_eq_Inr positive_finite_value_Inr split: if_splits)

lemma runtime_configuration_settings:
  assumes "runtime_configuration_of convert path d options = Inr c"
  shows "settings_post_init (rc_worker c) = Inr () \<and> rc_table c = d_table d \<and> d_table d \<noteq> [] \<and>
    rc_spool c = spool_configuration_of path options \<and> rc_connection c = connection_configuration d options \<and>
    0 < rc_start_timeout c \<and> 0 < rc_stop_timeout c"
  using assms
  by (auto simp: runtime_configuration_of_def bindR_eq_Inr dest!: make_runtime_configuration_fields make_settings_valid)

end
