(* ===== verification/Runtime.thy ===== *)
theory Runtime
  imports Config WorkerSafety
begin

section \<open>The Home Assistant adapter (runtime.py)\<close>

text \<open>
  \<open>HassQuestDbRuntime\<close> as a record: it owns the worker, the listener, the monitor task and the
  counters. What it asks of Home Assistant (repair issues, the reauthentication flow, log lines) is a
  list of calls in order. The event-id factory, the clock and Home Assistant's \<open>json_dumps\<close> are
  read from \<open>rt_env\<close>. An attribute value is of any type \<open>'v\<close>; only \<open>json_dumps\<close> looks inside.
\<close>

subsection \<open>Timestamps\<close>

text \<open>
  A \<open>datetime\<close> is its local date as days since 1970-01-01, the time of day, and the offset from UTC
  in microseconds that its \<open>tzinfo\<close> answers (\<open>None\<close> for a naive one). A \<open>timedelta\<close> is normalised:
  seconds and microseconds are never negative.
\<close>

record datetime =
  dt_days :: int
  dt_seconds :: int
  dt_microseconds :: int
  dt_utcoffset :: "int option"

definition MIN_DAY :: int where "MIN_DAY = -719162"
definition MAX_DAY :: int where "MAX_DAY = 2932896"

definition local_microseconds :: "datetime \<Rightarrow> int" where
  "local_microseconds t = (dt_days t * 86400 + dt_seconds t) * 1000000 + dt_microseconds t"

definition timedelta_of :: "int \<Rightarrow> int \<times> int \<times> int" where
  "timedelta_of us = (us div 86400000000, us mod 86400000000 div 1000000, us mod 1000000)"

definition datetime_to_epoch_ns :: "datetime \<Rightarrow> int res" where
  "datetime_to_epoch_ns t =
     (case dt_utcoffset t of
        None \<Rightarrow> value_error ''timestamp must be a timezone-aware datetime''
      | Some offset \<Rightarrow>
          (case timedelta_of (local_microseconds t - offset) of (days, seconds, microseconds) \<Rightarrow>
             if days < MIN_DAY \<or> MAX_DAY < days then
               Inl (mk_exn OverflowError (lit ''date value out of range''))
             else Inr ((days * 86400 + seconds) * 1000000000 + microseconds * 1000)))"

subsection \<open>State\<close>

record 'v state_object =
  so_entity_id :: ustr
  so_state :: ustr
  so_attributes :: "(ustr \<times> 'v) list"
  so_last_changed :: datetime
  so_last_updated :: datetime
  so_context_id :: ustr

datatype subscription = AllStateChanges | TrackedEntities "ustr list"

datatype ha_call =
    CreateAuthIssue ustr ustr
  | DeleteAuthIssue ustr
  | StartReauth
  | LogError ustr

text \<open>Where \<open>async_start\<close> and \<open>async_stop\<close> stand: at an \<open>await\<close>, or at their end.\<close>

datatype start_phase = NotStarted | AwaitStart | AwaitCleanup exn | Started | StartRaised exn

datatype stop_phase = NotStopping | AwaitMonitor | AwaitStop bool | StopReturned bool | StopRaised exn

record 'v runtime_env =
  event_id_factory :: "nat \<Rightarrow> ustr"
  json_text :: "(ustr \<times> 'v) list \<Rightarrow> ustr res"
  rt_wall_time :: "nat \<Rightarrow> int"

text \<open>
  The last two fields are not in the program: the history of the worker's run, and how many
  callbacks ended with an exception.
\<close>

record 'v runtime =
  configuration :: runtime_configuration
  service :: worker
  listener :: "subscription option"
  monitor_task :: bool
  entry_id :: "ustr option"
  can_request_reauth :: bool
  reauth_requested :: bool
  events_seen :: int
  events_accepted :: int
  events_without_new_state :: int
  events_skipped_unknown :: int
  events_excluded :: int
  attribute_entries_removed :: int
  conversion_errors :: int
  submission_rejections :: int
  rt_env :: "'v runtime_env"
  ids_made :: nat
  clock_reads :: nat
  ha_calls :: "ha_call list"
  start_job :: bool
  start_phase :: start_phase
  stop_phase :: stop_phase
  ghost_history :: history
  ghost_raised :: int

type_synonym ('v, 'a) runtime_prog = "('v runtime, 'a) prog"

text \<open>
  The constructor with \<open>_make_service\<close>: the table and the settings go to the worker, with a schema
  factory; \<open>dummy_transport\<close> and \<open>dummy_manager\<close> stand in the fields the worker's thread fills.
\<close>

definition make_service ::
    "runtime_configuration \<Rightarrow> spool \<Rightarrow> transport \<Rightarrow> schema_manager \<Rightarrow> worker_env \<Rightarrow> worker res" where
  "make_service c db dummy_transport dummy_manager environment =
     make_worker (rc_table c) (rc_worker c) True db dummy_transport dummy_manager environment"

definition make_runtime ::
    "runtime_configuration \<Rightarrow> worker \<Rightarrow> ustr option \<Rightarrow> bool \<Rightarrow> 'v runtime_env \<Rightarrow> 'v runtime" where
  "make_runtime c w eid reauth e =
     \<lparr>configuration = c, service = w, listener = None, monitor_task = False, entry_id = eid,
      can_request_reauth = reauth, reauth_requested = False, events_seen = 0, events_accepted = 0,
      events_without_new_state = 0, events_skipped_unknown = 0, events_excluded = 0,
      attribute_entries_removed = 0, conversion_errors = 0, submission_rejections = 0, rt_env = e,
      ids_made = 0, clock_reads = 0, ha_calls = [], start_job = False, start_phase = NotStarted,
      stop_phase = NotStopping, ghost_history = new_history, ghost_raised = 0\<rparr>"

text \<open>A call of the worker, and the action it is in the worker's run.\<close>

definition call_service :: "'a worker_prog \<Rightarrow> action \<Rightarrow> ('v, 'a) runtime_prog" where
  "call_service m a r =
     (fst (m (service r)),
      r\<lparr>service := snd (m (service r)), ghost_history := note_down a (service r) (ghost_history r)\<rparr>)"

definition call_ha :: "ha_call \<Rightarrow> ('v, unit) runtime_prog" where
  "call_ha c = modifyP (\<lambda>r. r\<lparr>ha_calls := ha_calls r @ [c]\<rparr>)"

definition liftT :: "'a res \<Rightarrow> ('v, 'a) runtime_prog" where
  "liftT x = (\<lambda>r. (x, r))"

subsection \<open>The listener\<close>

definition STATE_UNKNOWN :: ustr where "STATE_UNKNOWN = lit ''unknown''"

definition next_event_id :: "('v, ustr) runtime_prog" where
  "next_event_id r = (Inr (event_id_factory (rt_env r) (ids_made r)), r\<lparr>ids_made := Suc (ids_made r)\<rparr>)"

definition read_wall_time :: "('v, int) runtime_prog" where
  "read_wall_time r = (Inr (rt_wall_time (rt_env r) (clock_reads r)), r\<lparr>clock_reads := Suc (clock_reads r)\<rparr>)"

definition keep_attributes :: "(ustr \<times> 'v) list \<Rightarrow> ('v, (ustr \<times> 'v) list) runtime_prog" where
  "keep_attributes attributes =
     bindP (getP (rc_attribute_filter \<circ> configuration)) (\<lambda>f.
     case f of
       None \<Rightarrow> returnP attributes
     | Some fl \<Rightarrow>
         let kept = filter (\<lambda>(name, _). filter_passes fl name) attributes in
         bindP (modifyP (\<lambda>r. r\<lparr>attribute_entries_removed :=
           attribute_entries_removed r + (int (length attributes) - int (length kept))\<rparr>)) (\<lambda>_. returnP kept))"

definition build_envelope :: "'v state_object \<Rightarrow> (ustr \<times> 'v) list \<Rightarrow> ('v, envelope) runtime_prog" where
  "build_envelope st attributes =
     bindP next_event_id (\<lambda>eid.
     bindP (getP (\<lambda>r. json_text (rt_env r) attributes)) (\<lambda>dumped.
     bindP (liftT dumped) (\<lambda>txt.
     bindP read_wall_time (\<lambda>ingested.
     bindP (liftT (datetime_to_epoch_ns (so_last_changed st))) (\<lambda>changed.
     bindP (liftT (datetime_to_epoch_ns (so_last_updated st))) (\<lambda>updated.
     liftT (post_init
       \<lparr>raw_event_id = JStr eid, raw_entity_id = JStr (so_entity_id st), raw_state = JStr (so_state st),
        raw_attributes_json = JStr txt, raw_ingested_at_ns = JInt ingested, raw_last_changed_ns = JInt changed,
        raw_last_updated_ns = JInt updated, raw_context_id = JStr (so_context_id st)\<rparr>)))))))"

definition conversion_caught :: "exn \<Rightarrow> bool" where
  "conversion_caught e \<longleftrightarrow> isinstance e EventEnvelopeError \<or> isinstance e TypeError \<or>
     isinstance e ValueError \<or> isinstance e OverflowError"

definition convert_event :: "'v state_object \<Rightarrow> (ustr \<times> 'v) list \<Rightarrow> ('v, envelope option) runtime_prog" where
  "convert_event st attributes =
     catchP (bindP (build_envelope st attributes) (\<lambda>ev. returnP (Some ev))) (\<lambda>e.
       if conversion_caught e then
         bindP (modifyP (\<lambda>r. r\<lparr>conversion_errors := conversion_errors r + 1\<rparr>)) (\<lambda>_.
         bindP (getP conversion_errors) (\<lambda>n.
         bindP (whenP (log_on_power_of_two n) (call_ha (LogError (lit ''Could not convert state event for '' @
             so_entity_id st @ lit '' ('' @ int_str n @ lit '' failures): '' @ exn_msg e)))) (\<lambda>_.
         returnP None)))
       else raiseP e)"

definition submit_event :: "'v state_object \<Rightarrow> envelope \<Rightarrow> ('v, unit) runtime_prog" where
  "submit_event st ev =
     bindP (call_service (submit ev) (Submit ev)) (\<lambda>ok.
     if ok then modifyP (\<lambda>r. r\<lparr>events_accepted := events_accepted r + 1\<rparr>)
     else
       bindP (modifyP (\<lambda>r. r\<lparr>submission_rejections := submission_rejections r + 1\<rparr>)) (\<lambda>_.
       bindP (getP (\<lambda>r. (submission_rejections r, sn_last_error (snapshot (service r))))) (\<lambda>(n, err).
       whenP (log_on_power_of_two n) (call_ha (LogError (lit ''Writer rejected state event for '' @
         so_entity_id st @ lit '' ('' @ int_str n @ lit '' rejections): '' @
         (case err of Some m \<Rightarrow> m | None \<Rightarrow> lit ''None'')))))))"

definition take_state :: "'v state_object \<Rightarrow> ('v, unit) runtime_prog" where
  "take_state st =
     bindP (getP (entity_filter \<circ> configuration)) (\<lambda>f.
     if (case f of Some passes \<Rightarrow> \<not> passes (so_entity_id st) | None \<Rightarrow> False) then
       modifyP (\<lambda>r. r\<lparr>events_excluded := events_excluded r + 1\<rparr>)
     else if so_state st = STATE_UNKNOWN then
       modifyP (\<lambda>r. r\<lparr>events_skipped_unknown := events_skipped_unknown r + 1\<rparr>)
     else
       bindP (keep_attributes (so_attributes st)) (\<lambda>attributes.
       bindP (convert_event st attributes) (\<lambda>converted.
       case converted of
         None \<Rightarrow> returnP ()
       | Some ev \<Rightarrow> submit_event st ev)))"

definition state_changed :: "'v state_object option \<Rightarrow> ('v, unit) runtime_prog" where
  "state_changed new_state =
     bindP (modifyP (\<lambda>r. r\<lparr>events_seen := events_seen r + 1\<rparr>)) (\<lambda>_.
     case new_state of
       None \<Rightarrow> modifyP (\<lambda>r. r\<lparr>events_without_new_state := events_without_new_state r + 1\<rparr>)
     | Some st \<Rightarrow> take_state st)"

subsection \<open>Repair issues\<close>

definition issue_id :: "ustr \<Rightarrow> ustr" where
  "issue_id eid = lit ''auth_failed_'' @ eid"

definition request_reauth_once :: "('v, unit) runtime_prog" where
  "request_reauth_once =
     bindP (getP (\<lambda>r. reauth_requested r \<or> \<not> can_request_reauth r)) (\<lambda>skip.
     if skip then returnP ()
     else bindP (modifyP (\<lambda>r. r\<lparr>reauth_requested := True\<rparr>)) (\<lambda>_. call_ha StartReauth))"

definition sync_auth_issue :: "('v, unit) runtime_prog" where
  "sync_auth_issue =
     bindP (getP entry_id) (\<lambda>eid.
     case eid of
       None \<Rightarrow> returnP ()
     | Some i \<Rightarrow>
         bindP (getP (snapshot \<circ> service)) (\<lambda>sn.
         bindP (getP (host \<circ> rc_connection \<circ> configuration)) (\<lambda>h.
         if sn_state sn = BLOCKED \<and> sn_block_reason sn = Some BlockAuth then
           bindP (call_ha (CreateAuthIssue (issue_id i) h)) (\<lambda>_. request_reauth_once)
         else
           bindP (call_ha (DeleteAuthIssue (issue_id i))) (\<lambda>_.
           modifyP (\<lambda>r. r\<lparr>reauth_requested := False\<rparr>)))))"

subsection \<open>async_start\<close>

text \<open>
  \<open>raise_after_stop e\<close> is the \<open>except BaseException\<close> clause: the worker is asked to stop, with a
  join in the executor if its thread is alive, and \<open>e\<close> is raised again.
\<close>

definition raise_after_stop :: "exn \<Rightarrow> ('v, unit) runtime_prog" where
  "raise_after_stop e =
     bindP (getP (rc_stop_timeout \<circ> configuration)) (\<lambda>timeout.
     bindP (catchP
         (bindP (call_service (stop_request timeout) (Stop timeout)) (\<lambda>answer.
          case answer of
            None \<Rightarrow> returnP (AwaitCleanup e)
          | Some stopped \<Rightarrow> bindP (whenP (\<not> stopped)
              (call_ha (LogError (lit ''Writer did not stop after config-entry setup failed''))))
              (\<lambda>_. returnP (StartRaised e))))
         (\<lambda>_. bindP (call_ha (LogError (lit ''Could not stop writer after config-entry setup failed'')))
           (\<lambda>_. returnP (StartRaised e)))) (\<lambda>phase.
     modifyP (\<lambda>r. r\<lparr>start_phase := phase\<rparr>)))"

text \<open>The call of \<open>service.start\<close> in the executor, up to the wait for the thread.\<close>

definition begin_start :: "('v, unit) runtime_prog" where
  "begin_start =
     bindP (getP (rc_start_timeout \<circ> configuration)) (\<lambda>timeout.
     catchP
       (bindP (call_service (start_thread timeout) (Start timeout)) (\<lambda>_.
        modifyP (\<lambda>r. r\<lparr>start_job := True, start_phase := AwaitStart\<rparr>)))
       raise_after_stop)"

definition register_listener :: "('v, unit) runtime_prog" where
  "register_listener =
     bindP (getP (tracked_entity_ids \<circ> configuration)) (\<lambda>ids.
     bindP (modifyP (\<lambda>r. r\<lparr>listener := Some (case ids of None \<Rightarrow> AllStateChanges | Some es \<Rightarrow> TrackedEntities es)\<rparr>))
       (\<lambda>_.
     bindP (getP entry_id) (\<lambda>eid.
     whenP (eid \<noteq> None) (bindP sync_auth_issue (\<lambda>_. modifyP (\<lambda>r. r\<lparr>monitor_task := True\<rparr>))))))"

text \<open>
  The rest of \<open>service.start\<close>, and of the coroutine if it still waits for it: a cancelled setup
  leaves the call running in the executor.
\<close>

definition finish_start :: "bool \<Rightarrow> ('v, unit) runtime_prog" where
  "finish_start ready =
     bindP (modifyP (\<lambda>r. r\<lparr>start_job := False\<rparr>)) (\<lambda>_.
     bindP (getP start_phase) (\<lambda>phase.
     catchP
       (bindP (call_service (start_finish ready) (StartFinish ready)) (\<lambda>_.
        whenP (phase = AwaitStart)
          (bindP register_listener (\<lambda>_. modifyP (\<lambda>r. r\<lparr>start_phase := Started\<rparr>)))))
       (\<lambda>e. whenP (phase = AwaitStart) (raise_after_stop e))))"

definition cancel_start :: "('v, unit) runtime_prog" where
  "cancel_start = raise_after_stop (mk_exn CancelledError [])"

definition cleanup_joined :: "exn \<Rightarrow> ('v, unit) runtime_prog" where
  "cleanup_joined e =
     bindP (getP (stop_join \<circ> service)) (\<lambda>stopped.
     bindP (whenP (\<not> stopped) (call_ha (LogError (lit ''Writer did not stop after config-entry setup failed''))))
       (\<lambda>_.
     modifyP (\<lambda>r. r\<lparr>start_phase := StartRaised e\<rparr>)))"

subsection \<open>async_stop\<close>

text \<open>\<open>unsub_ok\<close>: whether Home Assistant's unsubscribe function returned.\<close>

definition forget_issue :: "('v, unit) runtime_prog" where
  "forget_issue =
     bindP (getP entry_id) (\<lambda>eid.
     case eid of None \<Rightarrow> returnP () | Some i \<Rightarrow> call_ha (DeleteAuthIssue (issue_id i)))"

definition stop_returns :: "bool \<Rightarrow> bool \<Rightarrow> ('v, unit) runtime_prog" where
  "stop_returns unsubscribed stopped =
     bindP forget_issue (\<lambda>_. modifyP (\<lambda>r. r\<lparr>stop_phase := StopReturned (unsubscribed \<and> stopped)\<rparr>))"

definition unsubscribe_and_stop :: "bool \<Rightarrow> ('v, unit) runtime_prog" where
  "unsubscribe_and_stop unsub_ok =
     bindP (getP listener) (\<lambda>unsubscribe.
     bindP (if unsubscribe = None then returnP True
            else if unsub_ok then bindP (modifyP (\<lambda>r. r\<lparr>listener := None\<rparr>)) (\<lambda>_. returnP True)
            else bindP (call_ha (LogError (lit ''Could not remove the state-change listener'')))
              (\<lambda>_. returnP False)) (\<lambda>unsubscribed.
     bindP (getP (rc_stop_timeout \<circ> configuration)) (\<lambda>timeout.
     catchP
       (bindP (call_service (stop_request timeout) (Stop timeout)) (\<lambda>answer.
        case answer of
          None \<Rightarrow> modifyP (\<lambda>r. r\<lparr>stop_phase := AwaitStop unsubscribed\<rparr>)
        | Some stopped \<Rightarrow> stop_returns unsubscribed stopped))
       (\<lambda>e. modifyP (\<lambda>r. r\<lparr>stop_phase := StopRaised e\<rparr>)))))"

definition begin_stop :: "bool \<Rightarrow> ('v, unit) runtime_prog" where
  "begin_stop unsub_ok =
     bindP (getP monitor_task) (\<lambda>running.
     if running then modifyP (\<lambda>r. r\<lparr>monitor_task := False, stop_phase := AwaitMonitor\<rparr>)
     else unsubscribe_and_stop unsub_ok)"

definition stop_joined :: "bool \<Rightarrow> ('v, unit) runtime_prog" where
  "stop_joined unsubscribed =
     bindP (getP (stop_join \<circ> service)) (\<lambda>stopped. stop_returns unsubscribed stopped)"

subsection \<open>snapshot\<close>

record adapter_snapshot =
  rs_listener_active :: bool
  rs_state_events_seen :: int
  rs_state_events_accepted :: int
  rs_state_events_without_new_state :: int
  rs_state_events_skipped_unknown :: int
  rs_state_events_excluded :: int
  rs_attribute_entries_removed :: int
  rs_conversion_errors :: int
  rs_submission_rejections :: int
  rs_worker :: worker_snapshot

definition runtime_snapshot :: "'v runtime \<Rightarrow> adapter_snapshot" where
  "runtime_snapshot r =
     \<lparr>rs_listener_active = (listener r \<noteq> None), rs_state_events_seen = events_seen r,
      rs_state_events_accepted = events_accepted r,
      rs_state_events_without_new_state = events_without_new_state r,
      rs_state_events_skipped_unknown = events_skipped_unknown r, rs_state_events_excluded = events_excluded r,
      rs_attribute_entries_removed = attribute_entries_removed r, rs_conversion_errors = conversion_errors r,
      rs_submission_rejections = submission_rejections r, rs_worker = snapshot (service r)\<rparr>"

section \<open>The runtime and its worker, running\<close>

text \<open>
  A run interleaves the callbacks and coroutines of the adapter with the worker's own threads. The
  worker's thread opens the resources the runtime's factories build from the configuration:
  \<open>WorkerOpens n1 n2\<close>, with the networks behind the two transports.
\<close>

datatype 'v runtime_action =
    BeginStart
  | FinishStart bool
  | CancelStart
  | CleanupJoined
  | StateChanged "'v state_object option"
  | MonitorTick
  | BeginStop bool
  | MonitorEnded bool
  | StopJoined
  | WorkerRuns action
  | WorkerOpens "nat \<Rightarrow> exchange" "nat \<Rightarrow> exchange"

fun own_step :: "action \<Rightarrow> bool" where
  "own_step PersistPass = True"
| "own_step DeliveryPass = True"
| "own_step DeliveryCall = True"
| "own_step MainPass = True"
| "own_step MainCall = True"
| "own_step _ = False"

definition opens :: "runtime_configuration \<Rightarrow> (nat \<Rightarrow> exchange) \<Rightarrow> (nat \<Rightarrow> exchange) \<Rightarrow> action option" where
  "opens c n1 n2 =
     (case spool_limits (rc_spool c) of
        Inl _ \<Rightarrow> None
      | Inr (L, busy) \<Rightarrow> Some (Open L busy (build_transport (rc_connection c) n1)
          (make_schema_manager (rc_connection c) (rc_retention_days c) n2)))"

text \<open>Home Assistant tells a listener of tracked entities of these only.\<close>

definition delivered_to :: "subscription \<Rightarrow> 'v state_object option \<Rightarrow> bool" where
  "delivered_to sub new_state =
     (case (sub, new_state) of
        (TrackedEntities ids, Some st) \<Rightarrow> so_entity_id st \<in> set ids
      | _ \<Rightarrow> True)"

fun can_run :: "'v runtime_action \<Rightarrow> 'v runtime \<Rightarrow> bool" where
  "can_run BeginStart r = (start_phase r = NotStarted)"
| "can_run (FinishStart ready) r = (start_job r \<and> enabled (StartFinish ready) (service r))"
| "can_run CancelStart r = (start_phase r = AwaitStart)"
| "can_run CleanupJoined r = (case start_phase r of AwaitCleanup _ \<Rightarrow> True | _ \<Rightarrow> False)"
| "can_run (StateChanged st) r = (case listener r of Some sub \<Rightarrow> delivered_to sub st | None \<Rightarrow> False)"
| "can_run MonitorTick r = monitor_task r"
| "can_run (BeginStop unsub_ok) r = (case stop_phase r of AwaitMonitor \<Rightarrow> False | AwaitStop _ \<Rightarrow> False | _ \<Rightarrow> True)"
| "can_run (MonitorEnded unsub_ok) r = (stop_phase r = AwaitMonitor)"
| "can_run StopJoined r = (case stop_phase r of AwaitStop _ \<Rightarrow> True | _ \<Rightarrow> False)"
| "can_run (WorkerRuns a) r = (own_step a \<and> enabled a (service r))"
| "can_run (WorkerOpens n1 n2) r =
     (case opens (configuration r) n1 n2 of Some a \<Rightarrow> enabled a (service r) | None \<Rightarrow> False)"

definition run_worker :: "action \<Rightarrow> 'v runtime \<Rightarrow> 'v runtime" where
  "run_worker a r = snd (call_service (\<lambda>w. (Inr (), run_action a w)) a r)"

fun run_runtime :: "'v runtime_action \<Rightarrow> 'v runtime \<Rightarrow> 'v runtime" where
  "run_runtime BeginStart r = snd (begin_start r)"
| "run_runtime (FinishStart ready) r = snd (finish_start ready r)"
| "run_runtime CancelStart r = snd (cancel_start r)"
| "run_runtime CleanupJoined r =
     (case start_phase r of AwaitCleanup e \<Rightarrow> snd (cleanup_joined e r) | _ \<Rightarrow> r)"
| "run_runtime (StateChanged st) r =
     (case state_changed st r of
        (Inl e, r') \<Rightarrow> r'\<lparr>ghost_raised := ghost_raised r' + 1\<rparr>
      | (Inr _, r') \<Rightarrow> r')"
| "run_runtime MonitorTick r = snd (sync_auth_issue r)"
| "run_runtime (BeginStop unsub_ok) r = snd (begin_stop unsub_ok r)"
| "run_runtime (MonitorEnded unsub_ok) r = snd (unsubscribe_and_stop unsub_ok r)"
| "run_runtime StopJoined r = (case stop_phase r of AwaitStop b \<Rightarrow> snd (stop_joined b r) | _ \<Rightarrow> r)"
| "run_runtime (WorkerRuns a) r = run_worker a r"
| "run_runtime (WorkerOpens n1 n2) r =
     (case opens (configuration r) n1 n2 of Some a \<Rightarrow> run_worker a r | None \<Rightarrow> r)"

text \<open>Reachable states, from the object \<open>async_setup_entry\<close> makes.\<close>

inductive runtime_reached :: "'v runtime \<Rightarrow> bool" where
  new_runtime: "settings_post_init (rc_worker c) = Inr () \<Longrightarrow> 0 < rc_start_timeout c \<Longrightarrow> 0 < rc_stop_timeout c \<Longrightarrow>
     make_service c db tr sm environment = Inr w \<Longrightarrow> fresh_file db \<Longrightarrow> requests tr = [] \<Longrightarrow>
     runtime_reached (make_runtime c w eid reauth e)"
| ran: "runtime_reached r \<Longrightarrow> can_run a r \<Longrightarrow> \<not> in_transaction (spool (service (run_runtime a r))) \<Longrightarrow>
     runtime_reached (run_runtime a r)"

end
