(* ===== verification/RuntimeInv.thy ===== *)
theory RuntimeInv
  imports Runtime
begin

section \<open>Lemmas on the adapter\<close>

subsection \<open>Its worker runs as the worker's theories say\<close>

lemma calls_keep_spool:
  "spool (snd (submit ev w)) = spool w" "spool (snd (start_thread t w)) = spool w"
  "spool (snd (start_finish ready w)) = spool w" "spool (snd (stop_request t w)) = spool w"
proof -
  show "spool (snd (submit ev w)) = spool w"
    using submit_effect [of ev w] by (auto simp: took_def)
  show "spool (snd (start_thread t w)) = spool w"
    using start_thread_effect [of t w] by auto
  show "spool (snd (start_finish ready w)) = spool w"
    using start_finish_effect [of ready w] by auto
  show "spool (snd (stop_request t w)) = spool w"
    using stop_request_effect [of t w] by auto
qed

text \<open>
  A fact of the worker that its actions keep, once it holds, is kept by every callback and coroutine of
  the adapter. Being reachable is the weakest such fact.
\<close>

definition service_holds :: "(worker \<Rightarrow> bool) \<Rightarrow> 'v runtime \<Rightarrow> bool" where
  "service_holds Q r \<longleftrightarrow> worker_reached (service r) (ghost_history r) \<and> Q (service r)"

definition follows_worker :: "(worker \<Rightarrow> bool) \<Rightarrow> 'v runtime \<Rightarrow> 'v runtime \<Rightarrow> bool" where
  "follows_worker Q r r' \<longleftrightarrow> (service_holds Q r \<longrightarrow> service_holds Q r')"

interpretation follows: journey "follows_worker Q" for Q
  by unfold_locales (auto simp: follows_worker_def)

locale worker_fact =
  fixes Q :: "worker \<Rightarrow> bool"
  assumes sticky: "worker_reached w h \<Longrightarrow> Q w \<Longrightarrow> enabled a w \<Longrightarrow> Q (run_action a w)"
begin

lemma call_reached:
  assumes "service_holds Q r" and "enabled a (service r)" and "run_action a (service r) = snd (m (service r))"
    and "\<not> in_transaction (spool (run_action a (service r)))"
  shows "service_holds Q (snd (call_service m a r))"
  using acted [of "service r" "ghost_history r" a] sticky [of "service r" "ghost_history r" a] assms
  by (simp add: service_holds_def call_service_def)

lemma idle_service: "service_holds Q r \<Longrightarrow> \<not> in_transaction (spool (service r))"
  unfolding service_holds_def by (rule idle_always.holds_always [OF conjunct1])

lemma moves_submit: "moves (follows_worker Q) (call_service (submit ev) (Submit ev))"
  using call_reached [of _ "Submit ev" "submit ev"] idle_service
  by (auto simp: moves_def follows_worker_def calls_keep_spool)

lemma moves_start: "moves (follows_worker Q) (call_service (start_thread t) (Start t))"
  using call_reached [of _ "Start t" "start_thread t"] idle_service
  by (auto simp: moves_def follows_worker_def calls_keep_spool)

lemma moves_stop: "moves (follows_worker Q) (call_service (stop_request t) (Stop t))"
  using call_reached [of _ "Stop t" "stop_request t"] idle_service
  by (auto simp: moves_def follows_worker_def calls_keep_spool)

lemma moves_bookkeeping:
  "(\<And>r. service (g r) = service r \<and> ghost_history (g r) = ghost_history r) \<Longrightarrow> moves (follows_worker Q) (modifyP g)"
  by (auto simp: moves_def follows_worker_def service_holds_def)

lemma moves_call_ha: "moves (follows_worker Q) (call_ha c)"
  unfolding call_ha_def by (rule moves_bookkeeping) simp

lemma moves_liftT: "moves (follows_worker Q) (liftT x)"
  by (simp add: moves_def liftT_def follows_worker_def)

lemma moves_readers: "moves (follows_worker Q) next_event_id" "moves (follows_worker Q) read_wall_time"
  by (simp_all add: moves_def next_event_id_def read_wall_time_def follows_worker_def service_holds_def)

lemmas adapter_moves = follows.moves_intros moves_submit moves_start moves_stop moves_bookkeeping
  moves_call_ha moves_liftT moves_readers conjI refl

lemma moves_state_changed: "moves (follows_worker Q) (state_changed st)"
  unfolding state_changed_def take_state_def keep_attributes_def convert_event_def build_envelope_def submit_event_def Let_def
  by (intro adapter_moves; simp)

lemma moves_sync: "moves (follows_worker Q) sync_auth_issue"
  unfolding sync_auth_issue_def request_reauth_once_def
  by (intro adapter_moves; simp)

lemma moves_raise_after_stop: "moves (follows_worker Q) (raise_after_stop e)"
  unfolding raise_after_stop_def
  by (intro adapter_moves; simp)

lemma moves_register: "moves (follows_worker Q) register_listener"
  unfolding register_listener_def
  by (intro adapter_moves moves_sync; simp)

lemma moves_stopping: "moves (follows_worker Q) (unsubscribe_and_stop ok)" "moves (follows_worker Q) (begin_stop ok)"
  "moves (follows_worker Q) (stop_joined b)" "moves (follows_worker Q) (cleanup_joined e)" "moves (follows_worker Q) begin_start"
  unfolding unsubscribe_and_stop_def begin_stop_def stop_joined_def stop_returns_def forget_issue_def
    cleanup_joined_def begin_start_def
  by (intro adapter_moves moves_raise_after_stop; simp)+

lemma movesD: "moves (follows_worker Q) m \<Longrightarrow> service_holds Q r \<Longrightarrow> service_holds Q (snd (m r))"
  by (simp add: moves_def follows_worker_def)

lemma finish_start_follows:
  fixes r :: "'v runtime"
  assumes "service_holds Q r" and "enabled (StartFinish ready) (service r)"
  shows "service_holds Q (snd (finish_start ready r))"
proof -
  let ?r = "r\<lparr>start_job := False\<rparr>"
  let ?call = "call_service (start_finish ready) (StartFinish ready)"
  have "service_holds Q ?r" using assms(1) by (simp add: service_holds_def)
  then have c: "service_holds Q (snd (?call ?r))"
    using call_reached [of ?r "StartFinish ready" "start_finish ready"] assms(2) idle_service [of ?r]
    by (simp add: calls_keep_spool)
  obtain x r1 where r1: "?call ?r = (x, r1)" by fastforce
  define go :: "'v runtime \<Rightarrow> (exn + unit) \<times> 'v runtime" where
    "go = whenP (start_phase r = AwaitStart)
       (bindP register_listener (\<lambda>_. modifyP (\<lambda>r. r\<lparr>start_phase := Started\<rparr>)))"
  define fail :: "exn \<Rightarrow> 'v runtime \<Rightarrow> (exn + unit) \<times> 'v runtime" where
    "fail = (\<lambda>e. whenP (start_phase r = AwaitStart) (raise_after_stop e))"
  have g: "moves (follows_worker Q) go" unfolding go_def by (intro adapter_moves moves_register; simp)
  have f: "moves (follows_worker Q) (fail e)" for e
    unfolding fail_def by (intro adapter_moves moves_raise_after_stop)
  have e: "finish_start ready r = catchP (bindP ?call (\<lambda>_. go)) fail ?r"
    unfolding go_def fail_def by (simp add: finish_start_def bindP_Inr [OF modifyP_app] bindP_Inr [OF getP_app])
  show ?thesis
  proof (cases x)
    case (Inl exn)
    then have "finish_start ready r = fail exn r1"
      unfolding e by (simp add: catchP_def bindP_def r1)
    then show ?thesis using movesD [OF f] c r1 by simp
  next
    case (Inr u)
    then have "finish_start ready r = catchP go fail r1"
      unfolding e by (simp add: catchP_def bindP_def r1)
    moreover have "moves (follows_worker Q) (catchP go fail)" using g f by (rule follows.moves_catch)
    ultimately show ?thesis using movesD c r1 by (metis snd_conv)
  qed
qed

lemma run_worker_follows:
  assumes "service_holds Q r" and "enabled a (service r)" and "\<not> in_transaction (spool (service (run_worker a r)))"
  shows "service_holds Q (run_worker a r)"
  unfolding run_worker_def
  by (rule call_reached [OF assms(1,2)]) (use assms(3) in \<open>simp_all add: run_worker_def call_service_def\<close>)

lemma runtime_follows:
  assumes "service_holds Q r" and "can_run a r" and "\<not> in_transaction (spool (service (run_runtime a r)))"
  shows "service_holds Q (run_runtime a r)"
proof (cases a)
  case (FinishStart ready)
  then have "enabled (StartFinish ready) (service r)" using assms(2) by (simp del: enabled.simps)
  then show ?thesis using finish_start_follows [OF assms(1)] FinishStart by simp
next
  case CleanupJoined
  then show ?thesis using movesD [OF moves_stopping(4)] assms(1) by (cases "start_phase r") auto
next
  case (StateChanged st)
  have "service_holds Q (snd (state_changed st r))" using movesD [OF moves_state_changed assms(1)] .
  then show ?thesis
    using StateChanged by (auto simp: service_holds_def split: prod.splits sum.splits)
next
  case StopJoined
  then show ?thesis using movesD [OF moves_stopping(3)] assms(1) by (cases "stop_phase r") auto
next
  case (WorkerRuns act)
  then show ?thesis using run_worker_follows [OF assms(1), of act] assms(2,3) by simp
next
  case (WorkerOpens n1 n2)
  then show ?thesis using run_worker_follows [OF assms(1)] assms(2,3) by (auto split: option.splits)
qed (use assms(1) in \<open>simp_all add: movesD moves_stopping moves_sync moves_raise_after_stop cancel_start_def\<close>)

end

interpretation reachable: worker_fact "\<lambda>_. True"
  by unfold_locales simp

definition service_reached :: "'v runtime \<Rightarrow> bool" where
  "service_reached r \<longleftrightarrow> worker_reached (service r) (ghost_history r)"

lemma service_reached_holds: "service_reached = service_holds (\<lambda>_. True)"
  by (simp add: service_reached_def service_holds_def fun_eq_iff)

lemma service_always_reached: "runtime_reached r \<Longrightarrow> service_reached r"
proof (induction rule: runtime_reached.induct)
  case (new_runtime c db tr sm environment w eid reauth e)
  then show ?case
    using new_worker unfolding make_service_def by (auto simp: service_reached_def make_runtime_def)
next
  case (ran r a)
  then show ?case unfolding service_reached_holds by (intro reachable.runtime_follows)
qed

subsection \<open>Every event is counted once\<close>

text \<open>The events seen and not counted anywhere else, and the acceptances counted and not made.\<close>

definition uncounted :: "'v runtime \<Rightarrow> int" where
  "uncounted r = events_seen r - (events_accepted r + events_without_new_state r + events_skipped_unknown r +
     events_excluded r + conversion_errors r + submission_rejections r)"

definition lag :: "'v runtime \<Rightarrow> int" where
  "lag r = events_accepted r - int (length (h_accepted (ghost_history r)))"

definition tally :: "int \<Rightarrow> 'v runtime \<Rightarrow> bool" where
  "tally n r \<longleftrightarrow> uncounted r = n \<and> lag r = 0"

definition books :: "'v runtime \<Rightarrow> int \<times> int \<times> int" where
  "books r = (uncounted r, lag r, ghost_raised r)"

lemmas books_defs = books_def uncounted_def lag_def tally_def

lemma keeps_tally: "keeps books m \<Longrightarrow> triple (tally n) m (\<lambda>_. tally n) (\<lambda>_. tally n)"
  unfolding triple_def keeps_def tally_def books_def by (auto split: prod.splits sum.splits) (metis fst_conv snd_conv)+

lemma submitted_iff: "submitted_now (Submit ev) w = [] \<longleftrightarrow> fst (submit ev w) \<noteq> Inr True"
proof
  assume "submitted_now (Submit ev) w = []"
  moreover have "to_spool_event ev = Inl e \<Longrightarrow> fst (submit ev w) = Inl e" for e
    by (simp add: submit_def bindP_def)
  ultimately show "fst (submit ev w) \<noteq> Inr True" by (auto split: sum.splits)
qed (auto split: sum.splits bool.splits)

lemma submitted_single: "length (submitted_now (Submit ev) w) \<le> 1"
  by (auto split: sum.splits bool.splits)

lemma triple_submit_event:
  "triple (tally (n + 1)) (submit_event st ev) (\<lambda>_. tally n) (\<lambda>_. tally (n + 1))"
proof -
  have c: "triple (tally (n + 1)) (call_service (submit ev) (Submit ev))
      (\<lambda>ok r. uncounted r = n + 1 \<and> lag r = (if ok then -1 else 0)) (\<lambda>_. tally (n + 1))"
  proof (rule tripleI)
    fix r e r' assume r: "tally (n + 1) r" "call_service (submit ev) (Submit ev) r = (Inl e, r')"
    then have "submitted_now (Submit ev) (service r) = []"
      unfolding submitted_iff by (simp add: call_service_def)
    then show "tally (n + 1) r'" using r by (auto simp: call_service_def books_defs simp del: submitted_now.simps)
  next
    fix r ok r' assume r: "tally (n + 1) r" "call_service (submit ev) (Submit ev) r = (Inr ok, r')"
    then have "submitted_now (Submit ev) (service r) = [] \<longleftrightarrow> \<not> ok"
      unfolding submitted_iff by (simp add: call_service_def)
    then have "length (submitted_now (Submit ev) (service r)) = (if ok then 1 else 0)"
      using submitted_single [of ev "service r"] by (cases "submitted_now (Submit ev) (service r)") auto
    then show "uncounted r' = n + 1 \<and> lag r' = (if ok then -1 else 0)"
      using r by (auto simp: call_service_def books_defs simp del: submitted_now.simps)
  qed
  show ?thesis
    unfolding submit_event_def
    by (rule triple_bind [OF c]) (simp add: triple_def bindP_def whenP_def call_ha_def books_defs)
qed

lemma triple_convert_event:
  "triple (tally (n + 1)) (convert_event st attributes)
     (\<lambda>c. tally (if c = None then n else n + 1)) (\<lambda>_. tally (n + 1))"
proof -
  have b: "keeps books (build_envelope st attributes)"
    unfolding build_envelope_def by (intro keeps_intros)
      (simp_all add: keeps_def liftT_def next_event_id_def read_wall_time_def books_defs)
  show ?thesis
    unfolding convert_event_def
    by (rule triple_catch [where R = "\<lambda>_. tally (n + 1)"], rule triple_bind [OF keeps_tally [OF b]])
      (simp_all add: triple_def bindP_def whenP_def call_ha_def books_defs)
qed

lemma triple_take_state: "triple (tally (n + 1)) (take_state st) (\<lambda>_. tally n) (\<lambda>_. tally (n + 1))"
proof -
  have a: "keeps books (keep_attributes attributes)" for attributes
    unfolding keep_attributes_def Let_def by (intro keeps_intros; simp add: books_defs)
  have c: "triple (tally (if c = None then n else n + 1))
      (case c of None \<Rightarrow> returnP () | Some ev \<Rightarrow> submit_event st ev) (\<lambda>_. tally n) (\<lambda>_. tally (n + 1))" for c
    using triple_submit_event by (cases c) (simp_all add: triple_def)
  have f: "triple (tally (n + 1)) (getP g) (\<lambda>_. tally (n + 1)) (\<lambda>_. tally (n + 1))" for g :: "'v runtime \<Rightarrow> 'f"
    by (simp add: triple_def)
  show ?thesis
    unfolding take_state_def
    by (rule triple_bind [OF f]; intro triple_if;
        (rule triple_bind [OF keeps_tally [OF a] triple_bind [OF triple_convert_event c]])?)
      (simp_all add: triple_def books_defs)
qed

lemma triple_state_changed: "triple (tally n) (state_changed st) (\<lambda>_. tally n) (\<lambda>_. tally (n + 1))"
proof -
  have seen: "triple (tally n) (modifyP (\<lambda>r. r\<lparr>events_seen := events_seen r + 1\<rparr>)) (\<lambda>_. tally (n + 1)) (\<lambda>_. tally (n + 1))"
    by (simp add: triple_def books_defs)
  have counted: "triple (tally (n + 1)) (modifyP (\<lambda>r. r\<lparr>events_without_new_state := events_without_new_state r + 1\<rparr>))
      (\<lambda>_. tally n) (\<lambda>_. tally (n + 1))"
    by (simp add: triple_def books_defs)
  show ?thesis
    unfolding state_changed_def
    by (rule triple_bind [OF seen]) (cases st; simp add: counted triple_take_state)
qed

text \<open>The other coroutines and the worker's threads touch none of the books.\<close>

lemma keeps_books_calls:
  "keeps books (call_service m (Stop t))" "keeps books (call_service m (Start t))"
  "keeps books (call_service m (StartFinish b))" "keeps books (call_ha c)" "keeps books (liftT x)"
  by (simp_all add: keeps_def call_service_def call_ha_def liftT_def books_defs)

lemmas adapter_keeps = keeps_intros keeps_books_calls

lemma keeps_books_raise: "keeps books (raise_after_stop e)"
  unfolding raise_after_stop_def by (intro adapter_keeps; simp add: books_defs)

lemma keeps_books_sync: "keeps books sync_auth_issue"
  unfolding sync_auth_issue_def request_reauth_once_def by (intro adapter_keeps; simp add: books_defs)

lemma keeps_books_starting: "keeps books begin_start" "keeps books (finish_start ready)" "keeps books (cleanup_joined e)"
  unfolding begin_start_def finish_start_def register_listener_def cleanup_joined_def
  by (intro adapter_keeps keeps_books_raise keeps_books_sync; simp add: books_defs)+

lemma keeps_books_stopping:
  "keeps books (unsubscribe_and_stop ok)" "keeps books (begin_stop ok)" "keeps books (stop_joined b)"
  unfolding unsubscribe_and_stop_def begin_stop_def stop_joined_def stop_returns_def forget_issue_def
  by (intro adapter_keeps; simp add: books_defs)+

lemma run_worker_books:
  assumes "own_step a \<or> opens c n1 n2 = Some a"
  shows "books (run_worker a r) = books r"
proof -
  have "submitted_now a (service r) = []"
    using assms by (cases a) (auto simp: opens_def split: sum.splits)
  then show ?thesis by (simp add: run_worker_def call_service_def books_defs)
qed

lemma keeps_raised: "keeps ghost_raised (state_changed st)"
  unfolding state_changed_def take_state_def keep_attributes_def convert_event_def build_envelope_def submit_event_def
    Let_def call_ha_def
  by (intro keeps_intros; simp add: keeps_def call_service_def liftT_def next_event_id_def read_wall_time_def)

lemma counted_always:
  assumes "runtime_reached r"
  shows "tally (ghost_raised r) r"
  using assms
proof (induction rule: runtime_reached.induct)
  case (new_runtime c db tr sm environment w eid reauth e)
  then show ?case by (simp add: make_runtime_def books_defs new_history_def)
next
  case (ran r a)
  have same: "tally (ghost_raised r') r'" if "books r' = books r" for r'
    using that ran.IH by (simp add: books_def tally_def)
  show ?case
  proof (cases a)
    case (StateChanged st)
    obtain x r' where r': "state_changed st r = (x, r')" by fastforce
    have "ghost_raised r' = ghost_raised r" using keepsD [OF keeps_raised r'] .
    then show ?thesis
      using triple_InrD [OF triple_state_changed ran.IH, of st] triple_InlD [OF triple_state_changed ran.IH, of st]
        StateChanged r' by (cases x) (auto simp: books_defs)
  next
    case CleanupJoined
    then show ?thesis using keeps_snd [OF keeps_books_starting(3)] same by (cases "start_phase r") auto
  next
    case StopJoined
    then show ?thesis using keeps_snd [OF keeps_books_stopping(3)] same by (cases "stop_phase r") auto
  next
    case (WorkerRuns act)
    then have "books (run_worker act r) = books r" using ran.hyps(2) by (intro run_worker_books) simp
    then show ?thesis using same WorkerRuns by simp
  next
    case (WorkerOpens n1 n2)
    then show ?thesis using same [OF run_worker_books] ran.IH by (auto split: option.splits)
  qed (simp_all add: same keeps_snd [OF keeps_books_starting(1)] keeps_snd [OF keeps_books_starting(2)]
      keeps_snd [OF keeps_books_raise] keeps_snd [OF keeps_books_sync] keeps_snd [OF keeps_books_stopping(1)]
      keeps_snd [OF keeps_books_stopping(2)] cancel_start_def)
qed

subsection \<open>Reauthentication is asked for once per outage\<close>

fun spaced :: "bool \<Rightarrow> ha_call list \<Rightarrow> bool" where
  "spaced asked [] = True"
| "spaced asked (StartReauth # cs) = (\<not> asked \<and> spaced True cs)"
| "spaced asked (DeleteAuthIssue i # cs) = spaced False cs"
| "spaced asked (c # cs) = spaced asked cs"

fun asked_after :: "bool \<Rightarrow> ha_call list \<Rightarrow> bool" where
  "asked_after asked [] = asked"
| "asked_after asked (StartReauth # cs) = asked_after True cs"
| "asked_after asked (DeleteAuthIssue i # cs) = asked_after False cs"
| "asked_after asked (c # cs) = asked_after asked cs"

lemma spaced_append: "spaced b (xs @ ys) \<longleftrightarrow> spaced b xs \<and> spaced (asked_after b xs) ys"
  by (induction b xs rule: spaced.induct) auto

lemma asked_after_append: "asked_after b (xs @ ys) = asked_after (asked_after b xs) ys"
  by (induction b xs rule: asked_after.induct) auto

lemma asked_until_deleted: "\<forall>i. DeleteAuthIssue i \<notin> set cs \<Longrightarrow> asked_after True cs"
  by (induction "True" cs rule: asked_after.induct) auto

lemma spaced_between:
  assumes "spaced False (xs @ StartReauth # mid @ StartReauth # ys)"
  shows "\<exists>i. DeleteAuthIssue i \<in> set mid"
proof (rule ccontr)
  assume "\<nexists>i. DeleteAuthIssue i \<in> set mid"
  then have "asked_after True mid" using asked_until_deleted by blast
  then show False using assms by (simp add: spaced_append)
qed

definition reauth_ok :: "'v runtime \<Rightarrow> bool" where
  "reauth_ok r \<longleftrightarrow> spaced False (ha_calls r) \<and> (asked_after False (ha_calls r) \<longrightarrow> reauth_requested r)"

definition asks_once :: "'v runtime \<Rightarrow> 'v runtime \<Rightarrow> bool" where
  "asks_once r r' \<longleftrightarrow> (reauth_ok r \<longrightarrow> reauth_ok r')"

interpretation asking: journey asks_once
  by unfold_locales (auto simp: asks_once_def)

lemma asks_call_service: "moves asks_once (call_service m a)"
  by (simp add: moves_def asks_once_def call_service_def reauth_ok_def)

lemma asks_logging: "moves asks_once (call_ha (LogError m))" "moves asks_once (call_ha (DeleteAuthIssue i))"
  "moves asks_once (call_ha (CreateAuthIssue i h))"
  by (simp_all add: moves_def asks_once_def call_ha_def reauth_ok_def spaced_append asked_after_append)

lemma asks_keeps:
  "(\<And>r. ha_calls (g r) = ha_calls r \<and> reauth_requested (g r) = reauth_requested r) \<Longrightarrow> moves asks_once (modifyP g)"
  by (simp add: moves_def asks_once_def reauth_ok_def)

lemma asks_readers: "moves asks_once next_event_id" "moves asks_once read_wall_time" "moves asks_once (liftT x)"
  by (simp_all add: moves_def next_event_id_def read_wall_time_def liftT_def asks_once_def reauth_ok_def)

lemma asks_request: "moves asks_once request_reauth_once"
  by (simp add: moves_def request_reauth_once_def asks_once_def bindP_def call_ha_def reauth_ok_def
      spaced_append asked_after_append)

lemma asks_forget: "moves asks_once (bindP (call_ha (DeleteAuthIssue i)) (\<lambda>_. modifyP (\<lambda>r. r\<lparr>reauth_requested := False\<rparr>)))"
  by (simp add: moves_def asks_once_def bindP_def call_ha_def reauth_ok_def spaced_append asked_after_append)

lemmas adapter_asks = asking.moves_intros asks_call_service asks_logging asks_keeps asks_readers conjI refl

lemma asks_sync: "moves asks_once sync_auth_issue"
  unfolding sync_auth_issue_def
  by (intro asking.moves_bind asking.moves_get moves_option moves_if asking.moves_return asks_logging asks_request asks_forget)

lemma asks_raise: "moves asks_once (raise_after_stop e)"
  unfolding raise_after_stop_def by (intro adapter_asks; simp)

lemma asks_all: "moves asks_once (state_changed st)" "moves asks_once begin_start" "moves asks_once (finish_start ready)"
  "moves asks_once (cleanup_joined e)" "moves asks_once (unsubscribe_and_stop ok)" "moves asks_once (begin_stop ok)"
  "moves asks_once (stop_joined b)"
  unfolding state_changed_def take_state_def keep_attributes_def convert_event_def build_envelope_def submit_event_def
    Let_def begin_start_def finish_start_def register_listener_def cleanup_joined_def unsubscribe_and_stop_def
    begin_stop_def stop_joined_def stop_returns_def forget_issue_def
  by (intro adapter_asks asks_raise asks_sync; simp)+

lemma asks_worker: "asks_once r (run_worker a r)"
  by (simp add: run_worker_def call_service_def asks_once_def reauth_ok_def)

lemma asksD: "moves asks_once m \<Longrightarrow> asks_once r (snd (m r))"
  by (simp add: moves_def)

lemma reauth_always: "runtime_reached r \<Longrightarrow> reauth_ok r"
proof (induction rule: runtime_reached.induct)
  case (new_runtime c db tr sm environment w eid reauth e)
  then show ?case by (simp add: make_runtime_def reauth_ok_def)
next
  case (ran r a)
  have "asks_once r (run_runtime a r)"
  proof (cases a)
    case (StateChanged st)
    have "asks_once r (snd (state_changed st r))" by (rule asksD [OF asks_all(1)])
    then show ?thesis using StateChanged by (auto simp: asks_once_def reauth_ok_def split: prod.splits sum.splits)
  next
    case CleanupJoined
    then show ?thesis by (cases "start_phase r") (simp_all add: asksD asks_all asking.R_refl)
  next
    case StopJoined
    then show ?thesis by (cases "stop_phase r") (simp_all add: asksD asks_all asking.R_refl)
  next
    case (WorkerOpens n1 n2)
    then show ?thesis by (simp add: asks_worker asking.R_refl split: option.splits)
  qed (simp_all add: asksD asks_all asks_sync asks_raise asks_worker cancel_start_def)
  then show ?case using ran.IH by (simp add: asks_once_def)
qed

subsection \<open>Rejected credentials\<close>

text \<open>What the repair issue is decided on, after the delivery loop has handled a rejection by the
  server: of a batch, or of the schema check that comes before the first batch.\<close>

definition reported :: "worker \<Rightarrow> worker_state \<times> block_reason option" where
  "reported w = (w_state w, block_reason w)"

lemma set_blocked:
  assumes "w_state w \<notin> {STOPPING, FAILED}"
  shows "\<exists>w'. set_delivery_state BLOCKED err delay reason w = (Inr (), w') \<and> reported w' = (BLOCKED, reason)"
  using assms by (cases err) (simp_all add: set_delivery_state_def bindP_def reported_def)

lemma keeps_reported_after: "keeps reported (after_outcome out)"
  unfolding after_outcome_def spool_stats_now_def set_spool_stats_def
  by (cases out; intro keeps_intros; simp add: reported_def keeps_def on_spool_def split: prod.splits)

lemma reported_delivery_run: "reported (delivery_run m w) = reported (snd (m w))"
  by (auto simp: delivery_run_def reported_def split: prod.splits sum.splits delivery_next.splits)

lemma schema_rejection_state:
  assumes "isinstance e AuthenticationIlpError" and "delivery_task w = DeliverEnsured (Inl e)"
    and "w_state w \<notin> {STOPPING, FAILED}"
  shows "reported (delivery_step w) = (BLOCKED, None)"
proof -
  have p: "isinstance e PermanentIlpError"
    using assms(1) by (cases "exn_class e") (auto simp: isinstance_def)
  obtain w' where w': "set_delivery_state BLOCKED (Some (exn_text e)) None None w = (Inr (), w')"
      "reported w' = (BLOCKED, None)"
    using set_blocked [OF assms(3)] by blast
  have "reported (snd (after_ensure (Inl e) w)) = (BLOCKED, None)"
    using w' p by (simp add: after_ensure_def ensure_finish_def bindP_def reported_def)
  then show ?thesis using assms(2) by (simp add: delivery_step_def reported_delivery_run)
qed

lemma send_rejection_state:
  assumes "isinstance e AuthenticationIlpError" and "delivery_task w = DeliverSent b (Inl e)"
    and "w_state w \<notin> {STOPPING, FAILED}"
  shows "reported (delivery_step w) = (BLOCKED, Some BlockAuth)"
proof -
  obtain w' where w': "set_delivery_state BLOCKED (Some (exn_text e)) None (Some BlockAuth) w = (Inr (), w')"
      "reported w' = (BLOCKED, Some BlockAuth)"
    using set_blocked [OF assms(3)] by blast
  have "deliver_finish LoopBackoff b (Inl e) w = (Inr OutcomeBlocked, w')"
    using w' assms(1) by (simp add: deliver_finish_def deliver_failed_def bindP_def)
  then have "snd (after_send b (Inl e) w) = snd (bindP (after_outcome OutcomeBlocked) (\<lambda>_. returnP NextPass) w')"
    by (simp add: after_send_def deliver_attempt_def bindP_def catchP_def)
  moreover have "keeps reported (bindP (after_outcome OutcomeBlocked) (\<lambda>_. returnP NextPass))"
    by (intro keeps_intros keeps_reported_after)
  ultimately show ?thesis
    using w'(2) assms(2) by (simp add: delivery_step_def reported_delivery_run keeps_def)
qed

lemma sync_effect:
  assumes "entry_id r = Some i"
  shows "ha_calls (snd (sync_auth_issue r)) = ha_calls r @
     (if reported (service r) = (BLOCKED, Some BlockAuth)
      then CreateAuthIssue (issue_id i) (host (rc_connection (configuration r))) #
        (if reauth_requested r \<or> \<not> can_request_reauth r then [] else [StartReauth])
      else [DeleteAuthIssue (issue_id i)])"
  using assms
  by (simp add: sync_auth_issue_def request_reauth_once_def bindP_def call_ha_def snapshot_def reported_def)

end
