(* ===== verification/RuntimeRun.thy ===== *)
theory RuntimeRun
  imports RuntimeInv WorkerRun
begin

section \<open>A run of the adapter, evaluated\<close>

text \<open>A list of actions run one after the other, with the conditions of \<open>runtime_reached\<close> checked.\<close>

fun run_adapter :: "'v runtime_action list \<Rightarrow> 'v runtime \<Rightarrow> 'v runtime option" where
  "run_adapter [] r = Some r"
| "run_adapter (a # rest) r =
     (let r' = run_runtime a r
      in if can_run a r \<and> \<not> in_transaction (spool (service r')) then run_adapter rest r' else None)"

lemma run_adapter_reached: "run_adapter acts r = Some r' \<Longrightarrow> runtime_reached r \<Longrightarrow> runtime_reached r'"
  by (induction acts arbitrary: r)
    (auto simp: Let_def intro: ran split: if_splits simp del: run_runtime.simps can_run.simps)

definition sample_configuration :: runtime_configuration where
  "sample_configuration =
     \<lparr>rc_table = sample_table,
      rc_spool = \<lparr>sc_path = [], sc_max_pending_rows = VInt 3, sc_max_pending_bytes = VInt 5000,
        sc_max_event_bytes = VInt 1000, sc_max_dead_letter_rows = VInt 2, sc_max_dead_letter_bytes = VInt 2000,
        sc_busy_timeout_seconds = VInt 1\<rparr>,
      rc_connection = \<lparr>host = lit ''h'', port = 9000, use_tls = False, timeout_seconds = VInt 1, username = None,
        password = None, tls_self_signed = False\<rparr>,
      rc_worker = sample_settings False, rc_start_timeout = 1, rc_stop_timeout = 9, tracked_entity_ids = None,
      entity_filter = None, rc_attribute_filter = None, rc_retention_days = 0\<rparr>"

definition sample_state :: "unit state_object" where
  "sample_state =
     (let t = \<lparr>dt_days = 0, dt_seconds = 0, dt_microseconds = 0, dt_utcoffset = Some 0\<rparr> in
      \<lparr>so_entity_id = lit ''s.k'', so_state = lit ''1'', so_attributes = [], so_last_changed = t,
       so_last_updated = t, so_context_id = lit ''c''\<rparr>)"

definition sample_runtime_env :: "unit runtime_env" where
  "sample_runtime_env = \<lparr>event_id_factory = (\<lambda>_. lit ''e''), json_text = (\<lambda>_. Inr (lit ''{}'')),
     rt_wall_time = (\<lambda>n. int n)\<rparr>"

definition sample_adapter :: "unit runtime_action list \<Rightarrow> unit runtime option" where
  "sample_adapter acts =
     (case make_service sample_configuration new_file sample_transport sample_manager sample_env of
        Inl _ \<Rightarrow> None
      | Inr w \<Rightarrow> run_adapter acts (make_runtime sample_configuration w (Some (lit ''i'')) True sample_runtime_env))"

lemma sample_adapter_reached: "sample_adapter acts = Some r \<Longrightarrow> runtime_reached r"
proof -
  assume "sample_adapter acts = Some r"
  then obtain w where w: "make_service sample_configuration new_file sample_transport sample_manager sample_env = Inr w"
      "run_adapter acts (make_runtime sample_configuration w (Some (lit ''i'')) True sample_runtime_env) = Some r"
    by (auto simp: sample_adapter_def split: sum.splits)
  have "fresh_file new_file" using new_file_quiet by (simp add: fresh_file_def new_file_def no_faults_def)
  moreover have "requests sample_transport = []" by (simp add: sample_transport_def)
  moreover have "settings_post_init (rc_worker sample_configuration) = Inr ()" by code_simp
  moreover have "0 < rc_start_timeout sample_configuration" "0 < rc_stop_timeout sample_configuration"
    by (simp_all add: sample_configuration_def)
  ultimately have "runtime_reached (make_runtime sample_configuration w (Some (lit ''i'')) True sample_runtime_env)"
    using w(1) by (intro new_runtime)
  then show ?thesis using run_adapter_reached w(2) by blast
qed

definition sample_network :: "nat \<Rightarrow> exchange" where "sample_network = (\<lambda>_. Response 204 [])"

definition one_event_actions :: "unit runtime_action list" where
  "one_event_actions = [BeginStart, WorkerOpens sample_network sample_network, FinishStart True,
     StateChanged None, StateChanged (Some sample_state), MonitorTick]"

lemma sample_one_event:
  "case sample_adapter one_event_actions of None \<Rightarrow> False
   | Some r \<Rightarrow> events_seen r = 2 \<and> events_accepted r = 1 \<and> start_phase r = Started \<and> length (ha_calls r) = 2"
  by code_simp

lemma sample_adapted:
  obtains r :: "unit runtime" where "runtime_reached r" "events_seen r = 2" "events_accepted r = 1" "start_phase r = Started"
    "length (ha_calls r) = 2"
  proof -
  obtain r where "sample_adapter one_event_actions = Some r" "events_seen r = 2" "events_accepted r = 1"
      "start_phase r = Started" "length (ha_calls r) = 2"
    using sample_one_event by (auto split: option.splits)
  then show ?thesis using that sample_adapter_reached by blast
qed

end
