(* ===== verification/RuntimeClaims.thy ===== *)
theory RuntimeClaims
  imports RuntimeRun
begin

section \<open>What the adapter guarantees\<close>

text \<open>
  The properties of runtime.py, from the invariants of RuntimeInv, with witnesses from the evaluated run
  of RuntimeRun; and the exactness of the conversion of timestamps.
\<close>

text \<open>
  C9: The adapter drives its worker only as the worker's contract allows: every reachable state of
  the adapter holds a reachable state of the worker, with the history of the calls the adapter
  made; and the adapter's count of accepted events is the worker's count of submitted events. So
  every property of reachable workers holds inside Home Assistant.
\<close>

theorem adapter_refines_worker:
  assumes "runtime_reached r"
  shows "worker_reached (service r) (ghost_history r) \<and>
    rs_state_events_accepted (runtime_snapshot r) = int (length (h_accepted (ghost_history r))) \<and>
    rs_state_events_accepted (runtime_snapshot r) = sn_submitted_events (rs_worker (runtime_snapshot r))"
proof -
  have w: "worker_reached (service r) (ghost_history r)"
    using service_always_reached [OF assms] by (simp add: service_reached_def)
  have "events_accepted r = int (length (h_accepted (ghost_history r)))"
    using counted_always [OF assms] by (simp add: tally_def lag_def)
  moreover have "submitted_events (service r) = int (length (h_accepted (ghost_history r)))"
    using flow_always.holds_always [OF w] by (simp add: flow_def)
  ultimately show ?thesis using w by (simp add: runtime_snapshot_def snapshot_def)
qed

theorem adapter_refines_worker_witness:
  "\<exists>r :: unit runtime. runtime_reached r \<and> worker_reached (service r) (ghost_history r) \<and>
     sn_submitted_events (snapshot (service r)) = 1"
proof (rule sample_adapted)
  fix r :: "unit runtime" assume r: "runtime_reached r" "events_accepted r = 1"
  then show ?thesis using adapter_refines_worker [OF r(1)] by (intro exI [of _ r]) (simp add: runtime_snapshot_def)
qed

text \<open>
  C10: Every state event is counted exactly once: the events seen are the accepted ones, those
  without a new state, with an unknown state, excluded by the filter, failed in the conversion or
  rejected by the writer, and those whose callback ended with an exception.
\<close>

theorem every_event_is_counted_once:
  assumes "runtime_reached r"
  shows "let s = runtime_snapshot r in
    rs_state_events_seen s = rs_state_events_accepted s + rs_state_events_without_new_state s +
      rs_state_events_skipped_unknown s + rs_state_events_excluded s + rs_conversion_errors s +
      rs_submission_rejections s + ghost_raised r"
  using counted_always [OF assms] by (simp add: tally_def uncounted_def runtime_snapshot_def)

theorem every_event_is_counted_once_witness:
  "\<exists>r :: unit runtime. events_seen r = 2 \<and> events_without_new_state r + events_skipped_unknown r + events_excluded r +
     conversion_errors r + submission_rejections r + ghost_raised r = 1"
proof (rule sample_adapted)
  fix r :: "unit runtime" assume r: "runtime_reached r" "events_seen r = 2" "events_accepted r = 1"
  then show ?thesis
    using every_event_is_counted_once [OF r(1)] by (intro exI [of _ r]) (simp add: runtime_snapshot_def)
qed



definition instant :: "datetime \<Rightarrow> int" where
  "instant t = local_microseconds t - (case dt_utcoffset t of Some off \<Rightarrow> off | None \<Rightarrow> 0)"

definition representable :: "datetime \<Rightarrow> bool" where
  "representable t \<longleftrightarrow> MIN_DAY * 86400000000 \<le> instant t \<and> instant t < (MAX_DAY + 1) * 86400000000"

lemma quotient_bounds:
  fixes us d m c a :: int
  assumes "us = d * c + m" and "0 \<le> m" and "m < c"
  shows "d < a \<longleftrightarrow> us < a * c" and "a < d \<longleftrightarrow> (a + 1) * c \<le> us"
proof -
  have le: "x * c \<le> y * c" if "x \<le> y" for x y using that assms(2,3) by (intro mult_right_mono) auto
  have suc: "(x + 1) * c = x * c + c" for x by (simp add: distrib_right)
  show "d < a \<longleftrightarrow> us < a * c"
  proof (cases "d < a")
    case True
    then have "(d + 1) * c \<le> a * c" by (intro le) simp
    then show ?thesis using True assms unfolding suc by linarith
  next
    case False
    then have "a * c \<le> d * c" by (intro le) simp
    then show ?thesis using False assms by linarith
  qed
  show "a < d \<longleftrightarrow> (a + 1) * c \<le> us"
  proof (cases "a < d")
    case True
    then have "(a + 1) * c \<le> d * c" by (intro le) simp
    then show ?thesis using True assms by linarith
  next
    case False
    then have "(d + 1) * c \<le> (a + 1) * c" by (intro le) simp
    then show ?thesis using False assms unfolding suc by linarith
  qed
qed

lemma day_bounds:
  fixes us :: int
  shows "us div 86400000000 < a \<longleftrightarrow> us < a * 86400000000"
    and "a < us div 86400000000 \<longleftrightarrow> (a + 1) * 86400000000 \<le> us"
  using quotient_bounds [of us "us div 86400000000" 86400000000 "us mod 86400000000" a] by simp_all

text \<open>
  C38: \<open>datetime_to_epoch_ns\<close> is exact on every aware datetime: when its instant, the local time less
  the offset, lies in the years 1 to 9999, the result is the number of nanoseconds from the epoch to
  it, in whole microseconds, whatever the time zone; outside these years it is an \<open>OverflowError\<close>, and
  a naive datetime is a \<open>ValueError\<close>.
\<close>

theorem datetime_conversion_exact:
  "datetime_to_epoch_ns t =
     (if dt_utcoffset t = None then value_error ''timestamp must be a timezone-aware datetime''
      else if representable t then Inr (1000 * instant t)
      else Inl (mk_exn OverflowError (lit ''date value out of range'')))"
proof (cases "dt_utcoffset t")
  case (Some off)
  define us where "us = local_microseconds t - off"
  have i: "instant t = us" by (simp add: instant_def us_def Some)
  have sum: "us = us div 86400000000 * 86400000000 + us mod 86400000000 div 1000000 * 1000000 + us mod 1000000"
  proof -
    have "us mod 86400000000 mod 1000000 = us mod 1000000" by (rule mod_mod_cancel) simp
    then show ?thesis
      using div_mult_mod_eq [of us "86400000000 :: int"] div_mult_mod_eq [of "us mod 86400000000" "1000000 :: int"]
      by linarith
  qed
  have v: "(us div 86400000000 * 86400 + us mod 86400000000 div 1000000) * 1000000000 + us mod 1000000 * 1000 = 1000 * us"
    using sum by (simp add: algebra_simps)
  have r: "(us div 86400000000 < MIN_DAY \<or> MAX_DAY < us div 86400000000) \<longleftrightarrow> \<not> representable t"
    unfolding representable_def i day_bounds by auto
  show ?thesis
    using r v by (auto simp: datetime_to_epoch_ns_def timedelta_of_def Some us_def [symmetric] i)
qed (simp add: datetime_to_epoch_ns_def)

text \<open>
  C18: When QuestDB rejects the credentials of a request for a batch, the next check of the monitor
  creates the repair issue and asks for a reauthentication, unless it already did; but when it
  rejects them in the schema check that precedes the first batch, the worker is blocked without a
  reason and the next check removes the issue: the user is told nothing.
\<close>

theorem credential_rejection_reports:
  assumes "isinstance e AuthenticationIlpError" and "w_state (service r) \<notin> {STOPPING, FAILED}" and "entry_id r = Some i"
  shows "let r' = run_runtime MonitorTick (run_runtime (WorkerRuns DeliveryPass) r) in
    (\<forall>b. delivery_task (service r) = DeliverSent b (Inl e) \<longrightarrow>
       ha_calls r' = ha_calls r @ CreateAuthIssue (issue_id i) (host (rc_connection (configuration r))) #
         (if reauth_requested r \<or> \<not> can_request_reauth r then [] else [StartReauth])) \<and>
    (delivery_task (service r) = DeliverEnsured (Inl e) \<longrightarrow>
       w_state (service r') = BLOCKED \<and> ha_calls r' = ha_calls r @ [DeleteAuthIssue (issue_id i)])"
proof -
  let ?r = "run_runtime (WorkerRuns DeliveryPass) r"
  have same: "ha_calls ?r = ha_calls r" "entry_id ?r = Some i" "configuration ?r = configuration r"
      "reauth_requested ?r = reauth_requested r" "can_request_reauth ?r = can_request_reauth r"
      "service ?r = delivery_step (service r)"
    using assms(3) by (simp_all add: run_worker_def call_service_def)
  have kept: "service (run_runtime MonitorTick ?r) = service ?r"
    using same(2) by (simp add: sync_auth_issue_def request_reauth_once_def bindP_def call_ha_def)
  have calls: "ha_calls (run_runtime MonitorTick ?r) = ha_calls r @
      (if reported (delivery_step (service r)) = (BLOCKED, Some BlockAuth)
       then CreateAuthIssue (issue_id i) (host (rc_connection (configuration r))) #
         (if reauth_requested r \<or> \<not> can_request_reauth r then [] else [StartReauth])
       else [DeleteAuthIssue (issue_id i)])"
    using sync_effect [OF same(2)] same by simp
  show ?thesis
    using calls kept same(6) send_rejection_state [OF assms(1) _ assms(2)] schema_rejection_state [OF assms(1) _ assms(2)]
    by (auto simp: Let_def reported_def)
qed

theorem credential_rejection_reports_witness:
  "\<exists>r :: unit runtime. delivery_task (service r) = DeliverEnsured (Inl (mk_exn AuthenticationIlpError [])) \<and>
     ha_calls (run_runtime MonitorTick (run_runtime (WorkerRuns DeliveryPass) r)) = [DeleteAuthIssue (issue_id [])]"
proof -
  fix w :: worker
  let ?e = "mk_exn AuthenticationIlpError []"
  let ?w = "w\<lparr>w_state := RUNNING, delivery_task := DeliverEnsured (Inl ?e)\<rparr>"
  let ?r = "make_runtime sample_configuration ?w (Some []) True sample_runtime_env"
  have r: "w_state (service ?r) \<notin> {STOPPING, FAILED}" "entry_id ?r = Some []" "ha_calls ?r = []"
    "delivery_task (service ?r) = DeliverEnsured (Inl ?e)"
    by (simp_all add: make_runtime_def)
  have "isinstance ?e AuthenticationIlpError" by simp
  from credential_rejection_reports [OF this r(1,2)] r(3,4)
  show ?thesis by (intro exI [of _ ?r]) (simp add: Let_def)
qed

end
