(* ===== verification/Shutdown.thy ===== *)
theory Shutdown
  imports WorkerSafety
begin

section \<open>The persist loop comes to an end\<close>

text \<open>
  The clock of the worker is read in order, so the number of readings only grows; a pass of the
  persist loop on shutdown that neither returns nor raises has read a time before the deadline.
\<close>

definition elapses :: "worker \<Rightarrow> worker \<Rightarrow> bool" where
  "elapses w w' \<longleftrightarrow> now w \<le> now w'"

interpretation elapsing: journey elapses
  by unfold_locales (auto simp: elapses_def)

named_theorems elapse

lemma elapse_basic [elapse]: "moves elapses (on_spool m)" "moves elapses (ask_env f)" "moves elapses (liftW r)"
  by (simp_all add: moves_def elapses_def on_spool_app)

lemma elapse_modify: "(\<And>w. now (g w) = now w) \<Longrightarrow> moves elapses (modifyP g)"
  by (simp add: moves_def elapses_def)

lemmas elapse_intros = elapsing.moves_intros elapse_modify

lemma elapse_base [elapse]:
  "moves elapses (set_delivery_state st err delay reason)" "moves elapses (count_dead_letter_move m n)"
  "moves elapses (next_retry_delay b)" "moves elapses (reset_backoff b)" "moves elapses count_retry"
  "moves elapses (set_held k)" "moves elapses (set_spool_stats stats)" "moves elapses task_done"
  unfolding set_delivery_state_def count_dead_letter_move_def next_retry_delay_def reset_backoff_def count_retry_def
    set_held_def set_spool_stats_def task_done_def
  by (intro elapse_intros elapse; simp)+

lemma elapse_storage [elapse]:
  "moves elapses spool_stats_now" "moves elapses (block_on_storage why err)" "moves elapses resume_after_storage_block"
  "moves elapses check_storage" "moves elapses (reclaim_call m)"
  unfolding spool_stats_now_def block_on_storage_def resume_after_storage_block_def check_storage_def reclaim_call_def
  by (intro elapse_intros elapse; simp)+

lemma elapse_reclaim [elapse]: "moves elapses reclaim_spool"
  unfolding reclaim_spool_def by (intro elapse_intros elapse; simp)

lemma elapse_persist [elapse]: "moves elapses drain_ingress" "moves elapses (try_enqueue evs)" "moves elapses persist_held"
  unfolding drain_ingress_def try_enqueue_def persist_held_def
  by (intro elapse_intros elapse; simp)+

lemma elapses_scan:
  "(\<And>b. moves R (k b)) \<Longrightarrow> (\<And>r e. moves R (h r e)) \<Longrightarrow>
   moves R (case s of Built b \<Rightarrow> k b | Undecodable r e \<Rightarrow> h r e)"
  by (cases s) auto

lemma elapses_outcome:
  assumes "\<And>d. moves R (on_retry d)" "moves R on_blocked" "moves R on_dead" "moves R on_split" "moves R on_success"
  shows "moves R (case out of OutcomeRetry d \<Rightarrow> on_retry d | OutcomeBlocked \<Rightarrow> on_blocked
    | OutcomeDeadLetter \<Rightarrow> on_dead | OutcomeSplit \<Rightarrow> on_split | OutcomeSuccess \<Rightarrow> on_success)"
  using assms by (cases out) auto

lemma elapse_begin [elapse]:
  "moves elapses (bury_undecodable r e)" "moves elapses (build_batch isolate)" "moves elapses (deliver_begin isolate b)"
  "moves elapses (retry_later b e)" "moves elapses (bury_rejected b batch e)" "moves elapses (deliver_failed b batch e)"
  "moves elapses (deliver_succeeded b batch)" "moves elapses (deliver_finish b batch answer)"
  unfolding bury_undecodable_def build_batch_def deliver_begin_def retry_later_def bury_rejected_def deliver_failed_def
    deliver_succeeded_def deliver_finish_def
  by (intro elapse_intros elapse elapses_scan; simp)+

lemma elapse_loop [elapse]:
  "moves elapses (after_outcome out)" "moves elapses m \<Longrightarrow> moves elapses (deliver_attempt m)"
  unfolding after_outcome_def deliver_attempt_def
  by (intro elapse_intros elapse elapses_outcome; simp)+

lemma elapse_rest [elapse]: "moves elapses deliver_rest" "moves elapses (ensure_finish answer)"
  unfolding deliver_rest_def ensure_finish_def
  by (intro elapse_intros elapse; simp)+

lemma elapse_delivery [elapse]:
  "moves elapses deliver_pass" "moves elapses (after_ensure answer)" "moves elapses (after_send batch answer)"
  "moves elapses flush_begin" "moves elapses flush_check" "moves elapses (flush_checked answer)"
  "moves elapses (flush_sent batch answer)"
  unfolding deliver_pass_def after_ensure_def after_send_def flush_begin_def flush_check_def flush_checked_def
    flush_sent_def
  by (intro elapse_intros elapse; simp)+

lemma elapseD: "moves elapses m \<Longrightarrow> m w = (r, w') \<Longrightarrow> now w \<le> now w'"
  unfolding moves_def elapses_def by (metis snd_conv)

lemma delivery_run_elapses:
  assumes "moves elapses m"
  shows "now w \<le> now (delivery_run m w)"
proof -
  obtain r w' where m: "m w = (r, w')" by fastforce
  show ?thesis
    using elapseD [OF assms m] m by (cases r) (auto simp: delivery_run_def split: delivery_next.splits)
qed

lemma main_run_elapses:
  assumes "moves elapses m"
  shows "now w \<le> now (main_run m w)"
proof -
  obtain r w' where m: "m w = (r, w')" by fastforce
  show ?thesis using elapseD [OF assms m] m by (cases r) (auto simp: main_run_def)
qed

subsection \<open>What the loop's end depends on\<close>

definition deadline_view :: "worker \<Rightarrow> worker_env \<times> bool \<times> rat option \<times> persist_task" where
  "deadline_view w = (env w, stop_async w, shutdown_deadline w, persist_task w)"

lemma view_of_control: "control w' = control w \<Longrightarrow> deadline_view w' = deadline_view w"
  by (simp add: control_def deadline_view_def)

lemma delivery_run_view:
  assumes "keeps control m"
  shows "deadline_view (delivery_run m w) = deadline_view w"
proof -
  obtain r w' where m: "m w = (r, w')" by fastforce
  have "deadline_view w' = deadline_view w" using view_of_control keepsD [OF assms m] .
  then show ?thesis using m
    by (cases r) (auto simp: delivery_run_def deadline_view_def split: delivery_next.splits)
qed

lemma main_run_view:
  assumes "keeps control m"
  shows "deadline_view (main_run m w) = deadline_view w"
proof -
  obtain r w' where m: "m w = (r, w')" by fastforce
  have "deadline_view w' = deadline_view w" using view_of_control keepsD [OF assms m] .
  then show ?thesis using m by (cases r) (auto simp: main_run_def deadline_view_def)
qed

subsection \<open>A pass that does not end the loop\<close>

lemma bindP_assoc: "bindP (bindP m f) g = bindP m (\<lambda>x. bindP (f x) g)"
  by (rule ext) (simp add: bindP_def split: prod.split sum.split)

definition pass_work :: "unit worker_prog" where
  "pass_work =
     bindP drain_ingress (\<lambda>_.
     bindP (getP held) (\<lambda>evs.
     bindP (if evs \<noteq> [] then bindP persist_held (\<lambda>_. returnP ()) else returnP ()) (\<lambda>_.
     bindP spool_stats_now (\<lambda>_. modifyP (\<lambda>w. w\<lparr>wake_deliver := True\<rparr>)))))"

lemma pass_work_elapses: "moves elapses pass_work"
  unfolding pass_work_def by (intro elapse_intros elapse; simp)

lemma pass_work_control: "keeps control pass_work"
  unfolding pass_work_def
  by (intro keeps_intros control_intake control_persist_held control_of_outer [OF outer_stats_now])
    (simp_all add: control_def)

definition pass_end :: "persist_pause worker_prog" where
  "pass_end =
     bindP (getP stop_async) (\<lambda>stopping.
       if stopping then
         bindP (getP (\<lambda>w. (length (held w) + length (ingress w), shutdown_deadline w))) (\<lambda>(left, deadline).
           if left = 0 then returnP PersistDone
           else (case deadline of
               None \<Rightarrow> returnP (PersistSleep SHUTDOWN_RETRY_SECONDS)
             | Some d \<Rightarrow>
                 bindP (ask_env monotonic) (\<lambda>t.
                   if t \<ge> d then
                     raiseP (mk_exn WorkerShutdownError (lit ''shutdown left '' @ nat_str left @
                       lit '' accepted events unpersisted''))
                   else
                     bindP (ask_env monotonic) (\<lambda>t'.
                       returnP (PersistSleep (min SHUTDOWN_RETRY_SECONDS (max 0 (d - t'))))))))
       else
         bindP (modifyP (\<lambda>w. w\<lparr>wake_persist := False\<rparr>)) (\<lambda>_.
         bindP (getP (persist_idle_poll_seconds \<circ> settings)) (\<lambda>poll.
         returnP (PersistWait poll))))"

lemma pass_by_work: "persist_pass = bindP pass_work (\<lambda>_. pass_end)"
  unfolding persist_pass_def pass_work_def pass_end_def bindP_assoc ..

lemma pass_end_reads:
  assumes "pass_end w = (Inr p, w')" and "p \<noteq> PersistDone" and "stop_async w" and "shutdown_deadline w = Some d"
  shows "now w < now w' \<and> monotonic (env w) (now w) < d"
proof (cases "length (held w) + length (ingress w) = 0")
  case True
  then have "pass_end w = (Inr PersistDone, w)" using assms(3) by (simp add: pass_end_def bindP_def)
  then show ?thesis using assms(1,2) by simp
next
  case False
  then have "fst (pass_end w) = (if d \<le> monotonic (env w) (now w)
      then Inl (mk_exn WorkerShutdownError (lit ''shutdown left '' @
        nat_str (length (held w) + length (ingress w)) @ lit '' accepted events unpersisted''))
      else Inr (PersistSleep (min SHUTDOWN_RETRY_SECONDS (max 0 (d - monotonic (env w) (Suc (now w)))))))"
    and "now w < now (snd (pass_end w))"
    using assms(3,4) by (auto simp add: pass_end_def bindP_def)
  then show ?thesis using assms(1) by (auto split: if_splits)
qed

lemma pass_reads_clock:
  assumes m: "persist_pass w = (Inr p, w')" and "p \<noteq> PersistDone" and "stop_async w" and "shutdown_deadline w = Some d"
  shows "\<exists>i \<ge> now w. i < now w' \<and> monotonic (env w) i < d"
proof -
  obtain x w2 where w2: "pass_work w = (x, w2)" by fastforce
  have view: "env w2 = env w" "stop_async w2" "shutdown_deadline w2 = Some d"
    using view_of_control [OF keepsD [OF pass_work_control w2]] assms(3,4) by (simp_all add: deadline_view_def)
  have "pass_end w2 = (Inr p, w')"
    using m w2 unfolding pass_by_work by (cases x) (simp_all add: bindP_def)
  then show ?thesis
    using pass_end_reads [OF _ assms(2) view(2,3)] view(1) elapseD [OF pass_work_elapses w2] by auto
qed

lemma persist_step_stopping:
  assumes "stop_async w" and "shutdown_deadline w = Some d" and "persist_task (persist_step w) = PersistLooping"
  shows "\<exists>i \<ge> now w. i < now (persist_step w) \<and> monotonic (env w) i < d"
proof -
  obtain p w' where "persist_pass w = (Inr p, w')" "p \<noteq> PersistDone" "persist_step w = w'"
    using assms(3) by (auto simp: persist_step_def split: prod.splits sum.splits persist_pause.splits)
  then show ?thesis using pass_reads_clock assms(1,2) by blast
qed

lemma elapse_pass: "moves elapses persist_pass"
  unfolding persist_pass_def by (intro elapse_intros elapse; simp)

lemma persist_step_view:
  "now w \<le> now (persist_step w)" "env (persist_step w) = env w" "stop_async (persist_step w) = stop_async w"
  "shutdown_deadline (persist_step w) = shutdown_deadline w"
proof -
  obtain r w' where m: "persist_pass w = (r, w')" by fastforce
  have v: "now w \<le> now w'" "env w' = env w" "stop_async w' = stop_async w" "shutdown_deadline w' = shutdown_deadline w"
    using elapseD [OF elapse_pass m] view_of_control [OF keepsD [OF control_persist_pass m]]
    by (simp_all add: deadline_view_def)
  obtain t where t: "persist_step w = w'\<lparr>persist_task := t\<rparr>"
  proof (cases r)
    case (Inl e)
    then have "persist_step w = w'\<lparr>persist_task := PersistRaised e\<rparr>" using m by (simp add: persist_step_def)
    then show ?thesis by (rule that)
  next
    case (Inr p)
    then have "persist_step w = w'\<lparr>persist_task := (case p of PersistDone \<Rightarrow> PersistReturned | _ \<Rightarrow> persist_task w')\<rparr>"
      using m by (cases p) (simp_all add: persist_step_def)
    then show ?thesis by (rule that)
  qed
  show "now w \<le> now (persist_step w)" "env (persist_step w) = env w"
    "stop_async (persist_step w) = stop_async w" "shutdown_deadline (persist_step w) = shutdown_deadline w"
    unfolding t using v by simp_all
qed

subsection \<open>The other actions\<close>

fun undisturbed :: "action \<Rightarrow> bool" where
  "undisturbed (Start t) = False"
| "undisturbed (Stop t) = False"
| "undisturbed (Open L busy tr sm) = False"
| "undisturbed a = True"

definition goes_on :: "worker \<Rightarrow> worker \<Rightarrow> bool" where
  "goes_on w w' \<longleftrightarrow> now w \<le> now w' \<and> env w' = env w \<and> stop_async w' \<and> shutdown_deadline w' = shutdown_deadline w"

lemma goes_on_view: "deadline_view w' = deadline_view w \<Longrightarrow> now w \<le> now w' \<Longrightarrow> stop_async w \<Longrightarrow> goes_on w w'"
  by (simp add: deadline_view_def goes_on_def)

lemma ungated_control: "keeps (\<lambda>w. (control w, intake w)) m \<Longrightarrow> keeps control m"
  by (rule keeps_part [where h = fst]) auto

lemma delivery_run_goes_on: "keeps control m \<Longrightarrow> moves elapses m \<Longrightarrow> stop_async w \<Longrightarrow> goes_on w (delivery_run m w)"
  by (intro goes_on_view delivery_run_view delivery_run_elapses)

lemma main_run_goes_on: "keeps control m \<Longrightarrow> moves elapses m \<Longrightarrow> stop_async w \<Longrightarrow> goes_on w (main_run m w)"
  by (intro goes_on_view main_run_view main_run_elapses)

lemma goes_on_refl: "stop_async w \<Longrightarrow> goes_on w w"
  by (simp add: goes_on_def)

lemma delivery_goes_on: "stop_async w \<Longrightarrow> goes_on w (delivery_step w)"
  by (cases "delivery_task w")
    (simp_all add: delivery_step_def goes_on_refl delivery_run_goes_on elapse ungated_control [OF ungated_deliver_pass]
      ungated_control [OF ungated_after_ensure] control_of_outer [OF outer_after_send])

lemma finally_goes_on:
  assumes "stop_async w"
  shows "goes_on w (run_finally failed w)"
  by (cases rule: run_finally_effect [of w failed]) (use assms in \<open>simp_all add: goes_on_def\<close>)

lemma main_goes_on:
  assumes "stop_async w"
  shows "goes_on w (main_step w)"
proof -
  note flush = control_of_outer [OF outer_flush(1)] control_of_outer [OF outer_flush(2)]
    control_of_outer [OF outer_flush(3)] control_of_outer [OF outer_flush(4)]
  have "goes_on w (main_observe w)" "goes_on w (main_cancel w)"
    using assms by (auto simp: main_observe_def main_cancel_def goes_on_def split: delivery_task.splits)
  moreover have "goes_on w (case persist_task w of PersistRaised e \<Rightarrow> w\<lparr>main_task := MainEnded (Some e)\<rparr>
      | PersistReturned \<Rightarrow> main_run flush_check w | PersistLooping \<Rightarrow> w)"
    using assms flush main_run_goes_on elapse by (cases "persist_task w") (simp_all add: goes_on_def goes_on_refl)
  ultimately show ?thesis
    by (cases "main_task w")
      (simp_all add: main_step_def goes_on_refl assms main_run_goes_on flush elapse finally_goes_on)
qed

lemma executor_goes_on: "stop_async w \<Longrightarrow> goes_on w (executor_delivery w)" "stop_async w \<Longrightarrow> goes_on w (executor_main w)"
  by (auto simp: executor_delivery_def executor_main_def run_ensure_def run_send_def goes_on_def
      split: delivery_task.splits main_task.splits prod.splits)

lemma action_goes_on:
  assumes "stop_async w" and "undisturbed a"
  shows "goes_on w (run_action a w)"
proof (cases a)
  case (Submit ev)
  have "now (snd (submit ev w)) = now w \<and> env (snd (submit ev w)) = env w \<and>
      stop_async (snd (submit ev w)) = stop_async w \<and> shutdown_deadline (snd (submit ev w)) = shutdown_deadline w"
    using submit_effect [of ev w] by (elim disjE exE conjE) (simp_all add: took_def)
  then show ?thesis using Submit assms(1) by (simp add: goes_on_def)
next
  case (StartFinish ready)
  then show ?thesis
    using start_finish_effect [of ready w] assms(1) by (elim disjE exE) (simp_all add: goes_on_def)
next
  case PersistPass
  then show ?thesis using persist_step_view [of w] assms(1) by (simp add: goes_on_def)
qed (use assms in \<open>simp_all add: delivery_goes_on main_goes_on executor_goes_on\<close>)

subsection \<open>Every run ends the loop\<close>

definition passes :: "action list \<Rightarrow> nat" where
  "passes acts = length (filter (\<lambda>a. a = PersistPass) acts)"

end
