(* ===== verification/ShutdownClaims.thy ===== *)
theory ShutdownClaims
  imports Shutdown
begin

section \<open>A stop comes to an end\<close>

text \<open>
  The variant of Shutdown, the clock readings left before the deadline, applied to a whole run.
\<close>

text \<open>
  C12: Once the persist loop has seen the request to stop, it ends: whatever SQLite and the
  filesystem answer and however the other coroutines, the executor and calls of \<open>submit\<close> interleave,
  a run with more persist passes than there are clock readings before the deadline contains a point
  where the loop has returned or raised.
\<close>

theorem shutdown_ends_persist_loop:
  assumes "stop_async w" and "shutdown_deadline w = Some d" and "\<forall>n \<ge> N. d \<le> monotonic (env w) n"
    and "\<forall>a \<in> set acts. undisturbed a" and "N - now w < passes acts"
  shows "\<exists>early later. acts = early @ later \<and> persist_task (fold run_action early w) \<noteq> PersistLooping"
  using assms
proof (induction acts arbitrary: w)
  case Nil
  then show ?case by (simp add: passes_def)
next
  case (Cons a acts)
  let ?w = "run_action a w"
  have g: "goes_on w ?w" using action_goes_on Cons.prems(1,4) by simp
  show ?case
  proof (cases "a = PersistPass \<and> persist_task ?w \<noteq> PersistLooping")
    case True
    then have "persist_task (fold run_action [a] w) \<noteq> PersistLooping" by auto
    then show ?thesis by - (rule exI [of _ "[a]"], rule exI [of _ acts], simp)
  next
    case False
    have "N - now ?w < passes acts"
    proof (cases "a = PersistPass")
      case True
      then obtain i where "now w \<le> i" "i < now ?w" "monotonic (env w) i < d"
        using persist_step_stopping [OF Cons.prems(1,2)] False by auto
      then have "now w < N" "now w < now ?w"
        using Cons.prems(3) by (meson le_trans not_less, simp)
      then show ?thesis using Cons.prems(5) True by (simp add: passes_def)
    next
      case other: False
      have "now w \<le> now ?w" using g by (simp add: goes_on_def)
      then have "N - now ?w \<le> N - now w" by (rule diff_le_mono2)
      then show ?thesis using Cons.prems(5) other by (simp add: passes_def)
    qed
    then obtain early later where "acts = early @ later" "persist_task (fold run_action early ?w) \<noteq> PersistLooping"
      using Cons.IH [of ?w] g Cons.prems(2-4) by (auto simp: goes_on_def)
    then show ?thesis by - (rule exI [of _ "a # early"], rule exI [of _ later], simp)
  qed
qed

theorem shutdown_ends_persist_loop_witness:
  "\<exists>w :: worker. \<exists>early later. stop_async w \<and> [PersistPass, DeliveryPass, PersistPass] = early @ later \<and>
     persist_task (fold run_action early w) \<noteq> PersistLooping"
proof -
  fix w0 :: worker
  let ?w = "w0\<lparr>stop_async := True, shutdown_deadline := Some 1, env := (env w0)\<lparr>monotonic := of_nat\<rparr>, now := 0\<rparr>"
  have "\<forall>n \<ge> 1. 1 \<le> monotonic (env ?w) n" by simp
  moreover have "1 - now ?w < passes [PersistPass, DeliveryPass, PersistPass]" by (simp add: passes_def)
  ultimately show ?thesis
    using shutdown_ends_persist_loop [of ?w 1 1 "[PersistPass, DeliveryPass, PersistPass]"]
    by (intro exI [of _ ?w]) simp
qed

end
