(* ===== verification/Setup.thy ===== *)
theory Setup
  imports RuntimeInv
begin

section \<open>Setting an entry up and unloading it (__init__.py)\<close>

text \<open>
  \<open>async_setup_entry\<close> and \<open>async_unload_entry\<close> as steps over the runtime they own, from await to
  await; a reload is an unload and a new setup with a new runtime. \<open>es_runtime_data\<close> is whether the
  entry holds the runtime, \<open>es_sensors\<close> whether the sensor platform is loaded.
\<close>

datatype setup_phase =
    SetupNew
  | SetupStarts
  | SetupForwards
  | SetupUndoes exn
  | SetupOk
  | SetupRaised exn
  | UnloadStops
  | UnloadForwards
  | UnloadReturned bool
  | UnloadRaised exn

record 'v entry_setup =
  es_runtime :: "'v runtime"
  es_phase :: setup_phase
  es_runtime_data :: bool
  es_sensors :: bool
  es_update_listener :: bool

definition new_setup :: "'v runtime \<Rightarrow> 'v entry_setup" where
  "new_setup r = \<lparr>es_runtime = r, es_phase = SetupNew, es_runtime_data = False, es_sensors = False,
     es_update_listener = False\<rparr>"

text \<open>The first statement: the configuration and the runtime, which may raise.\<close>

definition build_runtime ::
    "(pydict \<Rightarrow> ustr \<Rightarrow> bool) \<Rightarrow> ustr \<Rightarrow> entry_data \<Rightarrow> pydict \<Rightarrow> ustr \<Rightarrow> spool \<Rightarrow> transport \<Rightarrow> schema_manager \<Rightarrow>
     worker_env \<Rightarrow> 'v runtime_env \<Rightarrow> 'v runtime res" where
  "build_runtime convert path d options eid file tr sm environment e =
     bindR (runtime_configuration_of convert path d options) (\<lambda>c.
     bindR (make_service c file tr sm environment) (\<lambda>w.
       Inr (make_runtime c w (Some eid) True e)))"

definition start_failed :: "exn \<Rightarrow> exn" where
  "start_failed e =
     (if isinstance e WorkerStartError \<or> isinstance e WorkerStartTimeoutError
      then mk_exn ConfigEntryNotReady (lit ''QuestDB writer did not start: '' @ exn_msg e) else e)"

definition begin_setup :: "'v entry_setup \<Rightarrow> 'v entry_setup" where
  "begin_setup s = s\<lparr>es_runtime := run_runtime BeginStart (es_runtime s), es_phase := SetupStarts\<rparr>"

definition resume_setup :: "'v entry_setup \<Rightarrow> 'v entry_setup" where
  "resume_setup s =
     (case start_phase (es_runtime s) of
        Started \<Rightarrow> s\<lparr>es_runtime_data := True, es_phase := SetupForwards\<rparr>
      | StartRaised e \<Rightarrow> s\<lparr>es_phase := SetupRaised (start_failed e)\<rparr>
      | _ \<Rightarrow> s)"

text \<open>After \<open>async_forward_entry_setups\<close>: done, or the runtime is stopped again.\<close>

definition forwarded :: "exn option \<Rightarrow> bool \<Rightarrow> 'v entry_setup \<Rightarrow> 'v entry_setup" where
  "forwarded failed unsub_ok s =
     (case failed of
        None \<Rightarrow> s\<lparr>es_sensors := True, es_update_listener := True, es_phase := SetupOk\<rparr>
      | Some e \<Rightarrow> s\<lparr>es_runtime := run_runtime (BeginStop unsub_ok) (es_runtime s), es_phase := SetupUndoes e\<rparr>)"

definition resume_undo :: "exn \<Rightarrow> 'v entry_setup \<Rightarrow> 'v entry_setup" where
  "resume_undo e s =
     (case stop_phase (es_runtime s) of
        StopReturned _ \<Rightarrow> s\<lparr>es_phase := SetupRaised e\<rparr>
      | StopRaised _ \<Rightarrow> s\<lparr>es_runtime := snd (call_ha (LogError
            (lit ''Could not stop the writer after config-entry setup failed'')) (es_runtime s)),
          es_phase := SetupRaised e\<rparr>
      | _ \<Rightarrow> s)"

definition begin_unload :: "bool \<Rightarrow> 'v entry_setup \<Rightarrow> 'v entry_setup" where
  "begin_unload unsub_ok s =
     s\<lparr>es_runtime := run_runtime (BeginStop unsub_ok) (es_runtime s), es_phase := UnloadStops\<rparr>"

definition resume_unload :: "'v entry_setup \<Rightarrow> 'v entry_setup" where
  "resume_unload s =
     (case stop_phase (es_runtime s) of
        StopReturned True \<Rightarrow> s\<lparr>es_phase := UnloadForwards\<rparr>
      | StopReturned False \<Rightarrow> s\<lparr>es_phase := UnloadReturned False\<rparr>
      | StopRaised e \<Rightarrow> s\<lparr>es_phase := UnloadRaised e\<rparr>
      | _ \<Rightarrow> s)"

definition platforms_unloaded :: "exn option \<Rightarrow> 'v entry_setup \<Rightarrow> 'v entry_setup" where
  "platforms_unloaded failed s =
     (case failed of
        None \<Rightarrow> s\<lparr>es_sensors := False, es_phase := UnloadReturned True\<rparr>
      | Some e \<Rightarrow> s\<lparr>es_phase := UnloadRaised e\<rparr>)"

subsection \<open>An entry's life\<close>

text \<open>
  The runtime runs meanwhile; it is started and stopped by the entry's functions only. A cancelled
  setup is the runtime's action \<open>CancelStart\<close>.
\<close>

datatype 'v setup_action =
    SetupBegins
  | SetupResumes
  | Forwarded "exn option" bool
  | UndoResumes
  | UnloadBegins bool
  | UnloadResumes
  | PlatformsUnloaded "exn option"
  | InRuntime "'v runtime_action"

definition stop_over :: "'v runtime \<Rightarrow> bool" where
  "stop_over r \<longleftrightarrow> (case stop_phase r of StopReturned _ \<Rightarrow> True | StopRaised _ \<Rightarrow> True | _ \<Rightarrow> False)"

fun can_setup :: "'v setup_action \<Rightarrow> 'v entry_setup \<Rightarrow> bool" where
  "can_setup SetupBegins s = (es_phase s = SetupNew \<and> can_run BeginStart (es_runtime s))"
| "can_setup SetupResumes s = (es_phase s = SetupStarts)"
| "can_setup (Forwarded failed unsub_ok) s = (es_phase s = SetupForwards)"
| "can_setup UndoResumes s = (\<exists>e. es_phase s = SetupUndoes e)"
| "can_setup (UnloadBegins unsub_ok) s = (es_phase s = SetupOk)"
| "can_setup UnloadResumes s = (es_phase s = UnloadStops)"
| "can_setup (PlatformsUnloaded failed) s = (es_phase s = UnloadForwards)"
| "can_setup (InRuntime a) s =
     (can_run a (es_runtime s) \<and> (case a of BeginStart \<Rightarrow> False | BeginStop _ \<Rightarrow> False | _ \<Rightarrow> True))"

fun run_setup :: "'v setup_action \<Rightarrow> 'v entry_setup \<Rightarrow> 'v entry_setup" where
  "run_setup SetupBegins s = begin_setup s"
| "run_setup SetupResumes s = resume_setup s"
| "run_setup (Forwarded failed unsub_ok) s = forwarded failed unsub_ok s"
| "run_setup UndoResumes s = (case es_phase s of SetupUndoes e \<Rightarrow> resume_undo e s | _ \<Rightarrow> s)"
| "run_setup (UnloadBegins unsub_ok) s = begin_unload unsub_ok s"
| "run_setup UnloadResumes s = resume_unload s"
| "run_setup (PlatformsUnloaded failed) s = platforms_unloaded failed s"
| "run_setup (InRuntime a) s = s\<lparr>es_runtime := run_runtime a (es_runtime s)\<rparr>"

inductive setup_reached :: "'v entry_setup \<Rightarrow> bool" where
  runtime_built: "build_runtime convert path d options eid file tr sm environment e = Inr r \<Longrightarrow>
     fresh_file file \<Longrightarrow> requests tr = [] \<Longrightarrow> setup_reached (new_setup r)"
| setup_ran: "setup_reached s \<Longrightarrow> can_setup a s \<Longrightarrow>
     \<not> in_transaction (spool (service (es_runtime (run_setup a s)))) \<Longrightarrow> setup_reached (run_setup a s)"

end
