(* ===== verification/ConfigFlow.thy ===== *)
theory ConfigFlow
  imports Config
begin

section \<open>The connection form (config_flow.py)\<close>

text \<open>
  The steps of \<open>HassQuestDbWriterConfigFlow\<close> as functions from what Home Assistant holds (the
  entries, the source of the flow) and the form's answer to the result they return, or the exception
  that escapes them. The probe of the connection runs the transport of transport.py over a network.
  A form is known by the default values it shows.
\<close>

subsection \<open>Text\<close>

text \<open>\<open>_split_csv\<close>, and \<open>str.lower\<close> on ASCII letters: other characters of a host name stay.\<close>

definition split_csv :: "ustr \<Rightarrow> ustr list" where
  "split_csv v = filter (\<lambda>p. p \<noteq> []) (map py_strip (py_split 44 v))"

definition py_lower :: "ustr \<Rightarrow> ustr" where
  "py_lower s = map (\<lambda>c. if 65 \<le> c \<and> c \<le> 90 then c + 32 else c) s"

subsection \<open>Entries and forms\<close>

record config_entry =
  ce_entry_id :: ustr
  ce_unique_id :: "ustr option"
  ce_data :: entry_data
  ce_options :: pydict

datatype flow_source = SourceUser | SourceReconfigure ustr | SourceReauth ustr

datatype connection_form =
    UserForm entry_data
  | ReauthForm ustr ustr

datatype flow_result =
    ShowForm string connection_form "string option"
  | AbortFlow string
  | CreateEntry ustr ustr entry_data
  | UpdateEntry ustr entry_data "ustr option" string

definition find_entry :: "config_entry list \<Rightarrow> ustr \<Rightarrow> config_entry option" where
  "find_entry entries i = find (\<lambda>e. ce_entry_id e = i) entries"

definition text_or_empty :: "ustr option \<Rightarrow> ustr" where
  "text_or_empty v = (case v of Some s \<Rightarrow> s | None \<Rightarrow> [])"

text \<open>The defaults of \<open>_user_schema\<close> and \<open>_reauth_schema\<close>, for values with the keys of an entry or none.\<close>

definition user_schema :: "entry_data option \<Rightarrow> connection_form" where
  "user_schema vs =
     (case vs of
        None \<Rightarrow> UserForm \<lparr>d_host = [], d_port = DEFAULT_PORT, d_table = lit DEFAULT_TABLE, d_use_tls = Some False,
          d_tls_self_signed = Some False, d_username = Some [], d_password = Some []\<rparr>
      | Some v \<Rightarrow> UserForm \<lparr>d_host = d_host v, d_port = (if d_port v = 0 then DEFAULT_PORT else d_port v),
          d_table = (if d_table v = [] then lit DEFAULT_TABLE else d_table v),
          d_use_tls = Some (d_use_tls v = Some True), d_tls_self_signed = Some (d_tls_self_signed v = Some True),
          d_username = Some (text_or_empty (d_username v)), d_password = Some (text_or_empty (d_password v))\<rparr>)"

definition reauth_schema :: "ustr option \<Rightarrow> connection_form" where
  "reauth_schema u = ReauthForm (text_or_empty u) []"

fun form_schema :: "flow_source \<Rightarrow> entry_data option \<Rightarrow> connection_form" where
  "form_schema (SourceReauth i) vs = reauth_schema (case vs of Some v \<Rightarrow> d_username v | None \<Rightarrow> None)"
| "form_schema _ vs = user_schema vs"

definition connection_unique_id :: "entry_data \<Rightarrow> ustr" where
  "connection_unique_id d =
     (if d_use_tls d = Some True then lit ''https'' else lit ''http'') @ lit ''://'' @ py_lower (d_host d) @
     lit '':'' @ int_str (d_port d) @ lit ''/'' @ d_table d"

subsection \<open>The connection step\<close>

fun source_entry :: "flow_source \<Rightarrow> config_entry list \<Rightarrow> config_entry option" where
  "source_entry SourceUser entries = None"
| "source_entry (SourceReconfigure i) entries = find_entry entries i"
| "source_entry (SourceReauth i) entries = find_entry entries i"

definition connection_settings :: "config_entry option \<Rightarrow> entry_data \<Rightarrow> connection_configuration" where
  "connection_settings source d =
     connection_configuration d (case source of Some e \<Rightarrow> ce_options e | None \<Rightarrow> [])"

definition test_connection :: "config_entry option \<Rightarrow> entry_data \<Rightarrow> (nat \<Rightarrow> exchange) \<Rightarrow> unit res" where
  "test_connection source d network =
     bindR (build_transport (connection_settings source d) network) (\<lambda>t.
     bindR (fst (exec_query (lit ''select 1'') 0 t)) (\<lambda>_. Inr ()))"

text \<open>The input of a reauthentication: the entry's data with the two credentials of the form.\<close>

definition effective_input :: "flow_source \<Rightarrow> config_entry option \<Rightarrow> entry_data \<Rightarrow> entry_data" where
  "effective_input src source input =
     (case (src, source) of
        (SourceReauth _, Some e) \<Rightarrow> (ce_data e)\<lparr>d_username := Some (text_or_empty (d_username input)),
            d_password := Some (text_or_empty (d_password input))\<rparr>
      | _ \<Rightarrow> input)"

text \<open>Empty credentials keep the stored ones.\<close>

definition keep_stored :: "ustr option \<Rightarrow> ustr option \<Rightarrow> ustr option" where
  "keep_stored given old = (if given = None \<and> or_none old \<noteq> None then old else given)"

definition entered_username :: "config_entry option \<Rightarrow> entry_data \<Rightarrow> ustr option" where
  "entered_username source input =
     (let u = or_none (Some (py_strip (text_or_empty (d_username input)))) in
      case source of Some e \<Rightarrow> keep_stored u (d_username (ce_data e)) | None \<Rightarrow> u)"

definition entered_password :: "config_entry option \<Rightarrow> entry_data \<Rightarrow> ustr option" where
  "entered_password source input =
     (let p = or_none (d_password input) in
      case source of Some e \<Rightarrow> keep_stored p (d_password (ce_data e)) | None \<Rightarrow> p)"

definition entered_data :: "config_entry option \<Rightarrow> entry_data \<Rightarrow> entry_data" where
  "entered_data source input =
     input\<lparr>d_host := py_strip (d_host input), d_table := py_strip (d_table input),
       d_username := entered_username source input, d_password := entered_password source input\<rparr>"

text \<open>
  What is stored once the probe has passed. \<open>in_progress\<close>: another flow for the same destination is
  open, on which \<open>async_set_unique_id\<close> aborts.
\<close>

definition store_connection ::
    "config_entry list \<Rightarrow> flow_source \<Rightarrow> config_entry option \<Rightarrow> bool \<Rightarrow> entry_data \<Rightarrow> flow_result" where
  "store_connection entries src source in_progress d =
     (let uid = connection_unique_id d in
      case source of
        Some e \<Rightarrow>
          (case src of
             SourceReauth _ \<Rightarrow> UpdateEntry (ce_entry_id e) d None ''reauth_successful''
           | _ \<Rightarrow>
             if Some uid \<noteq> ce_unique_id e then
               (if \<exists>x \<in> set entries. ce_unique_id x = Some uid \<and> ce_entry_id x \<noteq> ce_entry_id e
                then AbortFlow ''already_configured''
                else UpdateEntry (ce_entry_id e) d (Some uid) ''reconfigure_successful'')
             else UpdateEntry (ce_entry_id e) d None ''reconfigure_successful'')
      | None \<Rightarrow>
          if in_progress then AbortFlow ''already_in_progress''
          else if \<exists>x \<in> set entries. ce_unique_id x = Some uid then AbortFlow ''already_configured''
          else CreateEntry (lit ''QuestDB at '' @ d_host d) uid d)"

definition connection_step ::
    "config_entry list \<Rightarrow> flow_source \<Rightarrow> bool \<Rightarrow> string \<Rightarrow> (nat \<Rightarrow> exchange) \<Rightarrow> entry_data option \<Rightarrow> flow_result res" where
  "connection_step entries src in_progress step_id network user_input =
     (let source = source_entry src entries in
      case user_input of
        None \<Rightarrow> Inr (ShowForm step_id
          (form_schema src (map_option (\<lambda>e. (ce_data e)\<lparr>d_password := Some []\<rparr>) source)) None)
      | Some given \<Rightarrow>
          let input = effective_input src source given;
              new_data = entered_data source input;
              reject = (\<lambda>err. Inr (ShowForm step_id (form_schema src (Some input)) (Some err)))
          in
          if d_host new_data = [] \<or> d_table new_data = [] then reject ''invalid_connection''
          else bindR (utf8_encode (d_table new_data)) (\<lambda>tab_bytes.
            if length tab_bytes > 127 then reject ''invalid_connection''
            else if (or_none (d_username new_data) = None) \<noteq> (or_none (d_password new_data) = None)
            then reject ''invalid_auth_pair''
            else
              (case test_connection source new_data network of
                 Inl e \<Rightarrow>
                   if isinstance e AuthenticationIlpError then reject ''invalid_auth''
                   else if isinstance e IlpTransportError then reject ''cannot_connect''
                   else Inl e
               | Inr _ \<Rightarrow> Inr (store_connection entries src source in_progress new_data))))"

definition step_user ::
    "config_entry list \<Rightarrow> bool \<Rightarrow> (nat \<Rightarrow> exchange) \<Rightarrow> entry_data option \<Rightarrow> flow_result res" where
  "step_user entries in_progress network input = connection_step entries SourceUser in_progress ''user'' network input"

definition step_reconfigure ::
    "config_entry list \<Rightarrow> ustr \<Rightarrow> (nat \<Rightarrow> exchange) \<Rightarrow> entry_data option \<Rightarrow> flow_result res" where
  "step_reconfigure entries i network input =
     connection_step entries (SourceReconfigure i) False ''user'' network input"

definition step_reauth :: "config_entry list \<Rightarrow> ustr \<Rightarrow> (nat \<Rightarrow> exchange) \<Rightarrow> flow_result res" where
  "step_reauth entries i network = connection_step entries (SourceReauth i) False ''reauth_confirm'' network None"

definition step_reauth_confirm ::
    "config_entry list \<Rightarrow> ustr \<Rightarrow> (nat \<Rightarrow> exchange) \<Rightarrow> entry_data option \<Rightarrow> flow_result res" where
  "step_reauth_confirm entries i network input =
     connection_step entries (SourceReauth i) False ''reauth_confirm'' network input"

end
