(* ===== verification/OptionsFlow.thy ===== *)
theory OptionsFlow
  imports ConfigFlow
begin

section \<open>The options form (config_flow.py)\<close>

text \<open>
  The two steps of \<open>HassQuestDbWriterOptionsFlow\<close>. The answers of the first form are typed as its
  selectors return them; the advanced form and the stored options are dicts of dynamic values. Home
  Assistant's \<open>NumberSelector\<close> and its schema of the entity filter are parameters: the library
  decides what a number becomes.
\<close>

definition CONF_INCLUDE_ENTITIES :: string where [conf]: "CONF_INCLUDE_ENTITIES = ''include_entities''"
definition CONF_EXCLUDE_ENTITIES :: string where [conf]: "CONF_EXCLUDE_ENTITIES = ''exclude_entities''"
definition CONF_INCLUDE_DOMAINS :: string where [conf]: "CONF_INCLUDE_DOMAINS = ''include_domains''"
definition CONF_EXCLUDE_DOMAINS :: string where [conf]: "CONF_EXCLUDE_DOMAINS = ''exclude_domains''"
definition CONF_INCLUDE_ENTITY_GLOBS :: string where [conf]: "CONF_INCLUDE_ENTITY_GLOBS = ''include_entity_globs''"
definition CONF_EXCLUDE_ENTITY_GLOBS :: string where [conf]: "CONF_EXCLUDE_ENTITY_GLOBS = ''exclude_entity_globs''"

subsection \<open>The sides of the filter\<close>

text \<open>A multi-select value is a list, or the comma-separated text of an older version.\<close>

datatype multi_value = Items "ustr list" | CommaText ustr

fun to_list :: "multi_value \<Rightarrow> ustr list" where
  "to_list (Items vs) = vs"
| "to_list (CommaText s) = (if s \<noteq> [] then split_csv s else [])"

record filter_input =
  in_include_entities :: "ustr list option"
  in_exclude_entities :: "ustr list option"
  in_include_domains :: "multi_value option"
  in_exclude_domains :: "multi_value option"
  in_include_globs :: "multi_value option"
  in_exclude_globs :: "multi_value option"
  in_attribute_allowlist :: "ustr option"
  in_attribute_denylist :: "ustr option"
  in_show_advanced :: bool

record filter_lists =
  side_domains :: "ustr list"
  side_globs :: "ustr list"
  side_entities :: "ustr list"

definition or_default :: "'a option \<Rightarrow> 'a \<Rightarrow> 'a" where
  "or_default v dflt = (case v of Some x \<Rightarrow> x | None \<Rightarrow> dflt)"

definition filter_side :: "filter_input \<Rightarrow> bool \<Rightarrow> filter_lists" where
  "filter_side ui include =
     (let entities = or_default (if include then in_include_entities ui else in_exclude_entities ui) [];
          domains = or_default (if include then in_include_domains ui else in_exclude_domains ui) (Items []);
          globs = or_default (if include then in_include_globs ui else in_exclude_globs ui) (CommaText [])
      in \<lparr>side_domains = to_list domains,
          side_globs = (case globs of CommaText s \<Rightarrow> split_csv s | Items _ \<Rightarrow> to_list globs),
          side_entities = entities\<rparr>)"

text \<open>\<open>sorted(set(left) & set(right))\<close>\<close>

definition common_items :: "ustr list \<Rightarrow> ustr list \<Rightarrow> ustr list" where
  "common_items left right = sort (remdups (filter (\<lambda>x. x \<in> set right) left))"

definition overlapping_pairs :: "filter_lists \<Rightarrow> filter_lists \<Rightarrow> ustr list \<Rightarrow> ustr list \<Rightarrow> ustr" where
  "overlapping_pairs include exclude allowed denied =
     join_with (lit ''; '')
       (map (\<lambda>(label, common). lit label @ lit '': '' @ join_with (lit '', '') common)
         (filter (\<lambda>(label, common). common \<noteq> [])
           [(''entities'', common_items (side_entities include) (side_entities exclude)),
            (''domains'', common_items (side_domains include) (side_domains exclude)),
            (''globs'', common_items (side_globs include) (side_globs exclude)),
            (''attributes'', common_items allowed denied)]))"

definition conflicted_fields :: "filter_lists \<Rightarrow> filter_lists \<Rightarrow> ustr list \<Rightarrow> ustr list \<Rightarrow> string list" where
  "conflicted_fields include exclude allowed denied =
     map fst (filter (\<lambda>(key, left, right). set left \<inter> set right \<noteq> {})
       [(CONF_INCLUDE_ENTITIES, side_entities include, side_entities exclude),
        (CONF_EXCLUDE_ENTITIES, side_entities exclude, side_entities include),
        (CONF_INCLUDE_DOMAINS, side_domains include, side_domains exclude),
        (CONF_EXCLUDE_DOMAINS, side_domains exclude, side_domains include),
        (CONF_INCLUDE_ENTITY_GLOBS, side_globs include, side_globs exclude),
        (CONF_EXCLUDE_ENTITY_GLOBS, side_globs exclude, side_globs include),
        (CONF_ATTRIBUTE_ALLOWLIST, allowed, denied),
        (CONF_ATTRIBUTE_DENYLIST, denied, allowed)])"

text \<open>What is stored: the dicts of the two sides and the two lists of patterns.\<close>

definition text_list :: "ustr list \<Rightarrow> pyval" where
  "text_list xs = VList (map VStr xs)"

definition side_value :: "filter_lists \<Rightarrow> pyval" where
  "side_value s = VDict [(CONF_DOMAINS, text_list (side_domains s)),
     (CONF_ENTITY_GLOBS, text_list (side_globs s)), (CONF_ENTITIES, text_list (side_entities s))]"

definition filter_options_of :: "filter_lists \<Rightarrow> filter_lists \<Rightarrow> ustr list \<Rightarrow> ustr list \<Rightarrow> pydict" where
  "filter_options_of include exclude allowed denied =
     [(CONF_INCLUDE, side_value include), (CONF_EXCLUDE, side_value exclude),
      (CONF_ATTRIBUTE_ALLOWLIST, text_list allowed), (CONF_ATTRIBUTE_DENYLIST, text_list denied)]"

subsection \<open>The filter form\<close>

text \<open>
  A form is known by the defaults of its fields and the choices it offers. \<open>integration_name d\<close> is
  the name Home Assistant finds for the domain, \<open>None\<close> when it answers with an exception.
\<close>

record filter_form =
  ff_include_entities :: pyval
  ff_exclude_entities :: pyval
  ff_include_domains :: pyval
  ff_exclude_domains :: pyval
  ff_include_globs :: ustr
  ff_exclude_globs :: ustr
  ff_attribute_allowlist :: ustr
  ff_attribute_denylist :: ustr
  ff_show_advanced :: bool
  ff_domain_options :: "(ustr \<times> ustr) list"

definition domain_selector_options :: "ustr list \<Rightarrow> (ustr \<Rightarrow> ustr option) \<Rightarrow> (ustr \<times> ustr) list" where
  "domain_selector_options entity_domains integration_name =
     map (\<lambda>d. (case integration_name d of None \<Rightarrow> d | Some name \<Rightarrow> name, d)) (sort (remdups entity_domains))"

text \<open>\<open>options.get(key, {}) or {}\<close> on options whose sides are dicts\<close>

definition stored_side :: "pydict \<Rightarrow> string \<Rightarrow> pydict" where
  "stored_side options key = (case dict_get options key (VDict []) of VDict d \<Rightarrow> d | _ \<Rightarrow> [])"

definition joined :: "pyval \<Rightarrow> ustr res" where
  "joined v = bindR (strings_of v) (\<lambda>parts. Inr (join_with (lit '', '') parts))"

definition list_or_empty :: "pydict \<Rightarrow> string \<Rightarrow> pyval" where
  "list_or_empty options key = (let v = dict_get options key VNone in if py_bool v then v else VList [])"

definition init_schema :: "pydict \<Rightarrow> (ustr \<times> ustr) list \<Rightarrow> filter_form res" where
  "init_schema options domain_options =
     (let include = stored_side options CONF_INCLUDE; exclude = stored_side options CONF_EXCLUDE in
      bindR (joined (dict_get include CONF_ENTITY_GLOBS (VList []))) (\<lambda>include_globs.
      bindR (joined (dict_get exclude CONF_ENTITY_GLOBS (VList []))) (\<lambda>exclude_globs.
      bindR (joined (list_or_empty options CONF_ATTRIBUTE_ALLOWLIST)) (\<lambda>allowed.
      bindR (joined (list_or_empty options CONF_ATTRIBUTE_DENYLIST)) (\<lambda>denied.
        Inr \<lparr>ff_include_entities = dict_get include CONF_ENTITIES (VList []),
          ff_exclude_entities = dict_get exclude CONF_ENTITIES (VList []),
          ff_include_domains = dict_get include CONF_DOMAINS (VList []),
          ff_exclude_domains = dict_get exclude CONF_DOMAINS (VList []),
          ff_include_globs = include_globs, ff_exclude_globs = exclude_globs,
          ff_attribute_allowlist = allowed, ff_attribute_denylist = denied,
          ff_show_advanced = False, ff_domain_options = domain_options\<rparr>)))))"

subsection \<open>The advanced form\<close>

datatype advanced_field = NumberField rat rat rat | BoolField | RetentionField

text \<open>\<open>str(v)\<close> of the stored retention: an integer or a text; \<open>other\<close> is \<open>str\<close> on the other values.\<close>

fun py_str :: "(pyval \<Rightarrow> ustr) \<Rightarrow> pyval \<Rightarrow> ustr" where
  "py_str other (VInt i) = int_str i"
| "py_str other (VStr s) = s"
| "py_str other v = other v"

definition advanced_schema :: "(pyval \<Rightarrow> ustr) \<Rightarrow> pydict \<Rightarrow> (string \<times> pyval \<times> advanced_field) list" where
  "advanced_schema other options =
     (let value = dict_get options in
      [(CONF_INGRESS_QUEUE_CAPACITY, value CONF_INGRESS_QUEUE_CAPACITY PROVISIONAL_INGRESS_QUEUE_CAPACITY,
          NumberField 10 100000 10),
       (CONF_MAX_SERIALIZED_EVENT_BYTES,
          value CONF_MAX_SERIALIZED_EVENT_BYTES PROVISIONAL_MAX_SERIALIZED_EVENT_BYTES,
          NumberField 1024 1048576 1024),
       (CONF_PERSIST_BATCH_ROWS, value CONF_PERSIST_BATCH_ROWS PROVISIONAL_PERSIST_BATCH_ROWS,
          NumberField 1 10000 1),
       (CONF_DELIVERY_BATCH_ROWS, value CONF_DELIVERY_BATCH_ROWS PROVISIONAL_DELIVERY_BATCH_ROWS,
          NumberField 1 100000 1),
       (CONF_DELIVERY_BATCH_BYTES, value CONF_DELIVERY_BATCH_BYTES PROVISIONAL_DELIVERY_BATCH_BYTES,
          NumberField 4096 16777216 1024),
       (CONF_FLUSH_INTERVAL_SECONDS, value CONF_FLUSH_INTERVAL_SECONDS PROVISIONAL_FLUSH_INTERVAL_SECONDS,
          NumberField (1 / 20) 300 (1 / 20)),
       (CONF_PERSIST_IDLE_POLL_SECONDS,
          value CONF_PERSIST_IDLE_POLL_SECONDS PROVISIONAL_PERSIST_IDLE_POLL_SECONDS,
          NumberField (1 / 20) 60 (1 / 20)),
       (CONF_RETRY_INITIAL_SECONDS, value CONF_RETRY_INITIAL_SECONDS PROVISIONAL_RETRY_INITIAL_SECONDS,
          NumberField (1 / 10) 300 (1 / 10)),
       (CONF_RETRY_MAX_SECONDS, value CONF_RETRY_MAX_SECONDS PROVISIONAL_RETRY_MAX_SECONDS,
          NumberField 1 3600 1),
       (CONF_RETRY_MULTIPLIER, value CONF_RETRY_MULTIPLIER PROVISIONAL_RETRY_MULTIPLIER,
          NumberField 1 10 (1 / 10)),
       (CONF_RETRY_JITTER_RATIO, value CONF_RETRY_JITTER_RATIO PROVISIONAL_RETRY_JITTER_RATIO,
          NumberField 0 1 (1 / 20)),
       (CONF_FLUSH_ON_SHUTDOWN, value CONF_FLUSH_ON_SHUTDOWN PROVISIONAL_FLUSH_ON_SHUTDOWN, BoolField),
       (CONF_MAX_PENDING_ROWS, value CONF_MAX_PENDING_ROWS PROVISIONAL_MAX_PENDING_ROWS,
          NumberField 100 10000000 100),
       (CONF_MAX_PENDING_BYTES, value CONF_MAX_PENDING_BYTES PROVISIONAL_MAX_PENDING_BYTES,
          NumberField 1048576 1073741824 1048576),
       (CONF_MAX_DEAD_LETTER_ROWS, value CONF_MAX_DEAD_LETTER_ROWS PROVISIONAL_MAX_DEAD_LETTER_ROWS,
          NumberField 10 1000000 10),
       (CONF_MAX_DEAD_LETTER_BYTES, value CONF_MAX_DEAD_LETTER_BYTES PROVISIONAL_MAX_DEAD_LETTER_BYTES,
          NumberField 65536 268435456 65536),
       (CONF_SPOOL_MIN_FREE_BYTES, value CONF_SPOOL_MIN_FREE_BYTES PROVISIONAL_SPOOL_MIN_FREE_BYTES,
          NumberField 0 1073741824 1048576),
       (CONF_SPOOL_MIN_FREE_RATIO, value CONF_SPOOL_MIN_FREE_RATIO PROVISIONAL_SPOOL_MIN_FREE_RATIO,
          NumberField 0 (1 / 2) (1 / 100)),
       (CONF_RETENTION_DAYS, VStr (py_str other (value CONF_RETENTION_DAYS (VInt 0))), RetentionField),
       (CONF_SQLITE_BUSY_TIMEOUT_SECONDS,
          value CONF_SQLITE_BUSY_TIMEOUT_SECONDS PROVISIONAL_SQLITE_BUSY_TIMEOUT_SECONDS,
          NumberField (1 / 20) 30 (1 / 20)),
       (CONF_HTTP_TIMEOUT_SECONDS, value CONF_HTTP_TIMEOUT_SECONDS PROVISIONAL_HTTP_TIMEOUT_SECONDS,
          NumberField 1 120 1),
       (CONF_START_TIMEOUT_SECONDS, value CONF_START_TIMEOUT_SECONDS PROVISIONAL_START_TIMEOUT_SECONDS,
          NumberField 1 120 1),
       (CONF_STOP_TIMEOUT_SECONDS, value CONF_STOP_TIMEOUT_SECONDS PROVISIONAL_STOP_TIMEOUT_SECONDS,
          NumberField 1 300 1)])"

subsection \<open>Validation of the advanced form\<close>

text \<open>
  What Home Assistant does with an answer before it calls the step, and what the step itself does with
  an empty one: each field's value, or its default, goes through the field's validator.
\<close>

record options_env =
  number_selector :: "rat \<Rightarrow> rat \<Rightarrow> rat \<Rightarrow> pyval \<Rightarrow> pyval res"
  filter_schema_ok :: "pydict \<Rightarrow> bool"
  str_of_other :: "pyval \<Rightarrow> ustr"
  entity_domains :: "ustr list"
  integration_name :: "ustr \<Rightarrow> ustr option"

definition invalid_value :: "'a res" where
  "invalid_value = Inl (mk_exn Invalid (lit ''invalid value''))"

definition valid_retention :: "pyval \<Rightarrow> pyval res" where
  "valid_retention v =
     (case v of
        VStr s \<Rightarrow>
          (case int_of_text s of
             Some i \<Rightarrow> if 0 \<le> i \<and> i \<le> 3650 then Inr (VInt i) else invalid_value
           | None \<Rightarrow> invalid_value)
      | _ \<Rightarrow> invalid_value)"

fun validated :: "options_env \<Rightarrow> advanced_field \<Rightarrow> pyval \<Rightarrow> pyval res" where
  "validated e (NumberField lo hi st) v = number_selector e lo hi st v"
| "validated e BoolField v = (case v of VBool b \<Rightarrow> Inr v | _ \<Rightarrow> invalid_value)"
| "validated e RetentionField v = valid_retention v"

definition apply_schema :: "options_env \<Rightarrow> (string \<times> pyval \<times> advanced_field) list \<Rightarrow> pydict \<Rightarrow> pydict res" where
  "apply_schema e form data =
     mapR (\<lambda>(key, dflt, field). bindR (validated e field (dict_get data key dflt)) (\<lambda>v. Inr (key, v))) form"

subsection \<open>The steps\<close>

datatype options_result =
    ShowFilters filter_form "(string \<times> string) list" ustr
  | ShowAdvanced "(string \<times> pyval \<times> advanced_field) list" "(string \<times> string) list"
  | SaveOptions pydict

definition filter_form_of :: "options_env \<Rightarrow> pydict \<Rightarrow> filter_form res" where
  "filter_form_of e options =
     init_schema options (domain_selector_options (entity_domains e) (integration_name e))"

text \<open>
  \<open>async_step_init\<close>: the result, and the \<open>_filter_options\<close> the flow then has. The conflicts are the
  placeholder of the form's message.
\<close>

definition step_init ::
    "options_env \<Rightarrow> pydict \<Rightarrow> pydict \<Rightarrow> filter_input option \<Rightarrow> options_result res \<times> pydict" where
  "step_init e entry_options chosen user_input =
     (case user_input of
        None \<Rightarrow> (bindR (filter_form_of e entry_options) (\<lambda>form. Inr (ShowFilters form [] [])), chosen)
      | Some ui \<Rightarrow>
          let include = filter_side ui True;
              exclude = filter_side ui False;
              allowed = split_csv (or_default (in_attribute_allowlist ui) []);
              denied = split_csv (or_default (in_attribute_denylist ui) []);
              filter_options = filter_options_of include exclude allowed denied;
              display = filter_options @ [(CONF_SHOW_ADVANCED, VBool (in_show_advanced ui))];
              overlaps = overlapping_pairs include exclude allowed denied
          in
          (if overlaps \<noteq> [] then
             bindR (filter_form_of e display) (\<lambda>form. Inr (ShowFilters form
               ((''base'', ''overlapping_filters'') #
                map (\<lambda>field. (field, ''overlapping_item'')) (conflicted_fields include exclude allowed denied))
               overlaps))
           else if \<not> filter_schema_ok e [(CONF_INCLUDE, side_value include), (CONF_EXCLUDE, side_value exclude)] then
             bindR (filter_form_of e display) (\<lambda>form. Inr (ShowFilters form [(''base'', ''invalid_filter'')] []))
           else if in_show_advanced ui then
             Inr (ShowAdvanced (advanced_schema (str_of_other e) entry_options) [])
           else Inr (SaveOptions (dict_merge entry_options filter_options)),
           filter_options))"

text \<open>\<open>a < b\<close> on two numbers\<close>

definition py_less :: "pyval \<Rightarrow> pyval \<Rightarrow> bool res" where
  "py_less a b =
     (case (number_of a, number_of b) of
        (Some x, Some y) \<Rightarrow> Inr (x < y)
      | _ \<Rightarrow> Inl (mk_exn TypeError (lit ''unorderable types'')))"

definition step_advanced ::
    "options_env \<Rightarrow> pydict \<Rightarrow> pydict \<Rightarrow> pydict option \<Rightarrow> options_result res" where
  "step_advanced e entry_options chosen user_input =
     (case user_input of
        None \<Rightarrow> Inr (ShowAdvanced (advanced_schema (str_of_other e) entry_options) [])
      | Some ui \<Rightarrow>
          bindR (apply_schema e (advanced_schema (str_of_other e) entry_options) []) (\<lambda>defaults.
          let values = dict_merge defaults ui in
          bindR (py_less (dict_get values CONF_RETRY_MAX_SECONDS VNone)
                   (dict_get values CONF_RETRY_INITIAL_SECONDS VNone)) (\<lambda>retry_bad.
          bindR (py_less (dict_get values CONF_MAX_DEAD_LETTER_BYTES VNone)
                   (dict_get values CONF_MAX_SERIALIZED_EVENT_BYTES VNone)) (\<lambda>size_bad.
          if size_bad then
            Inr (ShowAdvanced (advanced_schema (str_of_other e) ui) [(''base'', ''invalid_size_bounds'')])
          else if retry_bad then
            Inr (ShowAdvanced (advanced_schema (str_of_other e) ui) [(''base'', ''invalid_retry_bounds'')])
          else Inr (SaveOptions (dict_merge (dict_merge entry_options chosen) values))))))"

text \<open>An answer as Home Assistant delivers it: through the validators of the form that is shown.\<close>

definition answer_advanced ::
    "options_env \<Rightarrow> pydict \<Rightarrow> pydict \<Rightarrow> pydict \<Rightarrow> pydict \<Rightarrow> options_result res" where
  "answer_advanced e on_form entry_options chosen raw =
     bindR (apply_schema e (advanced_schema (str_of_other e) on_form) raw) (\<lambda>ui.
       step_advanced e entry_options chosen (Some ui))"

end
