(* ===== verification/ConfigFlowClaims.thy ===== *)
theory ConfigFlowClaims
  imports ConfigFlow
begin

section \<open>What the connection form keeps true of the entries\<close>

subsection \<open>The entries over time\<close>

text \<open>
  What Home Assistant does with a result: a new entry gets an unused id; an update changes the data,
  and the unique id if one is given. Entries may also be deleted, and their options edited; the form
  of the options keeps the timeout a positive number.
\<close>

fun apply_result :: "flow_result \<Rightarrow> ustr \<Rightarrow> config_entry list \<Rightarrow> config_entry list" where
  "apply_result (CreateEntry title uid d) new_id entries =
     entries @ [\<lparr>ce_entry_id = new_id, ce_unique_id = Some uid, ce_data = d, ce_options = []\<rparr>]"
| "apply_result (UpdateEntry i d uid reason) new_id entries =
     map (\<lambda>e. if ce_entry_id e = i
       then e\<lparr>ce_data := d, ce_unique_id := (case uid of Some u \<Rightarrow> Some u | None \<Rightarrow> ce_unique_id e)\<rparr> else e) entries"
| "apply_result _ new_id entries = entries"

definition usable_timeout :: "pydict \<Rightarrow> bool" where
  "usable_timeout options \<longleftrightarrow>
     (case number_of (dict_get options CONF_HTTP_TIMEOUT_SECONDS PROVISIONAL_HTTP_TIMEOUT_SECONDS) of
        Some t \<Rightarrow> 0 < t | None \<Rightarrow> False)"

definition source_exists :: "flow_source \<Rightarrow> config_entry list \<Rightarrow> bool" where
  "source_exists src entries \<longleftrightarrow> src = SourceUser \<or> source_entry src entries \<noteq> None"

inductive entries_reached :: "config_entry list \<Rightarrow> bool" where
  no_entries: "entries_reached []"
| flow_step: "entries_reached entries \<Longrightarrow> source_exists src entries \<Longrightarrow> new_id \<notin> ce_entry_id ` set entries \<Longrightarrow>
     connection_step entries src in_progress step_id network user_input = Inr res \<Longrightarrow>
     entries_reached (apply_result res new_id entries)"
| entry_removed: "entries_reached entries \<Longrightarrow> entries_reached (filter (\<lambda>e. ce_entry_id e \<noteq> i) entries)"
| options_edited: "entries_reached entries \<Longrightarrow> usable_timeout options \<Longrightarrow>
     entries_reached (map (\<lambda>e. if ce_entry_id e = i then e\<lparr>ce_options := options\<rparr> else e) entries)"

subsection \<open>Connections that can be built\<close>

definition connectable :: "entry_data \<Rightarrow> bool" where
  "connectable d \<longleftrightarrow> (\<forall>options network. usable_timeout options \<longrightarrow>
     (\<exists>t. build_transport (connection_configuration d options) network = Inr t))"

lemma make_transport_same:
  assumes "make_transport h p tls t u pw ctx network = Inr tr" and "0 < t'"
  shows "\<exists>tr'. make_transport h p tls t' u pw ctx network' = Inr tr'"
  using assms
  by (auto simp: make_transport_def Let_def bindR_eq_Inr split: if_splits option.splits)

lemma probed_connectable:
  assumes "test_connection source d network = Inr ()"
  shows "connectable d"
proof -
  define c where "c = connection_settings source d"
  obtain t where t: "build_transport c network = Inr t"
    using assms by (auto simp: test_connection_def bindR_eq_Inr c_def)
  then obtain s where s: "make_transport (host c) (port c) (use_tls c) s (username c) (password c) (tls_context c) network = Inr t"
    by (auto simp: build_transport_def bindR_eq_Inr split: option.splits)
  have "\<exists>t. build_transport (connection_configuration d options) network' = Inr t"
    if o: "usable_timeout options" for options network'
  proof -
    obtain s' where s': "number_of (timeout_seconds (connection_configuration d options)) = Some s'" "0 < s'"
      using o by (auto simp: usable_timeout_def connection_configuration_def split: option.splits)
    have same: "host (connection_configuration d options) = host c" "port (connection_configuration d options) = port c"
      "use_tls (connection_configuration d options) = use_tls c" "username (connection_configuration d options) = username c"
      "password (connection_configuration d options) = password c"
      "tls_context (connection_configuration d options) = tls_context c"
      by (simp_all add: c_def connection_settings_def connection_configuration_def tls_context_def)
    show ?thesis
      using make_transport_same [OF s s'(2)] s'(1) same by (simp add: build_transport_def)
  qed
  then show ?thesis by (simp add: connectable_def)
qed

subsection \<open>What a step stores\<close>

lemma py_strip_strip [simp]: "py_strip (py_strip s) = py_strip s"
proof -
  define a where "a = dropWhile py_isspace s"
  define b where "b = rev (dropWhile py_isspace (rev a))"
  have "dropWhile py_isspace b = b"
  proof (cases b)
    case (Cons x xs)
    have "\<exists>ys. a = b @ ys" unfolding b_def
      by (metis rev_append rev_rev_ident takeWhile_dropWhile_id)
    then have "a \<noteq> [] \<and> hd a = x" using Cons by auto
    then have "\<not> py_isspace x" unfolding a_def using hd_dropWhile by metis
    then show ?thesis using Cons by simp
  qed simp
  moreover have "dropWhile py_isspace (rev b) = rev b" by (simp add: b_def dropWhile_idem)
  ultimately show ?thesis unfolding py_strip_def a_def [symmetric] b_def [symmetric] by simp
qed

definition stored_data :: "flow_result \<Rightarrow> entry_data option" where
  "stored_data res = (case res of CreateEntry _ _ d \<Rightarrow> Some d | UpdateEntry _ d _ _ \<Rightarrow> Some d | _ \<Rightarrow> None)"

lemma store_connection_stores: "stored_data (store_connection entries src source ip d) \<in> {None, Some d}"
  by (simp add: store_connection_def Let_def stored_data_def split: option.split flow_source.split)

lemma connection_step_stores:
  assumes "connection_step entries src in_progress step_id network user_input = Inr res" and "stored_data res = Some d"
  shows "\<exists>given. user_input = Some given \<and>
    d = entered_data (source_entry src entries) (effective_input src (source_entry src entries) given) \<and>
    res = store_connection entries src (source_entry src entries) in_progress d \<and>
    test_connection (source_entry src entries) d network = Inr ()"
proof (cases user_input)
  case None
  then show ?thesis using assms by (auto simp: connection_step_def stored_data_def Let_def)
next
  case (Some given)
  define d' where "d' = entered_data (source_entry src entries) (effective_input src (source_entry src entries) given)"
  have "res = store_connection entries src (source_entry src entries) in_progress d' \<and>
      test_connection (source_entry src entries) d' network = Inr ()"
    using assms unfolding Some connection_step_def Let_def option.case d'_def [symmetric]
    by (auto simp: bindR_eq_Inr stored_data_def split: if_splits sum.splits)
  moreover from this have "d = d'"
    using store_connection_stores [of entries src "source_entry src entries" in_progress d'] assms(2) by auto
  ultimately show ?thesis using Some d'_def by blast
qed

subsection \<open>Destinations\<close>

definition entry_ok :: "config_entry \<Rightarrow> bool" where
  "entry_ok e \<longleftrightarrow> ce_unique_id e = Some (connection_unique_id (ce_data e)) \<and>
     py_strip (d_host (ce_data e)) = d_host (ce_data e) \<and> py_strip (d_table (ce_data e)) = d_table (ce_data e) \<and>
     connectable (ce_data e) \<and> usable_timeout (ce_options e)"

definition entries_ok :: "config_entry list \<Rightarrow> bool" where
  "entries_ok es \<longleftrightarrow> distinct (map ce_entry_id es) \<and> distinct (map ce_unique_id es) \<and> (\<forall>e \<in> set es. entry_ok e)"

lemma find_entry_Some: "find_entry es i = Some e \<Longrightarrow> e \<in> set es \<and> ce_entry_id e = i"
  by (auto simp: find_entry_def find_Some_iff)

lemma source_entry_Some: "source_entry src es = Some e \<Longrightarrow> e \<in> set es"
  by (cases src) (auto dest: find_entry_Some)

text \<open>Replacing the entry with one id keeps the order, the ids and, for an unused unique id, their
  distinctness.\<close>

lemma replaced_ok:
  assumes ok: "entries_ok es" and e: "e \<in> set es"
    and "ce_entry_id e' = ce_entry_id e" and "entry_ok e'"
    and new: "\<forall>x \<in> set es. ce_unique_id x = ce_unique_id e' \<longrightarrow> ce_entry_id x = ce_entry_id e"
  shows "entries_ok (map (\<lambda>x. if ce_entry_id x = ce_entry_id e then e' else x) es)"
proof -
  define f where "f = (\<lambda>x. if ce_entry_id x = ce_entry_id e then e' else x)"
  have ids: "inj_on ce_entry_id (set es)" "distinct es" and uids: "inj_on ce_unique_id (set es)"
    using ok by (simp_all add: entries_ok_def distinct_map)
  have same: "x = e" if "x \<in> set es" "ce_entry_id x = ce_entry_id e" for x
    using inj_onD [OF ids(1)] that e by metis
  have "x = y" if "x \<in> set es" "y \<in> set es" "ce_unique_id (f x) = ce_unique_id (f y)" for x y
  proof (cases "ce_entry_id x = ce_entry_id e \<or> ce_entry_id y = ce_entry_id e")
    case True
    then have "ce_entry_id x = ce_entry_id e \<and> ce_entry_id y = ce_entry_id e"
      using that new by (auto simp: f_def split: if_splits)
    then show ?thesis using same that by metis
  next
    case False
    then have "ce_unique_id x = ce_unique_id y" using that(3) by (simp add: f_def)
    then show ?thesis using inj_onD [OF uids] that by metis
  qed
  then have u: "distinct (map ce_unique_id (map f es))" using ids(2) by (simp add: distinct_map inj_on_def)
  have "map ce_entry_id (map f es) = map ce_entry_id es" using assms(3) by (simp add: f_def)
  then have i: "distinct (map ce_entry_id (map f es))" using ok by (simp only: entries_ok_def)
  have "\<forall>x \<in> set (map f es). entry_ok x" using ok assms(4) by (auto simp: f_def entries_ok_def)
  then show ?thesis using u i unfolding f_def [symmetric] entries_ok_def by blast
qed

lemma entered_unique_id:
  assumes "entries_ok es" and "source_entry (SourceReauth i) es = Some e"
  shows "connection_unique_id (entered_data src (effective_input (SourceReauth i) (Some e) given)) =
    connection_unique_id (ce_data e)"
proof -
  have "e \<in> set es" using source_entry_Some [OF assms(2)] .
  then have "entry_ok e" using assms(1) by (simp add: entries_ok_def)
  then show ?thesis by (simp add: effective_input_def entered_data_def connection_unique_id_def entry_ok_def)
qed

lemma step_entries_ok:
  assumes ok: "entries_ok es" and src: "source_exists src es" and new: "new_id \<notin> ce_entry_id ` set es"
    and step: "connection_step es src ip sid network user_input = Inr res"
  shows "entries_ok (apply_result res new_id es)"
proof (cases "stored_data res")
  case None
  then show ?thesis using ok by (cases res) (auto simp: stored_data_def)
next
  case (Some d)
  let ?source = "source_entry src es"
  obtain given where g: "d = entered_data ?source (effective_input src ?source given)"
      "res = store_connection es src ?source ip d" "test_connection ?source d network = Inr ()"
    using connection_step_stores [OF step Some] by blast
  have stripped: "py_strip (d_host d) = d_host d" "py_strip (d_table d) = d_table d"
    by (simp_all add: g(1) entered_data_def)
  have c: "connectable d" using probed_connectable [OF g(3)] .
  show ?thesis
  proof (cases ?source)
    case none: None
    then have u: "\<forall>x \<in> set es. ce_unique_id x \<noteq> Some (connection_unique_id d)"
      and r: "res = CreateEntry (lit ''QuestDB at '' @ d_host d) (connection_unique_id d) d"
      using g(2) Some by (auto simp: store_connection_def Let_def stored_data_def split: if_splits)
    have "usable_timeout []" by (simp add: usable_timeout_def dict_get_def conf)
    then show ?thesis
      using ok u new stripped c unfolding r by (auto simp: entries_ok_def entry_ok_def)
  next
    case (Some e)
    then have e: "e \<in> set es" "entry_ok e" using source_entry_Some ok by (auto simp: entries_ok_def)
    have same: "x = e" if "x \<in> set es" "ce_entry_id x = ce_entry_id e" for x
      using ok that e(1) by (auto simp: entries_ok_def distinct_map dest: inj_onD)
    have own: "ce_unique_id e = Some (connection_unique_id (ce_data e))" using e(2) by (simp add: entry_ok_def)
    have kept: "\<forall>x \<in> set es. ce_unique_id x = ce_unique_id e \<longrightarrow> ce_entry_id x = ce_entry_id e"
      using ok e(1) by (auto simp: entries_ok_def distinct_map dest: inj_onD)
    have "\<exists>uid reason. res = UpdateEntry (ce_entry_id e) d uid reason \<and>
        (case uid of Some u \<Rightarrow> Some u | None \<Rightarrow> ce_unique_id e) = Some (connection_unique_id d) \<and>
        (\<forall>x \<in> set es. ce_unique_id x = Some (connection_unique_id d) \<longrightarrow> ce_entry_id x = ce_entry_id e)"
    proof (cases src)
      case SourceUser
      then show ?thesis using Some by simp
    next
      case (SourceReauth i)
      then have "connection_unique_id d = connection_unique_id (ce_data e)"
        using entered_unique_id [OF ok, of i e] Some g(1) by simp
      then show ?thesis
        using g(2) Some SourceReauth own kept by (auto simp: store_connection_def Let_def)
    next
      case (SourceReconfigure i)
      then show ?thesis
        using g(2) Some own kept \<open>stored_data res = Some d\<close>
        by (auto simp: store_connection_def Let_def stored_data_def split: if_splits)
    qed
    then obtain uid reason where r: "res = UpdateEntry (ce_entry_id e) d uid reason"
        "(case uid of Some u \<Rightarrow> Some u | None \<Rightarrow> ce_unique_id e) = Some (connection_unique_id d)"
        "\<forall>x \<in> set es. ce_unique_id x = Some (connection_unique_id d) \<longrightarrow> ce_entry_id x = ce_entry_id e"
      by blast
    let ?e = "e\<lparr>ce_data := d, ce_unique_id := Some (connection_unique_id d)\<rparr>"
    have "entries_ok (map (\<lambda>x. if ce_entry_id x = ce_entry_id e then ?e else x) es)"
      by (rule replaced_ok [OF ok e(1)]) (use e(2) r(3) stripped c in \<open>simp_all add: entry_ok_def\<close>)
    moreover have "apply_result res new_id es = map (\<lambda>x. if ce_entry_id x = ce_entry_id e then ?e else x) es"
    proof -
      have "x\<lparr>ce_data := d, ce_unique_id := (case uid of Some u \<Rightarrow> Some u | None \<Rightarrow> ce_unique_id x)\<rparr> = ?e"
        if "x \<in> set es" "ce_entry_id x = ce_entry_id e" for x
        unfolding same [OF that] r(2) ..
      then show ?thesis unfolding r(1) apply_result.simps by (intro map_cong) (simp_all del: option.case)
    qed
    ultimately show ?thesis by simp
  qed
qed

lemma entries_always_ok: "entries_reached es \<Longrightarrow> entries_ok es"
proof (induction rule: entries_reached.induct)
  case no_entries
  then show ?case by (simp add: entries_ok_def)
next
  case (flow_step entries src new_id in_progress step_id network user_input res)
  then show ?case using step_entries_ok by blast
next
  case (entry_removed entries i)
  then show ?case by (auto simp: entries_ok_def distinct_map_filter)
next
  case (options_edited entries options i)
  let ?f = "\<lambda>e. if ce_entry_id e = i then e\<lparr>ce_options := options\<rparr> else e"
  have same: "map ce_entry_id (map ?f entries) = map ce_entry_id entries"
    "map ce_unique_id (map ?f entries) = map ce_unique_id entries" by auto
  have "\<forall>e \<in> set (map ?f entries). entry_ok e"
    using options_edited by (auto simp: entries_ok_def entry_ok_def)
  then show ?case using options_edited.IH unfolding entries_ok_def same by blast
qed

text \<open>
  C19: However entries are created, reconfigured, reauthenticated, edited and deleted, no two entries
  write to one destination: their unique ids are distinct and each is the identity of its entry's own
  data; and every entry holds a connection the transport accepts (host, port, paired credentials,
  TLS), since nothing is stored that was not probed with the worker's own settings.
\<close>

theorem entries_have_distinct_destinations:
  assumes "entries_reached es"
  shows "distinct (map (\<lambda>e. connection_unique_id (ce_data e)) es) \<and>
    (\<forall>e \<in> set es. ce_unique_id e = Some (connection_unique_id (ce_data e)) \<and>
       (\<forall>network. \<exists>t. build_transport (connection_configuration (ce_data e) (ce_options e)) network = Inr t))"
proof -
  have ok: "entries_ok es" using entries_always_ok [OF assms] .
  then have ids: "\<forall>e \<in> set es. ce_unique_id e = Some (connection_unique_id (ce_data e))"
    by (simp add: entries_ok_def entry_ok_def)
  then have "map ce_unique_id es = map Some (map (\<lambda>e. connection_unique_id (ce_data e)) es)" by simp
  then have "distinct (map (\<lambda>e. connection_unique_id (ce_data e)) es)"
    using ok unfolding entries_ok_def by (metis distinct_map)
  then show ?thesis using ok ids by (auto simp: entries_ok_def entry_ok_def connectable_def)
qed

definition sample_input :: entry_data where
  "sample_input = \<lparr>d_host = lit ''H'', d_port = 9000, d_table = lit ''t'', d_use_tls = Some False,
     d_tls_self_signed = Some False, d_username = Some (lit ''u''), d_password = Some (lit ''p'')\<rparr>"

definition answering :: "nat \<Rightarrow> exchange" where
  "answering = (\<lambda>_. Response 200 [123, 125])"

lemma answering_rows: "Option.bind (utf8_decode [123, 125]) json_loads = Some (JObj [])"
  by code_simp

lemma bindP_Pair: "bindP (Pair (Inr x)) k = k x"
  by (simp add: bindP_def)

lemma answered:
  assumes "net s = answering" and "query \<noteq> []" and "encodable query"
  shows "fst (exec_query query 0 s) = Inr []"
proof -
  obtain q where q: "url_quote query = Inr q"
    using assms(3) by (simp add: url_quote_def utf8_encode_def)
  show ?thesis
    by (simp add: exec_query_def exec_attempts.simps exec_once_def q assms(2) catchP_def request_eq assms(1)
        answering_def truncate_body_def MAX_ERROR_BODY_BYTES_def answering_rows whenP_def returnP_def bindP_Pair)
qed

lemmas sample_text = lit_def or_none_def text_or_empty_def encodable_def is_surrogate_def utf8_encode_def
  utf8_bytes_def utf8_char_def byte_def py_strip_def py_isspace_def

lemma sample_entered: "entered_data None sample_input = sample_input"
  by (simp add: entered_data_def sample_input_def entered_username_def entered_password_def sample_text)

lemma sample_probed: "test_connection None sample_input answering = Inr ()"
proof -
  obtain tr where tr: "build_transport (connection_settings None sample_input) answering = Inr tr" "net tr = answering"
    by (simp add: connection_settings_def connection_configuration_def sample_input_def
        build_transport_def make_transport_def dict_get_def conf tls_context_def sample_text)
  have "fst (exec_query (lit ''select 1'') 0 tr) = Inr []"
    by (rule answered [OF tr(2)]) (simp_all add: sample_text)
  then show ?thesis using tr(1) by (simp add: test_connection_def)
qed

lemma sample_created:
  "connection_step [] SourceUser False ''user'' answering (Some sample_input) =
     Inr (CreateEntry (lit ''QuestDB at '' @ d_host sample_input) (connection_unique_id sample_input) sample_input)"
proof -
  have "d_host sample_input \<noteq> [] \<and> d_table sample_input \<noteq> []"
    "or_none (d_username sample_input) \<noteq> None" "or_none (d_password sample_input) \<noteq> None"
    "utf8_encode (d_table sample_input) = Inr [116]"
    by (simp_all add: sample_input_def sample_text)
  then show ?thesis
    by (simp add: connection_step_def effective_input_def sample_entered sample_probed store_connection_def Let_def)
qed

theorem entries_have_distinct_destinations_witness:
  "\<exists>es e. entries_reached es \<and> es = [e] \<and> ce_unique_id e = Some (lit ''http://h:9000/t'') \<and>
     connection_unique_id (ce_data e) = lit ''http://h:9000/t''"
proof -
  let ?e = "\<lparr>ce_entry_id = [], ce_unique_id = Some (connection_unique_id sample_input),
    ce_data = sample_input, ce_options = []\<rparr>"
  have id: "connection_unique_id sample_input = lit ''http://h:9000/t''"
    by (simp add: connection_unique_id_def sample_input_def lit_def py_lower_def int_str_def nat_str.simps)
  have "entries_reached (apply_result (CreateEntry (lit ''QuestDB at '' @ d_host sample_input)
      (connection_unique_id sample_input) sample_input) [] [])"
    by (rule flow_step [OF no_entries _ _ sample_created]) (simp_all add: source_exists_def)
  then have r: "entries_reached [?e]" by simp
  show ?thesis
    using r entries_have_distinct_destinations [OF r] id
    by - (rule exI [of _ "[?e]"], rule exI [of _ ?e], simp)
qed

text \<open>
  C21: No form shows a stored password: the password a form of the flow shows is empty or the one
  just typed, in the first form of a step and in every form that reports an error.
\<close>

fun shown_password :: "connection_form \<Rightarrow> ustr" where
  "shown_password (UserForm d) = text_or_empty (d_password d)"
| "shown_password (ReauthForm u p) = p"

lemma shown_in_form:
  "shown_password (form_schema src (Some d)) \<in> {[], text_or_empty (d_password d)}"
  "shown_password (form_schema src None) = []"
  by (cases src; simp add: user_schema_def reauth_schema_def text_or_empty_def)+

theorem stored_password_never_shown:
  assumes "connection_step entries src in_progress step_id network user_input = Inr (ShowForm sid form err)"
  shows "shown_password form = [] \<or>
    (\<exists>given. user_input = Some given \<and> shown_password form = text_or_empty (d_password given))"
proof (cases user_input)
  case None
  then have f: "form = form_schema src (map_option (\<lambda>e. (ce_data e)\<lparr>d_password := Some []\<rparr>) (source_entry src entries))"
    using assms by (simp add: connection_step_def Let_def)
  show ?thesis
  proof (cases "source_entry src entries")
    case none: None
    then show ?thesis using f shown_in_form(2) [of src] by simp
  next
    case (Some e)
    then show ?thesis
      using f shown_in_form(1) [of src "(ce_data e)\<lparr>d_password := Some []\<rparr>"] by (simp add: text_or_empty_def)
  qed
next
  case (Some given)
  let ?source = "source_entry src entries"
  have never: "store_connection entries src ?source in_progress d \<noteq> ShowForm sid form err" for d
    by (cases src; cases ?source) (simp_all add: store_connection_def Let_def)
  have "form = form_schema src (Some (effective_input src ?source given))"
    using assms never unfolding Some connection_step_def Let_def option.case
    by (auto simp: bindR_eq_Inr split: if_splits sum.splits)
  moreover have "text_or_empty (d_password (effective_input src ?source given)) = text_or_empty (d_password given)"
    by (cases src; cases ?source) (simp_all add: effective_input_def text_or_empty_def)
  ultimately show ?thesis using shown_in_form(1) [of src "effective_input src ?source given"] Some by auto
qed

theorem stored_password_never_shown_witness:
  "\<exists>form. connection_step [] SourceUser False ''user'' answering None = Inr (ShowForm ''user'' form None) \<and>
     shown_password form = []"
proof -
  obtain form where f: "connection_step [] SourceUser False ''user'' answering None = Inr (ShowForm ''user'' form None)"
    by (simp add: connection_step_def)
  then show ?thesis using stored_password_never_shown [OF f] by auto
qed

end
