(* ===== verification/OptionsClaims.thy ===== *)
theory OptionsClaims
  imports OptionsFlow ConfigFlowClaims
begin

section \<open>Saved options and the objects built from them\<close>

subsection \<open>Options that fit\<close>

text \<open>
  The knobs whose constructors take integers only; the value of a knob that fits its field; and options
  in which every knob fits, with the two relations between knobs that the form checks.
\<close>

definition int_keys :: "string list" where
  "int_keys = [CONF_INGRESS_QUEUE_CAPACITY, CONF_MAX_SERIALIZED_EVENT_BYTES, CONF_PERSIST_BATCH_ROWS,
     CONF_DELIVERY_BATCH_ROWS, CONF_DELIVERY_BATCH_BYTES, CONF_MAX_PENDING_ROWS, CONF_MAX_PENDING_BYTES,
     CONF_MAX_DEAD_LETTER_ROWS, CONF_MAX_DEAD_LETTER_BYTES, CONF_SPOOL_MIN_FREE_BYTES]"

fun fits :: "string \<Rightarrow> advanced_field \<Rightarrow> pyval \<Rightarrow> bool" where
  "fits k (NumberField lo hi st) v \<longleftrightarrow>
     (case v of VInt i \<Rightarrow> lo \<le> of_int i \<and> of_int i \<le> hi
      | VFloat r \<Rightarrow> k \<notin> set int_keys \<and> lo \<le> r \<and> r \<le> hi | _ \<Rightarrow> False)"
| "fits k BoolField v \<longleftrightarrow> (case v of VBool b \<Rightarrow> True | _ \<Rightarrow> False)"
| "fits k RetentionField v \<longleftrightarrow> (case v of VInt i \<Rightarrow> 0 \<le> i \<and> i \<le> 3650 | _ \<Rightarrow> False)"

definition knobs :: "(string \<times> pyval \<times> advanced_field) list" where
  "knobs = map (\<lambda>(k, d, f). (k, if f = RetentionField then VInt 0 else d, f)) (advanced_schema (\<lambda>_. []) [])"

definition knob :: "pydict \<Rightarrow> string \<times> pyval \<times> advanced_field \<Rightarrow> bool" where
  "knob options kdf = (case kdf of (k, d, f) \<Rightarrow> fits k f (dict_get options k d))"

definition knobs_fit :: "pydict \<Rightarrow> bool" where
  "knobs_fit options \<longleftrightarrow> list_all (knob options) knobs"

definition text_option :: "pydict \<Rightarrow> string \<Rightarrow> bool" where
  "text_option options key \<longleftrightarrow> (\<exists>xs. dict_get options key (VList []) = text_list xs)"

definition options_fit :: "pydict \<Rightarrow> bool" where
  "options_fit options \<longleftrightarrow> knobs_fit options \<and>
     (\<exists>a b. number_value (dict_get options CONF_RETRY_INITIAL_SECONDS PROVISIONAL_RETRY_INITIAL_SECONDS) = Some a \<and>
       number_value (dict_get options CONF_RETRY_MAX_SECONDS PROVISIONAL_RETRY_MAX_SECONDS) = Some b \<and> a \<le> b) \<and>
     (\<exists>i j. dict_get options CONF_MAX_SERIALIZED_EVENT_BYTES PROVISIONAL_MAX_SERIALIZED_EVENT_BYTES = VInt i \<and>
       dict_get options CONF_MAX_DEAD_LETTER_BYTES PROVISIONAL_MAX_DEAD_LETTER_BYTES = VInt j \<and> i \<le> j) \<and>
     text_option options CONF_ATTRIBUTE_ALLOWLIST \<and> text_option options CONF_ATTRIBUTE_DENYLIST"

lemmas knobs_eq = knobs_def advanced_schema_def Let_def dict_get_def [of "[]"]

lemma knob_keys: "map fst (advanced_schema other options) = map fst knobs"
  by (simp add: knobs_eq advanced_schema_def)

lemma distinct_knobs: "distinct (map fst knobs)"
  by (simp add: knobs_eq conf)

lemma no_options_fit: "options_fit []"
  by (simp add: options_fit_def knobs_fit_def knob_def knobs_eq dict_get_def int_keys_def conf number_value_def
      text_option_def text_list_def)

subsection \<open>What they configure\<close>

lemma knobs_fitD: "knobs_fit options \<Longrightarrow> (k, d, f) \<in> set knobs \<Longrightarrow> fits k f (dict_get options k d)"
  by (auto simp: knobs_fit_def list_all_iff knob_def)

lemma number_knob:
  assumes "knobs_fit options" and "(k, d, NumberField lo hi st) \<in> set knobs"
  shows "\<exists>r. number_value (dict_get options k d) = Some r \<and> lo \<le> r \<and> r \<le> hi"
  using knobs_fitD [OF assms] by (auto simp: number_value_def split: pyval.splits)

lemma int_knob:
  assumes "knobs_fit options" and "(k, d, NumberField lo hi st) \<in> set knobs" and "k \<in> set int_keys"
  shows "\<exists>i. dict_get options k d = VInt i \<and> lo \<le> of_int i \<and> of_int i \<le> hi"
  using knobs_fitD [OF assms(1,2)] assms(3) by (auto split: pyval.splits)

lemma knobs_fit_facts:
  assumes "knobs_fit options"
  shows "\<exists>i. dict_get options CONF_INGRESS_QUEUE_CAPACITY PROVISIONAL_INGRESS_QUEUE_CAPACITY = VInt i \<and> 0 < i"
    and "\<exists>i. dict_get options CONF_MAX_SERIALIZED_EVENT_BYTES PROVISIONAL_MAX_SERIALIZED_EVENT_BYTES = VInt i \<and> 0 < i \<and> i \<le> 1048576"
    and "\<exists>i. dict_get options CONF_PERSIST_BATCH_ROWS PROVISIONAL_PERSIST_BATCH_ROWS = VInt i \<and> 0 < i"
    and "\<exists>i. dict_get options CONF_DELIVERY_BATCH_ROWS PROVISIONAL_DELIVERY_BATCH_ROWS = VInt i \<and> 0 < i"
    and "\<exists>i. dict_get options CONF_DELIVERY_BATCH_BYTES PROVISIONAL_DELIVERY_BATCH_BYTES = VInt i \<and> 0 < i"
    and "\<exists>r. number_value (dict_get options CONF_FLUSH_INTERVAL_SECONDS PROVISIONAL_FLUSH_INTERVAL_SECONDS) = Some r \<and> 0 < r"
    and "\<exists>r. number_value (dict_get options CONF_PERSIST_IDLE_POLL_SECONDS PROVISIONAL_PERSIST_IDLE_POLL_SECONDS) = Some r \<and> 0 < r"
    and "\<exists>r. number_value (dict_get options CONF_RETRY_INITIAL_SECONDS PROVISIONAL_RETRY_INITIAL_SECONDS) = Some r \<and> 0 < r"
    and "\<exists>r. number_value (dict_get options CONF_RETRY_MULTIPLIER PROVISIONAL_RETRY_MULTIPLIER) = Some r \<and> 1 \<le> r"
    and "\<exists>r. number_value (dict_get options CONF_RETRY_JITTER_RATIO PROVISIONAL_RETRY_JITTER_RATIO) = Some r \<and> 0 \<le> r \<and> r \<le> 1"
    and "\<exists>b. dict_get options CONF_FLUSH_ON_SHUTDOWN PROVISIONAL_FLUSH_ON_SHUTDOWN = VBool b"
    and "\<exists>i. dict_get options CONF_MAX_PENDING_ROWS PROVISIONAL_MAX_PENDING_ROWS = VInt i \<and> 0 < i"
    and "\<exists>i. dict_get options CONF_MAX_PENDING_BYTES PROVISIONAL_MAX_PENDING_BYTES = VInt i \<and> 1048576 \<le> i"
    and "\<exists>i. dict_get options CONF_MAX_DEAD_LETTER_ROWS PROVISIONAL_MAX_DEAD_LETTER_ROWS = VInt i \<and> 0 < i"
    and "\<exists>i. dict_get options CONF_MAX_DEAD_LETTER_BYTES PROVISIONAL_MAX_DEAD_LETTER_BYTES = VInt i \<and> 0 < i"
    and "\<exists>i. dict_get options CONF_SPOOL_MIN_FREE_BYTES PROVISIONAL_SPOOL_MIN_FREE_BYTES = VInt i \<and> 0 \<le> i"
    and "\<exists>r. number_value (dict_get options CONF_SPOOL_MIN_FREE_RATIO PROVISIONAL_SPOOL_MIN_FREE_RATIO) = Some r \<and> 0 \<le> r \<and> r < 1"
    and "\<exists>i. dict_get options CONF_RETENTION_DAYS (VInt 0) = VInt i \<and> 0 \<le> i"
    and "\<exists>r. number_value (dict_get options CONF_SQLITE_BUSY_TIMEOUT_SECONDS PROVISIONAL_SQLITE_BUSY_TIMEOUT_SECONDS) = Some r \<and> 0 < r"
    and "\<exists>r. number_value (dict_get options CONF_HTTP_TIMEOUT_SECONDS PROVISIONAL_HTTP_TIMEOUT_SECONDS) = Some r \<and> 0 < r"
    and "\<exists>r. number_value (dict_get options CONF_START_TIMEOUT_SECONDS PROVISIONAL_START_TIMEOUT_SECONDS) = Some r \<and> 0 < r"
    and "\<exists>r. number_value (dict_get options CONF_STOP_TIMEOUT_SECONDS PROVISIONAL_STOP_TIMEOUT_SECONDS) = Some r \<and> 0 < r"
proof -
  show "\<exists>i. dict_get options CONF_INGRESS_QUEUE_CAPACITY PROVISIONAL_INGRESS_QUEUE_CAPACITY = VInt i \<and> 0 < i"
    using int_knob [OF assms, of CONF_INGRESS_QUEUE_CAPACITY PROVISIONAL_INGRESS_QUEUE_CAPACITY 10 100000 10] by (auto simp: knobs_eq int_keys_def)
  show "\<exists>i. dict_get options CONF_MAX_SERIALIZED_EVENT_BYTES PROVISIONAL_MAX_SERIALIZED_EVENT_BYTES = VInt i \<and> 0 < i \<and> i \<le> 1048576"
    using int_knob [OF assms, of CONF_MAX_SERIALIZED_EVENT_BYTES PROVISIONAL_MAX_SERIALIZED_EVENT_BYTES 1024 1048576 1024] by (auto simp: knobs_eq int_keys_def)
  show "\<exists>i. dict_get options CONF_PERSIST_BATCH_ROWS PROVISIONAL_PERSIST_BATCH_ROWS = VInt i \<and> 0 < i"
    using int_knob [OF assms, of CONF_PERSIST_BATCH_ROWS PROVISIONAL_PERSIST_BATCH_ROWS 1 10000 1] by (auto simp: knobs_eq int_keys_def)
  show "\<exists>i. dict_get options CONF_DELIVERY_BATCH_ROWS PROVISIONAL_DELIVERY_BATCH_ROWS = VInt i \<and> 0 < i"
    using int_knob [OF assms, of CONF_DELIVERY_BATCH_ROWS PROVISIONAL_DELIVERY_BATCH_ROWS 1 100000 1] by (auto simp: knobs_eq int_keys_def)
  show "\<exists>i. dict_get options CONF_DELIVERY_BATCH_BYTES PROVISIONAL_DELIVERY_BATCH_BYTES = VInt i \<and> 0 < i"
    using int_knob [OF assms, of CONF_DELIVERY_BATCH_BYTES PROVISIONAL_DELIVERY_BATCH_BYTES 4096 16777216 1024] by (auto simp: knobs_eq int_keys_def)
  show "\<exists>r. number_value (dict_get options CONF_FLUSH_INTERVAL_SECONDS PROVISIONAL_FLUSH_INTERVAL_SECONDS) = Some r \<and> 0 < r"
    using number_knob [OF assms, of CONF_FLUSH_INTERVAL_SECONDS PROVISIONAL_FLUSH_INTERVAL_SECONDS "(1 / 20)" 300 "(1 / 20)"] by (auto simp: knobs_eq)
  show "\<exists>r. number_value (dict_get options CONF_PERSIST_IDLE_POLL_SECONDS PROVISIONAL_PERSIST_IDLE_POLL_SECONDS) = Some r \<and> 0 < r"
    using number_knob [OF assms, of CONF_PERSIST_IDLE_POLL_SECONDS PROVISIONAL_PERSIST_IDLE_POLL_SECONDS "(1 / 20)" 60 "(1 / 20)"] by (auto simp: knobs_eq)
  show "\<exists>r. number_value (dict_get options CONF_RETRY_INITIAL_SECONDS PROVISIONAL_RETRY_INITIAL_SECONDS) = Some r \<and> 0 < r"
    using number_knob [OF assms, of CONF_RETRY_INITIAL_SECONDS PROVISIONAL_RETRY_INITIAL_SECONDS "(1 / 10)" 300 "(1 / 10)"] by (auto simp: knobs_eq)
  show "\<exists>r. number_value (dict_get options CONF_RETRY_MULTIPLIER PROVISIONAL_RETRY_MULTIPLIER) = Some r \<and> 1 \<le> r"
    using number_knob [OF assms, of CONF_RETRY_MULTIPLIER PROVISIONAL_RETRY_MULTIPLIER 1 10 "(1 / 10)"] by (auto simp: knobs_eq)
  show "\<exists>r. number_value (dict_get options CONF_RETRY_JITTER_RATIO PROVISIONAL_RETRY_JITTER_RATIO) = Some r \<and> 0 \<le> r \<and> r \<le> 1"
    using number_knob [OF assms, of CONF_RETRY_JITTER_RATIO PROVISIONAL_RETRY_JITTER_RATIO 0 1 "(1 / 20)"] by (auto simp: knobs_eq)
  show "\<exists>b. dict_get options CONF_FLUSH_ON_SHUTDOWN PROVISIONAL_FLUSH_ON_SHUTDOWN = VBool b"
    using knobs_fitD [OF assms, of CONF_FLUSH_ON_SHUTDOWN PROVISIONAL_FLUSH_ON_SHUTDOWN BoolField]
    by (auto simp: knobs_eq split: pyval.splits)
  show "\<exists>i. dict_get options CONF_MAX_PENDING_ROWS PROVISIONAL_MAX_PENDING_ROWS = VInt i \<and> 0 < i"
    using int_knob [OF assms, of CONF_MAX_PENDING_ROWS PROVISIONAL_MAX_PENDING_ROWS 100 10000000 100] by (auto simp: knobs_eq int_keys_def)
  show "\<exists>i. dict_get options CONF_MAX_PENDING_BYTES PROVISIONAL_MAX_PENDING_BYTES = VInt i \<and> 1048576 \<le> i"
    using int_knob [OF assms, of CONF_MAX_PENDING_BYTES PROVISIONAL_MAX_PENDING_BYTES 1048576 1073741824 1048576] by (auto simp: knobs_eq int_keys_def)
  show "\<exists>i. dict_get options CONF_MAX_DEAD_LETTER_ROWS PROVISIONAL_MAX_DEAD_LETTER_ROWS = VInt i \<and> 0 < i"
    using int_knob [OF assms, of CONF_MAX_DEAD_LETTER_ROWS PROVISIONAL_MAX_DEAD_LETTER_ROWS 10 1000000 10] by (auto simp: knobs_eq int_keys_def)
  show "\<exists>i. dict_get options CONF_MAX_DEAD_LETTER_BYTES PROVISIONAL_MAX_DEAD_LETTER_BYTES = VInt i \<and> 0 < i"
    using int_knob [OF assms, of CONF_MAX_DEAD_LETTER_BYTES PROVISIONAL_MAX_DEAD_LETTER_BYTES 65536 268435456 65536] by (auto simp: knobs_eq int_keys_def)
  show "\<exists>i. dict_get options CONF_SPOOL_MIN_FREE_BYTES PROVISIONAL_SPOOL_MIN_FREE_BYTES = VInt i \<and> 0 \<le> i"
    using int_knob [OF assms, of CONF_SPOOL_MIN_FREE_BYTES PROVISIONAL_SPOOL_MIN_FREE_BYTES 0 1073741824 1048576] by (auto simp: knobs_eq int_keys_def)
  show "\<exists>r. number_value (dict_get options CONF_SPOOL_MIN_FREE_RATIO PROVISIONAL_SPOOL_MIN_FREE_RATIO) = Some r \<and> 0 \<le> r \<and> r < 1"
    using number_knob [OF assms, of CONF_SPOOL_MIN_FREE_RATIO PROVISIONAL_SPOOL_MIN_FREE_RATIO 0 "(1 / 2)" "(1 / 100)"] by (auto simp: knobs_eq)
  show "\<exists>i. dict_get options CONF_RETENTION_DAYS (VInt 0) = VInt i \<and> 0 \<le> i"
    using knobs_fitD [OF assms, of CONF_RETENTION_DAYS "VInt 0" RetentionField]
    by (auto simp: knobs_eq split: pyval.splits)
  show "\<exists>r. number_value (dict_get options CONF_SQLITE_BUSY_TIMEOUT_SECONDS PROVISIONAL_SQLITE_BUSY_TIMEOUT_SECONDS) = Some r \<and> 0 < r"
    using number_knob [OF assms, of CONF_SQLITE_BUSY_TIMEOUT_SECONDS PROVISIONAL_SQLITE_BUSY_TIMEOUT_SECONDS "(1 / 20)" 30 "(1 / 20)"] by (auto simp: knobs_eq)
  show "\<exists>r. number_value (dict_get options CONF_HTTP_TIMEOUT_SECONDS PROVISIONAL_HTTP_TIMEOUT_SECONDS) = Some r \<and> 0 < r"
    using number_knob [OF assms, of CONF_HTTP_TIMEOUT_SECONDS PROVISIONAL_HTTP_TIMEOUT_SECONDS 1 120 1] by (auto simp: knobs_eq)
  show "\<exists>r. number_value (dict_get options CONF_START_TIMEOUT_SECONDS PROVISIONAL_START_TIMEOUT_SECONDS) = Some r \<and> 0 < r"
    using number_knob [OF assms, of CONF_START_TIMEOUT_SECONDS PROVISIONAL_START_TIMEOUT_SECONDS 1 120 1] by (auto simp: knobs_eq)
  show "\<exists>r. number_value (dict_get options CONF_STOP_TIMEOUT_SECONDS PROVISIONAL_STOP_TIMEOUT_SECONDS) = Some r \<and> 0 < r"
    using number_knob [OF assms, of CONF_STOP_TIMEOUT_SECONDS PROVISIONAL_STOP_TIMEOUT_SECONDS 1 300 1] by (auto simp: knobs_eq)
qed

lemma make_settings_fit:
  assumes "options_fit options"
  shows "\<exists>ws. make_settings (settings_values_of options) = Inr ws"
proof -
  note f = knobs_fit_facts [of options]
  have k: "knobs_fit options" using assms by (simp add: options_fit_def)
  obtain capacity eb pr br bb mfb where i:
    "dict_get options CONF_INGRESS_QUEUE_CAPACITY PROVISIONAL_INGRESS_QUEUE_CAPACITY = VInt capacity" "0 < capacity"
    "dict_get options CONF_MAX_SERIALIZED_EVENT_BYTES PROVISIONAL_MAX_SERIALIZED_EVENT_BYTES = VInt eb" "0 < eb"
    "dict_get options CONF_PERSIST_BATCH_ROWS PROVISIONAL_PERSIST_BATCH_ROWS = VInt pr" "0 < pr"
    "dict_get options CONF_DELIVERY_BATCH_ROWS PROVISIONAL_DELIVERY_BATCH_ROWS = VInt br" "0 < br"
    "dict_get options CONF_DELIVERY_BATCH_BYTES PROVISIONAL_DELIVERY_BATCH_BYTES = VInt bb" "0 < bb"
    "dict_get options CONF_SPOOL_MIN_FREE_BYTES PROVISIONAL_SPOOL_MIN_FREE_BYTES = VInt mfb" "0 \<le> mfb"
    using f(1-5,16) [OF k] by blast
  obtain flush poll initial most multiplier jitter ratio where r:
    "number_value (dict_get options CONF_FLUSH_INTERVAL_SECONDS PROVISIONAL_FLUSH_INTERVAL_SECONDS) = Some flush" "0 < flush"
    "number_value (dict_get options CONF_PERSIST_IDLE_POLL_SECONDS PROVISIONAL_PERSIST_IDLE_POLL_SECONDS) = Some poll" "0 < poll"
    "number_value (dict_get options CONF_RETRY_INITIAL_SECONDS PROVISIONAL_RETRY_INITIAL_SECONDS) = Some initial" "0 < initial"
    "number_value (dict_get options CONF_RETRY_MAX_SECONDS PROVISIONAL_RETRY_MAX_SECONDS) = Some most" "initial \<le> most"
    "number_value (dict_get options CONF_RETRY_MULTIPLIER PROVISIONAL_RETRY_MULTIPLIER) = Some multiplier" "1 \<le> multiplier"
    "number_value (dict_get options CONF_RETRY_JITTER_RATIO PROVISIONAL_RETRY_JITTER_RATIO) = Some jitter" "0 \<le> jitter" "jitter \<le> 1"
    "number_value (dict_get options CONF_SPOOL_MIN_FREE_RATIO PROVISIONAL_SPOOL_MIN_FREE_RATIO) = Some ratio" "0 \<le> ratio" "ratio < 1"
    using f(6-10,17) [OF k] assms unfolding options_fit_def by (metis option.inject)
  obtain b where b: "dict_get options CONF_FLUSH_ON_SHUTDOWN PROVISIONAL_FLUSH_ON_SHUTDOWN = VBool b" using f(11) [OF k] ..
  have space: "free_space_values (VInt mfb) (dict_get options CONF_SPOOL_MIN_FREE_RATIO PROVISIONAL_SPOOL_MIN_FREE_RATIO) = Inr (mfb, ratio)"
    using i(12) r(14-16) by (simp add: free_space_values_Inr)
  show ?thesis
    using i r space unfolding make_settings_def settings_values_of_def settings_values.simps
    by (simp add: b positive_value_def finite_value_def)
qed

lemma spool_limits_fit:
  assumes "options_fit options"
  shows "\<exists>L busy. spool_limits (spool_configuration_of path options) = Inr (L, busy)"
proof -
  note f = knobs_fit_facts [of options]
  have k: "knobs_fit options" using assms by (simp add: options_fit_def)
  obtain pr pb eb dr db where i:
    "dict_get options CONF_MAX_PENDING_ROWS PROVISIONAL_MAX_PENDING_ROWS = VInt pr" "0 < pr"
    "dict_get options CONF_MAX_PENDING_BYTES PROVISIONAL_MAX_PENDING_BYTES = VInt pb" "1048576 \<le> pb"
    "dict_get options CONF_MAX_SERIALIZED_EVENT_BYTES PROVISIONAL_MAX_SERIALIZED_EVENT_BYTES = VInt eb" "0 < eb" "eb \<le> 1048576"
    "dict_get options CONF_MAX_DEAD_LETTER_ROWS PROVISIONAL_MAX_DEAD_LETTER_ROWS = VInt dr" "0 < dr"
    "dict_get options CONF_MAX_DEAD_LETTER_BYTES PROVISIONAL_MAX_DEAD_LETTER_BYTES = VInt db" "0 < db"
    using f(2,12-15) [OF k] by blast
  moreover have "eb \<le> db" using assms i(5,10) by (auto simp: options_fit_def)
  moreover obtain busy where
    "number_value (dict_get options CONF_SQLITE_BUSY_TIMEOUT_SECONDS PROVISIONAL_SQLITE_BUSY_TIMEOUT_SECONDS) = Some busy" "0 < busy"
    using f(19) [OF k] by blast
  ultimately show ?thesis
    by (simp add: spool_limits_def spool_configuration_of_def positive_value_def positive_finite_value_def)
qed

lemma usable_timeout_fit: "options_fit options \<Longrightarrow> usable_timeout options"
  using knobs_fit_facts(20) [of options]
  by (auto simp: options_fit_def usable_timeout_def number_value_def split: pyval.splits)

lemma strings_of_text_list: "strings_of (text_list xs) = Inr xs"
  by (induction xs) (simp_all add: text_list_def)

lemma configuration_fit:
  assumes "options_fit options" and "d_table d \<noteq> []"
  shows "\<exists>c. runtime_configuration_of convert path d options = Inr c"
proof -
  have k: "knobs_fit options" using assms by (simp add: options_fit_def)
  obtain ws where ws: "make_settings (settings_values_of options) = Inr ws" using make_settings_fit assms(1) by blast
  obtain al de where "dict_get options CONF_ATTRIBUTE_ALLOWLIST (VList []) = text_list al"
      "dict_get options CONF_ATTRIBUTE_DENYLIST (VList []) = text_list de"
    using assms(1) by (auto simp: options_fit_def text_option_def)
  then have af: "\<exists>af. attribute_filter_of options = Inr af"
    by (simp add: attribute_filter_of_def strings_of_text_list)
  obtain days where "dict_get options CONF_RETENTION_DAYS (VInt 0) = VInt days"
    using knobs_fit_facts(18) [OF k] by blast
  then have days: "retention_days_of options = Inr days" by (simp add: retention_days_of_def Let_def)
  show ?thesis
    using ws af days knobs_fit_facts(21,22) [OF k] assms(2)
    by (auto simp: runtime_configuration_of_def make_runtime_configuration_def positive_finite_value_def)
qed

subsection \<open>What the two steps save\<close>

text \<open>
  A selector that accepts a number of its range and returns it as it came, and answers in which the
  integer knobs are whole numbers of the browser.
\<close>

definition keeps_numbers :: "options_env \<Rightarrow> bool" where
  "keeps_numbers e \<longleftrightarrow> (\<forall>lo hi st v w. number_selector e lo hi st v = Inr w \<longrightarrow>
     w = v \<and> (\<exists>r. number_value v = Some r \<and> lo \<le> r \<and> r \<le> hi))"

definition whole_numbers :: "pydict \<Rightarrow> bool" where
  "whole_numbers raw \<longleftrightarrow> (\<forall>k \<in> set int_keys. \<forall>v. map_of raw k = Some v \<longrightarrow> (\<exists>i. v = VInt i))"

lemma apply_schema_keys: "apply_schema e form raw = Inr vs \<Longrightarrow> map fst vs = map fst form"
  unfolding apply_schema_def
  by (induction form arbitrary: vs) (auto simp: bindR_eq_Inr)

lemma apply_schema_values:
  assumes "apply_schema e form raw = Inr vs" and "(k, d, f) \<in> set form" and "distinct (map fst form)"
  shows "\<exists>v. map_of vs k = Some v \<and> validated e f (dict_get raw k d) = Inr v"
  using assms unfolding apply_schema_def
proof (induction form arbitrary: vs)
  case (Cons x form)
  obtain k' d' f' where x: "x = (k', d', f')" by (cases x)
  obtain v' vs' where v': "validated e f' (dict_get raw k' d') = Inr v'" "vs = (k', v') # vs'"
      "mapR (\<lambda>(key, dflt, field). bindR (validated e field (dict_get raw key dflt)) (\<lambda>v. Inr (key, v))) form = Inr vs'"
    using Cons.prems(1) x by (auto simp: bindR_eq_Inr)
  show ?case
  proof (cases "(k, d, f) = x")
    case True
    then show ?thesis using v' x by simp
  next
    case False
    then have "(k, d, f) \<in> set form" "k \<noteq> k'" using Cons.prems(2,3) x by (auto simp: image_iff)
    then show ?thesis using Cons.IH [OF v'(3)] Cons.prems(3) v'(2) by simp
  qed
qed simp

lemma advanced_schema_eq:
  "advanced_schema other options = map (\<lambda>(k, d, f). (k,
     if f = RetentionField then VStr (py_str other (dict_get options k d)) else dict_get options k d, f)) knobs"
  by (simp add: knobs_eq advanced_schema_def)

lemma advanced_entry:
  assumes "(k, d, f) \<in> set knobs"
  shows "(k, if f = RetentionField then VStr (py_str other (dict_get options k d)) else dict_get options k d, f)
    \<in> set (advanced_schema other options)"
  unfolding advanced_schema_eq using assms by (auto simp: image_iff simp del: if_split intro!: bexI [of _ "(k, d, f)"])

lemma validated_fits:
  assumes "keeps_numbers e" and "validated e f v = Inr w"
    and "k \<in> set int_keys \<longrightarrow> (\<exists>i. v = VInt i)"
  shows "fits k f w"
proof (cases f)
  case (NumberField lo hi st)
  then have "number_selector e lo hi st v = Inr w" using assms(2) by simp
  then have "w = v \<and> (\<exists>r. number_value v = Some r \<and> lo \<le> r \<and> r \<le> hi)"
    using assms(1) unfolding keeps_numbers_def by blast
  then show ?thesis using NumberField assms(3) by (auto simp: number_value_def split: pyval.splits)
next
  case BoolField
  then show ?thesis using assms(2) by (cases v) (auto simp: invalid_value_def)
next
  case RetentionField
  then have "valid_retention v = Inr w" using assms(2) by simp
  then show ?thesis
    using RetentionField by (cases v) (auto simp: valid_retention_def invalid_value_def split: option.splits if_splits)
qed

text \<open>The answer to a form whose fields show fitting values is a full set of fitting values.\<close>

lemma answers_fit:
  assumes "keeps_numbers e" and "whole_numbers raw" and "knobs_fit on_form"
    and "apply_schema e (advanced_schema other on_form) raw = Inr ui"
  shows "knobs_fit ui \<and> map fst ui = map fst knobs"
proof -
  have keys: "distinct (map fst (advanced_schema other on_form))" using distinct_knobs by (simp add: knob_keys)
  have "fits k f (dict_get ui k d)" if member: "(k, d, f) \<in> set knobs" for k d f
  proof -
    let ?d = "if f = RetentionField then VStr (py_str other (dict_get on_form k d)) else dict_get on_form k d"
    obtain v where v: "map_of ui k = Some v" "validated e f (dict_get raw k ?d) = Inr v"
      using apply_schema_values [OF assms(4) advanced_entry [OF member] keys] by blast
    have "\<exists>i. dict_get raw k ?d = VInt i" if int: "k \<in> set int_keys"
    proof -
      have n: "f \<noteq> RetentionField \<and> f \<noteq> BoolField"
        using int member by (auto simp: int_keys_def knobs_eq conf)
      then obtain lo hi st where f: "f = NumberField lo hi st" by (cases f) auto
      then have "\<exists>i. dict_get on_form k d = VInt i"
        using int_knob [OF assms(3), of k d lo hi st] member int by auto
      then show ?thesis
        using assms(2) int n unfolding whole_numbers_def dict_get_def [of raw] by (auto split: option.splits)
    qed
    then have "fits k f v" using validated_fits [OF assms(1) v(2)] by blast
    then show ?thesis using v(1) by (simp add: dict_get_def)
  qed
  then show ?thesis
    using apply_schema_keys [OF assms(4)] by (auto simp: knobs_fit_def list_all_iff knob_def knob_keys)
qed

lemma filter_keys:
  "map fst (filter_options_of include exclude allowed denied) =
     [CONF_INCLUDE, CONF_EXCLUDE, CONF_ATTRIBUTE_ALLOWLIST, CONF_ATTRIBUTE_DENYLIST]"
  by (simp add: filter_options_of_def)

lemma filter_keys_apart: "k \<in> fst ` set knobs \<Longrightarrow> k \<notin> {CONF_INCLUDE, CONF_EXCLUDE, CONF_ATTRIBUTE_ALLOWLIST, CONF_ATTRIBUTE_DENYLIST}"
  by (auto simp: knobs_eq conf)

text \<open>The filter the first form's answer means.\<close>

definition typed_filter :: "filter_input \<Rightarrow> pydict" where
  "typed_filter ui = filter_options_of (filter_side ui True) (filter_side ui False)
     (split_csv (or_default (in_attribute_allowlist ui) [])) (split_csv (or_default (in_attribute_denylist ui) []))"

lemma step_init_chooses: "step_init e entry chosen (Some ui) = (r, chosen') \<Longrightarrow> chosen' = typed_filter ui"
  by (simp add: step_init_def Let_def typed_filter_def)

lemma step_init_saves:
  assumes "step_init e entry chosen (Some ui) = (Inr (SaveOptions options), chosen')"
  shows "options = dict_merge entry (typed_filter ui) \<and>
    overlapping_pairs (filter_side ui True) (filter_side ui False)
      (split_csv (or_default (in_attribute_allowlist ui) [])) (split_csv (or_default (in_attribute_denylist ui) [])) = []"
  using assms by (auto simp: step_init_def Let_def typed_filter_def bindR_eq_Inr split: if_splits)

lemma typed_filter_keys:
  "map fst (typed_filter ui) = [CONF_INCLUDE, CONF_EXCLUDE, CONF_ATTRIBUTE_ALLOWLIST, CONF_ATTRIBUTE_DENYLIST]"
  by (simp add: typed_filter_def filter_keys)

lemma distinct_typed_filter: "distinct (map fst (typed_filter ui))"
  unfolding typed_filter_keys by (simp add: conf)

lemma typed_filter_texts:
  "dict_get (typed_filter ui) CONF_ATTRIBUTE_ALLOWLIST v = text_list (split_csv (or_default (in_attribute_allowlist ui) []))"
  "dict_get (typed_filter ui) CONF_ATTRIBUTE_DENYLIST v = text_list (split_csv (or_default (in_attribute_denylist ui) []))"
  "dict_get (typed_filter ui) CONF_INCLUDE v = side_value (filter_side ui True)"
  "dict_get (typed_filter ui) CONF_EXCLUDE v = side_value (filter_side ui False)"
  by (simp_all add: typed_filter_def filter_options_of_def dict_get_def conf)

lemma typed_filter_apart: "k \<notin> fst ` set (typed_filter ui) \<Longrightarrow> dict_get (dict_merge options (typed_filter ui)) k d = dict_get options k d"
  unfolding dict_get_merge [OF distinct_typed_filter] dict_get_def [of "typed_filter ui"]
  by (simp add: map_of_eq_None_iff [THEN iffD2])

lemma knob_apart: "(k, d, f) \<in> set knobs \<Longrightarrow> k \<notin> fst ` set (typed_filter ui)"
  using filter_keys_apart [of k] arg_cong [OF typed_filter_keys [of ui], of set] image_eqI [of k fst "(k, d, f)" "set knobs"]
  by simp

lemma map_fst_dict_set:
  "map fst (dict_set d kv) = (if fst kv \<in> set (map fst d) then map fst d else map fst d @ [fst kv])"
proof -
  have "map fst (map (\<lambda>(k, v). (k, if k = fst kv then snd kv else v)) d) = map fst d"
    by (induction d) auto
  then show ?thesis by (simp add: dict_set_def del: map_map)
qed

lemma dict_set_keys:
  "set (map fst (dict_set d kv)) = insert (fst kv) (set (map fst d))"
  "distinct (map fst d) \<Longrightarrow> distinct (map fst (dict_set d kv))"
  unfolding map_fst_dict_set by auto

lemma dict_merge_keys:
  "set (map fst (dict_merge d d')) = set (map fst d) \<union> set (map fst d')"
  "distinct (map fst d) \<Longrightarrow> distinct (map fst (dict_merge d d'))"
proof (induction d' arbitrary: d)
  case (Cons kv d')
  { case 1
    then show ?case using Cons.IH(1) [of "dict_set d kv"] dict_set_keys(1) [of d kv] by (simp add: dict_merge_def) }
  { case 2
    then show ?case using Cons.IH(2) [of "dict_set d kv"] dict_set_keys(2) [of d kv] by (simp add: dict_merge_def) }
qed (simp_all add: dict_merge_def)

lemma same_knobs:
  assumes "\<And>k d f. (k, d, f) \<in> set knobs \<Longrightarrow> dict_get options' k d = dict_get options k d"
  shows "knobs_fit options' = knobs_fit options"
  using assms by (auto simp: knobs_fit_def list_all_iff knob_def)

lemma knob_members:
  "(CONF_RETRY_INITIAL_SECONDS, PROVISIONAL_RETRY_INITIAL_SECONDS, NumberField (1 / 10) 300 (1 / 10)) \<in> set knobs"
  "(CONF_RETRY_MAX_SECONDS, PROVISIONAL_RETRY_MAX_SECONDS, NumberField 1 3600 1) \<in> set knobs"
  "(CONF_MAX_SERIALIZED_EVENT_BYTES, PROVISIONAL_MAX_SERIALIZED_EVENT_BYTES, NumberField 1024 1048576 1024) \<in> set knobs"
  "(CONF_MAX_DEAD_LETTER_BYTES, PROVISIONAL_MAX_DEAD_LETTER_BYTES, NumberField 65536 268435456 65536) \<in> set knobs"
  by (simp_all add: knobs_eq)

lemma filter_step_fits:
  assumes "options_fit options"
  shows "options_fit (dict_merge options (typed_filter ui))"
proof -
  let ?o = "dict_merge options (typed_filter ui)"
  have same: "dict_get ?o k d = dict_get options k d" if "(k, d, f) \<in> set knobs" for k d f
    using typed_filter_apart [OF knob_apart [OF that]] .
  note m = knob_members [THEN same]
  have "text_option ?o CONF_ATTRIBUTE_ALLOWLIST" "text_option ?o CONF_ATTRIBUTE_DENYLIST"
    by (auto simp: text_option_def dict_get_merge [OF distinct_typed_filter] typed_filter_texts)
  then show ?thesis
    using assms same_knobs [of ?o options, OF same] by (simp add: options_fit_def m)
qed

lemma merged_knob:
  assumes "map fst ui = map fst knobs" and "(k, d, f) \<in> set knobs"
  shows "dict_get (dict_merge defaults ui) k v = dict_get ui k d"
proof -
  have ui: "distinct (map fst ui)" using distinct_knobs assms(1) by simp
  obtain x where "map_of ui k = Some x"
    using assms by (metis fst_conv image_eqI list.set_map map_of_eq_None_iff not_Some_eq)
  then show ?thesis by (simp add: dict_get_def map_of_dict_merge [OF ui] map_add_def)
qed

text \<open>Saving the advanced step: the knobs are the answers, everything else is as the filter step left it.\<close>

lemma advanced_step_saves:
  assumes "map fst ui = map fst knobs"
    and "step_advanced e options chosen (Some ui) = Inr (SaveOptions options')"
  shows "(k, d, f) \<in> set knobs \<Longrightarrow> dict_get options' k d = dict_get ui k d"
    and "k \<notin> set (map fst knobs) \<Longrightarrow> map_of options' k = map_of (dict_merge options chosen) k"
    and "py_less (dict_get ui CONF_RETRY_MAX_SECONDS PROVISIONAL_RETRY_MAX_SECONDS)
      (dict_get ui CONF_RETRY_INITIAL_SECONDS PROVISIONAL_RETRY_INITIAL_SECONDS) = Inr False"
    and "py_less (dict_get ui CONF_MAX_DEAD_LETTER_BYTES PROVISIONAL_MAX_DEAD_LETTER_BYTES)
      (dict_get ui CONF_MAX_SERIALIZED_EVENT_BYTES PROVISIONAL_MAX_SERIALIZED_EVENT_BYTES) = Inr False"
proof -
  obtain defaults where defaults: "apply_schema e (advanced_schema (str_of_other e) options) [] = Inr defaults"
    and cross: "py_less (dict_get (dict_merge defaults ui) CONF_RETRY_MAX_SECONDS VNone)
        (dict_get (dict_merge defaults ui) CONF_RETRY_INITIAL_SECONDS VNone) = Inr False"
      "py_less (dict_get (dict_merge defaults ui) CONF_MAX_DEAD_LETTER_BYTES VNone)
        (dict_get (dict_merge defaults ui) CONF_MAX_SERIALIZED_EVENT_BYTES VNone) = Inr False"
    and saved: "options' = dict_merge (dict_merge options chosen) (dict_merge defaults ui)"
    using assms(2) by (auto simp: step_advanced_def Let_def bindR_eq_Inr split: if_splits)
  have dist: "distinct (map fst (dict_merge defaults ui))"
    using dict_merge_keys(2) distinct_knobs apply_schema_keys [OF defaults] by (simp add: knob_keys)
  have keys: "set (map fst (dict_merge defaults ui)) = set (map fst knobs)"
    unfolding dict_merge_keys apply_schema_keys [OF defaults] knob_keys assms(1) by simp
  show "dict_get options' k d = dict_get ui k d" if "(k, d, f) \<in> set knobs"
    unfolding saved dict_get_merge [OF dist] using merged_knob [OF assms(1) that] .
  show "map_of options' k = map_of (dict_merge options chosen) k" if "k \<notin> set (map fst knobs)"
  proof -
    have "map_of (dict_merge defaults ui) k = None" using that unfolding keys [symmetric] by (simp add: map_of_eq_None_iff)
    then show ?thesis by (simp add: saved map_of_dict_merge [OF dist] map_add_def)
  qed
  show "py_less (dict_get ui CONF_RETRY_MAX_SECONDS PROVISIONAL_RETRY_MAX_SECONDS)
      (dict_get ui CONF_RETRY_INITIAL_SECONDS PROVISIONAL_RETRY_INITIAL_SECONDS) = Inr False"
    "py_less (dict_get ui CONF_MAX_DEAD_LETTER_BYTES PROVISIONAL_MAX_DEAD_LETTER_BYTES)
      (dict_get ui CONF_MAX_SERIALIZED_EVENT_BYTES PROVISIONAL_MAX_SERIALIZED_EVENT_BYTES) = Inr False"
    using cross by (simp_all add: knob_members [THEN merged_knob [OF assms(1)]])
qed

lemma number_of_value: "number_value v = Some x \<Longrightarrow> number_of v = Some x"
  by (cases v) (simp_all add: number_value_def)

lemma advanced_step_fits:
  assumes "options_fit options" and "knobs_fit ui" and "map fst ui = map fst knobs"
    and "chosen = typed_filter fi"
    and "step_advanced e options chosen (Some ui) = Inr (SaveOptions options')"
  shows "options_fit options'"
proof -
  note saves = advanced_step_saves [OF assms(3,5)]
  note m = knob_members [THEN saves(1)]
  have texts: "text_option options' k" if "k \<in> {CONF_ATTRIBUTE_ALLOWLIST, CONF_ATTRIBUTE_DENYLIST}" for k
  proof -
    have "k \<notin> set (map fst knobs)" using that filter_keys_apart [of k] by auto
    then have "dict_get options' k (VList []) = dict_get (typed_filter fi) k (dict_get options k (VList []))"
      using saves(2) dict_get_merge [OF distinct_typed_filter] by (simp add: dict_get_def assms(4))
    then show ?thesis using that by (auto simp: text_option_def typed_filter_texts)
  qed
  obtain initial most where r: "number_value (dict_get ui CONF_RETRY_INITIAL_SECONDS PROVISIONAL_RETRY_INITIAL_SECONDS) = Some initial"
      "number_value (dict_get ui CONF_RETRY_MAX_SECONDS PROVISIONAL_RETRY_MAX_SECONDS) = Some most"
    using number_knob [OF assms(2) knob_members(1)] number_knob [OF assms(2) knob_members(2)] by blast
  obtain i j where z: "dict_get ui CONF_MAX_SERIALIZED_EVENT_BYTES PROVISIONAL_MAX_SERIALIZED_EVENT_BYTES = VInt i"
      "dict_get ui CONF_MAX_DEAD_LETTER_BYTES PROVISIONAL_MAX_DEAD_LETTER_BYTES = VInt j"
    using knobs_fit_facts(2,15) [OF assms(2)] by blast
  have "initial \<le> most" "i \<le> j"
    using saves(3,4) number_of_value [OF r(1)] number_of_value [OF r(2)] z by (simp_all add: py_less_def not_less)
  then show ?thesis
    using assms(2) same_knobs [of options' ui, OF saves(1)] texts r z by (simp add: options_fit_def m)
qed

subsection \<open>The options over time\<close>

text \<open>
  \<open>advanced_shown e o chosen p\<close>: the advanced form may show the values \<open>p\<close>; first the stored options,
  then, after an answer the step rejects, that answer. \<open>options_saved e o\<close>: \<open>o\<close> can be the entry's
  options, after any number of runs of the form.
\<close>

inductive advanced_shown :: "options_env \<Rightarrow> pydict \<Rightarrow> pydict \<Rightarrow> pydict \<Rightarrow> bool"
  for e options chosen where
  stored_values: "advanced_shown e options chosen options"
| answered_again: "advanced_shown e options chosen p \<Longrightarrow> whole_numbers raw \<Longrightarrow>
     apply_schema e (advanced_schema (str_of_other e) p) raw = Inr ui \<Longrightarrow>
     step_advanced e options chosen (Some ui) = Inr (ShowAdvanced form errors) \<Longrightarrow>
     advanced_shown e options chosen ui"

inductive options_saved :: "options_env \<Rightarrow> pydict \<Rightarrow> bool" for e where
  new_entry: "options_saved e []"
| filter_saved: "options_saved e options \<Longrightarrow>
     step_init e options chosen (Some fi) = (Inr (SaveOptions options'), chosen') \<Longrightarrow> options_saved e options'"
| advanced_saved: "options_saved e options \<Longrightarrow>
     step_init e options chosen (Some fi) = (Inr (ShowAdvanced form errors), chosen') \<Longrightarrow>
     advanced_shown e options chosen' p \<Longrightarrow> whole_numbers raw \<Longrightarrow>
     answer_advanced e p options chosen' raw = Inr (SaveOptions options') \<Longrightarrow> options_saved e options'"

lemma shown_fits:
  "advanced_shown e options chosen p \<Longrightarrow> keeps_numbers e \<Longrightarrow> knobs_fit options \<Longrightarrow> knobs_fit p"
  by (induction rule: advanced_shown.induct) (use answers_fit in blast)+

lemma options_saved_fit: "options_saved e options \<Longrightarrow> keeps_numbers e \<Longrightarrow> options_fit options"
proof (induction rule: options_saved.induct)
  case new_entry
  show ?case by (rule no_options_fit)
next
  case (filter_saved options chosen fi options' chosen')
  then show ?case using step_init_saves filter_step_fits by blast
next
  case (advanced_saved options chosen fi form errors chosen' p raw options')
  obtain ui where ui: "apply_schema e (advanced_schema (str_of_other e) p) raw = Inr ui"
      "step_advanced e options chosen' (Some ui) = Inr (SaveOptions options')"
    using advanced_saved.hyps(5) by (auto simp: answer_advanced_def bindR_eq_Inr)
  have f: "options_fit options" using advanced_saved by blast
  then have "knobs_fit p" using shown_fits advanced_saved.hyps(3) advanced_saved.prems by (auto simp: options_fit_def)
  then have "knobs_fit ui" "map fst ui = map fst knobs"
    using answers_fit [OF advanced_saved.prems advanced_saved.hyps(4) _ ui(1)] by auto
  then show ?case
    using advanced_step_fits [OF f _ _ step_init_chooses [OF advanced_saved.hyps(2)] ui(2)] by blast
qed

subsection \<open>Saved options configure a writer\<close>


text \<open>A selector that checks the range and returns what \<open>conv\<close> makes of the number.\<close>

definition ranged :: "(pyval \<Rightarrow> rat \<Rightarrow> pyval) \<Rightarrow> rat \<Rightarrow> rat \<Rightarrow> rat \<Rightarrow> pyval \<Rightarrow> pyval res" where
  "ranged conv lo hi st v =
     (case number_value v of
        Some r \<Rightarrow> if lo \<le> r \<and> r \<le> hi then Inr (conv v r) else invalid_value
      | None \<Rightarrow> invalid_value)"

definition sample_options_env :: "(pyval \<Rightarrow> rat \<Rightarrow> pyval) \<Rightarrow> options_env" where
  "sample_options_env conv = \<lparr>number_selector = ranged conv, filter_schema_ok = (\<lambda>_. True), str_of_other = (\<lambda>_. []),
     entity_domains = [], integration_name = (\<lambda>_. None)\<rparr>"

definition sample_answer :: filter_input where
  "sample_answer = \<lparr>in_include_entities = None, in_exclude_entities = None, in_include_domains = None,
     in_exclude_domains = None, in_include_globs = None, in_exclude_globs = None, in_attribute_allowlist = None,
     in_attribute_denylist = None, in_show_advanced = True\<rparr>"

lemma sample_retention: "int_of_text (int_str 0) = Some 0"
  by (simp add: int_of_text_def int_str_def nat_str.simps py_strip_def py_isspace_def Let_def nat_of_digits_def)

lemma apply_schema_accepts:
  assumes "\<And>k d f. (k, d, f) \<in> set form \<Longrightarrow> \<exists>v. validated e f (dict_get raw k d) = Inr v"
  shows "\<exists>vs. apply_schema e form raw = Inr vs"
  using assms unfolding apply_schema_def
proof (induction form)
  case (Cons x form)
  obtain k d f where x: "x = (k, d, f)" by (cases x)
  obtain vs where "mapR (\<lambda>(key, dflt, field). bindR (validated e field (dict_get raw key dflt)) (\<lambda>v. Inr (key, v))) form = Inr vs"
    using Cons by auto
  then show ?case using Cons.prems [of k d f] x by auto
qed simp

definition sample_raw :: pydict where
  "sample_raw = [(CONF_PERSIST_BATCH_ROWS, VInt 7)]"

lemma sample_accepted:
  assumes "raw \<in> {[], sample_raw}"
  shows "\<exists>vs. apply_schema (sample_options_env conv) (advanced_schema (str_of_other e) []) raw = Inr vs"
proof (rule apply_schema_accepts)
  fix k d' f assume "(k, d', f) \<in> set (advanced_schema (str_of_other e) [])"
  then obtain d where d: "(k, d, f) \<in> set knobs"
      "d' = (if f = RetentionField then VStr (py_str (str_of_other e) d) else d)"
    by (auto simp: advanced_schema_eq dict_get_def)
  have "knobs_fit raw"
    using assms by (auto simp: knobs_fit_def knob_def knobs_eq dict_get_def int_keys_def conf sample_raw_def)
  then have f: "fits k f (dict_get raw k d)" using d(1) by (rule knobs_fitD)
  show "\<exists>v. validated (sample_options_env conv) f (dict_get raw k d') = Inr v"
  proof (cases f)
    case (NumberField lo hi st)
    then have "\<exists>r. number_value (dict_get raw k d) = Some r \<and> lo \<le> r \<and> r \<le> hi"
      using f by (auto simp: number_value_def split: pyval.splits)
    then show ?thesis using NumberField d(2) by (auto simp: sample_options_env_def ranged_def)
  next
    case BoolField
    then show ?thesis using f d(2) by (auto split: pyval.splits)
  next
    case RetentionField
    then have k: "k = CONF_RETENTION_DAYS" "d = VInt 0" using d(1) by (auto simp: knobs_eq)
    then have "dict_get raw k d' = VStr (int_str 0)"
      using assms RetentionField d(2) by (auto simp: dict_get_def sample_raw_def conf)
    then show ?thesis using RetentionField by (simp add: valid_retention_def sample_retention)
  qed
qed

lemma sample_advanced:
  assumes conv: "\<And>v r. number_value v = Some r \<Longrightarrow> number_of (conv v r) = Some r"
  shows "\<exists>options. answer_advanced (sample_options_env conv) [] [] chosen sample_raw = Inr (SaveOptions options)"
proof -
  let ?e = "sample_options_env conv"
  obtain ui where ui: "apply_schema ?e (advanced_schema (str_of_other ?e) []) sample_raw = Inr ui"
    using sample_accepted [of sample_raw] by blast
  obtain defaults where defaults: "apply_schema ?e (advanced_schema (str_of_other ?e) []) [] = Inr defaults"
    using sample_accepted [of "[]"] by blast
  have keys: "map fst ui = map fst knobs" using apply_schema_keys [OF ui] by (simp add: knob_keys)
  have n: "number_of (dict_get ui k d) = number_value d"
    if m: "(k, d, NumberField lo hi st) \<in> set knobs" and "k \<noteq> CONF_PERSIST_BATCH_ROWS" for k d lo hi st
  proof -
    have "dict_get sample_raw k (dict_get [] k d) = d" using that(2) by (simp add: sample_raw_def dict_get_def)
    then obtain v where "map_of ui k = Some v" "ranged conv lo hi st d = Inr v"
      using apply_schema_values [OF ui advanced_entry [OF m]] distinct_knobs
      by (auto simp: knob_keys sample_options_env_def)
    then show ?thesis
      using conv by (auto simp: ranged_def dict_get_def invalid_value_def split: option.splits if_splits)
  qed
  have "number_of (dict_get ui CONF_RETRY_INITIAL_SECONDS PROVISIONAL_RETRY_INITIAL_SECONDS) = Some 1"
    by (rule trans [OF n [OF knob_members(1)]]) (simp_all add: conf number_value_def)
  moreover have "number_of (dict_get ui CONF_RETRY_MAX_SECONDS PROVISIONAL_RETRY_MAX_SECONDS) = Some 60"
    by (rule trans [OF n [OF knob_members(2)]]) (simp_all add: conf number_value_def)
  moreover have "number_of (dict_get ui CONF_MAX_SERIALIZED_EVENT_BYTES PROVISIONAL_MAX_SERIALIZED_EVENT_BYTES) = Some 65536"
    by (rule trans [OF n [OF knob_members(3)]]) (simp_all add: conf number_value_def)
  moreover have "number_of (dict_get ui CONF_MAX_DEAD_LETTER_BYTES PROVISIONAL_MAX_DEAD_LETTER_BYTES) = Some 16777216"
    by (rule trans [OF n [OF knob_members(4)]]) (simp_all add: conf number_value_def)
  ultimately show ?thesis
    using ui defaults by (simp add: answer_advanced_def step_advanced_def Let_def
        knob_members [THEN merged_knob [OF keys]] py_less_def)
qed

lemma sample_init:
  "step_init (sample_options_env conv) [] [] (Some sample_answer) =
     (Inr (ShowAdvanced (advanced_schema (\<lambda>_. []) []) []), typed_filter sample_answer)"
proof -
  have "split_csv [] = []" by (simp add: split_csv_def py_strip_def)
  then have "filter_side sample_answer b = \<lparr>side_domains = [], side_globs = [], side_entities = []\<rparr>" for b
    by (simp add: filter_side_def sample_answer_def or_default_def Let_def)
  then show ?thesis
    by (simp add: step_init_def Let_def typed_filter_def sample_answer_def sample_options_env_def
        overlapping_pairs_def common_items_def or_default_def \<open>split_csv [] = []\<close>)
qed


text \<open>
  C15: But a number selector that returns floating-point numbers, as Home Assistant's does, makes
  every saving of the advanced step fatal: the next setup raises a \<open>ValueError\<close> for the first integer knob,
  whatever was typed, because the constructors accept no float.
\<close>

theorem float_numbers_break_setup:
  assumes "\<forall>lo hi st v w. number_selector e lo hi st v = Inr w \<longrightarrow> (\<exists>r. w = VFloat r)"
    and "answer_advanced e p options chosen raw = Inr (SaveOptions options')"
  shows "runtime_configuration_of convert path d options' = value_error ''ingress_queue_capacity must be a positive integer''"
proof -
  obtain ui where ui: "apply_schema e (advanced_schema (str_of_other e) p) raw = Inr ui"
      "step_advanced e options chosen (Some ui) = Inr (SaveOptions options')"
    using assms(2) by (auto simp: answer_advanced_def bindR_eq_Inr)
  have keys: "map fst ui = map fst knobs" using apply_schema_keys [OF ui(1)] by (simp add: knob_keys)
  have m: "(CONF_INGRESS_QUEUE_CAPACITY, PROVISIONAL_INGRESS_QUEUE_CAPACITY, NumberField 10 100000 10) \<in> set knobs"
    by (simp add: knobs_eq)
  obtain v where v: "map_of ui CONF_INGRESS_QUEUE_CAPACITY = Some v"
      "validated e (NumberField 10 100000 10) (dict_get raw CONF_INGRESS_QUEUE_CAPACITY
         (dict_get p CONF_INGRESS_QUEUE_CAPACITY PROVISIONAL_INGRESS_QUEUE_CAPACITY)) = Inr v"
    using apply_schema_values [OF ui(1) advanced_entry [OF m]] distinct_knobs by (auto simp: knob_keys)
  obtain r where "v = VFloat r" using assms(1) v(2) by fastforce
  then have "dict_get ui CONF_INGRESS_QUEUE_CAPACITY PROVISIONAL_INGRESS_QUEUE_CAPACITY = VFloat r"
    using v(1) by (simp add: dict_get_def)
  then have "dict_get options' CONF_INGRESS_QUEUE_CAPACITY PROVISIONAL_INGRESS_QUEUE_CAPACITY = VFloat r"
    using advanced_step_saves(1) [OF keys ui(2) m] by simp
  then show ?thesis
    by (simp add: runtime_configuration_of_def make_settings_def settings_values_of_def positive_value_def value_error_def)
qed

theorem float_numbers_break_setup_witness:
  "\<exists>options. answer_advanced (sample_options_env (\<lambda>v r. VFloat r)) [] [] [] sample_raw =
       Inr (SaveOptions options) \<and>
     runtime_configuration_of (\<lambda>_ _. True) [] sample_input options =
       value_error ''ingress_queue_capacity must be a positive integer''"
proof -
  let ?e = "sample_options_env (\<lambda>v r. VFloat r)"
  obtain options where o: "answer_advanced ?e [] [] [] sample_raw = Inr (SaveOptions options)"
    using sample_advanced [of "\<lambda>v r. VFloat r"] by auto
  have "\<forall>lo hi st v w. number_selector ?e lo hi st v = Inr w \<longrightarrow> (\<exists>r. w = VFloat r)"
    by (auto simp: sample_options_env_def ranged_def invalid_value_def split: option.splits if_splits)
  from float_numbers_break_setup [OF this o] o show ?thesis by blast
qed

subsection \<open>The filter form shows what is stored\<close>

definition csv_part :: "ustr \<Rightarrow> bool" where
  "csv_part p \<longleftrightarrow> p \<noteq> [] \<and> py_strip p = p \<and> 44 \<notin> set p"

lemma split_csv_parts: "list_all csv_part (split_csv s)"
  using py_split_no_sep [of _ 44 s] py_strip_chars
  by (fastforce simp: split_csv_def list_all_iff csv_part_def)

lemma py_split_plain: "sep \<notin> set x \<Longrightarrow> py_split sep x = [x]"
  by (induction x) auto

lemma py_split_first: "sep \<notin> set x \<Longrightarrow> py_split sep (x @ sep # rest) = x # py_split sep rest"
  by (induction x) auto

lemma split_csv_space: "split_csv (32 # s) = split_csv s"
proof -
  have "py_strip (32 # w) = py_strip w" for w by (simp add: py_strip_def py_isspace_def)
  then show ?thesis by (cases "py_split 44 s") (auto simp: split_csv_def py_strip_def)
qed

lemma split_csv_join: "list_all csv_part xs \<Longrightarrow> split_csv (join_with (lit '', '') xs) = xs"
proof (induction "lit '', ''" xs rule: join_with.induct)
  case 1
  then show ?case by (simp add: split_csv_def py_strip_def)
next
  case (2 p)
  then show ?case by (simp add: split_csv_def py_split_plain csv_part_def)
next
  case (3 p q ps)
  let ?rest = "join_with (lit '', '') (q # ps)"
  have p: "44 \<notin> set p" "py_strip p = p" "p \<noteq> []" using 3 by (simp_all add: csv_part_def)
  have "join_with (lit '', '') (p # q # ps) = p @ 44 # 32 # ?rest" by (simp add: lit_def)
  then have "split_csv (join_with (lit '', '') (p # q # ps)) = p # split_csv (32 # ?rest)"
    using p by (simp add: split_csv_def py_split_first)
  then show ?case using 3 by (simp add: split_csv_space)
qed

lemma overlap_empty: "common_items left right = [] \<longleftrightarrow> set left \<inter> set right = {}"
proof -
  have "set (common_items left right) = set left \<inter> set right" by (auto simp: common_items_def)
  then show ?thesis using set_empty by metis
qed

lemma join_with_empty: "[] \<notin> set ps \<Longrightarrow> join_with sep ps = [] \<longleftrightarrow> ps = []"
  by (induction sep ps rule: join_with.induct) auto

lemma no_overlaps:
  "overlapping_pairs include exclude allowed denied = [] \<longleftrightarrow>
     set (side_entities include) \<inter> set (side_entities exclude) = {} \<and>
     set (side_domains include) \<inter> set (side_domains exclude) = {} \<and>
     set (side_globs include) \<inter> set (side_globs exclude) = {} \<and> set allowed \<inter> set denied = {}"
proof -
  have "overlapping_pairs include exclude allowed denied = [] \<longleftrightarrow>
      filter (\<lambda>(label, common). common \<noteq> [])
           [(''entities'', common_items (side_entities include) (side_entities exclude)),
            (''domains'', common_items (side_domains include) (side_domains exclude)),
            (''globs'', common_items (side_globs include) (side_globs exclude)),
            (''attributes'', common_items allowed denied)] = []"
    unfolding overlapping_pairs_def by (subst join_with_empty) (auto simp: lit_def)
  then show ?thesis by (auto simp: overlap_empty)
qed

text \<open>The answer that leaves every field of the form as it is shown.\<close>

definition texts_of :: "pyval \<Rightarrow> ustr list" where
  "texts_of v = (case strings_of v of Inr xs \<Rightarrow> xs | Inl _ \<Rightarrow> [])"

definition form_answer :: "filter_form \<Rightarrow> filter_input" where
  "form_answer form =
     \<lparr>in_include_entities = Some (texts_of (ff_include_entities form)),
      in_exclude_entities = Some (texts_of (ff_exclude_entities form)),
      in_include_domains = Some (Items (texts_of (ff_include_domains form))),
      in_exclude_domains = Some (Items (texts_of (ff_exclude_domains form))),
      in_include_globs = Some (CommaText (ff_include_globs form)),
      in_exclude_globs = Some (CommaText (ff_exclude_globs form)),
      in_attribute_allowlist = Some (ff_attribute_allowlist form),
      in_attribute_denylist = Some (ff_attribute_denylist form), in_show_advanced = ff_show_advanced form\<rparr>"

lemma filter_side_given:
  "filter_side \<lparr>in_include_entities = Some ie, in_exclude_entities = Some ee, in_include_domains = Some (Items idm),
     in_exclude_domains = Some (Items ed), in_include_globs = Some (CommaText ig), in_exclude_globs = Some (CommaText eg),
     in_attribute_allowlist = al, in_attribute_denylist = de, in_show_advanced = sa\<rparr> b =
   (if b then \<lparr>side_domains = idm, side_globs = split_csv ig, side_entities = ie\<rparr>
    else \<lparr>side_domains = ed, side_globs = split_csv eg, side_entities = ee\<rparr>)"
  by (simp add: filter_side_def or_default_def Let_def)

lemma texts_of_text_list [simp]: "texts_of (text_list xs) = xs"
  by (simp add: texts_of_def strings_of_text_list)

lemma joined_text_list [simp]: "joined (text_list xs) = Inr (join_with (lit '', '') xs)"
  by (simp add: joined_def strings_of_text_list)

lemma typed_form:
  assumes "options' = dict_merge options (typed_filter ui)"
  shows "\<exists>form. filter_form_of e options' = Inr form \<and>
    ff_include_entities form = text_list (side_entities (filter_side ui True)) \<and>
    ff_exclude_entities form = text_list (side_entities (filter_side ui False)) \<and>
    ff_include_domains form = text_list (side_domains (filter_side ui True)) \<and>
    ff_exclude_domains form = text_list (side_domains (filter_side ui False)) \<and>
    ff_include_globs form = join_with (lit '', '') (side_globs (filter_side ui True)) \<and>
    ff_exclude_globs form = join_with (lit '', '') (side_globs (filter_side ui False)) \<and>
    ff_attribute_allowlist form = join_with (lit '', '') (split_csv (or_default (in_attribute_allowlist ui) [])) \<and>
    ff_attribute_denylist form = join_with (lit '', '') (split_csv (or_default (in_attribute_denylist ui) []))"
proof -
  have get: "dict_get options' k v = dict_get (typed_filter ui) k (dict_get options k v)" for k v
    unfolding assms by (rule dict_get_merge [OF distinct_typed_filter])
  have side: "stored_side options' CONF_INCLUDE = (case side_value (filter_side ui True) of VDict d \<Rightarrow> d | _ \<Rightarrow> [])"
    "stored_side options' CONF_EXCLUDE = (case side_value (filter_side ui False) of VDict d \<Rightarrow> d | _ \<Rightarrow> [])"
    by (simp_all add: stored_side_def get typed_filter_texts)
  have "text_list [] = VList []" by (simp add: text_list_def)
  then have attrs: "list_or_empty options' CONF_ATTRIBUTE_ALLOWLIST = text_list (split_csv (or_default (in_attribute_allowlist ui) []))"
    "list_or_empty options' CONF_ATTRIBUTE_DENYLIST = text_list (split_csv (or_default (in_attribute_denylist ui) []))"
    by (auto simp: list_or_empty_def get typed_filter_texts Let_def text_list_def)
  have "dict_get (stored_side options' CONF_INCLUDE) CONF_ENTITIES v = text_list (side_entities (filter_side ui True))"
    "dict_get (stored_side options' CONF_INCLUDE) CONF_DOMAINS v = text_list (side_domains (filter_side ui True))"
    "dict_get (stored_side options' CONF_INCLUDE) CONF_ENTITY_GLOBS v = text_list (side_globs (filter_side ui True))"
    "dict_get (stored_side options' CONF_EXCLUDE) CONF_ENTITIES v = text_list (side_entities (filter_side ui False))"
    "dict_get (stored_side options' CONF_EXCLUDE) CONF_DOMAINS v = text_list (side_domains (filter_side ui False))"
    "dict_get (stored_side options' CONF_EXCLUDE) CONF_ENTITY_GLOBS v = text_list (side_globs (filter_side ui False))" for v
    by (simp_all add: side side_value_def dict_get_def CONF_DOMAINS_def CONF_ENTITIES_def CONF_ENTITY_GLOBS_def)
  then show ?thesis by (simp add: filter_form_of_def init_schema_def attrs Let_def)
qed

text \<open>
  C22: After the filter step saved, the form shows what was typed: submitting it unchanged means the
  same filter, item by item, although globs and attribute patterns travel as comma-separated text. No
  item is on both sides of what is saved, and every option outside the filter, so each tuning knob, is
  as it was.
\<close>

theorem filter_form_round_trip:
  assumes "step_init e options chosen (Some ui) = (Inr (SaveOptions options'), chosen')"
    and "\<forall>vs. in_include_globs ui \<noteq> Some (Items vs) \<and> in_exclude_globs ui \<noteq> Some (Items vs)"
  shows "\<exists>form. filter_form_of e options' = Inr form \<and> typed_filter (form_answer form) = typed_filter ui \<and>
    set (side_entities (filter_side ui True)) \<inter> set (side_entities (filter_side ui False)) = {} \<and>
    set (side_domains (filter_side ui True)) \<inter> set (side_domains (filter_side ui False)) = {} \<and>
    set (side_globs (filter_side ui True)) \<inter> set (side_globs (filter_side ui False)) = {} \<and>
    (\<forall>k v. k \<notin> {CONF_INCLUDE, CONF_EXCLUDE, CONF_ATTRIBUTE_ALLOWLIST, CONF_ATTRIBUTE_DENYLIST} \<longrightarrow>
      dict_get options' k v = dict_get options k v)"
proof -
  note saves = step_init_saves [OF assms(1)]
  have "list_all csv_part (side_globs (filter_side ui b))" for b
    using assms(2) split_csv_parts by (auto simp: filter_side_def Let_def or_default_def split: option.splits multi_value.splits)
  then have globs: "split_csv (join_with (lit '', '') (side_globs (filter_side ui b))) = side_globs (filter_side ui b)" for b
    by (rule split_csv_join)
  have attrs: "split_csv (join_with (lit '', '') (split_csv s)) = split_csv s" for s
    using split_csv_join [OF split_csv_parts] .
  obtain form where form: "filter_form_of e options' = Inr form"
    "ff_include_entities form = text_list (side_entities (filter_side ui True))"
    "ff_exclude_entities form = text_list (side_entities (filter_side ui False))"
    "ff_include_domains form = text_list (side_domains (filter_side ui True))"
    "ff_exclude_domains form = text_list (side_domains (filter_side ui False))"
    "ff_include_globs form = join_with (lit '', '') (side_globs (filter_side ui True))"
    "ff_exclude_globs form = join_with (lit '', '') (side_globs (filter_side ui False))"
    "ff_attribute_allowlist form = join_with (lit '', '') (split_csv (or_default (in_attribute_allowlist ui) []))"
    "ff_attribute_denylist form = join_with (lit '', '') (split_csv (or_default (in_attribute_denylist ui) []))"
    using typed_form saves by metis
  have "filter_side (form_answer form) True = filter_side ui True" "filter_side (form_answer form) False = filter_side ui False"
    by (simp_all add: form_answer_def form filter_side_given globs)
  then have "typed_filter (form_answer form) = typed_filter ui"
    by (simp add: typed_filter_def form_answer_def form attrs or_default_def [of "Some _"])
  moreover have "dict_get options' k v = dict_get options k v"
    if "k \<notin> {CONF_INCLUDE, CONF_EXCLUDE, CONF_ATTRIBUTE_ALLOWLIST, CONF_ATTRIBUTE_DENYLIST}" for k v
    using that saves typed_filter_apart [of k ui options v] arg_cong [OF typed_filter_keys [of ui], of set] by auto
  moreover note form(1) conjunct2 [OF saves, unfolded no_overlaps]
  ultimately show ?thesis by (intro exI [of _ form]) simp
qed

definition sample_filter :: filter_input where
  "sample_filter = sample_answer\<lparr>in_include_domains := Some (Items [lit ''light'']), in_show_advanced := False\<rparr>"

theorem filter_form_round_trip_witness:
  "\<exists>options form. step_init (sample_options_env (\<lambda>v r. v)) [] [] (Some sample_filter) =
       (Inr (SaveOptions options), typed_filter sample_filter) \<and>
     filter_form_of (sample_options_env (\<lambda>v r. v)) options = Inr form \<and>
     typed_filter (form_answer form) = typed_filter sample_filter"
proof -
  have csv: "split_csv [] = []" by (simp add: split_csv_def py_strip_def)
  have saved: "step_init (sample_options_env (\<lambda>v r. v)) [] [] (Some sample_filter) =
      (Inr (SaveOptions (dict_merge [] (typed_filter sample_filter))), typed_filter sample_filter)"
    by (simp add: step_init_def Let_def typed_filter_def sample_filter_def sample_answer_def sample_options_env_def
        overlapping_pairs_def common_items_def or_default_def filter_side_def csv)
  have "\<forall>vs. in_include_globs sample_filter \<noteq> Some (Items vs) \<and> in_exclude_globs sample_filter \<noteq> Some (Items vs)"
    by (simp add: sample_filter_def sample_answer_def)
  from filter_form_round_trip [OF saved this] saved show ?thesis by blast
qed

end
