(* ===== verification/SetupClaims.thy ===== *)
theory SetupClaims
  imports Setup OptionsClaims SpoolClaims
begin

section \<open>No writer outlives its setup\<close>

text \<open>
  The invariant of setup and unload, by cases on the phase, over the facts of the worker that its steps keep.
\<close>

subsection \<open>Workers that cannot come back\<close>

text \<open>\<open>ended\<close>: the thread is gone and no other can be started; \<open>retired\<close>: it is gone or told to stop.\<close>

definition ended :: "worker \<Rightarrow> bool" where
  "ended w \<longleftrightarrow> main_task w = MainExited \<or> (main_task w = MainNotStarted \<and> w_state w \<noteq> NEW)"

definition retired :: "worker \<Rightarrow> bool" where
  "retired w \<longleftrightarrow> ended w \<or> (stop_requested w \<and> main_task w \<noteq> MainNotStarted)"

lemma ended_not_alive: "ended w \<Longrightarrow> \<not> thread_alive w"
  by (auto simp: ended_def thread_alive_def)

lemma retired_not_alive: "retired w \<Longrightarrow> \<not> thread_alive w \<Longrightarrow> ended w"
  by (auto simp: retired_def ended_def thread_alive_def)

lemma ended_outside: "ended w \<Longrightarrow> \<not> in_loop w \<and> (\<forall>f. main_task w \<noteq> MainEnded f) \<and> main_task w \<noteq> MainOpening"
  by (auto simp: ended_def in_loop_def)

lemma retired_accepts_nothing:
  assumes "worker_reached w h" and "retired w"
  shows "\<not> accepting w"
proof -
  have "orderly w h" using orderly_always.holds_always [OF assms(1)] .
  then show ?thesis using assms(2) by (auto simp: orderly_def retired_def ended_def before_loop_def)
qed

lemma ended_sticky:
  assumes r: "worker_reached w h" and e: "ended w" and "enabled a w"
  shows "ended (run_action a w)"
proof -
  have n: "w_state w \<noteq> NEW"
    using e orderly_always.holds_always [OF r] by (auto simp: ended_def orderly_def)
  have out: "\<not> in_loop w" "\<And>f. main_task w \<noteq> MainEnded f" "main_task w \<noteq> MainOpening" using ended_outside [OF e] by auto
  show ?thesis
  proof (cases a)
    case (Start t)
    then show ?thesis using e n start_thread_effect [of t w] by auto
  next
    case (StartFinish ready)
    then show ?thesis using e start_finish_effect [of ready w] by (auto simp: ended_def)
  next
    case (Submit ev)
    have "main_task (snd (submit ev w)) = main_task w \<and> w_state (snd (submit ev w)) = w_state w"
      using submit_effect [of ev w] by (auto simp: took_def)
    then show ?thesis using e Submit by (simp add: ended_def)
  next
    case (Stop t)
    then show ?thesis using e n stop_request_effect [of t w] by (auto simp: ended_def)
  next
    case MainPass
    then show ?thesis using assms(3) out by (cases "main_task w") auto
  qed (use assms(3) out in auto)
qed

lemma asked_sticky:
  assumes r: "worker_reached w h" and e: "stop_requested w" "main_task w \<noteq> MainNotStarted" and "enabled a w"
  shows "stop_requested (run_action a w) \<and> main_task (run_action a w) \<noteq> MainNotStarted"
proof (cases a)
  case (Start t)
  then show ?thesis using e start_thread_effect [of t w] by auto
next
  case (StartFinish ready)
  then show ?thesis using e start_finish_effect [of ready w] by auto
next
  case (Submit ev)
  then show ?thesis using e submit_effect [of ev w] by (elim disjE exE conjE) (simp_all add: took_def)
next
  case (Stop t)
  then show ?thesis using e stop_request_effect [of t w] by (elim disjE exE conjE) simp_all
next
  case (Open L busy tr sm)
  then have "case tr of Inl _ \<Rightarrow> True | Inr t \<Rightarrow> requests t = []" using assms(4) by simp
  from run_step_effect [OF this, of w L busy sm] show ?thesis
    using e Open by (elim disjE exE conjE) (simp_all add: reopened_def started_def)
next
  case PersistPass
  have "unfinished_tasks w = int (length (held w) + length (ingress w))"
    using flow_always.holds_always [OF r] by (simp add: flow_def)
  then obtain t where "control (persist_step w) = control (w\<lparr>persist_task := t\<rparr>)"
    using persist_step_effect unfolding persist_effect_def by blast
  then show ?thesis using e PersistPass by (simp add: control_def)
next
  case DeliveryPass
  obtain t where "control (delivery_step w) = control (w\<lparr>delivery_task := t\<rparr>)" using delivery_step_parts by blast
  then show ?thesis using e DeliveryPass by (simp add: control_def)
next
  case DeliveryCall
  then show ?thesis using e executor_delivery_effect [of w] by (elim disjE exE conjE) simp_all
next
  case MainCall
  then show ?thesis using e executor_main_effect [of w] by (elim disjE exE conjE) simp_all
next
  case MainPass
  have "stop_requested (main_step w) \<and> main_task (main_step w) \<noteq> MainNotStarted"
  proof (cases rule: main_step_cases [of w])
    case flush
    then obtain t where t: "outer (main_step w) = outer (w\<lparr>main_task := t\<rparr>)"
        "t = MainCancelling \<or> t = MainFlushEnsuring \<or> (\<exists>e. t = MainEnded (Some e)) \<or> (\<exists>b. t = MainFlushSending b)"
      unfolding flush_effect_def by blast
    have "stop_requested (main_step w) = stop_requested w" "main_task (main_step w) = t"
      using t(1) by (simp_all add: outer_defs)
    then show ?thesis using e t(2) by auto
  next
    case (finishing f)
    show ?thesis unfolding finishing(2) by (cases rule: run_finally_effect [of w f]) (use e in simp)
  qed (use e in auto)
  then show ?thesis using MainPass by simp
qed

interpretation ending: worker_fact ended
  by unfold_locales (rule ended_sticky)

interpretation retiring: worker_fact retired
  by unfold_locales (use ended_sticky asked_sticky in \<open>unfold retired_def, blast\<close>)

lemma stop_request_retires:
  assumes "worker_reached w h" and "0 < t"
  shows "\<exists>answer. fst (stop_request t w) = Inr answer \<and> retired (snd (stop_request t w)) \<and>
    (\<forall>b. answer = Some b \<longrightarrow> b \<and> ended (snd (stop_request t w)))"
proof -
  have t: "\<not> t \<le> 0" and n: "w_state w = NEW \<longrightarrow> main_task w = MainNotStarted"
    using assms(2) orderly_always.holds_always [OF assms(1)] by (auto simp: orderly_def)
  show ?thesis
  proof (cases "w_state w = NEW")
    case True
    then show ?thesis using t n
      by (simp add: stop_request_def bindP_def positive_seconds_def retired_def ended_def)
  next
    case False
    then show ?thesis using t
      by (cases "in_loop w"; cases "main_task w")
        (simp_all add: stop_request_def bindP_def positive_seconds_def retired_def ended_def thread_alive_def
          signal_loop_def in_loop_def)
  qed
qed

subsection \<open>What the runtime's coroutines do\<close>

definition startish :: "exn \<Rightarrow> bool" where
  "startish e \<longleftrightarrow> exn_class e \<in> {WorkerStartError, WorkerStartTimeoutError, CancelledError}"

definition stage :: "'v runtime \<Rightarrow> _" where
  "stage r = (configuration r, start_phase r, stop_phase r, listener r)"

lemma stage_kept:
  "keeps stage (state_changed st)" "keeps stage sync_auth_issue" "stage (run_worker a r) = stage r"
  unfolding state_changed_def take_state_def keep_attributes_def convert_event_def build_envelope_def submit_event_def
    sync_auth_issue_def request_reauth_once_def Let_def call_ha_def
  by (intro keeps_intros; simp add: keeps_def call_service_def liftT_def next_event_id_def read_wall_time_def stage_def)+
    (simp add: run_worker_def call_service_def stage_def)

lemma raise_after_stop_effect:
  assumes "service_reached r" and "0 < rc_stop_timeout (configuration r)"
  shows "\<exists>r'. raise_after_stop e r = (Inr (), r') \<and> configuration r' = configuration r \<and>
    stop_phase r' = stop_phase r \<and> listener r' = listener r \<and> retired (service r') \<and>
    start_phase r' \<in> {AwaitCleanup e, StartRaised e}"
proof -
  let ?t = "rc_stop_timeout (configuration r)"
  obtain answer where a: "fst (stop_request ?t (service r)) = Inr answer" "retired (snd (stop_request ?t (service r)))"
    using stop_request_retires assms unfolding service_reached_def by blast
  show ?thesis
    using a by (cases answer)
      (simp_all add: raise_after_stop_def bindP_def catchP_def call_service_def whenP_def call_ha_def)
qed

lemma register_listener_effect:
  "\<exists>r'. register_listener r = (Inr (), r') \<and> configuration r' = configuration r \<and>
    stop_phase r' = stop_phase r \<and> service r' = service r"
  by (cases "entry_id r")
    (simp_all add: register_listener_def sync_auth_issue_def request_reauth_once_def bindP_def whenP_def call_ha_def)

lemma begin_start_effect:
  assumes "service_reached r" and "0 < rc_start_timeout (configuration r)" and "0 < rc_stop_timeout (configuration r)"
  shows "\<exists>r'. begin_start r = (Inr (), r') \<and> configuration r' = configuration r \<and>
    stop_phase r' = stop_phase r \<and> (start_phase r' = AwaitStart \<or>
      (\<exists>e. startish e \<and> retired (service r') \<and> start_phase r' \<in> {AwaitCleanup e, StartRaised e}))"
proof -
  let ?t = "rc_start_timeout (configuration r)"
  let ?call = "call_service (start_thread ?t) (Start ?t)"
  obtain x r1 where r1: "?call r = (x, r1)" by fastforce
  have reached: "service_reached r1"
    using reachable.movesD [OF reachable.moves_start, of r ?t] assms(1) r1
    unfolding service_reached_holds [symmetric] by simp
  have same: "configuration r1 = configuration r" "stop_phase r1 = stop_phase r"
    using r1 by (auto simp: call_service_def)
  show ?thesis
  proof (cases x)
    case (Inl e)
    then have "startish e"
      using r1 assms(2) by (auto simp: call_service_def start_thread_def bindP_def positive_seconds_def startish_def
          raiseP_def modifyP_def split: if_splits)
    moreover have "begin_start r = raise_after_stop e r1"
      using Inl r1 by (simp add: begin_start_def bindP_def catchP_def)
    ultimately show ?thesis using raise_after_stop_effect [OF reached, of e] assms(3) same by auto
  next
    case (Inr u)
    then show ?thesis using r1 same by (simp add: begin_start_def bindP_def catchP_def)
  qed
qed

lemma start_finish_raises: "fst (start_finish ready w) = Inl e \<Longrightarrow> startish e"
  by (auto simp: start_finish_def bindP_def startish_def signal_loop_def raiseP_def split: if_splits prod.splits)

lemma finish_start_effect:
  assumes "service_reached r" and "0 < rc_stop_timeout (configuration r)" and "enabled (StartFinish ready) (service r)"
  shows "\<exists>r'. snd (finish_start ready r) = r' \<and> configuration r' = configuration r \<and>
    stop_phase r' = stop_phase r \<and>
    (if start_phase r = AwaitStart then start_phase r' = Started \<or>
       (\<exists>e. startish e \<and> retired (service r') \<and> start_phase r' \<in> {AwaitCleanup e, StartRaised e})
     else start_phase r' = start_phase r \<and> listener r' = listener r)"
proof -
  let ?r = "r\<lparr>start_job := False\<rparr>"
  let ?call = "call_service (start_finish ready) (StartFinish ready)"
  obtain x r1 where r1: "?call ?r = (x, r1)" by fastforce
  have "service_reached ?r" using assms(1) by (simp add: service_reached_def)
  then have reached: "service_reached r1"
    using reachable.call_reached [of ?r "StartFinish ready" "start_finish ready"] assms(3) reachable.idle_service [of ?r] r1
    unfolding service_reached_holds [symmetric] by (simp add: calls_keep_spool)
  have same: "configuration r1 = configuration r" "stop_phase r1 = stop_phase r" "start_phase r1 = start_phase r"
      "listener r1 = listener r"
    using r1 by (auto simp: call_service_def)
  have x: "x = fst (start_finish ready (service r))" using r1 by (auto simp: call_service_def)
  show ?thesis
  proof (cases "start_phase r = AwaitStart")
    case False
    then have "snd (finish_start ready r) = r1"
      using r1 by (cases x) (simp_all add: finish_start_def bindP_def catchP_def whenP_def)
    then show ?thesis using same False by simp
  next
    case True
    show ?thesis
    proof (cases x)
      case (Inl e)
      then have "finish_start ready r = raise_after_stop e r1"
        using r1 True by (simp add: finish_start_def bindP_def catchP_def whenP_def)
      then show ?thesis
        using raise_after_stop_effect [OF reached, of e] start_finish_raises [of ready "service r" e] Inl x assms(2) same True by auto
    next
      case (Inr u)
      obtain r2 where r2: "register_listener r1 = (Inr (), r2)" "configuration r2 = configuration r1"
          "stop_phase r2 = stop_phase r1"
        using register_listener_effect [of r1] by blast
      then have "finish_start ready r = (Inr (), r2\<lparr>start_phase := Started\<rparr>)"
        using Inr r1 True by (simp add: finish_start_def bindP_def catchP_def whenP_def)
      then show ?thesis using True r2 same by simp
    qed
  qed
qed

lemma unsubscribe_and_stop_effect:
  assumes "service_reached r" and "0 < rc_stop_timeout (configuration r)"
  shows "\<exists>r' b. unsubscribe_and_stop ok r = (Inr (), r') \<and> configuration r' = configuration r \<and>
    start_phase r' = start_phase r \<and> retired (service r') \<and> (b \<longrightarrow> listener r' = None) \<and>
    (stop_phase r' = AwaitStop b \<or> (stop_phase r' = StopReturned b \<and> ended (service r')))"
proof -
  let ?t = "rc_stop_timeout (configuration r)"
  obtain answer where a: "fst (stop_request ?t (service r)) = Inr answer" "retired (snd (stop_request ?t (service r)))"
      "\<forall>b. answer = Some b \<longrightarrow> b \<and> ended (snd (stop_request ?t (service r)))"
    using stop_request_retires assms unfolding service_reached_def by blast
  have "\<exists>r'. unsubscribe_and_stop ok r = (Inr (), r') \<and> configuration r' = configuration r \<and>
      start_phase r' = start_phase r \<and> service r' = snd (stop_request ?t (service r)) \<and>
      listener r' = (if ok then None else listener r) \<and>
      stop_phase r' = (case answer of None \<Rightarrow> AwaitStop (listener r = None \<or> ok)
        | Some b \<Rightarrow> StopReturned ((listener r = None \<or> ok) \<and> b))"
    using a(1) by (cases answer; cases "listener r"; cases ok; cases "entry_id r")
      (simp_all add: unsubscribe_and_stop_def bindP_def catchP_def call_service_def call_ha_def stop_returns_def forget_issue_def)
  then show ?thesis using a(2,3)
    by (cases answer) (auto intro!: exI [of _ "listener r = None \<or> ok"])
qed

subsection \<open>The runtime under its entry\<close>

definition runtime_ok :: "'v runtime \<Rightarrow> bool" where
  "runtime_ok r \<longleftrightarrow> service_reached r \<and>
     0 < rc_start_timeout (configuration r) \<and> 0 < rc_stop_timeout (configuration r) \<and>
     (\<forall>e. start_phase r \<in> {AwaitCleanup e, StartRaised e} \<longrightarrow> startish e \<and> retired (service r)) \<and>
     (\<forall>e. stop_phase r \<noteq> StopRaised e) \<and>
     (\<forall>b. stop_phase r = AwaitStop b \<longrightarrow> retired (service r) \<and> (b \<longrightarrow> listener r = None)) \<and>
     (\<forall>b. stop_phase r = StopReturned b \<longrightarrow> retired (service r) \<and> (b \<longrightarrow> ended (service r) \<and> listener r = None)) \<and>
     (stop_phase r \<noteq> NotStopping \<longrightarrow> start_phase r = Started)"

text \<open>Ends that stay: a start or a stop that is over, and a stop that was not asked for.\<close>

definition advances :: "'v runtime \<Rightarrow> 'v runtime \<Rightarrow> bool" where
  "advances r r' \<longleftrightarrow> (stop_phase r = NotStopping \<longrightarrow> stop_phase r' = NotStopping) \<and>
     (\<forall>b. stop_phase r = StopReturned b \<longrightarrow> stop_phase r' = StopReturned b) \<and>
     (start_phase r = Started \<longrightarrow> start_phase r' = Started) \<and>
     (\<forall>e. start_phase r = StartRaised e \<longrightarrow> start_phase r' = StartRaised e)"

lemma stage_same:
  assumes "runtime_ok r" and "stage r' = stage r" and "service_reached r'"
    and "retired (service r) \<longrightarrow> retired (service r')" and "ended (service r) \<longrightarrow> ended (service r')"
  shows "runtime_ok r' \<and> advances r r'"
  using assms by (auto simp: runtime_ok_def advances_def stage_def)

lemma stopping_ok:
  assumes "runtime_ok r" and "start_phase r = Started" and "service_reached (snd (unsubscribe_and_stop ok r))"
  shows "runtime_ok (snd (unsubscribe_and_stop ok r)) \<and> start_phase (snd (unsubscribe_and_stop ok r)) = Started"
proof -
  obtain r' b where r': "unsubscribe_and_stop ok r = (Inr (), r')" "configuration r' = configuration r"
    "start_phase r' = start_phase r" "retired (service r')" "b \<longrightarrow> listener r' = None"
    "stop_phase r' = AwaitStop b \<or> (stop_phase r' = StopReturned b \<and> ended (service r'))"
    using unsubscribe_and_stop_effect [of r ok] assms(1) by (auto simp: runtime_ok_def)
  then show ?thesis using assms by (auto simp: runtime_ok_def)
qed

lemma starting_ok:
  assumes "runtime_ok r" and "stop_phase r = NotStopping" and "service_reached r'"
    and "configuration r' = configuration r" and "stop_phase r' = stop_phase r"
    and "start_phase r' \<in> {AwaitStart, Started} \<or>
      (\<exists>e. startish e \<and> retired (service r') \<and> start_phase r' \<in> {AwaitCleanup e, StartRaised e})"
    and "start_phase r \<notin> {Started} \<union> range StartRaised"
  shows "runtime_ok r' \<and> advances r r'"
  using assms by (auto simp: runtime_ok_def advances_def)

lemma holds_follows:
  assumes "service_reached r" and "can_run a r" and "\<not> in_transaction (spool (service (run_runtime a r)))"
  shows "service_reached (run_runtime a r)" and "retired (service r) \<longrightarrow> retired (service (run_runtime a r))"
    and "ended (service r) \<longrightarrow> ended (service (run_runtime a r))"
proof -
  show "service_reached (run_runtime a r)"
    using reachable.runtime_follows assms unfolding service_reached_holds by blast
  show "retired (service r) \<longrightarrow> retired (service (run_runtime a r))"
    using retiring.runtime_follows [OF _ assms(2,3)] assms(1) by (auto simp: service_holds_def service_reached_def)
  show "ended (service r) \<longrightarrow> ended (service (run_runtime a r))"
    using ending.runtime_follows [OF _ assms(2,3)] assms(1) by (auto simp: service_holds_def service_reached_def)
qed

lemma runtime_ok_step:
  assumes ok: "runtime_ok r" and can: "can_run a r" and idle: "\<not> in_transaction (spool (service (run_runtime a r)))"
    and a: "case a of BeginStop _ \<Rightarrow> False | _ \<Rightarrow> True"
  shows "runtime_ok (run_runtime a r) \<and> advances r (run_runtime a r)"
proof -
  have reached: "service_reached r" using ok by (simp add: runtime_ok_def)
  note f = holds_follows [OF reached can idle]
  note t = ok [unfolded runtime_ok_def]
  have same: ?thesis if "stage (run_runtime a r) = stage r"
    using stage_same [OF ok that f] .
  show ?thesis
  proof (cases a)
    case BeginStart
    obtain r' where "begin_start r = (Inr (), r')" "configuration r' = configuration r"
      "stop_phase r' = stop_phase r" "start_phase r' = AwaitStart \<or>
        (\<exists>e. startish e \<and> retired (service r') \<and> start_phase r' \<in> {AwaitCleanup e, StartRaised e})"
      using begin_start_effect [OF reached] t by blast
    then show ?thesis
      using starting_ok [OF ok, of "run_runtime a r"] f(1) can t BeginStart by auto
  next
    case (FinishStart ready)
    then have en: "enabled (StartFinish ready) (service r)" using can by (simp del: enabled.simps)
    obtain r' where r': "snd (finish_start ready r) = r'" "configuration r' = configuration r" "stop_phase r' = stop_phase r"
      "if start_phase r = AwaitStart then start_phase r' = Started \<or>
         (\<exists>e. startish e \<and> retired (service r') \<and> start_phase r' \<in> {AwaitCleanup e, StartRaised e})
       else start_phase r' = start_phase r \<and> listener r' = listener r"
      using finish_start_effect [OF reached _ en] t by blast
    show ?thesis
    proof (cases "start_phase r = AwaitStart")
      case True
      then show ?thesis using starting_ok [OF ok, of "run_runtime a r"] f(1) t r' FinishStart by auto
    next
      case False
      then show ?thesis using same r' FinishStart by (simp add: stage_def)
    qed
  next
    case CancelStart
    obtain r' where "raise_after_stop (mk_exn CancelledError []) r = (Inr (), r')" "configuration r' = configuration r"
      "stop_phase r' = stop_phase r" "retired (service r')"
      "start_phase r' \<in> {AwaitCleanup (mk_exn CancelledError []), StartRaised (mk_exn CancelledError [])}"
      using raise_after_stop_effect [OF reached] t by blast
    moreover have "startish (mk_exn CancelledError [])" by (simp add: startish_def)
    ultimately show ?thesis
      using starting_ok [OF ok, of "run_runtime a r"] f(1) can t CancelStart by (auto simp: cancel_start_def)
  next
    case CleanupJoined
    then obtain e where e: "start_phase r = AwaitCleanup e" using can by (auto split: start_phase.splits)
    then have "configuration (snd (cleanup_joined e r)) = configuration r \<and>
        stop_phase (snd (cleanup_joined e r)) = stop_phase r \<and> start_phase (snd (cleanup_joined e r)) = StartRaised e \<and>
        service (snd (cleanup_joined e r)) = service r"
      by (simp add: cleanup_joined_def bindP_def whenP_def call_ha_def)
    then show ?thesis
      using starting_ok [OF ok, of "run_runtime a r"] f(1) t e CleanupJoined by auto
  next
    case (StateChanged st)
    have "stage (snd (state_changed st r)) = stage r" using keeps_snd [OF stage_kept(1)] .
    then show ?thesis using same StateChanged by (auto simp: stage_def split: prod.splits sum.splits)
  next
    case MonitorTick
    have "stage (snd (sync_auth_issue r)) = stage r" using keeps_snd [OF stage_kept(2)] .
    then show ?thesis using same MonitorTick by simp
  next
    case (MonitorEnded ok')
    then have "stop_phase r = AwaitMonitor" using can by simp
    then show ?thesis using stopping_ok [OF ok, of ok'] f(1) t MonitorEnded by (simp add: advances_def)
  next
    case StopJoined
    then obtain b where b: "stop_phase r = AwaitStop b" using can by (auto split: stop_phase.splits)
    then have "snd (stop_joined b r) = r\<lparr>ha_calls := ha_calls (snd (stop_joined b r)),
        stop_phase := StopReturned (b \<and> \<not> thread_alive (service r))\<rparr>"
      by (cases "entry_id r") (simp_all add: stop_joined_def bindP_def stop_returns_def forget_issue_def call_ha_def stop_join_def)
    then obtain calls where "run_runtime a r = r\<lparr>ha_calls := calls, stop_phase := StopReturned (b \<and> \<not> thread_alive (service r))\<rparr>"
      using b StopJoined by simp
    then show ?thesis using b ok retired_not_alive f(1) by (simp add: runtime_ok_def advances_def)
  next
    case (WorkerOpens n1 n2)
    then have "stage (run_runtime a r) = stage r"
      by (simp add: stage_kept(3) split: option.split)
    then show ?thesis by (rule same)
  qed (use a same stage_kept(3) in auto)
qed

subsection \<open>The entry\<close>

definition setup_ok :: "'v entry_setup \<Rightarrow> bool" where
  "setup_ok s \<longleftrightarrow> runtime_ok (es_runtime s) \<and>
     (let r = es_runtime s in
      case es_phase s of
        SetupNew \<Rightarrow> stop_phase r = NotStopping
      | SetupStarts \<Rightarrow> stop_phase r = NotStopping \<and> \<not> es_runtime_data s
      | SetupForwards \<Rightarrow> stop_phase r = NotStopping \<and> start_phase r = Started
      | SetupOk \<Rightarrow> stop_phase r = NotStopping \<and> start_phase r = Started
      | SetupUndoes e \<Rightarrow> start_phase r = Started
      | SetupRaised e \<Rightarrow>
          (start_phase r = Started \<and> (\<exists>b. stop_phase r = StopReturned b)) \<or>
          (\<not> es_runtime_data s \<and> (\<exists>e0. start_phase r = StartRaised e0 \<and> e = start_failed e0))
      | UnloadStops \<Rightarrow> start_phase r = Started
      | UnloadForwards \<Rightarrow> stop_phase r = StopReturned True
      | UnloadReturned b \<Rightarrow> stop_phase r = StopReturned b
      | UnloadRaised e \<Rightarrow> stop_phase r = StopReturned True) \<and>
     (es_phase s = SetupNew \<longrightarrow> \<not> es_runtime_data s)"

lemma setup_ok_runtime_step:
  assumes "setup_ok s" and "runtime_ok r'" and "advances (es_runtime s) r'"
  shows "setup_ok (s\<lparr>es_runtime := r'\<rparr>)"
  using assms by (cases "es_phase s") (auto simp: setup_ok_def Let_def advances_def)

lemma begin_stop_ok:
  assumes ok: "runtime_ok r" and "start_phase r = Started" "stop_phase r = NotStopping"
    and idle: "\<not> in_transaction (spool (service (run_runtime (BeginStop unsub_ok) r)))"
  shows "runtime_ok (run_runtime (BeginStop unsub_ok) r) \<and> start_phase (run_runtime (BeginStop unsub_ok) r) = Started"
proof -
  have can: "can_run (BeginStop unsub_ok) r" using assms(3) by simp
  have reached: "service_reached r" using ok by (simp add: runtime_ok_def)
  note f = holds_follows [OF reached can idle]
  show ?thesis
  proof (cases "monitor_task r")
    case True
    then have "run_runtime (BeginStop unsub_ok) r = r\<lparr>monitor_task := False, stop_phase := AwaitMonitor\<rparr>"
      by (simp add: begin_stop_def bindP_def)
    then show ?thesis using ok assms(2) f(1) by (simp add: runtime_ok_def)
  next
    case False
    then have "run_runtime (BeginStop unsub_ok) r = snd (unsubscribe_and_stop unsub_ok r)"
      by (simp add: begin_stop_def bindP_def)
    then show ?thesis using stopping_ok [OF ok assms(2)] f(1) by simp
  qed
qed

lemma setup_ok_step:
  assumes ok: "setup_ok s" and can: "can_setup a s"
    and idle: "\<not> in_transaction (spool (service (es_runtime (run_setup a s))))"
  shows "setup_ok (run_setup a s)"
proof (cases a)
  case SetupBegins
  have r: "runtime_ok (es_runtime s)" "stop_phase (es_runtime s) = NotStopping" "\<not> es_runtime_data s"
    using ok can SetupBegins by (auto simp: setup_ok_def Let_def)
  have "runtime_ok (run_runtime BeginStart (es_runtime s)) \<and> advances (es_runtime s) (run_runtime BeginStart (es_runtime s))"
    by (rule runtime_ok_step) (use r can idle SetupBegins in \<open>simp_all add: begin_setup_def\<close>)
  then show ?thesis using r SetupBegins by (simp add: setup_ok_def Let_def begin_setup_def advances_def)
next
  case SetupResumes
  then show ?thesis using ok can
    by (cases "start_phase (es_runtime s)") (simp_all add: setup_ok_def Let_def resume_setup_def)
next
  case (Forwarded failed unsub_ok)
  show ?thesis
  proof (cases failed)
    case None
    then show ?thesis using ok can Forwarded by (simp add: setup_ok_def Let_def forwarded_def)
  next
    case (Some e)
    have "runtime_ok (run_runtime (BeginStop unsub_ok) (es_runtime s)) \<and>
        start_phase (run_runtime (BeginStop unsub_ok) (es_runtime s)) = Started"
      by (rule begin_stop_ok) (use ok can idle Forwarded Some in \<open>simp_all add: setup_ok_def Let_def forwarded_def\<close>)
    then show ?thesis using Some Forwarded by (simp add: setup_ok_def Let_def forwarded_def del: run_runtime.simps)
  qed
next
  case UndoResumes
  then obtain e where "es_phase s = SetupUndoes e" using can by auto
  then show ?thesis using ok UndoResumes
    by (cases "stop_phase (es_runtime s)") (simp_all add: setup_ok_def Let_def resume_undo_def runtime_ok_def)
next
  case (UnloadBegins unsub_ok)
  have "runtime_ok (run_runtime (BeginStop unsub_ok) (es_runtime s)) \<and>
      start_phase (run_runtime (BeginStop unsub_ok) (es_runtime s)) = Started"
    by (rule begin_stop_ok) (use ok can idle UnloadBegins in \<open>simp_all add: setup_ok_def Let_def begin_unload_def\<close>)
  then show ?thesis using UnloadBegins by (simp add: setup_ok_def Let_def begin_unload_def del: run_runtime.simps)
next
  case UnloadResumes
  then show ?thesis using ok can
    by (cases "stop_phase (es_runtime s)") (simp_all add: setup_ok_def Let_def resume_unload_def runtime_ok_def split: bool.split)
next
  case (PlatformsUnloaded failed)
  then show ?thesis using ok can by (cases failed) (simp_all add: setup_ok_def Let_def platforms_unloaded_def)
next
  case (InRuntime act)
  have "runtime_ok (run_runtime act (es_runtime s)) \<and> advances (es_runtime s) (run_runtime act (es_runtime s))"
    by (rule runtime_ok_step) (use ok can idle InRuntime in \<open>auto simp: setup_ok_def Let_def split: runtime_action.splits\<close>)
  then show ?thesis using setup_ok_runtime_step [OF ok] InRuntime by simp
qed

lemma setup_always_ok: "setup_reached s \<Longrightarrow> setup_ok s"
proof (induction rule: setup_reached.induct)
  case (runtime_built convert path d options eid db tr sm environment e r)
  obtain c w where c: "runtime_configuration_of convert path d options = Inr c" "make_service c db tr sm environment = Inr w"
      "r = make_runtime c w (Some eid) True e"
    using runtime_built.hyps(1) by (auto simp: build_runtime_def bindR_eq_Inr)
  note s = runtime_configuration_settings [OF c(1)]
  have "runtime_reached r" unfolding c(3)
    by (rule new_runtime) (use s c(2) runtime_built.hyps in auto)
  then have "service_reached r" by (rule service_always_reached)
  then show ?case using s by (simp add: setup_ok_def Let_def new_setup_def runtime_ok_def c(3) make_runtime_def)
next
  case (setup_ran s a)
  then show ?case using setup_ok_step by blast
qed

text \<open>
  C11: No writer outlives its entry. When the setup of an entry has failed, for whatever reason and at
  whatever point, its writer takes no more events and is told to stop if it still runs; when the
  unloading of an entry succeeded, the writer's thread is gone and the listener removed, so the next
  setup is alone on the spool file; when it was refused, the writer takes no more events.
\<close>

theorem no_writer_outlives_its_entry:
  assumes "setup_reached s"
  shows "let w = service (es_runtime s) in
    (\<forall>e. es_phase s = SetupRaised e \<longrightarrow> \<not> accepting w \<and> (thread_alive w \<longrightarrow> stop_requested w)) \<and>
    (es_phase s = UnloadReturned True \<longrightarrow> \<not> accepting w \<and> \<not> thread_alive w \<and> listener (es_runtime s) = None) \<and>
    (es_phase s = UnloadReturned False \<longrightarrow> \<not> accepting w \<and> (thread_alive w \<longrightarrow> stop_requested w))"
proof -
  let ?w = "service (es_runtime s)"
  have ok: "setup_ok s" using setup_always_ok [OF assms] .
  then have "worker_reached ?w (ghost_history (es_runtime s))"
    by (auto simp: setup_ok_def runtime_ok_def service_reached_def)
  then have r: "retired ?w \<Longrightarrow> \<not> accepting ?w \<and> (thread_alive ?w \<longrightarrow> stop_requested ?w)"
    using retired_accepts_nothing ended_not_alive by (auto simp: retired_def)
  have "retired ?w" if "es_phase s = SetupRaised e" for e
    using ok that by (auto simp: setup_ok_def Let_def runtime_ok_def)
  moreover have "retired ?w \<and> (b \<longrightarrow> ended ?w \<and> listener (es_runtime s) = None)" if "es_phase s = UnloadReturned b" for b
    using ok that by (auto simp: setup_ok_def Let_def runtime_ok_def)
  ultimately show ?thesis using r ended_not_alive unfolding Let_def by blast
qed


text \<open>A setup whose writer is not ready in time.\<close>

lemma sample_setup:
  obtains s :: "unit entry_setup" and e where "setup_reached s" "es_phase s = SetupRaised e"
    "start_phase (es_runtime s) \<noteq> Started" "exn_class e = ConfigEntryNotReady"
proof -
  fix environment :: worker_env and renv :: "unit runtime_env" and sm :: schema_manager and tr0 :: transport
  define tr where "tr = tr0\<lparr>requests := []\<rparr>"
  obtain c where c: "runtime_configuration_of (\<lambda>_ _. True) [] sample_input [] = Inr c"
    using configuration_fit [OF no_options_fit, of sample_input] by (auto simp: sample_input_def lit_def)
  note f = runtime_configuration_settings [OF c]
  have "rc_table c = [116]" using f by (simp add: sample_input_def lit_def)
  then obtain w where w: "make_service c new_file tr sm environment = Inr w"
    using f by (auto simp: make_service_def make_worker_def make_guard_def settings_post_init_def bindR_eq_Inr value_error_def
        split: if_splits)
  note m = make_worker_fields [OF w [unfolded make_service_def]]
  let ?r = "make_runtime c w (Some []) True renv"
  have "build_runtime (\<lambda>_ _. True) [] sample_input [] [] new_file tr sm environment renv = Inr ?r"
    by (simp add: build_runtime_def c w)
  moreover have "fresh_file new_file" using new_file_quiet by (simp add: fresh_file_def new_file_def no_faults_def)
  moreover have "requests tr = []" by (simp add: tr_def)
  ultimately have s0: "setup_reached (new_setup ?r)" by (rule runtime_built)
  have w0: "w_state w = NEW" "main_task w = MainNotStarted" "spool w = new_file" using m by simp_all
  have idle: "\<not> in_transaction new_file" using new_file_quiet by simp
  let ?e = "mk_exn WorkerStartTimeoutError (lit ''worker initialization timed out'')"
  define s1 where "s1 = run_setup SetupBegins (new_setup ?r)"
  have r1: "start_phase (es_runtime s1) = AwaitStart" "start_job (es_runtime s1)" "configuration (es_runtime s1) = c"
      "service (es_runtime s1) = w\<lparr>w_state := STARTING, main_task := MainOpening\<rparr>" "es_phase s1 = SetupStarts"
    using f w0 by (simp_all add: s1_def new_setup_def begin_setup_def begin_start_def bindP_def catchP_def
        call_service_def start_thread_def positive_seconds_def make_runtime_def)
  have s1: "setup_reached s1" unfolding s1_def
    by (rule setup_ran [OF s0], simp add: new_setup_def make_runtime_def,
        unfold s1_def [symmetric], simp add: r1 w0 idle)
  define s2 where "s2 = run_setup (InRuntime (FinishStart False)) s1"
  have r2: "start_phase (es_runtime s2) = AwaitCleanup ?e" "spool (service (es_runtime s2)) = new_file" "es_phase s2 = SetupStarts"
    using f w0 r1 by (simp_all add: s2_def finish_start_def bindP_def catchP_def call_service_def start_finish_def
        whenP_def raise_after_stop_def stop_request_def positive_seconds_def signal_loop_def in_loop_def thread_alive_def)
  have s2: "setup_reached s2" unfolding s2_def
    by (rule setup_ran [OF s1], simp add: r1, unfold s2_def [symmetric], simp add: r2 idle)
  define s3 where "s3 = run_setup (InRuntime CleanupJoined) s2"
  have r3: "start_phase (es_runtime s3) = StartRaised ?e" "service (es_runtime s3) = service (es_runtime s2)" "es_phase s3 = SetupStarts"
    using r2 by (simp_all add: s3_def cleanup_joined_def bindP_def whenP_def call_ha_def)
  have s3: "setup_reached s3" unfolding s3_def
    by (rule setup_ran [OF s2], simp add: r2, unfold s3_def [symmetric], simp add: r2 r3 idle)
  define s4 where "s4 = run_setup SetupResumes s3"
  have r4: "es_phase s4 = SetupRaised (start_failed ?e)" "es_runtime s4 = es_runtime s3"
    using r3 by (simp_all add: s4_def resume_setup_def)
  have s4: "setup_reached s4" unfolding s4_def
    by (rule setup_ran [OF s3], simp add: r3, unfold s4_def [symmetric], simp add: r2 r3 r4 idle)
  show ?thesis by (rule that [OF s4 r4(1)]) (simp_all add: r4 r3 start_failed_def)
qed

theorem no_writer_outlives_its_entry_witness:
  "\<exists>(s :: unit entry_setup) e. setup_reached s \<and> es_phase s = SetupRaised e \<and> \<not> accepting (service (es_runtime s))"
proof (rule sample_setup)
  fix s :: "unit entry_setup" and e
  assume s: "setup_reached s" "es_phase s = SetupRaised e"
  then show ?thesis using no_writer_outlives_its_entry [OF s(1)] unfolding Let_def by blast
qed


end
