(* ===== verification/Sensors.thy ===== *)
theory Sensors
  imports Runtime
begin

section \<open>The sensors (sensor.py, entity.py)\<close>

text \<open>
  The five sensors that read the runtime's snapshot, and the one that asks QuestDB for the size of the
  table. \<open>now_ns\<close> is the reading of \<open>time.time_ns\<close>; Python's rounding of a float to one decimal is a
  field of the table-size sensor, since floats are rational numbers here.
\<close>

subsection \<open>Health sensors\<close>

datatype sensor_value = NoValue | TextValue ustr | NumberValue rat

record health_sensor_spec =
  spec_key :: string
  spec_name :: string
  spec_icon :: string
  spec_device_class :: "string option"
  spec_state_class :: "string option"
  spec_native_unit :: "string option"
  spec_options :: "ustr list option"
  extractor :: "int \<Rightarrow> adapter_snapshot \<Rightarrow> sensor_value"

fun state_value :: "worker_state \<Rightarrow> ustr" where
  "state_value NEW = lit ''new''"
| "state_value STARTING = lit ''starting''"
| "state_value RUNNING = lit ''running''"
| "state_value RETRY_WAIT = lit ''retry_wait''"
| "state_value BLOCKED = lit ''blocked''"
| "state_value STOPPING = lit ''stopping''"
| "state_value STOPPED = lit ''stopped''"
| "state_value FAILED = lit ''failed''"

definition WORKER_STATE_OPTIONS :: "ustr list" where
  "WORKER_STATE_OPTIONS = map state_value [NEW, STARTING, RUNNING, RETRY_WAIT, BLOCKED, STOPPING, STOPPED, FAILED]"

definition last_success_age :: "int \<Rightarrow> adapter_snapshot \<Rightarrow> sensor_value" where
  "last_success_age now_ns sn =
     (case sn_last_success_ns (rs_worker sn) of
        None \<Rightarrow> NoValue
      | Some t \<Rightarrow> NumberValue (max 0 (of_int (now_ns - t) / 1000000000)))"

definition sensor_specs :: "health_sensor_spec list" where
  "sensor_specs =
     [\<lparr>spec_key = ''state'', spec_name = ''State'', spec_icon = ''mdi:database-check-outline'',
        spec_device_class = Some ''enum'', spec_state_class = None, spec_native_unit = None,
        spec_options = Some WORKER_STATE_OPTIONS,
        extractor = (\<lambda>_ sn. TextValue (state_value (sn_state (rs_worker sn))))\<rparr>,
      \<lparr>spec_key = ''last_success_age'', spec_name = ''Seconds since last delivery'',
        spec_icon = ''mdi:clock-alert-outline'', spec_device_class = Some ''duration'', spec_state_class = None,
        spec_native_unit = Some ''s'', spec_options = None, extractor = last_success_age\<rparr>,
      \<lparr>spec_key = ''pending_rows'', spec_name = ''Pending rows'', spec_icon = ''mdi:tray-arrow-down'',
        spec_device_class = None, spec_state_class = Some ''measurement'', spec_native_unit = None,
        spec_options = None, extractor = (\<lambda>_ sn. NumberValue (of_int (pending_rows (sn_stats (rs_worker sn)))))\<rparr>,
      \<lparr>spec_key = ''delivered_events'', spec_name = ''Events delivered'',
        spec_icon = ''mdi:database-arrow-up-outline'', spec_device_class = None,
        spec_state_class = Some ''total_increasing'', spec_native_unit = None, spec_options = None,
        extractor = (\<lambda>_ sn. NumberValue (of_int (sn_delivered_events (rs_worker sn))))\<rparr>,
      \<lparr>spec_key = ''last_error'', spec_name = ''Last delivery error'', spec_icon = ''mdi:alert-outline'',
        spec_device_class = None, spec_state_class = None, spec_native_unit = None, spec_options = None,
        extractor = (\<lambda>_ sn. TextValue (case or_none (sn_last_error (rs_worker sn)) of
          Some e \<Rightarrow> e | None \<Rightarrow> lit ''none''))\<rparr>]"

text \<open>The base class gives an entity its unique id; a sensor keeps the value of its last update.\<close>

record health_sensor =
  hs_unique_id :: ustr
  hs_spec :: health_sensor_spec
  hs_native_value :: sensor_value

definition entity_unique_id :: "ustr \<Rightarrow> string \<Rightarrow> ustr" where
  "entity_unique_id eid key = eid @ lit ''-'' @ lit key"

definition make_health_sensor :: "ustr \<Rightarrow> health_sensor_spec \<Rightarrow> health_sensor" where
  "make_health_sensor eid spec =
     \<lparr>hs_unique_id = entity_unique_id eid (spec_key spec), hs_spec = spec, hs_native_value = NoValue\<rparr>"

definition health_update :: "int \<Rightarrow> 'v runtime \<Rightarrow> health_sensor \<Rightarrow> health_sensor" where
  "health_update now_ns r s = s\<lparr>hs_native_value := extractor (hs_spec s) now_ns (runtime_snapshot r)\<rparr>"

subsection \<open>The size of the table\<close>

text \<open>\<open>v[0]\<close> and \<open>int(v)\<close> on what \<open>json.loads\<close> returns.\<close>

fun json_first :: "json \<Rightarrow> json res" where
  "json_first (JList (v # vs)) = Inr v"
| "json_first (JStr (c # cs)) = Inr (JStr [c])"
| "json_first (JList []) = Inl (mk_exn IndexError (lit ''list index out of range''))"
| "json_first (JStr []) = Inl (mk_exn IndexError (lit ''string index out of range''))"
| "json_first (JObj kvs) = Inl (mk_exn KeyError (lit ''0''))"
| "json_first _ = Inl (mk_exn TypeError (lit ''object is not subscriptable''))"

definition json_to_int :: "json \<Rightarrow> int res" where
  "json_to_int v =
     (case json_int v of
        Some r \<Rightarrow> r
      | None \<Rightarrow> (case v of
            JStr s \<Rightarrow> py_int (VStr s)
          | _ \<Rightarrow> Inl (mk_exn TypeError (lit ''int() argument must be a string or a real number''))))"

definition or_empty_list :: "json \<Rightarrow> json" where
  "or_empty_list v = (if truthy v then v else JList [])"

definition table_size_of_document :: "(ustr \<times> json) list \<Rightarrow> int option res" where
  "table_size_of_document doc =
     (let rows = or_empty_list (doc_get doc ''dataset'') in
      if truthy rows then
        bindR (json_first rows) (\<lambda>row.
        bindR (json_first row) (\<lambda>cell.
          if cell = JNull then Inr None else bindR (json_to_int cell) (\<lambda>n. Inr (Some n))))
      else Inr None)"

definition TABLE_SIZE_QUERY_RETRIES :: int where "TABLE_SIZE_QUERY_RETRIES = 1"

definition size_query :: "ustr \<Rightarrow> ustr" where
  "size_query tbl = lit ''SELECT sum(diskSize) FROM table_partitions('' @ 39 # tbl @ 39 # lit '')''"

datatype size_log = SizeFailed exn | SizeAgain

record table_size_sensor =
  ts_unique_id :: ustr
  ts_entry_data :: entry_data
  ts_entry_options :: pydict
  ts_table :: ustr
  ts_transport :: "transport option"
  ts_timer :: bool
  ts_native_value :: "rat option"
  ts_available :: bool
  ts_log :: "size_log list"
  ts_states_written :: nat
  ts_round :: "int \<Rightarrow> rat"

type_synonym 'a size_prog = "(table_size_sensor, 'a) prog"

definition make_table_size_sensor :: "ustr \<Rightarrow> entry_data \<Rightarrow> pydict \<Rightarrow> (int \<Rightarrow> rat) \<Rightarrow> table_size_sensor" where
  "make_table_size_sensor eid d options rounding =
     \<lparr>ts_unique_id = entity_unique_id eid ''table_size'', ts_entry_data = d, ts_entry_options = options,
      ts_table = d_table d, ts_transport = None, ts_timer = False, ts_native_value = None, ts_available = True,
      ts_log = [], ts_states_written = 0, ts_round = rounding\<rparr>"

text \<open>\<open>network\<close> answers a transport that is made by this update.\<close>

definition size_transport :: "(nat \<Rightarrow> exchange) \<Rightarrow> transport size_prog" where
  "size_transport network s =
     (case ts_transport s of
        Some t \<Rightarrow> (Inr t, s)
      | None \<Rightarrow>
          (case build_transport (connection_configuration (ts_entry_data s) (ts_entry_options s)) network of
             Inl e \<Rightarrow> (Inl e, s)
           | Inr t \<Rightarrow> (Inr t, s\<lparr>ts_transport := Some t\<rparr>)))"

definition ask_size :: "transport \<Rightarrow> (ustr \<times> json) list size_prog" where
  "ask_size t s =
     (case exec_query (size_query (ts_table s)) TABLE_SIZE_QUERY_RETRIES t of
        (r, t') \<Rightarrow> (r, s\<lparr>ts_transport := Some t'\<rparr>))"

definition size_known :: "int option \<Rightarrow> unit size_prog" where
  "size_known size_bytes =
     modifyP (\<lambda>s. s\<lparr>ts_native_value := map_option (ts_round s) size_bytes,
       ts_log := (if ts_available s then ts_log s else ts_log s @ [SizeAgain]), ts_available := True\<rparr>)"

definition size_unknown :: "exn \<Rightarrow> unit size_prog" where
  "size_unknown e =
     modifyP (\<lambda>s. s\<lparr>ts_log := (if ts_available s then ts_log s @ [SizeFailed e] else ts_log s), ts_available := False\<rparr>)"

definition size_update :: "(nat \<Rightarrow> exchange) \<Rightarrow> unit size_prog" where
  "size_update network =
     bindP (size_transport network) (\<lambda>t.
     catchP
       (bindP (ask_size t) (\<lambda>doc.
        bindP (\<lambda>s. (table_size_of_document doc, s)) size_known))
       (\<lambda>e. if isinstance e IlpTransportError then size_unknown e else raiseP e))"

text \<open>The hooks of Home Assistant and the timer.\<close>

definition added_to_hass :: "(nat \<Rightarrow> exchange) \<Rightarrow> unit size_prog" where
  "added_to_hass network = bindP (size_update network) (\<lambda>_. modifyP (\<lambda>s. s\<lparr>ts_timer := True\<rparr>))"

definition will_remove_from_hass :: "unit size_prog" where
  "will_remove_from_hass = modifyP (\<lambda>s. s\<lparr>ts_timer := False\<rparr>)"

definition size_refresh :: "(nat \<Rightarrow> exchange) \<Rightarrow> unit size_prog" where
  "size_refresh network =
     bindP (size_update network) (\<lambda>_. modifyP (\<lambda>s. s\<lparr>ts_states_written := Suc (ts_states_written s)\<rparr>))"

subsection \<open>The platform\<close>

definition sensor_setup ::
    "ustr \<Rightarrow> entry_data \<Rightarrow> pydict \<Rightarrow> (int \<Rightarrow> rat) \<Rightarrow> health_sensor list \<times> table_size_sensor" where
  "sensor_setup eid d options rounding =
     (map (make_health_sensor eid) sensor_specs, make_table_size_sensor eid d options rounding)"

end
