(* ===== verification/SensorClaims.thy ===== *)
theory SensorClaims
  imports Sensors
begin

section \<open>What the table-size sensor reports and asks\<close>

text \<open>
  The life of the sensor as Home Assistant drives it: the entity is added, the timer ticks while it is
  set, the entity is removed. Each hook that asks carries the network a new transport would see.
\<close>

datatype size_hook = HookAdded "nat \<Rightarrow> exchange" | HookTimer "nat \<Rightarrow> exchange" | HookRemoved

fun run_hook :: "size_hook \<Rightarrow> table_size_sensor \<Rightarrow> table_size_sensor" where
  "run_hook (HookAdded network) s = snd (added_to_hass network s)"
| "run_hook (HookTimer network) s = (if ts_timer s then snd (size_refresh network s) else s)"
| "run_hook HookRemoved s = snd (will_remove_from_hass s)"

fun log_turn :: "size_log \<Rightarrow> bool" where
  "log_turn (SizeFailed e) = True"
| "log_turn SizeAgain = False"

definition alternating :: "size_log list \<Rightarrow> bool" where
  "alternating msgs \<longleftrightarrow> (\<forall>i < length msgs. log_turn (msgs ! i) = even i)"

definition asked :: "table_size_sensor \<Rightarrow> http_request list" where
  "asked s = (case ts_transport s of None \<Rightarrow> [] | Some t \<Rightarrow> requests t)"

definition size_sensor_ok :: "table_size_sensor \<Rightarrow> bool" where
  "size_sensor_ok s \<longleftrightarrow> alternating (ts_log s) \<and> ts_available s = even (length (ts_log s)) \<and>
     (\<forall>t. ts_transport s = Some t \<longrightarrow> transport_ok t) \<and> (\<forall>q \<in> set (asked s). \<not> rq_post q)"

lemma alternating_snoc: "alternating (msgs @ [m]) \<longleftrightarrow> alternating msgs \<and> log_turn m = even (length msgs)"
  by (auto simp: alternating_def nth_append less_Suc_eq)

text \<open>One query: it keeps the sensor's other fields and adds at most two requests, both of them GETs.\<close>

lemma exec_query_adds:
  assumes "transport_ok t" and "exec_query query retries t = (r, t')" and "0 \<le> retries"
  shows "\<exists>new. requests t' = requests t @ new \<and> length new \<le> Suc (nat retries) \<and>
    (\<forall>q \<in> set new. \<not> rq_post q) \<and> transport_ok t' \<and> (query \<noteq> [] \<and> encodable query \<longrightarrow> new \<noteq> [])"
proof (cases "query = [] \<or> (\<exists>e. url_quote query = Inl e)")
  case True
  then show ?thesis using assms
    by (auto simp: exec_query_def url_quote_def utf8_encode_def split: if_splits sum.splits)
next
  case False
  then obtain q where "exec_attempts (nat retries) (EXEC_PATH @ q) t = (r, t')"
    using assms by (auto simp: exec_query_def split: if_splits sum.splits)
  from exec_attempts_trace [OF assms(1) this] show ?thesis by blast
qed


lemma made_transport_ok:
  assumes "build_transport c network = Inr t"
  shows "transport_ok t \<and> requests t = []"
  using assms
  by (auto simp: build_transport_def make_transport_def transport_ok_def Let_def bindR_eq_Inr
      split: if_splits option.splits)

text \<open>What one update may do: leave the log, or add the line of a change of availability.\<close>

definition updated :: "table_size_sensor \<Rightarrow> table_size_sensor \<Rightarrow> bool" where
  "updated s s' \<longleftrightarrow> size_sensor_ok s' \<and> ts_timer s' = ts_timer s \<and> ts_table s' = ts_table s \<and>
     (\<exists>new. asked s' = asked s @ new \<and> length new \<le> 2) \<and>
     (ts_log s' = ts_log s \<or> (\<exists>m. ts_log s' = ts_log s @ [m]))"

lemma size_transport_effect:
  assumes "size_sensor_ok s" and "size_transport network s = (r, s')"
  shows "size_sensor_ok s' \<and> asked s' = asked s \<and> ts_log s' = ts_log s \<and> ts_timer s' = ts_timer s \<and>
    ts_table s' = ts_table s \<and> (\<forall>t. r = Inr t \<longrightarrow> ts_transport s' = Some t)"
  using assms made_transport_ok
  by (auto simp: size_transport_def size_sensor_ok_def asked_def split: option.splits sum.splits)

lemma ask_size_effect:
  assumes "size_sensor_ok s" and "ts_transport s = Some t" and "ask_size t s = (r, s')"
  shows "size_sensor_ok s' \<and> (\<exists>new. asked s' = asked s @ new \<and> length new \<le> 2) \<and> ts_log s' = ts_log s \<and>
    ts_timer s' = ts_timer s \<and> ts_table s' = ts_table s"
proof -
  obtain r1 t' where q: "exec_query (size_query (ts_table s)) TABLE_SIZE_QUERY_RETRIES t = (r1, t')"
    by (cases "exec_query (size_query (ts_table s)) TABLE_SIZE_QUERY_RETRIES t")
  have ok: "transport_ok t" using assms(1,2) by (simp add: size_sensor_ok_def)
  from exec_query_adds [OF ok q] obtain new where "requests t' = requests t @ new" "length new \<le> 2"
      "\<forall>q \<in> set new. \<not> rq_post q" "transport_ok t'"
    by (auto simp: TABLE_SIZE_QUERY_RETRIES_def)
  then show ?thesis
    using assms q by (auto simp: ask_size_def size_sensor_ok_def asked_def)
qed

lemma size_known_effect: "size_sensor_ok s \<Longrightarrow> updated s (snd (size_known n s))"
  by (auto simp: size_known_def updated_def size_sensor_ok_def asked_def modifyP_def alternating_snoc)

lemma size_unknown_effect: "size_sensor_ok s \<Longrightarrow> updated s (snd (size_unknown e s))"
  by (auto simp: size_unknown_def updated_def size_sensor_ok_def asked_def modifyP_def alternating_snoc)

lemma size_update_effect:
  assumes "size_sensor_ok s"
  shows "updated s (snd (size_update network s))"
proof -
  obtain r1 s1 where m: "size_transport network s = (r1, s1)" by (cases "size_transport network s")
  note e1 = size_transport_effect [OF assms m]
  show ?thesis
  proof (cases r1)
    case (Inl e)
    then show ?thesis using m e1 by (auto simp: size_update_def bindP_def updated_def)
  next
    case (Inr t)
    obtain r2 s2 where a: "ask_size t s1 = (r2, s2)" by (cases "ask_size t s1")
    from e1 Inr have "ts_transport s1 = Some t" by simp
    from ask_size_effect [OF _ this a] e1 have e2: "updated s s2" "size_sensor_ok s2" "ts_log s2 = ts_log s"
        "\<exists>new. asked s2 = asked s @ new \<and> length new \<le> 2" "ts_timer s2 = ts_timer s" "ts_table s2 = ts_table s"
      by (auto simp: updated_def)
    have after: "updated s2 s3 \<Longrightarrow> asked s3 = asked s2 \<Longrightarrow> updated s s3" for s3
      using e2 by (auto simp: updated_def)
    have k: "updated s (snd (size_known n s2))" "updated s (snd (size_unknown e s2))" for n e
      using after size_known_effect [OF e2(2)] size_unknown_effect [OF e2(2)]
      by (auto simp: size_known_def size_unknown_def modifyP_def asked_def)
    show ?thesis
      using m Inr a k e2(1)
      by (auto simp: size_update_def bindP_def catchP_def raiseP_def size_known_def modifyP_def split: sum.splits)
  qed
qed

lemma hook_effect:
  assumes "size_sensor_ok s"
  shows "size_sensor_ok (run_hook h s) \<and>
    (\<exists>new. asked (run_hook h s) = asked s @ new \<and> length new \<le> 2)"
proof -
  have u: "size_sensor_ok (snd (size_update network s)) \<and>
      (\<exists>new. asked (snd (size_update network s)) = asked s @ new \<and> length new \<le> 2)" for network
    using size_update_effect [OF assms] by (simp add: updated_def)
  have same: "size_sensor_ok (s'\<lparr>ts_timer := b\<rparr>) = size_sensor_ok s'" "asked (s'\<lparr>ts_timer := b\<rparr>) = asked s'"
    "size_sensor_ok (s'\<lparr>ts_states_written := k\<rparr>) = size_sensor_ok s'"
    "asked (s'\<lparr>ts_states_written := k\<rparr>) = asked s'" for s' b k
    by (simp_all add: size_sensor_ok_def asked_def)
  have done_with: "size_sensor_ok (snd (added_to_hass network s)) \<and>
      (\<exists>new. asked (snd (added_to_hass network s)) = asked s @ new \<and> length new \<le> 2) \<and>
      size_sensor_ok (snd (size_refresh network s)) \<and>
      (\<exists>new. asked (snd (size_refresh network s)) = asked s @ new \<and> length new \<le> 2)" for network
  proof -
    obtain r s1 where r: "size_update network s = (r, s1)" by (cases "size_update network s")
    show ?thesis using u [of network]
      by (cases r) (simp_all add: r added_to_hass_def size_refresh_def bindP_def modifyP_def same)
  qed
  show ?thesis
    using done_with assms
    by (cases h) (simp_all add: will_remove_from_hass_def modifyP_def same del: split_paired_Ex)
qed

text \<open>
  C39: Over the whole life of the table-size sensor, whatever QuestDB answers and whatever an update
  raises: the log holds one line per change of availability, a failure and a recovery in turn, beginning
  with a failure; the sensor is available exactly when the last line is not a failure; and every hook
  sends at most two requests, none of which writes.
\<close>

theorem table_size_logs_transitions:
  fixes rounding :: "int \<Rightarrow> rat"
  shows "let s = fold run_hook hooks (make_table_size_sensor eid d options rounding) in
    alternating (ts_log s) \<and>
    ts_available s = (ts_log s = [] \<or> last (ts_log s) = SizeAgain) \<and>
    length (asked s) \<le> 2 * length hooks \<and> (\<forall>q \<in> set (asked s). \<not> rq_post q)"
proof -
  let ?s = "\<lambda>hs. fold run_hook hs (make_table_size_sensor eid d options rounding)"
  have all: "size_sensor_ok (?s hs) \<and> length (asked (?s hs)) \<le> 2 * length hs" for hs
  proof (induction hs rule: rev_induct)
    case Nil
    show ?case by (simp add: make_table_size_sensor_def size_sensor_ok_def alternating_def asked_def)
  next
    case (snoc h hs)
    from hook_effect [of "?s hs" h] snoc show ?case by fastforce
  qed
  have last_turn: "alternating msgs \<Longrightarrow> even (length msgs) = (msgs = [] \<or> last msgs = SizeAgain)" for msgs
    by (cases msgs rule: rev_cases) (auto simp: alternating_snoc elim: log_turn.elims)
  show ?thesis
    using all [of hooks] last_turn [of "ts_log (?s hooks)"]
    unfolding Let_def size_sensor_ok_def by metis
qed

lemma size_update_asks:
  assumes "size_sensor_ok s" and "size_transport network s = (Inr t, s1)" and "encodable (ts_table s)"
  shows "asked (snd (size_update network s)) \<noteq> []"
proof -
  note e1 = size_transport_effect [OF assms(1,2)]
  obtain r1 t' where q: "exec_query (size_query (ts_table s1)) TABLE_SIZE_QUERY_RETRIES t = (r1, t')"
    by (cases "exec_query (size_query (ts_table s1)) TABLE_SIZE_QUERY_RETRIES t")
  have t: "transport_ok t" using e1 by (simp add: size_sensor_ok_def)
  have "size_query (ts_table s1) \<noteq> [] \<and> encodable (size_query (ts_table s1))"
    using e1 assms(3) by (auto simp: size_query_def lit_def encodable_def is_surrogate_def)
  with exec_query_adds [OF t q] have "requests t' \<noteq> []" by (auto simp: TABLE_SIZE_QUERY_RETRIES_def)
  moreover have "ts_transport (snd (size_update network s)) = Some t'"
    using assms(2) q
    by (auto simp: size_update_def bindP_def catchP_def raiseP_def ask_size_def size_known_def size_unknown_def
        modifyP_def split: sum.splits)
  ultimately show ?thesis by (simp add: asked_def)
qed

text \<open>A concrete life: a sensor added while QuestDB does not answer asks and becomes unavailable or stays.\<close>

theorem table_size_logs_transitions_witness:
  "\<exists>s. s = run_hook (HookAdded (\<lambda>_. NetworkFailure (lit ''timed out''))) (make_table_size_sensor (lit ''e'')
      \<lparr>d_host = lit ''h'', d_port = 9000, d_table = lit ''t'', d_use_tls = None, d_tls_self_signed = None,
       d_username = None, d_password = None\<rparr> [] (\<lambda>n. of_int n)) \<and>
     asked s \<noteq> [] \<and> length (asked s) \<le> 2 \<and> (\<forall>q \<in> set (asked s). \<not> rq_post q)"
proof -
  let ?d = "\<lparr>d_host = lit ''h'', d_port = 9000, d_table = lit ''t'', d_use_tls = None, d_tls_self_signed = None,
       d_username = None, d_password = None\<rparr>"
  let ?n = "\<lambda>_::nat. NetworkFailure (lit ''timed out'')"
  let ?s = "make_table_size_sensor (lit ''e'') ?d [] (\<lambda>n. of_int n)"
  have ok: "size_sensor_ok ?s"
    by (simp add: make_table_size_sensor_def size_sensor_ok_def alternating_def asked_def)
  obtain t s1 where t: "size_transport ?n ?s = (Inr t, s1)"
    by (simp add: size_transport_def make_table_size_sensor_def connection_configuration_def build_transport_def
        make_transport_def dict_get_def PROVISIONAL_HTTP_TIMEOUT_SECONDS_def tls_context_def or_none_def Let_def lit_def)
  have "encodable (ts_table ?s)"
    by (simp add: make_table_size_sensor_def lit_def encodable_def is_surrogate_def)
  from size_update_asks [OF ok t this] have "asked (run_hook (HookAdded ?n) ?s) \<noteq> []"
    by (auto simp: added_to_hass_def bindP_def modifyP_def asked_def split: prod.splits sum.splits option.splits)
  then show ?thesis
    using table_size_logs_transitions [of "[HookAdded ?n]" "lit ''e''" ?d "[]" "\<lambda>n. of_int n"]
    by (simp add: Let_def)
qed

end
