(* ===== verification/Diagnostics.thy ===== *)
theory Diagnostics
  imports SensorClaims ConfigFlowClaims
begin

section \<open>Diagnostics (diagnostics.py)\<close>

text \<open>
  The snapshot a user downloads, with the probe of the server it holds. \<open>async_redact_data\<close> of Home
  Assistant, Python's \<open>str\<close> on a JSON value that is no string, and the two versions are arguments.
\<close>

record schema_probe =
  sp_table :: ustr
  sp_ttl_days :: "int option"
  sp_questdb_version :: "ustr option"
  sp_unavailable :: bool

definition probe_ttl_query :: "ustr \<Rightarrow> ustr" where
  "probe_ttl_query tbl =
     lit ''SELECT ttlValue, ttlUnit FROM tables() WHERE table_name = '' @ 39 # double_char 39 tbl @ [39]"

definition probe_version_query :: ustr where "probe_version_query = lit ''SELECT build()''"

text \<open>\<open>rows and rows[0]\<close>, then \<open>rows[0][0]\<close>: the first cell of the first row, if there is one.\<close>

definition first_cell :: "json \<Rightarrow> json option res" where
  "first_cell rows =
     (if truthy rows then
        bindR (json_first rows) (\<lambda>row.
          if truthy row then bindR (json_first row) (\<lambda>cell. Inr (Some cell)) else Inr None)
      else Inr None)"

definition json_text :: "(json \<Rightarrow> ustr) \<Rightarrow> json \<Rightarrow> ustr" where
  "json_text str_of v = (case v of JStr s \<Rightarrow> s | _ \<Rightarrow> str_of v)"

definition add_ttl :: "schema_probe \<Rightarrow> (ustr \<times> json) list \<Rightarrow> schema_probe res" where
  "add_ttl p doc =
     bindR (first_cell (or_empty_list (doc_get doc ''dataset''))) (\<lambda>cell.
       case cell of
         None \<Rightarrow> Inr p
       | Some v \<Rightarrow> bindR (json_to_int v) (\<lambda>n. Inr (p\<lparr>sp_ttl_days := Some n\<rparr>)))"

definition add_version :: "(json \<Rightarrow> ustr) \<Rightarrow> schema_probe \<Rightarrow> (ustr \<times> json) list \<Rightarrow> schema_probe res" where
  "add_version str_of p doc =
     bindR (first_cell (or_empty_list (doc_get doc ''dataset''))) (\<lambda>cell.
       case cell of
         None \<Rightarrow> Inr p
       | Some v \<Rightarrow> Inr (p\<lparr>sp_questdb_version := Some (json_text str_of v)\<rparr>))"

definition probe_queries :: "ustr \<Rightarrow> (transport, (ustr \<times> json) list \<times> (ustr \<times> json) list) prog" where
  "probe_queries tbl =
     bindP (exec_query (probe_ttl_query tbl) 0) (\<lambda>ttl_document.
     bindP (exec_query probe_version_query 0) (\<lambda>version_document.
       returnP (ttl_document, version_document)))"

text \<open>The transport is local to the probe; the result keeps it for what was asked.\<close>

definition probe_schema ::
    "(json \<Rightarrow> ustr) \<Rightarrow> entry_data \<Rightarrow> pydict \<Rightarrow> (nat \<Rightarrow> exchange) \<Rightarrow> (schema_probe \<times> transport) res" where
  "probe_schema str_of d options network =
     bindR (build_transport (connection_configuration d options) network) (\<lambda>t.
     let p = \<lparr>sp_table = d_table d, sp_ttl_days = None, sp_questdb_version = None, sp_unavailable = False\<rparr> in
     case probe_queries (d_table d) t of
       (Inr (ttl_document, version_document), t') \<Rightarrow>
         bindR (add_ttl p ttl_document) (\<lambda>p1.
         bindR (add_version str_of p1 version_document) (\<lambda>p2. Inr (p2, t')))
     | (Inl e, t') \<Rightarrow>
         if isinstance e IlpTransportError then Inr (p\<lparr>sp_unavailable := True\<rparr>, t') else Inl e)"

record 'r diagnostics =
  dg_entry_data :: 'r
  dg_options :: pydict
  dg_runtime :: adapter_snapshot
  dg_schema :: schema_probe
  dg_versions :: "ustr \<times> ustr"
  dg_domain :: string

definition entry_diagnostics ::
    "(entry_data \<Rightarrow> string list \<Rightarrow> 'r) \<Rightarrow> (json \<Rightarrow> ustr) \<Rightarrow> ustr \<times> ustr \<Rightarrow> entry_data \<Rightarrow> pydict \<Rightarrow>
     'v runtime \<Rightarrow> (nat \<Rightarrow> exchange) \<Rightarrow> 'r diagnostics res" where
  "entry_diagnostics redact str_of versions d options r network =
     bindR (probe_schema str_of d options network) (\<lambda>(probe, t).
       Inr \<lparr>dg_entry_data = redact d [CONF_PASSWORD], dg_options = options, dg_runtime = runtime_snapshot r,
            dg_schema = probe, dg_versions = versions, dg_domain = DOMAIN\<rparr>)"

subsection \<open>What the probe raises and asks\<close>

lemma py_int_raises: "py_int v = Inl e \<Longrightarrow> \<not> isinstance e IlpTransportError"
  by (cases v) (auto simp: isinstance_def value_error_def split: option.splits)

lemma build_transport_raises: "build_transport c network = Inl e \<Longrightarrow> \<not> isinstance e IlpTransportError"
  by (auto simp: build_transport_def make_transport_def Let_def bindR_eq_Inl utf8_encode_def isinstance_def
      split: if_splits option.splits)

lemma json_to_int_raises: "json_to_int v = Inl e \<Longrightarrow> \<not> isinstance e IlpTransportError"
  by (cases v) (auto simp: json_to_int_def isinstance_def value_error_def split: if_splits option.splits)

lemma first_cell_raises: "first_cell v = Inl e \<Longrightarrow> \<not> isinstance e IlpTransportError"
proof -
  have "json_first v = Inl e \<Longrightarrow> \<not> isinstance e IlpTransportError" for v
    by (cases v rule: json_first.cases) (auto simp: isinstance_def)
  then show "first_cell v = Inl e \<Longrightarrow> \<not> isinstance e IlpTransportError"
    by (auto simp: first_cell_def bindR_eq_Inl split: if_splits)
qed

lemma add_ttl_raises: "add_ttl p doc = Inl e \<Longrightarrow> \<not> isinstance e IlpTransportError"
  by (auto simp: add_ttl_def bindR_eq_Inl dest: first_cell_raises json_to_int_raises split: option.splits)

lemma add_version_raises: "add_version str_of p doc = Inl e \<Longrightarrow> \<not> isinstance e IlpTransportError"
  by (auto simp: add_version_def bindR_eq_Inl dest: first_cell_raises split: option.splits)

lemma probe_queries_asks:
  assumes "transport_ok t" and "requests t = []" and "probe_queries tbl t = (r, t')"
  shows "length (requests t') \<le> 2 \<and> (\<forall>q \<in> set (requests t'). \<not> rq_post q)"
proof -
  obtain r1 t1 where q1: "exec_query (probe_ttl_query tbl) 0 t = (r1, t1)"
    by (cases "exec_query (probe_ttl_query tbl) 0 t")
  obtain new1 where n1: "requests t1 = new1" "length new1 \<le> 1" "\<forall>q \<in> set new1. \<not> rq_post q" "transport_ok t1"
    using exec_query_adds [OF assms(1) q1] assms(2) by auto
  show ?thesis
  proof (cases r1)
    case (Inl e)
    then show ?thesis using assms(3) q1 n1 by (auto simp: probe_queries_def bindP_def)
  next
    case (Inr doc)
    obtain r2 t2 where q2: "exec_query probe_version_query 0 t1 = (r2, t2)"
      by (cases "exec_query probe_version_query 0 t1")
    obtain new2 where n2: "requests t2 = requests t1 @ new2" "length new2 \<le> 1" "\<forall>q \<in> set new2. \<not> rq_post q"
      using exec_query_adds [OF n1(4) q2] by auto
    have "t' = t2"
      using assms(3) q1 q2 Inr by (auto simp: probe_queries_def bindP_def returnP_def split: sum.splits)
    then show ?thesis using n1 n2 by auto
  qed
qed

lemma probe_schema_raises:
  assumes "probe_schema str_of d options network = Inl e"
  shows "\<not> isinstance e IlpTransportError"
proof (cases "build_transport (connection_configuration d options) network")
  case (Inl e1)
  then show ?thesis using assms by (auto simp: probe_schema_def dest: build_transport_raises)
next
  case (Inr t)
  obtain r1 t' where "probe_queries (d_table d) t = (r1, t')" by (cases "probe_queries (d_table d) t")
  then show ?thesis
    using assms Inr
    by (cases r1)
      (auto simp: probe_schema_def Let_def bindR_eq_Inl split: if_splits
        dest: add_ttl_raises add_version_raises)
qed

lemma probe_schema_returns:
  assumes "probe_schema str_of d options network = Inr (p, t)"
  shows "length (requests t) \<le> 2 \<and> (\<forall>q \<in> set (requests t). \<not> rq_post q) \<and> sp_table p = d_table d \<and>
    (sp_unavailable p \<longrightarrow> sp_ttl_days p = None \<and> sp_questdb_version p = None)"
proof -
  obtain t0 where t0: "build_transport (connection_configuration d options) network = Inr t0"
    using assms by (auto simp: probe_schema_def bindR_eq_Inr)
  obtain r1 t' where q: "probe_queries (d_table d) t0 = (r1, t')" by (cases "probe_queries (d_table d) t0")
  have "t' = t" using assms t0 q
    by (cases r1) (auto simp: probe_schema_def Let_def bindR_eq_Inr split: if_splits)
  moreover have "sp_table p = d_table d \<and> (sp_unavailable p \<longrightarrow> sp_ttl_days p = None \<and> sp_questdb_version p = None)"
    using assms t0 q
    by (cases r1)
      (auto simp: probe_schema_def Let_def bindR_eq_Inr add_ttl_def add_version_def split: if_splits option.splits)
  ultimately show ?thesis
    using probe_queries_asks [OF _ _ q] made_transport_ok [OF t0] by auto
qed

text \<open>
  C40: The probe of the diagnostics turns every error of the transport into the field \<open>unavailable\<close> and
  lets none escape; when it returns, it has sent at most two requests, both of them queries, and an
  unavailable server has neither field filled. The name of the table stands in its query as a literal
  that SQL reads back as that very name, so no table name can change the query.
\<close>

theorem probe_contains_transport_errors:
  assumes "probe_schema str_of d options network = r"
  shows "(\<forall>e. r = Inl e \<longrightarrow> \<not> isinstance e IlpTransportError) \<and>
    (\<forall>p t. r = Inr (p, t) \<longrightarrow> sp_table p = d_table d \<and> length (requests t) \<le> 2 \<and>
       (\<forall>q \<in> set (requests t). \<not> rq_post q) \<and>
       (sp_unavailable p \<longrightarrow> sp_ttl_days p = None \<and> sp_questdb_version p = None)) \<and>
    (\<exists>before. probe_ttl_query (d_table d) = before @ 39 # double_char 39 (d_table d) @ [39] \<and>
       39 \<notin> set before \<and> read_quoted 39 (double_char 39 (d_table d) @ [39]) = Some (d_table d, []))"
proof (intro conjI allI impI)
  fix e assume "r = Inl e"
  then show "\<not> isinstance e IlpTransportError"
    using assms by (auto dest: probe_schema_raises)
next
  show "\<exists>before. probe_ttl_query (d_table d) = before @ 39 # double_char 39 (d_table d) @ [39] \<and>
       39 \<notin> set before \<and> read_quoted 39 (double_char 39 (d_table d) @ [39]) = Some (d_table d, [])"
    using read_quoted_double [of "[]"]
    by (intro exI [of _ "lit ''SELECT ttlValue, ttlUnit FROM tables() WHERE table_name = ''"])
      (simp add: probe_ttl_query_def lit_def)
next
  fix p t assume "r = Inr (p, t)"
  with assms have r: "probe_schema str_of d options network = Inr (p, t)" by simp
  note ret = probe_schema_returns [OF r]
  show "length (requests t) \<le> 2" "\<forall>q \<in> set (requests t). \<not> rq_post q"
    "sp_table p = d_table d" "sp_unavailable p \<Longrightarrow> sp_ttl_days p = None"
    "sp_unavailable p \<Longrightarrow> sp_questdb_version p = None"
    using ret by auto
qed

text \<open>
  An answer without a TTL, \<open>{"dataset":[[null]]}\<close>, is read by \<open>int(None)\<close>: the probe raises, although
  its comment says that it never does.
\<close>

definition null_ttl :: bytes where
  "null_ttl = [123, 34, 100, 97, 116, 97, 115, 101, 116, 34, 58, 91, 91, 110, 117, 108, 108, 93, 93, 125]"

definition null_document :: "(ustr \<times> json) list" where
  "null_document = [(lit ''dataset'', JList [JList [JNull]])]"

lemma null_ttl_document: "Option.bind (utf8_decode null_ttl) json_loads = Some (JObj null_document)"
  by code_simp

lemma answered_with:
  assumes "\<And>n. net s n = Response 200 body" and "query \<noteq> []" and "encodable query" and "length body < 100"
    and "Option.bind (utf8_decode body) json_loads = Some (JObj doc)"
  shows "\<exists>s'. exec_query query 0 s = (Inr doc, s') \<and> net s' = net s"
proof -
  obtain q where q: "url_quote query = Inr q"
    using assms(3) by (simp add: url_quote_def utf8_encode_def)
  show ?thesis
    using assms(4)
    by (simp add: exec_query_def exec_attempts.simps exec_once_def q assms(2) catchP_def request_eq assms(1)
        truncate_body_def MAX_ERROR_BODY_BYTES_def assms(5) whenP_def returnP_def bindP_Pair after_request_def)
qed

lemma null_probe:
  assumes "build_transport (connection_configuration d options) (\<lambda>_. Response 200 null_ttl) = Inr t"
    and "encodable (d_table d)"
  shows "probe_schema str_of d options (\<lambda>_. Response 200 null_ttl) =
    Inl (mk_exn TypeError (lit ''int() argument must be a string or a real number''))"
proof -
  have n: "net t = (\<lambda>_. Response 200 null_ttl)"
    using assms(1) by (auto simp: build_transport_def make_transport_def Let_def bindR_eq_Inr split: if_splits option.splits)
  have len: "length null_ttl < 100" by (simp add: null_ttl_def)
  have e: "encodable (probe_ttl_query (d_table d))" "probe_ttl_query (d_table d) \<noteq> []"
    "encodable probe_version_query" "probe_version_query \<noteq> []"
    using assms(2) by (auto simp: probe_ttl_query_def probe_version_query_def lit_def encodable_def is_surrogate_def double_char_def
        split: if_splits)
  from answered_with [OF _ e(2,1) len null_ttl_document, of t] n
  obtain t1 where q1: "exec_query (probe_ttl_query (d_table d)) 0 t = (Inr null_document, t1)" "net t1 = net t" by auto
  from answered_with [OF _ e(4,3) len null_ttl_document, of t1] n q1(2)
  obtain t2 where q2: "exec_query probe_version_query 0 t1 = (Inr null_document, t2)" by auto
  have "add_ttl p null_document = Inl (mk_exn TypeError (lit ''int() argument must be a string or a real number''))" for p
    by (simp add: add_ttl_def null_document_def doc_get_def first_cell_def or_empty_list_def json_to_int_def)
  then show ?thesis
    using assms(1) q1(1) q2 by (simp add: probe_schema_def probe_queries_def bindP_def returnP_def Let_def)
qed

theorem probe_contains_transport_errors_witness:
  "\<exists>d e. probe_schema (\<lambda>_. []) d [] (\<lambda>_. Response 200 null_ttl) = Inl e \<and> exn_class e = TypeError \<and>
     \<not> isinstance e IlpTransportError"
proof -
  let ?d = "\<lparr>d_host = lit ''h'', d_port = 9000, d_table = lit ''t'', d_use_tls = None, d_tls_self_signed = None,
       d_username = None, d_password = None\<rparr>"
  obtain t where "build_transport (connection_configuration ?d []) (\<lambda>_. Response 200 null_ttl) = Inr t"
    by (simp add: connection_configuration_def build_transport_def make_transport_def dict_get_def
        PROVISIONAL_HTTP_TIMEOUT_SECONDS_def tls_context_def or_none_def Let_def lit_def)
  moreover have "encodable (d_table ?d)" by (simp add: lit_def encodable_def is_surrogate_def)
  ultimately have "probe_schema (\<lambda>_. []) ?d [] (\<lambda>_. Response 200 null_ttl) =
      Inl (mk_exn TypeError (lit ''int() argument must be a string or a real number''))"
    by (rule null_probe)
  note null = this
  have "\<not> isinstance (mk_exn TypeError (lit ''int() argument must be a string or a real number'')) IlpTransportError"
    using probe_contains_transport_errors [OF null] by blast
  then show ?thesis by (intro exI conjI) (rule null, simp_all)
qed

end
